(* ===== verification/Prelude.thy ===== *)
theory Prelude
  imports Complex_Main "HOL-Library.Product_Lexorder" "HOL-Library.List_Lexorder"
    "HOL-Library.Char_ord" "HOL-Library.Multiset" "HOL-Library.Sublist"
begin

text \<open>
  The vocabulary every component shares: results of operations that may raise, tables as lists of
  rows with a key, SQL's \<open>ORDER BY ... LIMIT 1\<close> and Python's \<open>min(key=...)\<close> as selections, and
  Python's rounding of a number to an integer.
\<close>

named_theorems result_simps \<open>running and inverting operations that may raise\<close>
named_theorems table_simps \<open>looking up, updating and counting rows of a table\<close>

section \<open>Operations that may raise\<close>

text \<open>
  An operation maps a state to a result and the state it leaves behind. The result is \<open>Inl e\<close> when
  the operation raised \<open>e\<close>; the state is what the session and the process hold at that moment, and
  it is the caller that decides what survives (a request that raised is rolled back).
\<close>

type_synonym ('e, 'a, 's) result = "('e + 'a) \<times> 's"

definition and_then :: "('e, 'a, 's) result \<Rightarrow> ('a \<Rightarrow> 's \<Rightarrow> ('e, 'b, 's) result) \<Rightarrow> ('e, 'b, 's) result" where
  "and_then r f = (case r of (Inl e, s) \<Rightarrow> (Inl e, s) | (Inr x, s) \<Rightarrow> f x s)"

lemma and_then_Inl [simp]: "and_then (Inl e, s) f = (Inl e, s)"
  by (simp add: and_then_def)

lemma and_then_Inr [simp]: "and_then (Inr x, s) f = f x s"
  by (simp add: and_then_def)

lemma and_then_returns [result_simps]:
  "and_then r f = (Inr y, s') \<longleftrightarrow> (\<exists>x s1. r = (Inr x, s1) \<and> f x s1 = (Inr y, s'))"
  by (auto simp: and_then_def split: prod.splits sum.splits)

lemma and_then_raises:
  "and_then r f = (Inl e, s') \<longleftrightarrow>
     r = (Inl e, s') \<or> (\<exists>x s1. r = (Inr x, s1) \<and> f x s1 = (Inl e, s'))"
  by (auto simp: and_then_def split: prod.splits sum.splits)

lemma and_then_cong [fundef_cong]:
  assumes "r = r'" "\<And>x s. r' = (Inr x, s) \<Longrightarrow> f x s = g x s"
  shows "and_then r f = and_then r' g"
  using assms by (auto simp: and_then_def split: prod.splits sum.splits)

text \<open>
  \<open>keeps P r\<close>: if the operation whose outcome is \<open>r\<close> returned, the state it left satisfies \<open>P\<close>.
  What a raising operation leaves is rolled back by the request that called it.
\<close>

definition keeps :: "('s \<Rightarrow> bool) \<Rightarrow> ('e, 'a, 's) result \<Rightarrow> bool" where
  "keeps P r \<longleftrightarrow> (\<forall>x s'. r = (Inr x, s') \<longrightarrow> P s')"

lemma keeps_Inl [simp]: "keeps P (Inl e, s)"
  by (simp add: keeps_def)

lemma keeps_Inr [simp]: "keeps P (Inr x, s) = P s"
  by (simp add: keeps_def)

lemma keeps_and_then:
  assumes "\<And>x s. r = (Inr x, s) \<Longrightarrow> keeps P (f x s)"
  shows "keeps P (and_then r f)"
  using assms by (auto simp: keeps_def result_simps)

lemma keepsD: "keeps P r \<Longrightarrow> r = (Inr x, s') \<Longrightarrow> P s'"
  by (simp add: keeps_def)

lemma keeps_mono: "keeps P r \<Longrightarrow> (\<And>s. P s \<Longrightarrow> Q s) \<Longrightarrow> keeps Q r"
  by (auto simp: keeps_def)

section \<open>Tables\<close>

text \<open>
  A table is the list of its rows in the order they were inserted; \<open>key\<close> is its primary key.
  \<open>row_of\<close> is a lookup by primary key, \<open>update_row\<close> an \<open>UPDATE\<close> of the row with that key.
\<close>

definition row_of :: "('r \<Rightarrow> 'k) \<Rightarrow> 'k \<Rightarrow> 'r list \<Rightarrow> 'r option" where
  "row_of key k rows = find (\<lambda>r. key r = k) rows"

definition update_row :: "('r \<Rightarrow> 'k) \<Rightarrow> 'k \<Rightarrow> ('r \<Rightarrow> 'r) \<Rightarrow> 'r list \<Rightarrow> 'r list" where
  "update_row key k f rows = map (\<lambda>r. if key r = k then f r else r) rows"

definition update_where :: "('r \<Rightarrow> bool) \<Rightarrow> ('r \<Rightarrow> 'r) \<Rightarrow> 'r list \<Rightarrow> 'r list" where
  "update_where p f rows = map (\<lambda>r. if p r then f r else r) rows"

definition row_count :: "('r \<Rightarrow> bool) \<Rightarrow> 'r list \<Rightarrow> int" where
  "row_count p rows = int (length (filter p rows))"

lemma row_of_Nil [simp]: "row_of key k [] = None"
  by (simp add: row_of_def)

lemma row_of_Cons [simp]:
  "row_of key k (r # rows) = (if key r = k then Some r else row_of key k rows)"
  by (simp add: row_of_def)

lemma row_of_SomeD: "row_of key k rows = Some r \<Longrightarrow> r \<in> set rows \<and> key r = k"
  by (induction rows) (auto split: if_splits)

lemma row_of_None_iff: "row_of key k rows = None \<longleftrightarrow> k \<notin> key ` set rows"
  by (induction rows) auto

lemma row_of_Some_iff:
  assumes "distinct (map key rows)"
  shows "row_of key k rows = Some r \<longleftrightarrow> r \<in> set rows \<and> key r = k"
  using assms by (induction rows) auto

lemma row_of_append [table_simps]:
  "row_of key k (rows @ rows') = (case row_of key k rows of None \<Rightarrow> row_of key k rows' | Some r \<Rightarrow> Some r)"
  by (induction rows) auto

lemma length_update_row [simp]: "length (update_row key k f rows) = length rows"
  by (simp add: update_row_def)

lemma set_update_row: "set (update_row key k f rows) = (\<lambda>r. if key r = k then f r else r) ` set rows"
  by (simp add: update_row_def)

lemma map_update_row:
  assumes "\<And>r. r \<in> set rows \<Longrightarrow> key r = k \<Longrightarrow> h (f r) = h r"
  shows "map h (update_row key k f rows) = map h rows"
  using assms by (simp add: update_row_def)

lemma map_update_where:
  assumes "\<And>r. r \<in> set rows \<Longrightarrow> p r \<Longrightarrow> h (f r) = h r"
  shows "map h (update_where p f rows) = map h rows"
  using assms by (simp add: update_where_def)

lemma keys_update_row [simp]:
  assumes "\<And>r. key (f r) = key r"
  shows "key ` set (update_row key k f rows) = key ` set rows"
proof -
  have "map key (update_row key k f rows) = map key rows"
    by (rule map_update_row) (rule assms)
  then show ?thesis by (metis list.set_map)
qed

lemma row_of_update_row:
  assumes "\<And>r. key (f r) = key r"
  shows "row_of key k' (update_row key k f rows) =
    (if k' = k then map_option f (row_of key k rows) else row_of key k' rows)"
  using assms by (induction rows) (auto simp: update_row_def)

lemma row_of_update_where:
  assumes "\<And>r. key (f r) = key r"
  shows "row_of key k (update_where p f rows) =
    map_option (\<lambda>r. if p r then f r else r) (row_of key k rows)"
  using assms by (induction rows) (auto simp: update_where_def)

lemma update_row_unknown: "k \<notin> key ` set rows \<Longrightarrow> update_row key k f rows = rows"
  by (induction rows) (auto simp: update_row_def)

lemma update_where_set: "set (update_where p f rows) = (\<lambda>r. if p r then f r else r) ` set rows"
  by (simp add: update_where_def)

lemma in_update_whereE:
  assumes "r \<in> set (update_where p f rows)"
  obtains (updated) q where "q \<in> set rows" "p q" "r = f q" | (kept) "r \<in> set rows" "\<not> p r"
  using assms by (auto simp: update_where_set split: if_splits)

lemma update_where_row: "update_row key k f rows = update_where (\<lambda>r. key r = k) f rows"
  by (simp add: update_row_def update_where_def)

lemma filter_update_where_same:
  assumes "\<And>r. r \<in> set rows \<Longrightarrow> q r \<Longrightarrow> \<not> p r \<and> \<not> p (f r)"
  shows "filter p (update_where q f rows) = filter p rows"
  using assms by (induction rows) (auto simp: update_where_def)

lemma in_update_rowE:
  assumes "r \<in> set (update_row key k f rows)"
  obtains (updated) q where "q \<in> set rows" "key q = k" "r = f q" | (kept) "r \<in> set rows" "key r \<noteq> k"
  using assms unfolding update_where_row by (rule in_update_whereE)

lemma row_count_append [table_simps]: "row_count p (xs @ ys) = row_count p xs + row_count p ys"
  by (simp add: row_count_def)

lemma row_count_Nil [simp]: "row_count p [] = 0"
  by (simp add: row_count_def)

lemma row_count_Cons [simp]: "row_count p (x # xs) = (if p x then 1 else 0) + row_count p xs"
  by (simp add: row_count_def)

lemma row_count_nonneg [simp]: "0 \<le> row_count p xs"
  by (simp add: row_count_def)

lemma row_count_update_where:
  assumes "\<And>r. r \<in> set rows \<Longrightarrow> p (if q r then f r else r) = p r"
  shows "row_count p (update_where q f rows) = row_count p rows"
  using assms by (induction rows) (auto simp: update_where_def)

lemma row_count_update_row:
  assumes "\<And>r. r \<in> set rows \<Longrightarrow> key r = k \<Longrightarrow> p (f r) = p r"
  shows "row_count p (update_row key k f rows) = row_count p rows"
  unfolding update_where_row using assms by (intro row_count_update_where) auto

lemma row_count_0_iff: "row_count p rows = 0 \<longleftrightarrow> (\<forall>r \<in> set rows. \<not> p r)"
  by (auto simp: row_count_def filter_empty_conv)

lemma row_count_cong:
  "(\<And>r. r \<in> set rows \<Longrightarrow> p r = q r) \<Longrightarrow> row_count p rows = row_count q rows"
  by (simp add: row_count_def cong: filter_cong)

text \<open>\<open>GROUP BY\<close>: summing the sums of the groups is summing the rows.\<close>

lemma sum_list_indicator:
  fixes v :: "'a::comm_monoid_add"
  assumes "distinct ks"
  shows "sum_list (map (\<lambda>k. if x = k then v else 0) ks) = (if x \<in> set ks then v else 0)"
  using assms by (induction ks) auto

lemma sum_list_by_group:
  fixes f :: "'r \<Rightarrow> 'a::comm_monoid_add"
  assumes "distinct ks" "h ` set rows \<subseteq> set ks"
  shows "sum_list (map (\<lambda>k. sum_list (map f (filter (\<lambda>r. h r = k) rows))) ks) = sum_list (map f rows)"
  using assms(2)
proof (induction rows)
  case (Cons r rows)
  have "sum_list (map (\<lambda>k. sum_list (map f (filter (\<lambda>r. h r = k) (r # rows)))) ks)
      = sum_list (map (\<lambda>k. (if h r = k then f r else 0) + sum_list (map f (filter (\<lambda>r. h r = k) rows))) ks)"
    by (intro arg_cong [of _ _ sum_list] map_cong) auto
  also have "\<dots> = f r + sum_list (map (\<lambda>k. sum_list (map f (filter (\<lambda>r. h r = k) rows))) ks)"
    using Cons.prems assms(1) by (simp add: sum_list_addf sum_list_indicator)
  finally show ?case using Cons by simp
qed simp

lemma filter_key_singleton:
  assumes "distinct (map key rows)" "r \<in> set rows"
  shows "filter (\<lambda>r'. key r' = key r) rows = [r]"
  using assms by (induction rows) (auto simp: filter_empty_conv image_iff)

section \<open>Selections\<close>

text \<open>
  \<open>SELECT ... WHERE p ORDER BY k LIMIT 1\<close>, and Python's \<open>min(xs, key=k)\<close>, which returns the first
  least element (and raises on an empty list, here \<open>None\<close>).
\<close>

definition select_first :: "('r \<Rightarrow> 'k::linorder) \<Rightarrow> ('r \<Rightarrow> bool) \<Rightarrow> 'r list \<Rightarrow> 'r option" where
  "select_first k p rows = (case sort_key k (filter p rows) of [] \<Rightarrow> None | r # _ \<Rightarrow> Some r)"

definition min_by :: "('r \<Rightarrow> 'k::linorder) \<Rightarrow> 'r list \<Rightarrow> 'r option" where
  "min_by k xs = (case xs of [] \<Rightarrow> None | _ \<Rightarrow> Some (arg_min_list k xs))"

lemma select_first_None_iff: "select_first k p rows = None \<longleftrightarrow> (\<forall>r \<in> set rows. \<not> p r)"
proof -
  have "select_first k p rows = None \<longleftrightarrow> set (sort_key k (filter p rows)) = {}"
    by (cases "sort_key k (filter p rows)") (auto simp: select_first_def simp del: set_sort)
  then show ?thesis by auto
qed

lemma select_first_SomeD:
  assumes "select_first k p rows = Some r"
  shows "r \<in> set rows" "p r" "\<And>r'. r' \<in> set rows \<Longrightarrow> p r' \<Longrightarrow> k r \<le> k r'"
proof -
  from assms obtain rs where rs: "sort_key k (filter p rows) = r # rs"
    by (auto simp: select_first_def split: list.splits)
  have eq: "insert r (set rs) = {x \<in> set rows. p x}"
    using arg_cong [OF rs, of set] by auto
  then show "r \<in> set rows" "p r" by auto
  have "sorted (map k (r # rs))" by (metis rs sorted_sort_key)
  then show "k r \<le> k r'" if "r' \<in> set rows" "p r'" for r'
    using that eq by auto
qed

lemma min_by_None_iff [simp]: "min_by k xs = None \<longleftrightarrow> xs = []"
  by (simp add: min_by_def split: list.splits)

lemma arg_min_list_least: "xs \<noteq> [] \<Longrightarrow> x \<in> set xs \<Longrightarrow> k (arg_min_list k xs) \<le> k x"
  by (metis f_arg_min_list_f finite_imageI finite_set image_eqI Min_le)

lemma min_by_SomeD:
  assumes "min_by k xs = Some x"
  shows "x \<in> set xs" "\<And>y. y \<in> set xs \<Longrightarrow> k x \<le> k y"
  using assms arg_min_list_in [of xs k] arg_min_list_least [of xs _ k]
  by (auto simp: min_by_def split: list.splits)

text \<open>
  A selection whose order has no ties is determined by the set of candidate rows alone: the order in
  which the database or the interpreter meets the rows cannot change the outcome.
\<close>

locale total_order_key =
  fixes ord_key :: "'r \<Rightarrow> 'k::linorder" and rows_ok :: "'r list \<Rightarrow> bool"
  assumes no_ties: "rows_ok rows \<Longrightarrow> inj_on ord_key (set rows)"
begin

lemma select_first_unique:
  assumes "rows_ok rows" "select_first ord_key p rows = Some r"
    "r' \<in> set rows" "p r'" "\<And>x. x \<in> set rows \<Longrightarrow> p x \<Longrightarrow> ord_key r' \<le> ord_key x"
  shows "r = r'"
proof -
  note r = select_first_SomeD [OF assms(2)]
  have "ord_key r = ord_key r'"
    using r assms(3-5) by (intro antisym) auto
  then show ?thesis
    using no_ties [OF assms(1)] r(1) assms(3) by (auto dest: inj_onD)
qed

lemma select_first_set:
  assumes "rows_ok xs" "rows_ok ys" "set xs = set ys"
  shows "select_first ord_key p xs = select_first ord_key p ys"
proof (cases "select_first ord_key p ys")
  case None
  then have "select_first ord_key p xs = None"
    using assms(3) by (simp add: select_first_None_iff)
  with None show ?thesis by simp
next
  case (Some r)
  note r = select_first_SomeD [OF Some]
  have "select_first ord_key p xs \<noteq> None"
    using r assms(3) by (auto simp: select_first_None_iff)
  then obtain r' where r': "select_first ord_key p xs = Some r'" by auto
  have "r' = r"
    by (rule select_first_unique [OF assms(1) r']) (use r assms(3) in auto)
  with r' Some show ?thesis by simp
qed

lemma min_by_unique:
  assumes "rows_ok xs" "min_by ord_key xs = Some r"
    "r' \<in> set xs" "\<And>x. x \<in> set xs \<Longrightarrow> ord_key r' \<le> ord_key x"
  shows "r = r'"
proof -
  note r = min_by_SomeD [OF assms(2)]
  have "ord_key r = ord_key r'"
    using r assms(3,4) by (intro antisym) auto
  then show ?thesis
    using no_ties [OF assms(1)] r(1) assms(3) by (auto dest: inj_onD)
qed

end

section \<open>Merging sorted lists\<close>

text \<open>
  The newest rows of two tables together can be found among the newest rows of each: cutting both
  sorted lists at \<open>w\<close> before merging does not change the first \<open>w\<close> of the merge.
\<close>

fun merge_key :: "('r \<Rightarrow> 'k::linorder) \<Rightarrow> 'r list \<Rightarrow> 'r list \<Rightarrow> 'r list" where
  "merge_key k [] vs = vs"
| "merge_key k us [] = us"
| "merge_key k (u # us) (v # vs) =
     (if k u \<le> k v then u # merge_key k us (v # vs) else v # merge_key k (u # us) vs)"

lemma merge_key_Nil2 [simp]: "merge_key k us [] = us"
  by (cases us) auto

lemma insort_merge_key:
  assumes "\<And>x. x \<in> set us \<Longrightarrow> k u \<le> k x"
  shows "insort_key k u (merge_key k us vs) = merge_key k (u # us) vs"
  using assms
proof (induction vs)
  case Nil
  then show ?case by (cases us) auto
next
  case (Cons v vs)
  then show ?case by (cases us) force+
qed

lemma sort_append_merge_key:
  assumes "sorted (map k us)" "sorted (map k vs)"
  shows "sort_key k (us @ vs) = merge_key k us vs"
  using assms by (induction us) (auto simp: insort_merge_key sorted_sort_id sort_key_id_if_sorted)

lemma take_merge_key:
  "w \<le> m \<Longrightarrow> w \<le> n \<Longrightarrow> take w (merge_key k (take m us) (take n vs)) = take w (merge_key k us vs)"
proof (induction k us vs arbitrary: w m n rule: merge_key.induct)
  case (1 k vs)
  then show ?case by (simp add: min_absorb1)
next
  case (2 k u us)
  then show ?case by (simp add: min_absorb1)
next
  case (3 k u us v vs)
  show ?case
  proof (cases w)
    case (Suc w')
    with 3(3,4) obtain m' n' where "m = Suc m'" "n = Suc n'" "w' \<le> m'" "w' \<le> n'"
      by (metis Suc_le_D Suc_le_mono)
    with Suc "3.IH" [of w' m' n] "3.IH" [of w' m n'] show ?thesis
      using 3 by (cases "k u \<le> k v") auto
  qed simp
qed

lemma sort_key_append_sorted: "sort_key k (xs @ ys) = sort_key k (sort_key k xs @ sort_key k ys)"
proof (rule properties_for_sort_key)
  fix z
  have stable: "filter (\<lambda>x. k z = k x) (sort_key k zs) = filter (\<lambda>x. k z = k x) zs" for zs
    using sort_key_stable [of k "k z" zs] by (simp add: eq_commute)
  show "filter (\<lambda>x. k z = k x) (sort_key k (sort_key k xs @ sort_key k ys)) = filter (\<lambda>x. k z = k x) (xs @ ys)"
    by (simp add: stable)
qed simp_all

lemma take_sort_append:
  "take w (sort_key k (take w (sort_key k xs) @ take w (sort_key k ys))) = take w (sort_key k (xs @ ys))"
proof -
  have "sorted (map k (take w (sort_key k zs)))" for zs
    by (metis sorted_sort_key sorted_wrt_take take_map)
  then have "take w (sort_key k (take w (sort_key k xs) @ take w (sort_key k ys)))
      = take w (merge_key k (sort_key k xs) (sort_key k ys))"
    by (simp add: sort_append_merge_key take_merge_key)
  also have "\<dots> = take w (sort_key k (xs @ ys))"
    by (simp add: sort_key_append_sorted [of k xs ys] sort_append_merge_key)
  finally show ?thesis .
qed

section \<open>Numbers\<close>

text \<open>
  Scores, weights and rates are Python floats in the code and rationals here: every double is a
  rational, and the arithmetic is exact, except where a result of binary64 is rounded on purpose (theory
  \<open>Floats\<close>: weighted scores and their distances). \<open>py_round\<close> is Python's \<open>round(x)\<close>: to the nearest integer,
  a tie going to the even one.
\<close>

definition py_round :: "rat \<Rightarrow> int" where
  "py_round x = (let f = \<lfloor>x\<rfloor>; d = x - of_int f in
     if d < 1 / 2 then f else if d > 1 / 2 then f + 1 else if even f then f else f + 1)"

lemma floor_rat_numeral_divide [simp]: "\<lfloor>numeral a / numeral b :: rat\<rfloor> = numeral a div numeral b"
  by (metis floor_divide_of_int_eq of_int_numeral)

lemma py_round_of_int [simp]: "py_round (of_int n) = n"
  by (simp add: py_round_def)

lemma py_round_error: "\<bar>x - of_int (py_round x)\<bar> \<le> 1 / 2"
proof -
  have "of_int \<lfloor>x\<rfloor> \<le> x" "x < of_int \<lfloor>x\<rfloor> + 1" by linarith+
  then show ?thesis by (auto simp: py_round_def Let_def abs_le_iff)
qed

lemma py_round_nonneg: "0 \<le> x \<Longrightarrow> 0 \<le> py_round x"
  by (auto simp: py_round_def Let_def)

lemma py_round_mono_int: "x \<le> of_int n \<Longrightarrow> py_round x \<le> n"
proof -
  assume x: "x \<le> of_int n"
  have "of_int (py_round x) \<le> x + 1 / 2" using py_round_error [of x] by linarith
  with x have "(of_int (py_round x) :: rat) < of_int (n + 1)" by linarith
  then show ?thesis by linarith
qed

text \<open>The mean of a non-empty list lies between its bounds.\<close>

definition mean :: "rat list \<Rightarrow> rat" where
  "mean xs = sum_list xs / of_nat (length xs)"

lemma sum_list_bounds:
  fixes xs :: "rat list"
  assumes "\<And>x. x \<in> set xs \<Longrightarrow> a \<le> x \<and> x \<le> b"
  shows "of_nat (length xs) * a \<le> sum_list xs" "sum_list xs \<le> of_nat (length xs) * b"
  using assms by (induction xs) (auto simp: algebra_simps add_mono)

lemma mean_bounds:
  assumes "xs \<noteq> []" "\<And>x. x \<in> set xs \<Longrightarrow> a \<le> x \<and> x \<le> b"
  shows "a \<le> mean xs" "mean xs \<le> b"
  using assms(1) sum_list_bounds [OF assms(2)]
  by (simp_all add: mean_def pos_le_divide_eq pos_divide_le_eq mult.commute)

end
