(* ===== verification/Pytext.thy ===== *)
theory Pytext
  imports Prelude
begin

text \<open>
  Text as the service writes it: \<open>str\<close> of an integer and of a UUID, \<open>datetime.isoformat\<close>, and the
  JSON values of audit payloads and delivery rows. A Python string is a list of characters; a
  character stands for the code point of the same number.
\<close>

section \<open>Integers\<close>

fun nat_digits :: "nat \<Rightarrow> string" where
  "nat_digits n = (if n < 10 then [char_of (48 + n)] else nat_digits (n div 10) @ [char_of (48 + n mod 10)])"

declare nat_digits.simps [simp del]

definition str_int :: "int \<Rightarrow> string" where
  "str_int n = (if n < 0 then CHR ''-'' # nat_digits (nat (- n)) else nat_digits (nat n))"

fun pad_digits :: "nat \<Rightarrow> nat \<Rightarrow> string" where
  "pad_digits 0 n = []"
| "pad_digits (Suc w) n = pad_digits w (n div 10) @ [char_of (48 + n mod 10)]"

lemma pad_digits_numeral [simp]:
  "pad_digits (numeral w) n = pad_digits (pred_numeral w) (n div 10) @ [char_of (48 + n mod 10)]"
  by (simp only: numeral_eq_Suc pad_digits.simps)

lemma length_pad_digits [simp]: "length (pad_digits w n) = w"
  by (induction w arbitrary: n) auto

definition digit_char :: "char \<Rightarrow> bool" where
  "digit_char c \<longleftrightarrow> 48 \<le> (of_char c :: nat) \<and> (of_char c :: nat) \<le> 57"

lemma digit_char_of [simp]: "n < (10::nat) \<Longrightarrow> digit_char (char_of (48 + n))"
  by (simp add: digit_char_def)

lemma nat_digits_chars: "c \<in> set (nat_digits n) \<Longrightarrow> digit_char c"
proof (induction n rule: nat_digits.induct)
  case (1 n)
  then show ?case by (cases "n < 10") (auto simp: nat_digits.simps [of n])
qed

lemma nat_digits_nonempty [simp]: "nat_digits n \<noteq> []"
  by (subst nat_digits.simps) simp

text \<open>Reading the digits back.\<close>

definition digits_value :: "string \<Rightarrow> nat" where
  "digits_value s = foldl (\<lambda>acc c. 10 * acc + (of_char c - 48)) 0 s"

lemma digits_value_snoc: "digits_value (s @ [c]) = 10 * digits_value s + (of_char c - 48)"
  by (simp add: digits_value_def)

lemma digits_value_nat_digits: "digits_value (nat_digits n) = n"
proof (induction n rule: nat_digits.induct)
  case (1 n)
  show ?case
  proof (cases "n < 10")
    case True
    then show ?thesis by (subst nat_digits.simps) (simp add: digits_value_def)
  next
    case False
    with "1.IH" have "digits_value (nat_digits (n div 10)) = n div 10" by simp
    with False show ?thesis
      by (subst nat_digits.simps) (simp add: digits_value_snoc)
  qed
qed

lemma nat_digits_inject: "nat_digits m = nat_digits n \<longleftrightarrow> m = n"
  by (metis digits_value_nat_digits)

lemma minus_not_digit: "CHR ''-'' \<notin> set (nat_digits n)"
  using nat_digits_chars [of "CHR ''-''" n] by (auto simp: digit_char_def)

lemma str_int_inject: "str_int m = str_int n \<longleftrightarrow> m = n"
proof
  assume eq: "str_int m = str_int n"
  show "m = n"
  proof (cases "m < 0")
    case True
    with eq have "n < 0"
      using minus_not_digit by (metis list.set_intros(1) str_int_def)
    with True eq show ?thesis by (simp add: str_int_def nat_digits_inject)
  next
    case False
    with eq have "\<not> n < 0"
      using minus_not_digit by (metis list.set_intros(1) str_int_def)
    with False eq show ?thesis by (simp add: str_int_def nat_digits_inject)
  qed
qed simp

section \<open>UUIDs\<close>

text \<open>
  A UUID is its 128-bit integer value; Python and PostgreSQL both compare UUIDs in that order. Its
  text is 32 hexadecimal digits in groups of 8, 4, 4, 4 and 12.
\<close>

type_synonym uuid = nat

definition hex_digit :: "nat \<Rightarrow> char" where
  "hex_digit d = (if d < 10 then char_of (48 + d) else char_of (87 + d))"

fun hex_digits :: "nat \<Rightarrow> nat \<Rightarrow> string" where
  "hex_digits 0 n = []"
| "hex_digits (Suc w) n = hex_digits w (n div 16) @ [hex_digit (n mod 16)]"

definition hexdigest :: "nat list \<Rightarrow> string" where
  "hexdigest bytes = concat (map (hex_digits 2) bytes)"

definition str_uuid :: "uuid \<Rightarrow> string" where
  "str_uuid u =
     hex_digits 8 (u div 2 ^ 96) @ ''-'' @ hex_digits 4 (u div 2 ^ 80) @ ''-'' @
     hex_digits 4 (u div 2 ^ 64) @ ''-'' @ hex_digits 4 (u div 2 ^ 48) @ ''-'' @ hex_digits 12 u"

lemma length_hex_digits [simp]: "length (hex_digits w n) = w"
  by (induction w arbitrary: n) auto

lemma length_str_uuid: "length (str_uuid u) = 36"
  by (simp add: str_uuid_def)

section \<open>Times\<close>

text \<open>
  A \<open>datetime\<close> in UTC is the number of microseconds since 1970-01-01T00:00:00, the resolution both
  of Python and of PostgreSQL.
\<close>

type_synonym time = int

definition seconds :: "int \<Rightarrow> time" where
  "seconds n = n * 1000000"

definition civil_from_days :: "int \<Rightarrow> int \<times> int \<times> int" where
  "civil_from_days days =
    (let z = days + 719468;
         era = z div 146097;
         doe = z mod 146097;
         yoe = (doe - doe div 1460 + doe div 36524 - doe div 146096) div 365;
         doy = doe - (365 * yoe + yoe div 4 - yoe div 100);
         mp = (5 * doy + 2) div 153;
         d = doy - (153 * mp + 2) div 5 + 1;
         m = (if mp < 10 then mp + 3 else mp - 9);
         y = yoe + era * 400 + (if m \<le> 2 then 1 else 0)
     in (y, m, d))"

definition isoformat :: "time \<Rightarrow> string" where
  "isoformat t =
    (let (y, m, d) = civil_from_days (t div 86400000000);
         us = t mod 86400000000;
         pad = (\<lambda>w n. pad_digits w (nat n));
         frac = us mod 1000000
     in pad 4 y @ ''-'' @ pad 2 m @ ''-'' @ pad 2 d @ ''T'' @
        pad 2 (us div 3600000000) @ '':'' @ pad 2 (us div 60000000 mod 60) @ '':'' @
        pad 2 (us div 1000000 mod 60) @
        (if frac = 0 then [] else ''.'' @ pad 6 frac) @ ''+00:00'')"

lemma civil_from_days_examples:
  "civil_from_days 0 = (1970, 1, 1)"
  "civil_from_days 20359 = (2025, 9, 28)"
  "civil_from_days 11016 = (2000, 2, 29)"
  by code_simp+

section \<open>JSON values\<close>

datatype json =
    JNull
  | JBool bool
  | JInt int
  | JFloat rat
  | JStr string
  | JList "json list"
  | JObj "(string \<times> json) list"

end
