(* ===== verification/Models.thy ===== *)
theory Models
  imports Pytext
begin

text \<open>
  The data model of \<open>panelist/models.py\<close>, the settings of \<open>panelist/config.py\<close>, the errors the
  service raises, and the session of one request: the tables, the rows other transactions hold, the
  identifiers and clock readings drawn so far, and the metrics emitted. A column \<open>c\<close> of a table whose
  class starts with the letter \<open>x\<close> is the record field \<open>x_c\<close>.
\<close>

section \<open>Enumerations\<close>

datatype tier = Junior | Senior | Lead

fun tier_rank :: "tier \<Rightarrow> nat" where
  "tier_rank Junior = 0"
| "tier_rank Senior = 1"
| "tier_rank Lead = 2"

fun tier_value :: "tier \<Rightarrow> string" where
  "tier_value Junior = ''junior''"
| "tier_value Senior = ''senior''"
| "tier_value Lead = ''lead''"

datatype expert_status = Active | Paused | Inactive

fun expert_status_value :: "expert_status \<Rightarrow> string" where
  "expert_status_value Active = ''active''"
| "expert_status_value Paused = ''paused''"
| "expert_status_value Inactive = ''inactive''"

datatype task_status = Queued | Assigned | Submitted | Adjudication | Approved | Rejected

fun task_status_value :: "task_status \<Rightarrow> string" where
  "task_status_value Queued = ''queued''"
| "task_status_value Assigned = ''assigned''"
| "task_status_value Submitted = ''submitted''"
| "task_status_value Adjudication = ''adjudication''"
| "task_status_value Approved = ''approved''"
| "task_status_value Rejected = ''rejected''"

datatype consensus_status = Agreed | Adjudicating | Adjudicated

fun consensus_status_value :: "consensus_status \<Rightarrow> string" where
  "consensus_status_value Agreed = ''agreed''"
| "consensus_status_value Adjudicating = ''adjudicating''"
| "consensus_status_value Adjudicated = ''adjudicated''"

datatype review_decision = Approve | Reject

fun review_decision_value :: "review_decision \<Rightarrow> string" where
  "review_decision_value Approve = ''approve''"
| "review_decision_value Reject = ''reject''"

datatype payout_status = Pending | Withheld | Paid

fun payout_status_value :: "payout_status \<Rightarrow> string" where
  "payout_status_value Pending = ''pending''"
| "payout_status_value Withheld = ''withheld''"
| "payout_status_value Paid = ''paid''"

datatype role = ExpertRole | ReviewerRole | SeniorReviewerRole | AdminRole

fun role_value :: "role \<Rightarrow> string" where
  "role_value ExpertRole = ''expert''"
| "role_value ReviewerRole = ''reviewer''"
| "role_value SeniorReviewerRole = ''senior_reviewer''"
| "role_value AdminRole = ''admin''"

text \<open>Tiers are ordered by their rank.\<close>

instantiation tier :: linorder
begin

definition less_eq_tier :: "tier \<Rightarrow> tier \<Rightarrow> bool" where
  "less_eq_tier a b \<longleftrightarrow> tier_rank a \<le> tier_rank b"

definition less_tier :: "tier \<Rightarrow> tier \<Rightarrow> bool" where
  "less_tier a b \<longleftrightarrow> tier_rank a < tier_rank b"

instance
proof
  fix a b :: tier
  show "a \<le> b \<Longrightarrow> b \<le> a \<Longrightarrow> a = b"
    by (cases a; cases b) (simp_all add: less_eq_tier_def)
qed (auto simp: less_eq_tier_def less_tier_def)

end

section \<open>Settings\<close>

datatype outvoted_payout = PayFull | PayPartial | PayNone

record settings =
  lease_seconds :: int
  attention_fraction :: rat
  attention_key :: string
  attention_window :: nat
  attention_min_checks :: nat
  attention_threshold :: rat
  attention_tolerance :: rat
  calibration_window :: nat
  calibration_min_samples :: nat
  calibration_promote_at :: rat
  calibration_demote_at :: rat
  consensus_tolerance :: rat
  consensus_outvoted_payout :: outvoted_payout
  consensus_outvoted_rate :: rat
  delivery_dir :: string
  delivery_s3_bucket :: string
  bootstrap_admin_key :: string

definition default_settings :: settings where
  "default_settings = \<lparr>
     lease_seconds = 900,
     attention_fraction = 1 / 10,
     attention_key = ''panelist'',
     attention_window = 10,
     attention_min_checks = 3,
     attention_threshold = 7 / 10,
     attention_tolerance = 1,
     calibration_window = 20,
     calibration_min_samples = 5,
     calibration_promote_at = 9 / 10,
     calibration_demote_at = 6 / 10,
     consensus_tolerance = 1,
     consensus_outvoted_payout = PayPartial,
     consensus_outvoted_rate = 1 / 2,
     delivery_dir = ''./deliveries'',
     delivery_s3_bucket = [],
     bootstrap_admin_key = []\<rparr>"

section \<open>Rows\<close>

record expert =
  e_id :: uuid
  e_name :: string
  e_tags :: "string list"
  e_tier :: tier
  e_task_rate_cents :: "int option"
  e_status :: expert_status
  e_served_count :: int
  e_calibration_score :: "rat option"
  e_calibration_samples :: nat
  e_tier_updated_at :: "time option"
  e_created_at :: time

record tier_change =
  tc_id :: uuid
  tc_expert_id :: uuid
  tc_from_tier :: tier
  tc_to_tier :: tier
  tc_score :: rat
  tc_samples :: nat
  tc_created_at :: time

record criterion =
  c_id :: uuid
  c_key :: string
  c_label :: string
  c_weight :: rat
  c_scale_min :: int
  c_scale_max :: int
  c_position :: int

text \<open>The criteria of a rubric are rows of their own, written with the rubric and never edited; the
  model keeps them, in the order of their position, in the rubric's row.\<close>

record rubric =
  r_id :: uuid
  r_name :: string
  r_version :: int
  r_criteria :: "criterion list"
  r_created_at :: time
  r_superseded_at :: "time option"
  r_superseded_by_id :: "uuid option"

record rate_card =
  rc_tier :: tier
  rc_task_type :: string
  rc_rate_cents :: int

record task =
  t_id :: uuid
  t_seq :: int
  t_external_ref :: "string option"
  t_prompt :: string
  t_responses :: "json list"
  t_required_tags :: "string list"
  t_task_type :: string
  t_min_tier :: tier
  t_rubric_id :: uuid
  t_pinned_rubric_id :: "uuid option"
  t_priority :: int
  t_deadline :: "time option"
  t_status :: task_status
  t_required_grades :: int
  t_grades_received :: int
  t_is_attention_check :: bool
  t_expected_scores :: "(string \<times> rat) list option"
  t_assigned_expert_id :: "uuid option"
  t_assigned_at :: "time option"
  t_lease_expires_at :: "time option"
  t_reclaim_count :: int
  t_created_at :: time

text \<open>The normalized scores of a grade are rows keyed by (grade, criterion), written with the grade;
  the model keeps them in the grade's row.\<close>

record grade_score =
  gs_criterion_id :: uuid
  gs_score :: rat

record grade =
  g_id :: uuid
  g_task_id :: uuid
  g_expert_id :: uuid
  g_rubric_id :: uuid
  g_scores_snapshot :: "(string \<times> rat) list"
  g_rationale :: string
  g_time_spent_seconds :: int
  g_weighted_score :: rat
  g_submitted_at :: time
  g_scores :: "grade_score list"

record review =
  rv_id :: uuid
  rv_grade_id :: uuid
  rv_reviewer_key_id :: uuid
  rv_decision :: review_decision
  rv_reason :: "string option"
  rv_created_at :: time

record consensus =
  co_id :: uuid
  co_task_id :: uuid
  co_status :: consensus_status
  co_grade_count :: nat
  co_spread :: rat
  co_tolerance :: rat
  co_delivered_grade_id :: "uuid option"
  co_adjudicator_key_id :: "uuid option"
  co_reason :: "string option"
  co_created_at :: time
  co_resolved_at :: "time option"

record payout_period =
  pp_id :: uuid
  pp_label :: string
  pp_closed_at :: time

record payout =
  p_id :: uuid
  p_expert_id :: uuid
  p_task_id :: uuid
  p_grade_id :: uuid
  p_tier :: tier
  p_task_type :: string
  p_amount_cents :: int
  p_status :: payout_status
  p_period_id :: "uuid option"
  p_created_at :: time
  p_paid_at :: "time option"

record attention_result =
  ar_id :: uuid
  ar_task_id :: uuid
  ar_expert_id :: uuid
  ar_grade_id :: uuid
  ar_passed :: bool
  ar_max_deviation :: rat
  ar_created_at :: time

record audit_event =
  ae_id :: int
  ae_actor :: string
  ae_action :: string
  ae_entity_type :: string
  ae_entity_id :: string
  ae_payload :: "(string \<times> json) list"
  ae_created_at :: time

record api_key =
  k_id :: uuid
  k_key_hash :: string
  k_role :: role
  k_expert_id :: "uuid option"
  k_label :: string
  k_created_at :: time
  k_revoked_at :: "time option"

record delivery =
  d_id :: uuid
  d_version :: int
  d_checksum :: string
  d_location :: string
  d_row_count :: int
  d_size_bytes :: int
  d_created_at :: time

section \<open>Errors\<close>

text \<open>
  A \<open>ServiceError\<close> carries its HTTP status and its detail, here a constructor with the values the
  message interpolates; the routers raise \<open>HTTPException\<close> with the same two parts. A constraint of a
  table that an insert violates is an \<open>IntegrityError\<close> naming the table; reading an attribute of a
  missing row is an \<open>AttributeError\<close>.
\<close>

datatype detail =
    ExpertIs expert_status
  | TaskNotFound
  | TaskBeingClaimed
  | TaskIs task_status
  | TaskRequiresExpertise
  | TaskRequiresHigherTier
  | TaskNotAssignedToExpert
  | UnknownRubricPinned int
  | RubricVersionSuperseded int int
  | RubricVersionNotPinned int int
  | ScoresMismatch "string list" "string list"
  | ScoreOutOfScale string int int
  | GradeNotFound
  | GradeAlreadyReviewed
  | WaitingForGrades int
  | AwaitingAdjudication
  | NoConsensusRound
  | ConsensusAlready consensus_status
  | NotAGradeOfTheTask
  | NoRateConfigured tier string
  | PeriodAlreadyClosed string
  | RubricAlreadySuperseded string int
  | RubricIsSuperseded string int
  | AttentionNeedsExpectedScores
  | ExpertNotFound
  | RubricNotFound
  | PeriodNotFound
  | DeliveryNotFound
  | ApiKeyNotFound
  | MissingApiKey
  | InvalidApiKey
  | MissingScopes "string list"
  | KeyNotBoundToExpert
  | InvalidBody

datatype error =
    ServiceError nat detail
  | HTTPException nat detail
  | IntegrityError string
  | AttributeError string
  | ValueError string
  | DataError string
  | StorageError string

section \<open>The session\<close>

text \<open>
  What a request's session and the process around it hold. \<open>tx_now\<close> is \<open>now()\<close> of the current
  transaction, the server default of every \<open>created_at\<close> column. \<open>clock_pos\<close> and \<open>uuid_pos\<close> count the
  readings of the clock and the UUIDs drawn; \<open>task_seq\<close> and \<open>audit_seq\<close> are the tables' identity
  columns. Prometheus counters and gauges are the list of the calls made to them.
\<close>

datatype metric =
    CLAIMS string
  | DOUBLE_ASSIGN_BLOCKED
  | ATTENTION_CHECKS string
  | ATTENTION_PASS_RATE rat
  | EXPERTS_PAUSED
  | PAYOUTS payout_status
  | PAYOUT_CENTS payout_status int
  | GRADES
  | CONSENSUS consensus_status
  | TIER_CHANGES string

record db =
  experts :: "expert list"
  tier_changes :: "tier_change list"
  rubrics :: "rubric list"
  rate_cards :: "rate_card list"
  tasks :: "task list"
  grades :: "grade list"
  reviews :: "review list"
  consensuses :: "consensus list"
  payout_periods :: "payout_period list"
  payouts :: "payout list"
  attention_results :: "attention_result list"
  audit_events :: "audit_event list"
  api_keys :: "api_key list"
  deliveries :: "delivery list"
  task_seq :: int
  audit_seq :: int
  tx_now :: time
  clock_pos :: nat
  uuid_pos :: nat
  metrics :: "metric list"

definition empty_db :: db where
  "empty_db = \<lparr>experts = [], tier_changes = [], rubrics = [], rate_cards = [], tasks = [], grades = [],
     reviews = [], consensuses = [], payout_periods = [], payouts = [], attention_results = [],
     audit_events = [], api_keys = [], deliveries = [], task_seq = 1, audit_seq = 1, tx_now = 0,
     clock_pos = 0, uuid_pos = 0, metrics = []\<rparr>"

text \<open>
  The environment of the service: its settings, the wall clock, the source of random UUIDs, SHA-256
  as hashlib computes it (the bytes of the digest), whether a Prometheus counter accepts to be
  increased by an amount (the client library raises a \<open>ValueError\<close> when it does not; it documents
  that a counter is never decreased), and the database's collation, as the rank of a text in it
  (any order of the countably many texts has such ranks), and \<open>float_repr\<close>, Python's \<open>repr\<close> of a float.
\<close>

record env =
  cfg :: settings
  clock :: "nat \<Rightarrow> time"
  uuid4 :: "nat \<Rightarrow> uuid"
  sha256 :: "string \<Rightarrow> nat list"
  counter_accepts :: "int \<Rightarrow> bool"
  collate :: "string \<Rightarrow> rat"
  float_repr :: "rat \<Rightarrow> string"

type_synonym 'a outcome = "(error, 'a, db) result"

definition now_utc :: "env \<Rightarrow> db \<Rightarrow> time \<times> db" where
  "now_utc E s = (clock E (clock_pos s), s\<lparr>clock_pos := Suc (clock_pos s)\<rparr>)"

definition new_uuid :: "env \<Rightarrow> db \<Rightarrow> uuid \<times> db" where
  "new_uuid E s = (uuid4 E (uuid_pos s), s\<lparr>uuid_pos := Suc (uuid_pos s)\<rparr>)"

definition emit :: "metric \<Rightarrow> db \<Rightarrow> db" where
  "emit m s = s\<lparr>metrics := metrics s @ [m]\<rparr>"

abbreviation get_expert :: "uuid \<Rightarrow> db \<Rightarrow> expert option" where
  "get_expert k s \<equiv> row_of e_id k (experts s)"

abbreviation get_rubric :: "uuid \<Rightarrow> db \<Rightarrow> rubric option" where
  "get_rubric k s \<equiv> row_of r_id k (rubrics s)"

abbreviation get_task :: "uuid \<Rightarrow> db \<Rightarrow> task option" where
  "get_task k s \<equiv> row_of t_id k (tasks s)"

abbreviation get_grade :: "uuid \<Rightarrow> db \<Rightarrow> grade option" where
  "get_grade k s \<equiv> row_of g_id k (grades s)"

abbreviation get_review :: "uuid \<Rightarrow> db \<Rightarrow> review option" where
  "get_review gid s \<equiv> row_of rv_grade_id gid (reviews s)"

abbreviation get_consensus :: "uuid \<Rightarrow> db \<Rightarrow> consensus option" where
  "get_consensus tid s \<equiv> row_of co_task_id tid (consensuses s)"

abbreviation get_payout :: "uuid \<Rightarrow> db \<Rightarrow> payout option" where
  "get_payout gid s \<equiv> row_of p_grade_id gid (payouts s)"

abbreviation get_api_key :: "uuid \<Rightarrow> db \<Rightarrow> api_key option" where
  "get_api_key k s \<equiv> row_of k_id k (api_keys s)"

abbreviation modify_expert :: "uuid \<Rightarrow> (expert \<Rightarrow> expert) \<Rightarrow> db \<Rightarrow> db" where
  "modify_expert k f s \<equiv> s\<lparr>experts := update_row e_id k f (experts s)\<rparr>"

abbreviation modify_task :: "uuid \<Rightarrow> (task \<Rightarrow> task) \<Rightarrow> db \<Rightarrow> db" where
  "modify_task k f s \<equiv> s\<lparr>tasks := update_row t_id k f (tasks s)\<rparr>"

abbreviation modify_consensus :: "uuid \<Rightarrow> (consensus \<Rightarrow> consensus) \<Rightarrow> db \<Rightarrow> db" where
  "modify_consensus tid f s \<equiv> s\<lparr>consensuses := update_row co_task_id tid f (consensuses s)\<rparr>"

text \<open>Reading through a relationship: \<open>row.attr\<close> where the related row is missing raises.\<close>

definition the_row :: "string \<Rightarrow> 'r option \<Rightarrow> ('r \<Rightarrow> db \<Rightarrow> 'a outcome) \<Rightarrow> db \<Rightarrow> 'a outcome" where
  "the_row what row f s = (case row of None \<Rightarrow> (Inl (AttributeError what), s) | Some r \<Rightarrow> f r s)"

lemma the_row_simps [simp]:
  "the_row what None f s = (Inl (AttributeError what), s)"
  "the_row what (Some r) f s = f r s"
  by (simp_all add: the_row_def)

lemma the_row_returns [result_simps]:
  "the_row what row f s = (Inr y, s') \<longleftrightarrow> (\<exists>r. row = Some r \<and> f r s = (Inr y, s'))"
  by (cases row) auto

end
