(* ===== verification/Tables.thy ===== *)
theory Tables
  imports Models
begin

text \<open>
  Inserting rows: each table's primary key, unique constraints and foreign keys, as
  \<open>panelist/models.py\<close> declares them, checked at the flush that writes the row. A violated constraint
  is an \<open>IntegrityError\<close>, which no handler of the service catches. The second half states what a
  keyed table promises to the operations that look rows up and edit them in place.
\<close>

section \<open>Inserts\<close>

definition insert_if :: "string \<Rightarrow> bool \<Rightarrow> (db \<Rightarrow> db) \<Rightarrow> db \<Rightarrow> unit outcome" where
  "insert_if table ok f s = (if ok then (Inr (), f s) else (Inl (IntegrityError table), s))"

lemma insert_if_returns [result_simps]:
  "insert_if table ok f s = (Inr x, s') \<longleftrightarrow> ok \<and> s' = f s"
  by (auto simp: insert_if_def)

lemma insert_if_True [simp]: "insert_if table True f s = (Inr (), f s)"
  by (simp add: insert_if_def)

lemma insert_if_False [simp]: "insert_if table False f s = (Inl (IntegrityError table), s)"
  by (simp add: insert_if_def)

definition insert_expert :: "expert \<Rightarrow> db \<Rightarrow> unit outcome" where
  "insert_expert e s = insert_if ''experts''
     (e_id e \<notin> e_id ` set (experts s))
     (\<lambda>s. s\<lparr>experts := experts s @ [e]\<rparr>) s"

definition insert_tier_change :: "tier_change \<Rightarrow> db \<Rightarrow> unit outcome" where
  "insert_tier_change c s = insert_if ''tier_changes''
     (tc_id c \<notin> tc_id ` set (tier_changes s) \<and> tc_expert_id c \<in> e_id ` set (experts s))
     (\<lambda>s. s\<lparr>tier_changes := tier_changes s @ [c]\<rparr>) s"

definition insert_rubric :: "rubric \<Rightarrow> db \<Rightarrow> unit outcome" where
  "insert_rubric r s = insert_if ''rubrics''
     (r_id r \<notin> r_id ` set (rubrics s) \<and>
      (\<forall>r' \<in> set (rubrics s). \<not> (r_name r' = r_name r \<and> r_version r' = r_version r)) \<and>
      distinct (map c_key (r_criteria r)) \<and> distinct (map c_id (r_criteria r)) \<and>
      (\<forall>r' \<in> set (rubrics s). c_id ` set (r_criteria r') \<inter> c_id ` set (r_criteria r) = {}))
     (\<lambda>s. s\<lparr>rubrics := rubrics s @ [r]\<rparr>) s"

definition insert_task :: "task \<Rightarrow> db \<Rightarrow> unit outcome" where
  "insert_task t s = insert_if ''tasks''
     (t_id t \<notin> t_id ` set (tasks s) \<and> t_seq t \<notin> t_seq ` set (tasks s) \<and>
      t_rubric_id t \<in> r_id ` set (rubrics s))
     (\<lambda>s. s\<lparr>tasks := tasks s @ [t]\<rparr>) s"

definition insert_grade :: "grade \<Rightarrow> db \<Rightarrow> unit outcome" where
  "insert_grade g s = insert_if ''grades''
     (g_id g \<notin> g_id ` set (grades s) \<and>
      (\<forall>g' \<in> set (grades s). \<not> (g_task_id g' = g_task_id g \<and> g_expert_id g' = g_expert_id g)) \<and>
      g_task_id g \<in> t_id ` set (tasks s) \<and> g_expert_id g \<in> e_id ` set (experts s) \<and>
      g_rubric_id g \<in> r_id ` set (rubrics s))
     (\<lambda>s. s\<lparr>grades := grades s @ [g]\<rparr>) s"

definition insert_review :: "review \<Rightarrow> db \<Rightarrow> unit outcome" where
  "insert_review r s = insert_if ''reviews''
     (rv_id r \<notin> rv_id ` set (reviews s) \<and> rv_grade_id r \<notin> rv_grade_id ` set (reviews s) \<and>
      rv_grade_id r \<in> g_id ` set (grades s) \<and> rv_reviewer_key_id r \<in> k_id ` set (api_keys s))
     (\<lambda>s. s\<lparr>reviews := reviews s @ [r]\<rparr>) s"

definition insert_consensus :: "consensus \<Rightarrow> db \<Rightarrow> unit outcome" where
  "insert_consensus c s = insert_if ''consensus''
     (co_id c \<notin> co_id ` set (consensuses s) \<and> co_task_id c \<notin> co_task_id ` set (consensuses s) \<and>
      co_task_id c \<in> t_id ` set (tasks s) \<and>
      (case co_delivered_grade_id c of None \<Rightarrow> True | Some g \<Rightarrow> g \<in> g_id ` set (grades s)))
     (\<lambda>s. s\<lparr>consensuses := consensuses s @ [c]\<rparr>) s"

definition insert_payout_period :: "payout_period \<Rightarrow> db \<Rightarrow> unit outcome" where
  "insert_payout_period p s = insert_if ''payout_periods''
     (pp_id p \<notin> pp_id ` set (payout_periods s) \<and> pp_label p \<notin> pp_label ` set (payout_periods s))
     (\<lambda>s. s\<lparr>payout_periods := payout_periods s @ [p]\<rparr>) s"

definition insert_payout :: "payout \<Rightarrow> db \<Rightarrow> unit outcome" where
  "insert_payout p s = insert_if ''payouts''
     (p_id p \<notin> p_id ` set (payouts s) \<and> p_grade_id p \<notin> p_grade_id ` set (payouts s) \<and>
      (\<forall>p' \<in> set (payouts s). \<not> (p_task_id p' = p_task_id p \<and> p_expert_id p' = p_expert_id p)) \<and>
      p_expert_id p \<in> e_id ` set (experts s) \<and> p_task_id p \<in> t_id ` set (tasks s) \<and>
      p_grade_id p \<in> g_id ` set (grades s))
     (\<lambda>s. s\<lparr>payouts := payouts s @ [p]\<rparr>) s"

definition insert_attention_result :: "attention_result \<Rightarrow> db \<Rightarrow> unit outcome" where
  "insert_attention_result a s = insert_if ''attention_results''
     (ar_id a \<notin> ar_id ` set (attention_results s) \<and> ar_task_id a \<in> t_id ` set (tasks s) \<and>
      ar_expert_id a \<in> e_id ` set (experts s) \<and> ar_grade_id a \<in> g_id ` set (grades s))
     (\<lambda>s. s\<lparr>attention_results := attention_results s @ [a]\<rparr>) s"

definition insert_api_key :: "api_key \<Rightarrow> db \<Rightarrow> unit outcome" where
  "insert_api_key k s = insert_if ''api_keys''
     (k_id k \<notin> k_id ` set (api_keys s) \<and> k_key_hash k \<notin> k_key_hash ` set (api_keys s) \<and>
      (case k_expert_id k of None \<Rightarrow> True | Some e \<Rightarrow> e \<in> e_id ` set (experts s)))
     (\<lambda>s. s\<lparr>api_keys := api_keys s @ [k]\<rparr>) s"

definition insert_delivery :: "delivery \<Rightarrow> db \<Rightarrow> unit outcome" where
  "insert_delivery d s = insert_if ''deliveries''
     (d_id d \<notin> d_id ` set (deliveries s) \<and> d_version d \<notin> d_version ` set (deliveries s))
     (\<lambda>s. s\<lparr>deliveries := deliveries s @ [d]\<rparr>) s"

lemmas insert_defs = insert_expert_def insert_tier_change_def insert_rubric_def insert_task_def
  insert_grade_def insert_review_def insert_consensus_def insert_payout_period_def insert_payout_def
  insert_attention_result_def insert_api_key_def insert_delivery_def

section \<open>The contract of a keyed table\<close>

text \<open>
  \<open>get k s\<close> reads the row with key \<open>k\<close>, \<open>modify k f s\<close> edits it in place with an edit that does not
  touch the key, \<open>keys s\<close> is the set of keys present.
\<close>

locale keyed_table =
  fixes key :: "'r \<Rightarrow> 'k"
    and get :: "'k \<Rightarrow> 's \<Rightarrow> 'r option"
    and modify :: "'k \<Rightarrow> ('r \<Rightarrow> 'r) \<Rightarrow> 's \<Rightarrow> 's"
    and keys :: "'s \<Rightarrow> 'k set"
  assumes get_key: "get k s = Some r \<Longrightarrow> key r = k"
    and get_modify: "(\<And>r. key (f r) = key r) \<Longrightarrow>
      get k' (modify k f s) = (if k' = k then map_option f (get k s) else get k' s)"
    and keys_get: "k \<in> keys s \<longleftrightarrow> get k s \<noteq> None"
begin

lemma get_modify_same [simp]:
  "(\<And>r. key (f r) = key r) \<Longrightarrow> get k (modify k f s) = map_option f (get k s)"
  by (simp add: get_modify)

lemma get_modify_other:
  "(\<And>r. key (f r) = key r) \<Longrightarrow> k' \<noteq> k \<Longrightarrow> get k' (modify k f s) = get k' s"
  by (simp add: get_modify)

lemma keys_modify:
  assumes "\<And>r. key (f r) = key r"
  shows "keys (modify k f s) = keys s"
  using assms by (auto simp: keys_get get_modify split: if_splits)

lemma get_modify_modify:
  assumes "\<And>r. key (f r) = key r" "\<And>r. key (g r) = key r"
  shows "get k' (modify k g (modify k f s)) = get k' (modify k (\<lambda>r. g (f r)) s)"
  using assms by (simp add: get_modify option.map_comp comp_def)

lemma get_modify_commute:
  assumes "\<And>r. key (f r) = key r" "\<And>r. key (g r) = key r" "j \<noteq> k"
  shows "get k' (modify k g (modify j f s)) = get k' (modify j f (modify k g s))"
  using assms by (simp add: get_modify)

end

interpretation expert_rows: keyed_table e_id get_expert modify_expert "\<lambda>s. e_id ` set (experts s)"
  by unfold_locales (auto dest: row_of_SomeD simp: row_of_update_row row_of_None_iff)

interpretation task_rows: keyed_table t_id get_task modify_task "\<lambda>s. t_id ` set (tasks s)"
  by unfold_locales (auto dest: row_of_SomeD simp: row_of_update_row row_of_None_iff)

interpretation consensus_rows:
  keyed_table co_task_id get_consensus modify_consensus "\<lambda>s. co_task_id ` set (consensuses s)"
  by unfold_locales (auto dest: row_of_SomeD simp: row_of_update_row row_of_None_iff)

end
