(* ===== verification/AuditTrail.thy ===== *)
theory AuditTrail
  imports Tables
begin

text \<open>
  The audit trail of \<open>panelist/services/audit.py\<close>: an append-only table. \<open>record\<close> appends one event
  stamped with the transaction's time and numbered by the table's identity column.
\<close>

definition record_event ::
  "string \<Rightarrow> string \<Rightarrow> string \<Rightarrow> string \<Rightarrow> (string \<times> json) list \<Rightarrow> db \<Rightarrow> db" where
  "record_event actor action entity_type entity_id payload s = s\<lparr>
     audit_events := audit_events s @
       [\<lparr>ae_id = audit_seq s, ae_actor = actor, ae_action = action, ae_entity_type = entity_type,
         ae_entity_id = entity_id, ae_payload = payload, ae_created_at = tx_now s\<rparr>],
     audit_seq := audit_seq s + 1\<rparr>"

text \<open>What a component leaves alone: an operation that only records events changes no other table.\<close>

lemma record_event_frame [simp]:
  "experts (record_event a b c d p s) = experts s"
  "tier_changes (record_event a b c d p s) = tier_changes s"
  "rubrics (record_event a b c d p s) = rubrics s"
  "rate_cards (record_event a b c d p s) = rate_cards s"
  "tasks (record_event a b c d p s) = tasks s"
  "grades (record_event a b c d p s) = grades s"
  "reviews (record_event a b c d p s) = reviews s"
  "consensuses (record_event a b c d p s) = consensuses s"
  "payout_periods (record_event a b c d p s) = payout_periods s"
  "payouts (record_event a b c d p s) = payouts s"
  "attention_results (record_event a b c d p s) = attention_results s"
  "api_keys (record_event a b c d p s) = api_keys s"
  "deliveries (record_event a b c d p s) = deliveries s"
  "task_seq (record_event a b c d p s) = task_seq s"
  "tx_now (record_event a b c d p s) = tx_now s"
  "clock_pos (record_event a b c d p s) = clock_pos s"
  "uuid_pos (record_event a b c d p s) = uuid_pos s"
  "metrics (record_event a b c d p s) = metrics s"
  by (simp_all add: record_event_def)

lemma emit_frame [simp]:
  "experts (emit m s) = experts s" "tier_changes (emit m s) = tier_changes s"
  "rubrics (emit m s) = rubrics s" "rate_cards (emit m s) = rate_cards s"
  "tasks (emit m s) = tasks s" "grades (emit m s) = grades s" "reviews (emit m s) = reviews s"
  "consensuses (emit m s) = consensuses s" "payout_periods (emit m s) = payout_periods s"
  "payouts (emit m s) = payouts s" "attention_results (emit m s) = attention_results s"
  "audit_events (emit m s) = audit_events s" "api_keys (emit m s) = api_keys s"
  "deliveries (emit m s) = deliveries s" "task_seq (emit m s) = task_seq s"
  "audit_seq (emit m s) = audit_seq s" "tx_now (emit m s) = tx_now s"
  "clock_pos (emit m s) = clock_pos s" "uuid_pos (emit m s) = uuid_pos s"
  by (simp_all add: emit_def)

section \<open>The durable part of a session\<close>

text \<open>
  \<open>core s\<close> is \<open>s\<close> without the bookkeeping no operation reads back: the audit trail, the metrics, and
  how many UUIDs and clock readings were drawn. Two sessions with the same core hold the same tables.
\<close>

definition core :: "db \<Rightarrow> db" where
  "core s = s\<lparr>audit_events := [], audit_seq := 0, clock_pos := 0, uuid_pos := 0, metrics := []\<rparr>"

lemma core_eq_iff: "core s = core s' \<longleftrightarrow>
    experts s = experts s' \<and> tier_changes s = tier_changes s' \<and> rubrics s = rubrics s' \<and>
    rate_cards s = rate_cards s' \<and> tasks s = tasks s' \<and> grades s = grades s' \<and>
    reviews s = reviews s' \<and> consensuses s = consensuses s' \<and>
    payout_periods s = payout_periods s' \<and> payouts s = payouts s' \<and>
    attention_results s = attention_results s' \<and> api_keys s = api_keys s' \<and>
    deliveries s = deliveries s' \<and> task_seq s = task_seq s' \<and> tx_now s = tx_now s'"
proof -
  have "core s = core s' \<longleftrightarrow> db.truncate (core s) = db.truncate (core s')"
    by (cases s; cases s') (simp add: core_def db.defs)
  then show ?thesis
    by (cases s; cases s') (auto simp: core_def db.defs)
qed

lemma core_fields [simp]:
  "experts (core s) = experts s" "tier_changes (core s) = tier_changes s"
  "rubrics (core s) = rubrics s" "rate_cards (core s) = rate_cards s" "tasks (core s) = tasks s"
  "grades (core s) = grades s" "reviews (core s) = reviews s" "consensuses (core s) = consensuses s"
  "payout_periods (core s) = payout_periods s" "payouts (core s) = payouts s"
  "attention_results (core s) = attention_results s" "api_keys (core s) = api_keys s"
  "deliveries (core s) = deliveries s" "task_seq (core s) = task_seq s" "tx_now (core s) = tx_now s"
  by (simp_all add: core_def)

lemma core_bookkeeping [simp]:
  "core (record_event a b c d p s) = core s"
  "core (emit m s) = core s"
  "core (core s) = core s"
  by (simp_all add: core_eq_iff)

lemma core_draws:
  "now_utc E s = (t, s') \<Longrightarrow> core s' = core s"
  "new_uuid E s = (u, s') \<Longrightarrow> core s' = core s"
  by (auto simp: now_utc_def new_uuid_def core_eq_iff)

text \<open>
  The audit trail only grows: \<open>trail_extends s s'\<close> says that the events of \<open>s\<close> are still the first
  events of \<open>s'\<close>; \<open>trail_ok\<close> says that the events are numbered upwards in the order they were written.
\<close>

definition trail_extends :: "db \<Rightarrow> db \<Rightarrow> bool" where
  "trail_extends s s' \<longleftrightarrow> prefix (audit_events s) (audit_events s')"

definition trail_ok :: "db \<Rightarrow> bool" where
  "trail_ok s \<longleftrightarrow> sorted_wrt (<) (map ae_id (audit_events s)) \<and>
     (\<forall>a \<in> set (audit_events s). ae_id a < audit_seq s)"

lemma trail_extends_refl [simp]: "trail_extends s s"
  by (simp add: trail_extends_def)

lemma trail_extends_trans: "trail_extends s s1 \<Longrightarrow> trail_extends s1 s' \<Longrightarrow> trail_extends s s'"
  by (auto simp: trail_extends_def)

lemma trail_extends_record_event [simp]: "trail_extends s s' \<Longrightarrow> trail_extends s (record_event a b c d p s')"
  by (auto simp: trail_extends_def record_event_def intro: prefix_prefix)

lemma trail_ok_record_event [simp]: "trail_ok s \<Longrightarrow> trail_ok (record_event a b c d p s)"
  by (auto simp: trail_ok_def record_event_def sorted_wrt_append)

text \<open>
  \<open>trail_step s s'\<close>: what every operation of the service does to the trail, growing it by numbered
  events at its end.
\<close>

definition trail_step :: "db \<Rightarrow> db \<Rightarrow> bool" where
  "trail_step s s' \<longleftrightarrow> trail_extends s s' \<and> (trail_ok s \<longrightarrow> trail_ok s')"

lemma trail_step_refl [simp]: "trail_step s s"
  by (simp add: trail_step_def)

lemma trail_step_trans [trans]: "trail_step s s1 \<Longrightarrow> trail_step s1 s' \<Longrightarrow> trail_step s s'"
  by (auto simp: trail_step_def intro: trail_extends_trans)

lemma trail_step_record_event [simp]: "trail_step s s' \<Longrightarrow> trail_step s (record_event a b c d p s')"
  by (simp add: trail_step_def)

lemma trail_step_same:
  "audit_events s' = audit_events s \<Longrightarrow> audit_seq s' = audit_seq s \<Longrightarrow> trail_step s s'"
  by (simp add: trail_step_def trail_extends_def trail_ok_def)

lemma trail_step_cong:
  "audit_events s1 = audit_events s \<Longrightarrow> audit_seq s1 = audit_seq s \<Longrightarrow> trail_step s1 s' = trail_step s s'"
  "audit_events s1 = audit_events s \<Longrightarrow> audit_seq s1 = audit_seq s \<Longrightarrow> trail_step s' s1 = trail_step s' s"
  by (simp_all add: trail_step_def trail_extends_def trail_ok_def)

lemma trail_step_emit [simp]:
  "trail_step s (emit m s') = trail_step s s'" "trail_step (emit m s) s' = trail_step s s'"
  by (rule trail_step_cong; simp)+

end
