(* ===== verification/Samples.thy ===== *)
theory Samples
  imports AuditTrail
begin

text \<open>
  A small concrete world the witnesses evaluate the service on: three experts, one rubric, a
  two-grader task, a single-grader task and a golden task, rate cards and two keys, under the default
  settings with every serve preferring a golden task.
\<close>

definition sample_env :: env where
  "sample_env = \<lparr>cfg = default_settings\<lparr>attention_fraction := 1\<rparr>, clock = (\<lambda>n. seconds (int n + 100)),
     uuid4 = (\<lambda>n. 1000 + n), sha256 = (\<lambda>_. replicate 32 0), counter_accepts = (\<lambda>n. 0 \<le> n),
     collate = (\<lambda>name. of_nat (length name)), float_repr = (\<lambda>x. str_int \<lfloor>x\<rfloor> @ ''.0'')\<rparr>"

definition sample_expert :: "uuid \<Rightarrow> string \<Rightarrow> tier \<Rightarrow> expert" where
  "sample_expert i name tr = \<lparr>e_id = i, e_name = name, e_tags = [''python''], e_tier = tr,
     e_task_rate_cents = None, e_status = Active, e_served_count = 0, e_calibration_score = None,
     e_calibration_samples = 0, e_tier_updated_at = None, e_created_at = 0\<rparr>"

definition sample_criterion :: "uuid \<Rightarrow> string \<Rightarrow> rat \<Rightarrow> criterion" where
  "sample_criterion i key w = \<lparr>c_id = i, c_key = key, c_label = key, c_weight = w, c_scale_min = 1,
     c_scale_max = 5, c_position = int i\<rparr>"

definition sample_rubric :: rubric where
  "sample_rubric = \<lparr>r_id = 10, r_name = ''quality'', r_version = 1,
     r_criteria = [sample_criterion 11 ''accuracy'' 2, sample_criterion 12 ''clarity'' 1],
     r_created_at = 0, r_superseded_at = None, r_superseded_by_id = None\<rparr>"

definition sample_task :: "uuid \<Rightarrow> int \<Rightarrow> bool \<Rightarrow> task" where
  "sample_task i k golden = \<lparr>t_id = i, t_seq = int i, t_external_ref = None, t_prompt = ''Explain'',
     t_responses = [JStr ''text''], t_required_tags = [''python''], t_task_type = ''single'',
     t_min_tier = Junior, t_rubric_id = 10, t_pinned_rubric_id = None, t_priority = 0,
     t_deadline = None, t_status = Queued, t_required_grades = k, t_grades_received = 0,
     t_is_attention_check = golden,
     t_expected_scores = (if golden then Some [(''accuracy'', 4), (''clarity'', 4)] else None),
     t_assigned_expert_id = None, t_assigned_at = None, t_lease_expires_at = None,
     t_reclaim_count = 0, t_created_at = 0\<rparr>"

definition sample_grade :: "uuid \<Rightarrow> uuid \<Rightarrow> uuid \<Rightarrow> rat \<Rightarrow> grade" where
  "sample_grade i tid eid w = \<lparr>g_id = i, g_task_id = tid, g_expert_id = eid, g_rubric_id = 10,
     g_scores_snapshot = [(''accuracy'', w), (''clarity'', w)], g_rationale = ''sound'',
     g_time_spent_seconds = 60, g_weighted_score = w, g_submitted_at = int i,
     g_scores = [\<lparr>gs_criterion_id = 11, gs_score = w\<rparr>, \<lparr>gs_criterion_id = 12, gs_score = w\<rparr>]\<rparr>"

definition sample_payout :: "uuid \<Rightarrow> grade \<Rightarrow> int \<Rightarrow> payout_status \<Rightarrow> payout" where
  "sample_payout i g cents st = \<lparr>p_id = i, p_expert_id = g_expert_id g, p_task_id = g_task_id g,
     p_grade_id = g_id g, p_tier = Junior, p_task_type = ''single'', p_amount_cents = cents,
     p_status = st, p_period_id = None, p_created_at = 0, p_paid_at = None\<rparr>"

definition sample_review :: "uuid \<Rightarrow> uuid \<Rightarrow> review_decision \<Rightarrow> review" where
  "sample_review i gid d = \<lparr>rv_id = i, rv_grade_id = gid, rv_reviewer_key_id = 31, rv_decision = d,
     rv_reason = None, rv_created_at = int i\<rparr>"

definition sample_check :: "uuid \<Rightarrow> uuid \<Rightarrow> bool \<Rightarrow> attention_result" where
  "sample_check i eid ok = \<lparr>ar_id = i, ar_task_id = 22, ar_expert_id = eid, ar_grade_id = 0,
     ar_passed = ok, ar_max_deviation = (if ok then 0 else 3), ar_created_at = int i\<rparr>"

definition sample_key :: "uuid \<Rightarrow> role \<Rightarrow> uuid option \<Rightarrow> api_key" where
  "sample_key i r e = \<lparr>k_id = i, k_key_hash = nat_digits i, k_role = r, k_expert_id = e, k_label = [],
     k_created_at = 0, k_revoked_at = None\<rparr>"

definition sample_db :: db where
  "sample_db = empty_db\<lparr>
     experts := [sample_expert 4 ''ada'' Senior, sample_expert 2 ''bob'' Junior, sample_expert 3 ''cyd'' Lead],
     rubrics := [sample_rubric],
     rate_cards := [\<lparr>rc_tier = Junior, rc_task_type = ''default'', rc_rate_cents = 301\<rparr>,
                    \<lparr>rc_tier = Senior, rc_task_type = ''default'', rc_rate_cents = 500\<rparr>,
                    \<lparr>rc_tier = Lead, rc_task_type = ''default'', rc_rate_cents = 800\<rparr>],
     tasks := [sample_task 20 2 False, sample_task 21 1 False, sample_task 22 1 True],
     api_keys := [sample_key 31 ReviewerRole None, sample_key 32 SeniorReviewerRole None],
     task_seq := 23\<rparr>"

lemmas sample_defs = sample_env_def sample_expert_def sample_criterion_def sample_rubric_def
  sample_task_def sample_grade_def sample_payout_def sample_review_def sample_check_def
  sample_key_def sample_db_def empty_db_def default_settings_def

lemma sample_settings:
  "lease_seconds (cfg sample_env) = 900" "attention_fraction (cfg sample_env) = 1"
  "attention_window (cfg sample_env) = 10" "attention_min_checks (cfg sample_env) = 3"
  "attention_threshold (cfg sample_env) = 7 / 10" "attention_tolerance (cfg sample_env) = 1"
  "calibration_window (cfg sample_env) = 20" "calibration_min_samples (cfg sample_env) = 5"
  "calibration_promote_at (cfg sample_env) = 9 / 10" "calibration_demote_at (cfg sample_env) = 6 / 10"
  "consensus_tolerance (cfg sample_env) = 1" "consensus_outvoted_payout (cfg sample_env) = PayPartial"
  "consensus_outvoted_rate (cfg sample_env) = 1 / 2"
  "clock sample_env n = seconds (int n + 100)" "uuid4 sample_env n = 1000 + n"
  "sha256 sample_env text = replicate 32 0" "counter_accepts sample_env m = (0 \<le> m)"
  "collate sample_env text = of_nat (length text)" "float_repr sample_env x = str_int \<lfloor>x\<rfloor> @ ''.0''"
  by (simp_all add: sample_env_def default_settings_def)

end
