(* ===== verification/Auth.thy ===== *)
theory Auth
  imports AuditTrail Samples
begin

text \<open>
  API keys of \<open>panelist/auth.py\<close> and the admin routes of \<open>panelist/routers/admin.py\<close> that issue and revoke
  them: the scopes of each role, authentication by the SHA-256 of the raw key, the scope guard of every
  endpoint and the expert a key is bound to. The random text of a new key is an argument.
\<close>

section \<open>Roles and scopes\<close>

definition reviewer_scopes :: "string list" where
  "reviewer_scopes = [''grades:read'', ''reviews:write'', ''tasks:read'', ''payouts:read'', ''analytics:read'', ''deliveries:read'']"

fun scopes_of :: "role \<Rightarrow> string list" where
  "scopes_of ExpertRole = [''tasks:claim'', ''grades:write'', ''experts:self'']"
| "scopes_of ReviewerRole = reviewer_scopes"
| "scopes_of SeniorReviewerRole = reviewer_scopes @ [''adjudications:write'']"
| "scopes_of AdminRole = [''tasks:claim'', ''grades:write'', ''grades:read'', ''reviews:write'', ''adjudications:write'',
     ''tasks:read'', ''tasks:write'', ''experts:self'', ''experts:write'', ''payouts:read'', ''payouts:write'',
     ''analytics:read'', ''deliveries:read'', ''deliveries:write'', ''rubrics:write'', ''admin'']"

record principal =
  pr_key_id :: uuid
  pr_role :: role
  pr_expert_id :: "uuid option"
  pr_scopes :: "string list"

definition actor_of :: "principal \<Rightarrow> string" where
  "actor_of p = role_value (pr_role p) @ '':'' @ str_uuid (pr_key_id p)"

section \<open>Keys\<close>

definition hash_key :: "env \<Rightarrow> string \<Rightarrow> string" where
  "hash_key E raw = hexdigest (sha256 E raw)"

definition generate_key :: "role \<Rightarrow> string \<Rightarrow> string" where
  "generate_key r token = ''pk_'' @ role_value r @ ''_'' @ token"

definition issue_key :: "env \<Rightarrow> role \<Rightarrow> uuid option \<Rightarrow> string \<Rightarrow> string \<Rightarrow> db \<Rightarrow> (api_key \<times> string) outcome" where
  "issue_key E r expert_id label token s =
    (let raw = generate_key r token;
         (kid, s1) = new_uuid E s;
         k = \<lparr>k_id = kid, k_key_hash = hash_key E raw, k_role = r, k_expert_id = expert_id, k_label = label,
              k_created_at = tx_now s1, k_revoked_at = None\<rparr>
     in and_then (insert_api_key k s1) (\<lambda>_ s2. (Inr (k, raw), s2)))"

definition authenticate :: "env \<Rightarrow> string option \<Rightarrow> db \<Rightarrow> principal outcome" where
  "authenticate E raw s =
    (case raw of
       None \<Rightarrow> (Inl (HTTPException 401 MissingApiKey), s)
     | Some text \<Rightarrow>
        if text = [] then (Inl (HTTPException 401 MissingApiKey), s)
        else (case find (\<lambda>k. k_key_hash k = hash_key E text \<and> k_revoked_at k = None) (api_keys s) of
                None \<Rightarrow> (Inl (HTTPException 401 InvalidApiKey), s)
              | Some k \<Rightarrow> (Inr \<lparr>pr_key_id = k_id k, pr_role = k_role k, pr_expert_id = k_expert_id k,
                               pr_scopes = scopes_of (k_role k)\<rparr>, s)))"

definition require_scopes :: "env \<Rightarrow> string list \<Rightarrow> string option \<Rightarrow> db \<Rightarrow> principal outcome" where
  "require_scopes E needed raw s = and_then (authenticate E raw s) (\<lambda>p s.
    let missing = filter (\<lambda>x. x \<notin> set (pr_scopes p)) needed
    in if missing \<noteq> [] then (Inl (HTTPException 403 (MissingScopes missing)), s) else (Inr p, s))"

definition current_expert :: "env \<Rightarrow> string option \<Rightarrow> db \<Rightarrow> expert outcome" where
  "current_expert E raw s = and_then (require_scopes E [''experts:self''] raw s) (\<lambda>p s.
    case pr_expert_id p of
      None \<Rightarrow> (Inl (HTTPException 403 KeyNotBoundToExpert), s)
    | Some eid \<Rightarrow> (case get_expert eid s of
          None \<Rightarrow> (Inl (HTTPException 404 ExpertNotFound), s)
        | Some e \<Rightarrow> (Inr e, s)))"

section \<open>Issuing and revoking\<close>

definition create_key :: "env \<Rightarrow> principal \<Rightarrow> role \<Rightarrow> uuid option \<Rightarrow> string \<Rightarrow> string \<Rightarrow> db \<Rightarrow> (api_key \<times> string) outcome" where
  "create_key E p r expert_id label token s =
    and_then (issue_key E r expert_id label token s) (\<lambda>(k, raw) s.
      (Inr (k, raw), record_event (actor_of p) ''apikey.issued'' ''api_key'' (str_uuid (k_id k))
         [(''role'', JStr (role_value r))] s))"

definition revoked :: "time \<Rightarrow> api_key \<Rightarrow> api_key" where
  "revoked now k = k\<lparr>k_revoked_at := Some now\<rparr>"

definition revoke_key :: "env \<Rightarrow> principal \<Rightarrow> uuid \<Rightarrow> db \<Rightarrow> unit outcome" where
  "revoke_key E p kid s =
    (case get_api_key kid s of
       None \<Rightarrow> (Inl (HTTPException 404 ApiKeyNotFound), s)
     | Some k \<Rightarrow>
        if k_revoked_at k = None
        then (let (now, s1) = now_utc E s in
              (Inr (), record_event (actor_of p) ''apikey.revoked'' ''api_key'' (str_uuid (k_id k))
                 [(''role'', JStr (role_value (k_role k)))]
                 (s1\<lparr>api_keys := update_row k_id kid (revoked now) (api_keys s1)\<rparr>)))
        else (Inr (), s))"

section \<open>What authentication decides\<close>

text \<open>\<open>holds_key\<close>: the unrevoked key a raw key authenticates as.\<close>

definition holds_key :: "env \<Rightarrow> string option \<Rightarrow> api_key \<Rightarrow> db \<Rightarrow> bool" where
  "holds_key E raw k s \<longleftrightarrow> (\<exists>text. raw = Some text \<and> text \<noteq> [] \<and>
     find (\<lambda>k. k_key_hash k = hash_key E text \<and> k_revoked_at k = None) (api_keys s) = Some k)"

definition as_principal :: "api_key \<Rightarrow> principal" where
  "as_principal k = \<lparr>pr_key_id = k_id k, pr_role = k_role k, pr_expert_id = k_expert_id k, pr_scopes = scopes_of (k_role k)\<rparr>"

lemma holds_key_unique: "holds_key E raw k s \<Longrightarrow> holds_key E raw k' s \<Longrightarrow> k' = k"
  by (auto simp: holds_key_def)

lemma holds_keyD:
  assumes "holds_key E raw k s"
  shows "k \<in> set (api_keys s)" "k_revoked_at k = None" "k_key_hash k = hash_key E (the raw)"
  using assms by (auto simp: holds_key_def find_Some_iff)

lemma authenticate_run: "holds_key E raw k s \<Longrightarrow> authenticate E raw s = (Inr (as_principal k), s)"
  by (auto simp: authenticate_def holds_key_def as_principal_def)

lemma authenticate_refuses:
  "(\<And>k. \<not> holds_key E raw k s) \<Longrightarrow> \<exists>d. authenticate E raw s = (Inl (HTTPException 401 d), s)"
  by (auto simp: authenticate_def holds_key_def split: option.splits)

lemma require_scopes_run:
  "holds_key E raw k s \<Longrightarrow> require_scopes E needed raw s =
     (let missing = filter (\<lambda>x. x \<notin> set (scopes_of (k_role k))) needed
      in if missing \<noteq> [] then (Inl (HTTPException 403 (MissingScopes missing)), s) else (Inr (as_principal k), s))"
  by (simp add: require_scopes_def authenticate_run) (simp add: as_principal_def)

lemma require_scopes_unknown:
  "(\<And>k. \<not> holds_key E raw k s) \<Longrightarrow> \<exists>d. require_scopes E needed raw s = (Inl (HTTPException 401 d), s)"
  using authenticate_refuses [of E raw s] by (auto simp: require_scopes_def)

lemma require_scopes_returns:
  "require_scopes E needed raw s = (Inr p, s') \<longleftrightarrow>
     s' = s \<and> (\<exists>k. holds_key E raw k s \<and> p = as_principal k \<and> set needed \<subseteq> set (scopes_of (k_role k)))"
proof (cases "\<exists>k. holds_key E raw k s")
  case True
  then obtain k where k: "holds_key E raw k s" by blast
  then have "holds_key E raw k' s \<longleftrightarrow> k' = k" for k'
    using holds_key_unique [OF k] by blast
  then show ?thesis
    by (auto simp: require_scopes_run [OF k] Let_def filter_empty_conv)
next
  case False
  then show ?thesis using require_scopes_unknown [of E raw s needed] by auto
qed

lemma require_scopes_raises:
  "require_scopes E needed raw s = (Inl x, s') \<Longrightarrow> s' = s \<and> (\<exists>d. x = HTTPException 401 d \<or> x = HTTPException 403 d)"
proof (cases "\<exists>k. holds_key E raw k s")
  case True
  then obtain k where "holds_key E raw k s" by blast
  then show "require_scopes E needed raw s = (Inl x, s') \<Longrightarrow> ?thesis"
    by (auto simp: require_scopes_run Let_def split: if_splits)
next
  case False
  then show "require_scopes E needed raw s = (Inl x, s') \<Longrightarrow> ?thesis"
    using require_scopes_unknown [of E raw s needed] by auto
qed

lemma current_expert_returns:
  "current_expert E raw s = (Inr e, s') \<longleftrightarrow>
     s' = s \<and> (\<exists>k eid. holds_key E raw k s \<and> ''experts:self'' \<in> set (scopes_of (k_role k)) \<and>
       k_expert_id k = Some eid \<and> get_expert eid s = Some e)" (is "?run \<longleftrightarrow> ?ok")
proof
  assume ?run
  then obtain p s1 where p: "require_scopes E [''experts:self''] raw s = (Inr p, s1)"
    and rest: "(case pr_expert_id p of None \<Rightarrow> (Inl (HTTPException 403 KeyNotBoundToExpert), s1)
      | Some eid \<Rightarrow> (case get_expert eid s1 of None \<Rightarrow> (Inl (HTTPException 404 ExpertNotFound), s1) | Some e \<Rightarrow> (Inr e, s1)))
      = (Inr e, s')"
    unfolding current_expert_def and_then_returns by blast
  from p obtain k where "s1 = s" "holds_key E raw k s" "p = as_principal k" "''experts:self'' \<in> set (scopes_of (k_role k))"
    unfolding require_scopes_returns by auto
  with rest show ?ok by (auto simp: as_principal_def split: option.splits)
next
  assume ?ok
  then obtain k eid where k: "s' = s" "holds_key E raw k s" "''experts:self'' \<in> set (scopes_of (k_role k))"
    "k_expert_id k = Some eid" "get_expert eid s = Some e" by blast
  then show ?run
    by (simp add: current_expert_def require_scopes_run [OF k(2)]) (simp add: as_principal_def k)
qed

lemma current_expert_raises: "current_expert E raw s = (Inl x, s') \<Longrightarrow> s' = s"
  by (auto simp: current_expert_def and_then_raises require_scopes_returns dest: require_scopes_raises split: option.splits)

lemma issue_key_cases:
  assumes "issue_key E r expert_id label token s = (Inr (k, raw), s')"
  obtains "raw = generate_key r token" "k = \<lparr>k_id = uuid4 E (uuid_pos s), k_key_hash = hash_key E raw, k_role = r,
      k_expert_id = expert_id, k_label = label, k_created_at = tx_now s, k_revoked_at = None\<rparr>"
    "k_id k \<notin> k_id ` set (api_keys s)" "k_key_hash k \<notin> k_key_hash ` set (api_keys s)"
    "\<And>e. expert_id = Some e \<Longrightarrow> e \<in> e_id ` set (experts s)"
    "core s' = core (s\<lparr>api_keys := api_keys s @ [k]\<rparr>)" "trail_step s s'"
  using assms by (auto simp: issue_key_def new_uuid_def insert_api_key_def result_simps Let_def core_eq_iff trail_step_same
      split: option.splits)

lemma create_key_cases:
  assumes "create_key E p r expert_id label token s = (Inr (k, raw), s')"
  obtains s1 where "issue_key E r expert_id label token s = (Inr (k, raw), s1)" "core s' = core s1" "trail_step s1 s'"
  using assms by (auto simp: create_key_def result_simps)

lemma revoke_key_cases [consumes 1, case_names stamped already]:
  assumes "revoke_key E p kid s = (Inr u, s')"
  obtains k where "get_api_key kid s = Some k" "k_revoked_at k = None"
      "core s' = core (s\<lparr>api_keys := update_row k_id kid (revoked (clock E (clock_pos s))) (api_keys s)\<rparr>)" "trail_step s s'"
  | k where "get_api_key kid s = Some k" "k_revoked_at k \<noteq> None" "s' = s"
proof (cases "get_api_key kid s")
  case None
  then show thesis using assms by (simp add: revoke_key_def)
next
  case (Some k)
  show thesis
  proof (cases "k_revoked_at k = None")
    case True
    have s': "s' = record_event (actor_of p) ''apikey.revoked'' ''api_key'' (str_uuid (k_id k))
         [(''role'', JStr (role_value (k_role k)))]
         (s\<lparr>clock_pos := Suc (clock_pos s), api_keys := update_row k_id kid (revoked (clock E (clock_pos s))) (api_keys s)\<rparr>)"
      using assms by (simp add: revoke_key_def Some True now_utc_def)
    show thesis by (rule that(1) [OF Some True]) (simp_all add: s' core_eq_iff trail_step_same)
  next
    case False
    then have "s' = s" using assms by (auto simp: revoke_key_def Some)
    then show thesis by (rule that(2) [OF Some False])
  qed
qed

section \<open>The life of a key\<close>

lemma find_append: "find P (xs @ ys) = (if find P xs = None then find P ys else find P xs)"
  by (induction xs) auto

text \<open>
  C28: a key works from its issue to its revocation. The raw text handed out when a key is issued
  authenticates as that key, with its role, its expert and the scopes of the role; once the key is
  revoked, the same text is refused, and revoking it again changes nothing.
\<close>
theorem issued_key_works_until_revoked:
  assumes "issue_key E r expert_id label token s = (Inr (k, raw), s1)"
  shows "authenticate E (Some raw) s1 = (Inr \<lparr>pr_key_id = k_id k, pr_role = r, pr_expert_id = expert_id,
      pr_scopes = scopes_of r\<rparr>, s1) \<and>
    (\<exists>s2. revoke_key E p (k_id k) s1 = (Inr (), s2) \<and>
       authenticate E (Some raw) s2 = (Inl (HTTPException 401 InvalidApiKey), s2) \<and>
       revoke_key E p (k_id k) s2 = (Inr (), s2))"
proof -
  from assms have raw: "raw = generate_key r token" and k: "k = \<lparr>k_id = uuid4 E (uuid_pos s), k_key_hash = hash_key E raw, k_role = r,
      k_expert_id = expert_id, k_label = label, k_created_at = tx_now s, k_revoked_at = None\<rparr>"
    and new: "k_id k \<notin> k_id ` set (api_keys s)" "k_key_hash k \<notin> k_key_hash ` set (api_keys s)"
    and s1: "core s1 = core (s\<lparr>api_keys := api_keys s @ [k]\<rparr>)"
    by (auto elim: issue_key_cases)
  have keys: "api_keys s1 = api_keys s @ [k]" using s1 by (simp add: core_eq_iff)
  have given: "raw \<noteq> []" by (simp add: raw generate_key_def)
  have hash: "k_key_hash k = hash_key E raw" "k_revoked_at k = None" by (simp_all add: k)
  have other: "k_key_hash x \<noteq> hash_key E raw" if "x \<in> set (api_keys s)" for x
    using new(2) that unfolding hash(1) by (metis imageI)
  then have "find (\<lambda>k. k_key_hash k = hash_key E raw \<and> k_revoked_at k = None) (api_keys s) = None"
    by (auto simp: find_None_iff)
  then have "find (\<lambda>k. k_key_hash k = hash_key E raw \<and> k_revoked_at k = None) (api_keys s @ [k]) = Some k"
    using hash by (simp add: find_append)
  then have "holds_key E (Some raw) k s1" by (simp add: holds_key_def keys given)
  then have works: "authenticate E (Some raw) s1 = (Inr (as_principal k), s1)" by (rule authenticate_run)
  have absent: "get_api_key (k_id k) s = None" by (rule iffD2 [OF row_of_None_iff new(1)])
  have get: "get_api_key (k_id k) s1 = Some k"
    by (simp add: keys row_of_append absent)
  define now where "now = clock E (clock_pos s1)"
  define s2 where "s2 = record_event (actor_of p) ''apikey.revoked'' ''api_key'' (str_uuid (k_id k))
         [(''role'', JStr (role_value (k_role k)))]
         (s1\<lparr>clock_pos := Suc (clock_pos s1), api_keys := update_row k_id (k_id k) (revoked now) (api_keys s1)\<rparr>)"
  have rv: "revoke_key E p (k_id k) s1 = (Inr (), s2)"
    by (simp add: revoke_key_def get hash(2) now_utc_def s2_def now_def)
  have keys2: "api_keys s2 = api_keys s @ [revoked now k]"
  proof -
    have "update_row k_id (k_id k) (revoked now) (api_keys s) = api_keys s" by (rule update_row_unknown [OF new(1)])
    then show ?thesis by (simp add: s2_def keys update_row_def)
  qed
  have "find (\<lambda>k. k_key_hash k = hash_key E raw \<and> k_revoked_at k = None) (api_keys s2) = None"
    using other by (auto simp: keys2 find_None_iff revoked_def)
  then have refused: "authenticate E (Some raw) s2 = (Inl (HTTPException 401 InvalidApiKey), s2)"
    by (simp add: authenticate_def given)
  have "get_api_key (k_id k) s2 = Some (revoked now k)"
    by (simp add: keys2 row_of_append absent revoked_def)
  then have "revoke_key E p (k_id k) s2 = (Inr (), s2)" by (simp add: revoke_key_def revoked_def)
  with works rv refused show ?thesis by (auto simp: as_principal_def k)
qed

theorem issued_key_works_until_revoked_witness:
  "\<exists>k raw s1. issue_key sample_env ReviewerRole None ''ci'' ''abc'' sample_db = (Inr (k, raw), s1) \<and> raw = ''pk_reviewer_abc'' \<and>
     (\<exists>s2. revoke_key sample_env \<lparr>pr_key_id = 1, pr_role = AdminRole, pr_expert_id = None, pr_scopes = []\<rparr> (k_id k) s1 = (Inr (), s2) \<and>
        authenticate sample_env (Some raw) s2 = (Inl (HTTPException 401 InvalidApiKey), s2))"
proof -
  have h: "hash_key sample_env w \<notin> k_key_hash ` set (api_keys sample_db)" for w
  proof -
    have "length (hash_key sample_env w) = 64"
      by (simp add: hash_key_def hexdigest_def sample_settings length_concat comp_def sum_list_replicate)
    moreover have "\<forall>k \<in> set (api_keys sample_db). length (k_key_hash k) = 2"
      by (simp add: sample_db_def sample_key_def nat_digits.simps)
    ultimately show ?thesis by auto
  qed
  obtain k raw s1 where run: "issue_key sample_env ReviewerRole None ''ci'' ''abc'' sample_db = (Inr (k, raw), s1)"
    using h [of "generate_key ReviewerRole ''abc''"]
    by (auto simp: issue_key_def new_uuid_def insert_api_key_def insert_if_def sample_settings Let_def)
      (simp_all add: sample_db_def empty_db_def sample_key_def)
  then have "raw = ''pk_reviewer_abc''" by (auto simp: generate_key_def elim: issue_key_cases)
  then show ?thesis using run issued_key_works_until_revoked [OF run] by blast
qed

end
