(* ===== verification/Payouts.thy ===== *)
theory Payouts
  imports Samples
begin

text \<open>
  \<open>panelist/services/payouts.py\<close>: the rate of a task, one payout per approved grade, the release of
  withheld payouts, the close of a pay period, and the totals derived from the ledger.
\<close>

section \<open>Rates and payouts\<close>

definition get_rate_card :: "tier \<Rightarrow> string \<Rightarrow> db \<Rightarrow> rate_card option" where
  "get_rate_card tr ty s = find (\<lambda>c. rc_tier c = tr \<and> rc_task_type c = ty) (rate_cards s)"

definition rate_for :: "expert \<Rightarrow> string \<Rightarrow> db \<Rightarrow> int outcome" where
  "rate_for e task_type s =
    (case e_task_rate_cents e of
       Some cents \<Rightarrow> (Inr cents, s)
     | None \<Rightarrow>
        (case (case get_rate_card (e_tier e) task_type s of
                 Some c \<Rightarrow> Some c
               | None \<Rightarrow> get_rate_card (e_tier e) ''default'' s) of
           None \<Rightarrow> (Inl (ServiceError 422 (NoRateConfigured (e_tier e) task_type)), s)
         | Some rc \<Rightarrow> (Inr (rc_rate_cents rc), s)))"

definition create_for_grade :: "env \<Rightarrow> grade \<Rightarrow> task \<Rightarrow> string \<Rightarrow> rat \<Rightarrow> db \<Rightarrow> payout outcome" where
  "create_for_grade E g t actor fraction s =
    (case get_payout (g_id g) s of
       Some existing \<Rightarrow> (Inr existing, s)
     | None \<Rightarrow> the_row ''grade.expert'' (get_expert (g_expert_id g) s) (\<lambda>e s.
         and_then (rate_for e (t_task_type t) s) (\<lambda>rate s.
           let amount = py_round (of_int rate * fraction);
               status = (if e_status e = Paused then Withheld else Pending);
               (pid, s1) = new_uuid E s;
               p = \<lparr>p_id = pid, p_expert_id = e_id e, p_task_id = t_id t, p_grade_id = g_id g,
                    p_tier = e_tier e, p_task_type = t_task_type t, p_amount_cents = amount,
                    p_status = status, p_period_id = None, p_created_at = tx_now s1,
                    p_paid_at = None\<rparr>
           in and_then (insert_payout p s1) (\<lambda>_ s2.
                if counter_accepts E amount
                then (Inr p, record_event actor ''payout.created'' ''payout'' (str_uuid pid)
                               [(''amount_cents'', JInt amount)]
                               (emit (PAYOUT_CENTS status amount) (emit (PAYOUTS status) s2)))
                else (Inl (ValueError ''counter''), emit (PAYOUTS status) s2)))) s)"

definition release_withheld :: "uuid \<Rightarrow> string \<Rightarrow> db \<Rightarrow> int \<times> db" where
  "release_withheld eid actor s =
    (let mine = (\<lambda>p. p_expert_id p = eid \<and> p_status p = Withheld);
         n = row_count mine (payouts s);
         s1 = s\<lparr>payouts := update_where mine (\<lambda>p. p\<lparr>p_status := Pending\<rparr>) (payouts s)\<rparr>
     in (n, record_event actor ''payout.released'' ''expert'' (str_uuid eid) [(''count'', JInt n)] s1))"

definition close_period :: "env \<Rightarrow> string \<Rightarrow> string \<Rightarrow> db \<Rightarrow> payout_period outcome" where
  "close_period E label actor s =
    (if label \<in> pp_label ` set (payout_periods s)
     then (Inl (ServiceError 409 (PeriodAlreadyClosed label)), s)
     else let (pid, s1) = new_uuid E s;
              period = \<lparr>pp_id = pid, pp_label = label, pp_closed_at = tx_now s1\<rparr>
          in and_then (insert_payout_period period s1) (\<lambda>_ s2.
               let (now, s3) = now_utc E s2;
                   s4 = s3\<lparr>payouts := update_where
                     (\<lambda>p. p_status p = Pending \<and> p_period_id p = None)
                     (\<lambda>p. p\<lparr>p_status := Paid, p_period_id := Some pid, p_paid_at := Some now\<rparr>)
                     (payouts s3)\<rparr>
               in (Inr period, record_event actor ''period.closed'' ''payout_period'' (str_uuid pid)
                     [(''label'', JStr label)] s4)))"

section \<open>Totals\<close>

record period_summary =
  ps_id :: uuid
  ps_label :: string
  ps_closed_at :: time
  ps_payout_count :: int
  ps_total_cents :: int
  ps_expert_count :: int

definition cents_where :: "(payout \<Rightarrow> bool) \<Rightarrow> payout list \<Rightarrow> int" where
  "cents_where p ps = sum_list (map p_amount_cents (filter p ps))"

definition period_totals :: "payout_period \<Rightarrow> db \<Rightarrow> period_summary" where
  "period_totals period s =
    (let mine = (\<lambda>p. p_period_id p = Some (pp_id period)) in
     \<lparr>ps_id = pp_id period, ps_label = pp_label period, ps_closed_at = pp_closed_at period,
      ps_payout_count = row_count mine (payouts s),
      ps_total_cents = cents_where mine (payouts s),
      ps_expert_count = int (length (remdups (map p_expert_id (filter mine (payouts s)))))\<rparr>)"

fun payout_status_rank :: "payout_status \<Rightarrow> nat" where
  "payout_status_rank Pending = 0"
| "payout_status_rank Withheld = 1"
| "payout_status_rank Paid = 2"

definition all_payout_statuses :: "payout_status list" where
  "all_payout_statuses = [Pending, Withheld, Paid]"

record ledger_row =
  lr_expert_id :: uuid
  lr_expert_name :: string
  lr_status :: payout_status
  lr_payout_count :: int
  lr_total_cents :: int

record ledger_view =
  lv_rows :: "ledger_row list"
  lv_totals_by_status :: "(payout_status \<times> int) list"
  lv_grand_total_cents :: int

definition payout_expert_join :: "db \<Rightarrow> (payout \<times> expert) list" where
  "payout_expert_join s =
    concat (map (\<lambda>p. map (Pair p) (filter (\<lambda>e. e_id e = p_expert_id p) (experts s))) (payouts s))"

definition ledger_group :: "payout \<times> expert \<Rightarrow> uuid \<times> string \<times> payout_status" where
  "ledger_group = (\<lambda>(p, e). (p_expert_id p, e_name e, p_status p))"

definition ledger_rows :: "env \<Rightarrow> db \<Rightarrow> ledger_row list" where
  "ledger_rows E s =
    (let joined = payout_expert_join s;
         groups = remdups (map ledger_group joined);
         ordered = sort_key (\<lambda>(_, name, status). (collate E name, payout_status_rank status)) groups
     in map (\<lambda>(eid, name, status).
               let members = filter (\<lambda>x. ledger_group x = (eid, name, status)) joined in
               \<lparr>lr_expert_id = eid, lr_expert_name = name, lr_status = status,
                lr_payout_count = int (length members),
                lr_total_cents = sum_list (map (p_amount_cents \<circ> fst) members)\<rparr>) ordered)"

definition ledger :: "env \<Rightarrow> db \<Rightarrow> ledger_view" where
  "ledger E s =
    (let rows = ledger_rows E s;
         by_status = map (\<lambda>st. (st, sum_list (map lr_total_cents (filter (\<lambda>r. lr_status r = st) rows))))
                       all_payout_statuses
     in \<lparr>lv_rows = rows, lv_totals_by_status = by_status,
         lv_grand_total_cents = sum_list (map snd by_status)\<rparr>)"

definition merge_rate_card :: "rate_card \<Rightarrow> db \<Rightarrow> db" where
  "merge_rate_card c s =
    (if \<exists>c' \<in> set (rate_cards s). rc_tier c' = rc_tier c \<and> rc_task_type c' = rc_task_type c
     then s\<lparr>rate_cards := update_where
            (\<lambda>c'. rc_tier c' = rc_tier c \<and> rc_task_type c' = rc_task_type c) (\<lambda>_. c) (rate_cards s)\<rparr>
     else s\<lparr>rate_cards := rate_cards s @ [c]\<rparr>)"

definition seed_rate_card :: "(tier \<times> (string \<times> int) list) list \<Rightarrow> db \<Rightarrow> db" where
  "seed_rate_card rates s =
    fold (\<lambda>(tr, by_type). fold (\<lambda>(ty, cents).
      merge_rate_card \<lparr>rc_tier = tr, rc_task_type = ty, rc_rate_cents = cents\<rparr>) by_type) rates s"

section \<open>What a payout's creation does\<close>

text \<open>
  Either the grade already has its payout and nothing changes, or exactly one row is appended: for the
  grade's expert and task, in no period yet, withheld when the expert is paused and pending otherwise.
\<close>

lemma rate_for_state [simp]: "rate_for e ty s = (r, s') \<Longrightarrow> s' = s"
  by (auto simp: rate_for_def split: option.splits)

definition new_payout :: "env \<Rightarrow> grade \<Rightarrow> task \<Rightarrow> rat \<Rightarrow> expert \<Rightarrow> int \<Rightarrow> db \<Rightarrow> payout" where
  "new_payout E g t fraction e rate s =
    \<lparr>p_id = uuid4 E (uuid_pos s), p_expert_id = e_id e, p_task_id = t_id t, p_grade_id = g_id g,
     p_tier = e_tier e, p_task_type = t_task_type t,
     p_amount_cents = py_round (of_int rate * fraction),
     p_status = (if e_status e = Paused then Withheld else Pending), p_period_id = None,
     p_created_at = tx_now s, p_paid_at = None\<rparr>"

lemma create_for_grade_cases:
  assumes "create_for_grade E g t actor fraction s = (Inr p, s')"
  obtains (existing) "get_payout (g_id g) s = Some p" "s' = s"
  | (created) e rate where
      "get_payout (g_id g) s = None" "get_expert (g_expert_id g) s = Some e"
      "rate_for e (t_task_type t) s = (Inr rate, s)"
      "p = new_payout E g t fraction e rate s"
      "counter_accepts E (p_amount_cents p)"
      "core s' = core (s\<lparr>payouts := payouts s @ [p]\<rparr>)" "trail_step s s'"
      "p_id p \<notin> p_id ` set (payouts s)" "p_grade_id p \<notin> p_grade_id ` set (payouts s)"
      "\<forall>p' \<in> set (payouts s). \<not> (p_task_id p' = p_task_id p \<and> p_expert_id p' = p_expert_id p)"
      "p_task_id p \<in> t_id ` set (tasks s)" "p_grade_id p \<in> g_id ` set (grades s)"
proof (cases "get_payout (g_id g) s")
  case (Some p')
  with assms show thesis by (intro existing) (auto simp: create_for_grade_def)
next
  case None
  from assms None obtain e where e: "get_expert (g_expert_id g) s = Some e"
    by (auto simp: create_for_grade_def result_simps)
  from assms None e obtain rate s0 where r0: "rate_for e (t_task_type t) s = (Inr rate, s0)"
    by (auto simp: create_for_grade_def result_simps)
  then have r: "rate_for e (t_task_type t) s = (Inr rate, s)" by (metis rate_for_state)
  define s2 where "s2 = s\<lparr>uuid_pos := Suc (uuid_pos s), payouts := payouts s @ [new_payout E g t fraction e rate s]\<rparr>"
  have s': "s' = record_event actor ''payout.created'' ''payout'' (str_uuid (p_id p))
      [(''amount_cents'', JInt (p_amount_cents p))] (emit (PAYOUT_CENTS (p_status p) (p_amount_cents p)) (emit (PAYOUTS (p_status p)) s2))"
    and p: "p = new_payout E g t fraction e rate s" "counter_accepts E (p_amount_cents p)"
    and ok: "p_id p \<notin> p_id ` set (payouts s)" "p_grade_id p \<notin> p_grade_id ` set (payouts s)"
      "\<forall>p' \<in> set (payouts s). \<not> (p_task_id p' = p_task_id p \<and> p_expert_id p' = p_expert_id p)"
      "p_task_id p \<in> t_id ` set (tasks s)" "p_grade_id p \<in> g_id ` set (grades s)"
    using assms None e r
    by (auto simp: create_for_grade_def new_uuid_def insert_payout_def Let_def new_payout_def s2_def
        result_simps split: if_splits)
  have "core s' = core (s\<lparr>payouts := payouts s @ [p]\<rparr>)"
    using s' by (auto simp: s2_def p core_eq_iff)
  moreover have "trail_step s s'"
    using s' by (auto simp: s2_def emit_def intro!: trail_step_record_event trail_step_same)
  ultimately show thesis
    using created [OF None e r p] ok by blast
qed

lemma create_for_grade_existing:
  "get_payout (g_id g) s = Some p \<Longrightarrow> create_for_grade E g t actor fraction s = (Inr p, s)"
  by (simp add: create_for_grade_def)

lemma create_for_grade_paid:
  assumes "create_for_grade E g t actor fraction s = (Inr p, s')"
  shows "get_payout (g_id g) s' = Some p"
  using assms
proof (cases rule: create_for_grade_cases)
  case (created e rate)
  then have "payouts s' = payouts s @ [p]" "p_grade_id p = g_id g"
    by (simp_all add: core_eq_iff new_payout_def)
  with created(1) show ?thesis by (simp add: table_simps)
qed simp

lemma create_for_grade_other:
  assumes "create_for_grade E g t actor fraction s = (Inr p, s')" "k \<noteq> g_id g"
  shows "get_payout k s' = get_payout k s"
  using assms(1)
proof (cases rule: create_for_grade_cases)
  case (created e rate)
  then have "payouts s' = payouts s @ [p]" "p_grade_id p = g_id g"
    by (simp_all add: core_eq_iff new_payout_def)
  with assms(2) show ?thesis by (simp add: table_simps split: option.splits)
qed simp

lemma create_for_grade_frame:
  assumes "create_for_grade E g t actor fraction s = (Inr p, s')"
  shows "core (s'\<lparr>payouts := payouts s\<rparr>) = core s" "trail_step s s'"
  using assms
  by (cases rule: create_for_grade_cases; simp add: core_eq_iff)+

lemma release_withheld_core:
  assumes "release_withheld eid actor s = (n, s')"
  shows "core s' = core (s\<lparr>payouts := update_where (\<lambda>p. p_expert_id p = eid \<and> p_status p = Withheld)
           (\<lambda>p. p\<lparr>p_status := Pending\<rparr>) (payouts s)\<rparr>)"
    "n = row_count (\<lambda>p. p_expert_id p = eid \<and> p_status p = Withheld) (payouts s)"
    "trail_step s s'"
  using assms by (auto simp: release_withheld_def Let_def intro!: trail_step_record_event trail_step_same)

lemma close_period_cases:
  assumes "close_period E label actor s = (Inr period, s')"
  obtains now where
    "label \<notin> pp_label ` set (payout_periods s)"
    "period = \<lparr>pp_id = uuid4 E (uuid_pos s), pp_label = label, pp_closed_at = tx_now s\<rparr>"
    "pp_id period \<notin> pp_id ` set (payout_periods s)"
    "core s' = core (s\<lparr>payout_periods := payout_periods s @ [period],
       payouts := update_where (\<lambda>p. p_status p = Pending \<and> p_period_id p = None)
         (\<lambda>p. p\<lparr>p_status := Paid, p_period_id := Some (pp_id period), p_paid_at := Some now\<rparr>)
         (payouts s)\<rparr>)"
    "trail_step s s'"
proof -
  have lab: "label \<notin> pp_label ` set (payout_periods s)"
    using assms by (auto simp: close_period_def split: if_splits)
  show thesis
    by (rule that [OF lab, of "clock E (clock_pos s)"])
      (use assms lab in \<open>auto simp: close_period_def new_uuid_def now_utc_def insert_payout_period_def
        Let_def result_simps core_eq_iff intro!: trail_step_record_event trail_step_same\<close>)
qed
section \<open>The ledger invariant\<close>

text \<open>
  A payout is in a period exactly when it is paid, and then it has its payment time; the period, the
  grade, the task and the expert it names exist, and task and expert are those of the grade. At most
  one payout exists per grade and per (task, expert).
\<close>

definition payout_row_ok :: "db \<Rightarrow> payout \<Rightarrow> bool" where
  "payout_row_ok s p \<longleftrightarrow>
     (p_status p = Paid \<longleftrightarrow> p_period_id p \<noteq> None) \<and> (p_paid_at p \<noteq> None \<longleftrightarrow> p_period_id p \<noteq> None) \<and>
     (\<forall>k. p_period_id p = Some k \<longrightarrow> k \<in> pp_id ` set (payout_periods s)) \<and>
     p_expert_id p \<in> e_id ` set (experts s) \<and>
     (\<exists>g \<in> set (grades s). p_grade_id p = g_id g \<and> p_task_id p = g_task_id g \<and> p_expert_id p = g_expert_id g)"

definition payouts_ok :: "db \<Rightarrow> bool" where
  "payouts_ok s \<longleftrightarrow>
     distinct (map p_id (payouts s)) \<and> distinct (map p_grade_id (payouts s)) \<and>
     distinct (map (\<lambda>p. (p_task_id p, p_expert_id p)) (payouts s)) \<and>
     distinct (map pp_label (payout_periods s)) \<and>
     (\<forall>p \<in> set (payouts s). payout_row_ok s p)"

lemma payouts_ok_core: "core s = core s' \<Longrightarrow> payouts_ok s = payouts_ok s'"
  by (simp add: payouts_ok_def payout_row_ok_def core_eq_iff)

lemma create_for_grade_payouts_ok:
  assumes "payouts_ok s" "create_for_grade E g t actor fraction s = (Inr p, s')"
    "g \<in> set (grades s)" "t_id t = g_task_id g"
  shows "payouts_ok s'"
  using assms(2)
proof (cases rule: create_for_grade_cases)
  case existing
  then show ?thesis using assms(1) by simp
next
  case (created e rate)
  have e: "e \<in> set (experts s)" "e_id e = g_expert_id g"
    using row_of_SomeD [OF created(2)] by auto
  have "payout_row_ok (s\<lparr>payouts := payouts s @ [p]\<rparr>) p"
    using e(1) assms(3,4) created(4) by (auto simp: payout_row_ok_def new_payout_def e(2) [symmetric])
  then have "payouts_ok (s\<lparr>payouts := payouts s @ [p]\<rparr>)"
    using assms(1) created(8-10) by (auto simp: payouts_ok_def payout_row_ok_def)
  then show ?thesis using payouts_ok_core [OF created(6)] by simp
qed

lemma payouts_ok_update_where:
  assumes "payouts_ok s"
    and ids: "\<And>p. p_id (f p) = p_id p" "\<And>p. p_grade_id (f p) = p_grade_id p"
      "\<And>p. p_task_id (f p) = p_task_id p" "\<And>p. p_expert_id (f p) = p_expert_id p"
    and row: "\<And>p. payout_row_ok s p \<Longrightarrow> q p \<Longrightarrow> payout_row_ok s (f p)"
  shows "payouts_ok (s\<lparr>payouts := update_where q f (payouts s)\<rparr>)"
proof -
  have maps: "map p_id (update_where q f (payouts s)) = map p_id (payouts s)"
    "map p_grade_id (update_where q f (payouts s)) = map p_grade_id (payouts s)"
    "map (\<lambda>p. (p_task_id p, p_expert_id p)) (update_where q f (payouts s)) =
      map (\<lambda>p. (p_task_id p, p_expert_id p)) (payouts s)"
    by (simp_all add: map_update_where ids)
  have rows: "payout_row_ok (s\<lparr>payouts := ps\<rparr>) p = payout_row_ok s p" for ps p
    by (simp add: payout_row_ok_def)
  show ?thesis
    using assms(1) row by (auto simp: payouts_ok_def maps rows update_where_set)
qed

lemma release_withheld_payouts_ok:
  assumes "payouts_ok s" "release_withheld eid actor s = (n, s')"
  shows "payouts_ok s'"
proof -
  have "payouts_ok (s\<lparr>payouts := update_where (\<lambda>p. p_expert_id p = eid \<and> p_status p = Withheld)
           (\<lambda>p. p\<lparr>p_status := Pending\<rparr>) (payouts s)\<rparr>)"
    by (rule payouts_ok_update_where [OF assms(1)]) (auto simp: payout_row_ok_def)
  then show ?thesis using payouts_ok_core [OF release_withheld_core(1) [OF assms(2)]] by simp
qed

lemma close_period_payouts_ok:
  assumes "payouts_ok s" "close_period E label actor s = (Inr period, s')"
  shows "payouts_ok s'"
  using assms(2)
proof (cases rule: close_period_cases)
  case (1 now)
  let ?s = "s\<lparr>payout_periods := payout_periods s @ [period]\<rparr>"
  have "payouts_ok ?s"
    using assms(1) 1(1,2) by (auto simp: payouts_ok_def payout_row_ok_def)
  then have "payouts_ok (?s\<lparr>payouts := update_where (\<lambda>p. p_status p = Pending \<and> p_period_id p = None)
      (\<lambda>p. p\<lparr>p_status := Paid, p_period_id := Some (pp_id period), p_paid_at := Some now\<rparr>) (payouts ?s)\<rparr>)"
    by (rule payouts_ok_update_where) (auto simp: payout_row_ok_def)
  then show ?thesis using payouts_ok_core [OF 1(4)] by simp
qed

section \<open>Totals\<close>

lemma cents_where_update_where:
  assumes "\<And>p. p_amount_cents (f p) = p_amount_cents p"
  shows "cents_where c (update_where q f ps) =
    cents_where (\<lambda>p. if q p then c (f p) else c p) ps"
  using assms by (induction ps) (auto simp: cents_where_def update_where_def)

lemma cents_where_split:
  "cents_where c ps = cents_where (\<lambda>p. c p \<and> d p) ps + cents_where (\<lambda>p. c p \<and> \<not> d p) ps"
  by (induction ps) (auto simp: cents_where_def)

lemma cents_where_cong:
  "(\<And>p. p \<in> set ps \<Longrightarrow> c p = d p) \<Longrightarrow> cents_where c ps = cents_where d ps"
  by (simp add: cents_where_def cong: filter_cong)

lemma payout_expert_join_eq:
  assumes "distinct (map e_id (experts s))" "\<forall>p \<in> set (payouts s). p_expert_id p \<in> e_id ` set (experts s)"
  shows "map fst (payout_expert_join s) = payouts s"
proof -
  have "filter (\<lambda>e. e_id e = p_expert_id p) (experts s) = [the (get_expert (p_expert_id p) s)]"
    if "p \<in> set (payouts s)" for p
  proof -
    from that assms(2) obtain e where e: "e \<in> set (experts s)" "e_id e = p_expert_id p" by auto
    with assms(1) have "get_expert (p_expert_id p) s = Some e"
      by (simp add: row_of_Some_iff)
    with filter_key_singleton [OF assms(1) e(1)] e(2) show ?thesis by simp
  qed
  then have "payout_expert_join s = map (\<lambda>p. (p, the (get_expert (p_expert_id p) s))) (payouts s)"
    by (simp add: payout_expert_join_def concat_map_singleton cong: map_cong)
  then show ?thesis by (simp add: comp_def)
qed

lemma ledger_rows_sum:
  "sum_list (map lr_total_cents (filter (\<lambda>r. c (lr_status r)) (ledger_rows E s)))
    = sum_list (map (p_amount_cents \<circ> fst) (filter (\<lambda>x. c (p_status (fst x))) (payout_expert_join s)))"
proof -
  define joined where "joined = payout_expert_join s"
  define ks where "ks = sort_key (\<lambda>(_, name, status). (collate E name, payout_status_rank status))
    (remdups (map ledger_group joined))"
  let ?in = "\<lambda>k. filter (\<lambda>x. ledger_group x = k) joined"
  have rows: "ledger_rows E s = map (\<lambda>k. \<lparr>lr_expert_id = fst k, lr_expert_name = fst (snd k),
      lr_status = snd (snd k), lr_payout_count = int (length (?in k)),
      lr_total_cents = sum_list (map (p_amount_cents \<circ> fst) (?in k))\<rparr>) ks"
    by (simp add: ledger_rows_def joined_def ks_def Let_def split_def)
  have ks: "distinct (filter (\<lambda>k. c (snd (snd k))) ks)" "set ks = ledger_group ` set joined"
    by (simp_all add: ks_def)
  have "sum_list (map lr_total_cents (filter (\<lambda>r. c (lr_status r)) (ledger_rows E s)))
      = sum_list (map (\<lambda>k. sum_list (map (p_amount_cents \<circ> fst) (?in k))) (filter (\<lambda>k. c (snd (snd k))) ks))"
    by (simp add: rows filter_map comp_def)
  also have "\<dots> = sum_list (map (\<lambda>k. sum_list (map (p_amount_cents \<circ> fst)
      (filter (\<lambda>x. ledger_group x = k) (filter (\<lambda>x. c (p_status (fst x))) joined)))) (filter (\<lambda>k. c (snd (snd k))) ks))"
    by (intro arg_cong [of _ _ sum_list] map_cong refl arg_cong [of _ _ "\<lambda>xs. sum_list (map _ xs)"])
      (auto simp: ledger_group_def split_def intro!: filter_cong)
  also have "\<dots> = sum_list (map (p_amount_cents \<circ> fst) (filter (\<lambda>x. c (p_status (fst x))) joined))"
    using ks by (intro sum_list_by_group) (auto simp: ledger_group_def)
  finally show ?thesis by (simp add: joined_def)
qed

lemma ledger_totals:
  assumes "distinct (map e_id (experts s))" "\<forall>p \<in> set (payouts s). p_expert_id p \<in> e_id ` set (experts s)"
  shows "lv_totals_by_status (ledger E s) =
      map (\<lambda>st. (st, cents_where (\<lambda>p. p_status p = st) (payouts s))) all_payout_statuses"
    "lv_grand_total_cents (ledger E s) = cents_where (\<lambda>p. True) (payouts s)"
proof -
  have part: "sum_list (map lr_total_cents (filter (\<lambda>r. lr_status r = st) (ledger_rows E s)))
      = cents_where (\<lambda>p. p_status p = st) (payouts s)" for st
    unfolding ledger_rows_sum [of "\<lambda>x. x = st"] cents_where_def
    by (simp add: payout_expert_join_eq [OF assms, symmetric] filter_map comp_def del: map_map)
      (simp add: comp_def)
  show by_status: "lv_totals_by_status (ledger E s) =
      map (\<lambda>st. (st, cents_where (\<lambda>p. p_status p = st) (payouts s))) all_payout_statuses"
    by (simp add: ledger_def Let_def part)
  have "cents_where (\<lambda>p. True) ps = cents_where (\<lambda>p. p_status p = Pending) ps +
      cents_where (\<lambda>p. p_status p = Withheld) ps + cents_where (\<lambda>p. p_status p = Paid) ps" for ps
    by (induction ps) (auto simp: cents_where_def intro: payout_status.exhaust)
  then show "lv_grand_total_cents (ledger E s) = cents_where (\<lambda>p. True) (payouts s)"
    by (simp add: ledger_def Let_def part all_payout_statuses_def)
qed

section \<open>The contract of the payout book\<close>

text \<open>
  What review and adjudication rely on when they ask for a grade's payout: the request is idempotent,
  and it never touches the payout of another grade.
\<close>

locale payout_book =
  fixes create :: "'g \<Rightarrow> 't \<Rightarrow> 'f \<Rightarrow> 's \<Rightarrow> ('e, 'p, 's) result"
    and paid :: "'k \<Rightarrow> 's \<Rightarrow> 'p option"
    and grade_key :: "'g \<Rightarrow> 'k"
  assumes create_existing: "paid (grade_key g) s = Some p \<Longrightarrow> create g t f s = (Inr p, s)"
    and create_paid: "create g t f s = (Inr p, s') \<Longrightarrow> paid (grade_key g) s' = Some p"
    and create_other: "create g t f s = (Inr p, s') \<Longrightarrow> k \<noteq> grade_key g \<Longrightarrow> paid k s' = paid k s"
begin

lemma create_twice:
  assumes "create g t f s = (Inr p, s')"
  shows "create g t' f' s' = (Inr p, s')"
  using create_existing [OF create_paid [OF assms]] .

lemma paid_stable:
  assumes "create g t f s = (Inr p, s')" "paid k s = Some q"
  shows "paid k s' = Some q"
proof (cases "k = grade_key g")
  case True
  then have "create g t f s = (Inr q, s)" using assms(2) by (simp add: create_existing)
  with assms show ?thesis by simp
next
  case False
  with assms show ?thesis by (simp add: create_other)
qed

lemma create_unique:
  assumes "create g t f s = (Inr p, s')" "create g t' f' s' = (Inr p', s'')"
  shows "p' = p \<and> s'' = s'"
  using create_twice [OF assms(1), of t' f'] assms(2) by simp

end

interpretation book: payout_book "\<lambda>g t f. create_for_grade E g t actor f" get_payout g_id for E actor
  by unfold_locales (fact create_for_grade_existing create_for_grade_paid create_for_grade_other)+

section \<open>Properties\<close>

text \<open>
  A grade is paid at most once. When a payout has been created for a grade, asking again, for any
  task, actor or fraction, returns that same payout and changes nothing.
\<close>

theorem payout_created_once:
  assumes "create_for_grade E g t actor fraction s = (Inr p, s')"
  shows "create_for_grade E g t' actor fraction' s' = (Inr p, s')"
  by (rule book.create_twice [OF assms])

theorem payout_created_once_witness:
  "\<exists>p s'. create_for_grade sample_env (sample_grade 40 20 4 4) (sample_task 20 2 False) ''a'' 1
        (sample_db\<lparr>grades := [sample_grade 40 20 4 4]\<rparr>) = (Inr p, s') \<and>
      create_for_grade sample_env (sample_grade 40 20 4 4) (sample_task 21 1 False) ''a'' (1 / 2) s' = (Inr p, s')"
proof -
  have "\<exists>p s'. create_for_grade sample_env (sample_grade 40 20 4 4) (sample_task 20 2 False) ''a'' 1
        (sample_db\<lparr>grades := [sample_grade 40 20 4 4]\<rparr>) = (Inr p, s')"
    by (simp add: create_for_grade_def rate_for_def get_rate_card_def new_uuid_def insert_payout_def
        py_round_def Let_def sample_defs)
  then show ?thesis using payout_created_once by blast
qed

text \<open>
  What a newly created payout is worth. It is the configured rate times the fraction, rounded half
  to even: within half a cent of the exact product, exactly the rate for the fraction 1, and between 0
  and the rate for any fraction between 0 and 1; the payout belongs to the grade's expert, is withheld
  exactly when that expert is paused, and is in no statement yet.
\<close>

theorem payout_amount:
  assumes "create_for_grade E g t actor fraction s = (Inr p, s')" "get_payout (g_id g) s = None"
    "get_expert (g_expert_id g) s = Some e" "rate_for e (t_task_type t) s = (Inr rate, s)"
  shows "\<bar>of_int rate * fraction - of_int (p_amount_cents p)\<bar> \<le> 1 / 2 \<and>
    (fraction = 1 \<longrightarrow> p_amount_cents p = rate) \<and>
    (0 \<le> rate \<and> 0 \<le> fraction \<and> fraction \<le> 1 \<longrightarrow> 0 \<le> p_amount_cents p \<and> p_amount_cents p \<le> rate) \<and>
    p_expert_id p = g_expert_id g \<and> p_grade_id p = g_id g \<and>
    p_status p = (if e_status e = Paused then Withheld else Pending) \<and> p_period_id p = None"
proof -
  have p: "p = new_payout E g t fraction e rate s"
    using assms(1) by (cases rule: create_for_grade_cases) (use assms in auto)
  have "0 \<le> rate \<Longrightarrow> 0 \<le> fraction \<Longrightarrow> fraction \<le> 1 \<Longrightarrow> 0 \<le> p_amount_cents p \<and> p_amount_cents p \<le> rate"
    by (auto simp: p new_payout_def py_round_nonneg mult_left_le intro!: py_round_mono_int)
  then show ?thesis
    using row_of_SomeD [OF assms(3)] py_round_error by (auto simp: p new_payout_def)
qed

theorem payout_amount_witness:
  "\<exists>p s'. create_for_grade sample_env (sample_grade 40 20 2 4) (sample_task 20 2 False) ''a'' (1 / 2)
        (sample_db\<lparr>grades := [sample_grade 40 20 2 4]\<rparr>) = (Inr p, s') \<and>
      p_amount_cents p = 150 \<and> \<bar>301 * (1 / 2) - of_int (p_amount_cents p)\<bar> \<le> (1 / 2 :: rat)"
proof -
  let ?g = "sample_grade 40 20 2 4" and ?t = "sample_task 20 2 False"
  let ?s = "sample_db\<lparr>grades := [?g]\<rparr>"
  have "\<exists>p s'. create_for_grade sample_env ?g ?t ''a'' (1 / 2) ?s = (Inr p, s') \<and> p_amount_cents p = 150"
    by (simp add: create_for_grade_def rate_for_def get_rate_card_def new_uuid_def insert_payout_def
        py_round_def Let_def sample_defs)
  then obtain p s' where p: "create_for_grade sample_env ?g ?t ''a'' (1 / 2) ?s = (Inr p, s')"
    "p_amount_cents p = 150" by blast
  have "\<bar>of_int 301 * (1 / 2) - of_int (p_amount_cents p)\<bar> \<le> (1 / 2 :: rat)"
    using payout_amount [OF p(1), of "sample_expert 2 ''bob'' Junior" 301]
    by (simp add: sample_defs rate_for_def get_rate_card_def)
  with p show ?thesis by auto
qed

lemma cents_where_empty: "\<forall>p \<in> set ps. \<not> c p \<Longrightarrow> cents_where c ps = 0"
  by (simp add: cents_where_def filter_False)

lemma close_period_pays_all:
  assumes "payouts_ok s" "close_period E label actor s = (Inr period, s')"
  shows "\<forall>p \<in> set (payouts s'). p_status p \<noteq> Pending"
  using assms(2)
proof (cases rule: close_period_cases)
  case (1 now)
  have "p_status p = Paid \<longleftrightarrow> p_period_id p \<noteq> None" if "p \<in> set (payouts s)" for p
    using assms(1) that by (auto simp: payouts_ok_def payout_row_ok_def)
  then have "p_status p = Pending \<Longrightarrow> p_period_id p = None" if "p \<in> set (payouts s)" for p
    using that by (metis payout_status.distinct(3))
  then show ?thesis using 1(4) by (auto simp: core_eq_iff update_where_set)
qed

text \<open>
  C17: closing a period settles exactly the pending payouts. The new statement totals what was pending,
  no payout is pending afterwards, what is withheld stays withheld, every earlier statement keeps its
  totals, and no money appears or disappears.
\<close>

theorem close_period_settles:
  assumes "payouts_ok s" "close_period E label actor s = (Inr period, s')"
  shows "ps_total_cents (period_totals period s') = cents_where (\<lambda>p. p_status p = Pending) (payouts s) \<and>
    (\<forall>p \<in> set (payouts s'). p_status p \<noteq> Pending) \<and>
    cents_where (\<lambda>p. p_status p = Withheld) (payouts s') = cents_where (\<lambda>p. p_status p = Withheld) (payouts s) \<and>
    (\<forall>q \<in> set (payout_periods s). period_totals q s' = period_totals q s) \<and>
    map p_amount_cents (payouts s') = map p_amount_cents (payouts s)"
  using assms(2)
proof (cases rule: close_period_cases)
  case (1 now)
  let ?open = "\<lambda>p. p_status p = Pending \<and> p_period_id p = None"
  let ?pay = "\<lambda>p. p\<lparr>p_status := Paid, p_period_id := Some (pp_id period), p_paid_at := Some now\<rparr>"
  have ps: "payouts s' = update_where ?open ?pay (payouts s)" using 1(4) by (simp add: core_eq_iff)
  have paid_iff: "p_status p = Paid \<longleftrightarrow> p_period_id p \<noteq> None"
    and unused: "p_period_id p \<noteq> Some (pp_id period)" if "p \<in> set (payouts s)" for p
    using assms(1) that 1(3) by (auto simp: payouts_ok_def payout_row_ok_def)
  then have pending_open: "p_status p = Pending \<Longrightarrow> p_period_id p = None" if "p \<in> set (payouts s)" for p
    using that by (metis payout_status.distinct(3))
  have "cents_where (\<lambda>p. p_period_id p = Some (pp_id period)) (payouts s')
      = cents_where (\<lambda>p. p_status p = Pending) (payouts s)"
    unfolding ps
    by (subst cents_where_update_where, simp, rule cents_where_cong) (use pending_open unused in auto)
  moreover have "\<forall>p \<in> set (payouts s'). p_status p \<noteq> Pending" by (rule close_period_pays_all [OF assms])
  moreover have "cents_where (\<lambda>p. p_status p = Withheld) (payouts s') =
      cents_where (\<lambda>p. p_status p = Withheld) (payouts s)"
    unfolding ps by (subst cents_where_update_where) (auto intro!: cents_where_cong)
  moreover have "map p_amount_cents (payouts s') = map p_amount_cents (payouts s)"
    unfolding ps by (rule map_update_where) simp
  moreover have "period_totals q s' = period_totals q s" if "q \<in> set (payout_periods s)" for q
  proof -
    have "pp_id q \<noteq> pp_id period" using that 1(3) by (metis image_eqI)
    then have "filter (\<lambda>p. p_period_id p = Some (pp_id q)) (payouts s') =
        filter (\<lambda>p. p_period_id p = Some (pp_id q)) (payouts s)"
      unfolding ps by (intro filter_update_where_same) auto
    then show ?thesis by (simp add: period_totals_def Let_def row_count_def cents_where_def)
  qed
  ultimately show ?thesis by (simp add: period_totals_def Let_def)
qed

definition sample_ledger_db :: db where
  "sample_ledger_db = sample_db\<lparr>grades := [sample_grade 40 20 4 4, sample_grade 41 20 2 4, sample_grade 42 21 3 5],
     payouts := [sample_payout 50 (sample_grade 40 20 4 4) 500 Pending,
       sample_payout 51 (sample_grade 41 20 2 4) 301 Withheld, sample_payout 52 (sample_grade 42 21 3 5) 800 Pending]\<rparr>"

lemma sample_ledger_ok: "payouts_ok sample_ledger_db"
  by (simp add: sample_ledger_db_def payouts_ok_def payout_row_ok_def sample_defs)

theorem close_period_settles_witness:
  "\<exists>period s'. close_period sample_env ''2026-09-A'' ''admin'' sample_ledger_db = (Inr period, s') \<and>
      ps_total_cents (period_totals period s') = 1300 \<and>
      cents_where (\<lambda>p. p_status p = Withheld) (payouts s') = 301"
proof -
  have "\<exists>period s'. close_period sample_env ''2026-09-A'' ''admin'' sample_ledger_db = (Inr period, s')"
    by (simp add: close_period_def new_uuid_def now_utc_def insert_payout_period_def Let_def sample_ledger_db_def sample_defs)
  then obtain period s' where c: "close_period sample_env ''2026-09-A'' ''admin'' sample_ledger_db = (Inr period, s')"
    by blast
  have "cents_where (\<lambda>p. p_status p = Pending) (payouts sample_ledger_db) = 1300"
    "cents_where (\<lambda>p. p_status p = Withheld) (payouts sample_ledger_db) = 301"
    by (simp_all add: cents_where_def sample_ledger_db_def sample_defs)
  with close_period_settles [OF sample_ledger_ok c] c show ?thesis by auto
qed

text \<open>
  The ledger is the rows. Grouping the payouts by expert, name and status and adding the groups up
  gives, for every status, the sum of the amounts of the payouts in that status, and over all statuses
  the sum of all payouts: no total can drift from the rows, and none is counted twice.
\<close>

theorem ledger_matches_payouts:
  assumes "distinct (map e_id (experts s))" "payouts_ok s"
  shows "lv_totals_by_status (ledger E s) =
      map (\<lambda>st. (st, cents_where (\<lambda>p. p_status p = st) (payouts s))) [Pending, Withheld, Paid] \<and>
    lv_grand_total_cents (ledger E s) = sum_list (map p_amount_cents (payouts s))"
  using ledger_totals [OF assms(1), of E] assms(2)
  by (auto simp: payouts_ok_def payout_row_ok_def all_payout_statuses_def cents_where_def)

theorem ledger_matches_payouts_witness:
  "lv_totals_by_status (ledger sample_env sample_ledger_db) = [(Pending, 1300), (Withheld, 301), (Paid, 0)] \<and>
   lv_grand_total_cents (ledger sample_env sample_ledger_db) = 1601"
proof -
  have "distinct (map e_id (experts sample_ledger_db))"
    by (simp add: sample_ledger_db_def sample_defs)
  from ledger_matches_payouts [OF this sample_ledger_ok, of sample_env] show ?thesis
    by (simp add: cents_where_def sample_ledger_db_def sample_defs)
qed

end
