(* ===== verification/Attention.thy ===== *)
theory Attention
  imports Payouts
begin

text \<open>
  \<open>panelist/services/attention.py\<close>: a grade on a golden task is compared with the hidden expected
  scores, and an expert whose rolling pass rate falls too low is paused.
\<close>

section \<open>Evaluating a check\<close>

definition snapshot_get :: "(string \<times> rat) list \<Rightarrow> string \<Rightarrow> rat" where
  "snapshot_get snap key = (case map_of snap key of None \<Rightarrow> 0 | Some v \<Rightarrow> v)"

definition deviations :: "(string \<times> rat) list \<Rightarrow> (string \<times> rat) list \<Rightarrow> rat list" where
  "deviations snap expected = map (\<lambda>(key, e). \<bar>snapshot_get snap key - e\<bar>) expected"

definition max_of :: "rat list \<Rightarrow> rat" where
  "max_of xs = (case xs of [] \<Rightarrow> 0 | x # rest \<Rightarrow> fold max rest x)"

definition global_counts :: "db \<Rightarrow> nat \<times> nat" where
  "global_counts s = (length (attention_results s), length (filter ar_passed (attention_results s)))"

definition refresh_global_rate :: "db \<Rightarrow> db" where
  "refresh_global_rate s =
    (let (total, passed) = global_counts s in
     if total = 0 then s else emit (ATTENTION_PASS_RATE (of_nat passed / of_nat total)) s)"

definition evaluate_check :: "env \<Rightarrow> task \<Rightarrow> grade \<Rightarrow> db \<Rightarrow> attention_result option outcome" where
  "evaluate_check E t g s =
    (case t_expected_scores t of
       None \<Rightarrow> (Inr None, s)
     | Some expected \<Rightarrow>
        if \<not> t_is_attention_check t \<or> expected = [] then (Inr None, s)
        else
          let max_dev = max_of (deviations (g_scores_snapshot g) expected);
              passed = (max_dev \<le> attention_tolerance (cfg E));
              (aid, s1) = new_uuid E s;
              r = \<lparr>ar_id = aid, ar_task_id = t_id t, ar_expert_id = g_expert_id g, ar_grade_id = g_id g,
                   ar_passed = passed, ar_max_deviation = max_dev, ar_created_at = tx_now s1\<rparr>
          in and_then (insert_attention_result r s1) (\<lambda>_ s2.
               (Inr (Some r), refresh_global_rate
                  (emit (ATTENTION_CHECKS (if passed then ''pass'' else ''fail'')) s2))))"

section \<open>The rolling pass rate and the pause\<close>

definition checks_of :: "uuid \<Rightarrow> db \<Rightarrow> attention_result list" where
  "checks_of eid s = filter (\<lambda>r. ar_expert_id r = eid) (attention_results s)"

definition recent_checks :: "env \<Rightarrow> uuid \<Rightarrow> db \<Rightarrow> bool list" where
  "recent_checks E eid s =
     map ar_passed (take (attention_window (cfg E))
       (rev (sort_key (\<lambda>r. (ar_created_at r, ar_id r)) (checks_of eid s))))"

definition rolling_pass_rate :: "env \<Rightarrow> uuid \<Rightarrow> db \<Rightarrow> rat option \<times> nat \<times> nat" where
  "rolling_pass_rate E eid s =
    (let recent = recent_checks E eid s;
         passed = length (filter id recent)
     in if recent = [] then (None, 0, 0)
        else (Some (of_nat passed / of_nat (length recent)), passed, length recent))"

definition withhold_pending :: "uuid \<Rightarrow> db \<Rightarrow> db" where
  "withhold_pending eid s = s\<lparr>payouts := update_where
     (\<lambda>p. p_expert_id p = eid \<and> p_status p = Pending) (\<lambda>p. p\<lparr>p_status := Withheld\<rparr>) (payouts s)\<rparr>"

definition enforce :: "env \<Rightarrow> uuid \<Rightarrow> db \<Rightarrow> bool outcome" where
  "enforce E eid s = the_row ''expert'' (get_expert eid s) (\<lambda>e s.
    (let (rate, _, total) = rolling_pass_rate E eid s in
     case rate of
       None \<Rightarrow> (Inr False, s)
     | Some r \<Rightarrow>
        if total < attention_min_checks (cfg E) \<or> attention_threshold (cfg E) \<le> r then (Inr False, s)
        else if e_status e = Paused then (Inr False, s)
        else let s1 = modify_expert eid (\<lambda>e. e\<lparr>e_status := Paused\<rparr>) s;
                 s2 = emit EXPERTS_PAUSED (withhold_pending eid s1)
             in (Inr True, record_event ''system'' ''expert.paused'' ''expert'' (str_uuid eid)
                   [(''rolling_pass_rate'', JFloat r), (''checks'', JInt (int total))] s2))) s"

definition lifetime_counts :: "uuid \<Rightarrow> db \<Rightarrow> nat \<times> nat" where
  "lifetime_counts eid s = (length (checks_of eid s), length (filter ar_passed (checks_of eid s)))"

section \<open>Lemmas\<close>

lemma fold_max_le: "fold max xs x \<le> b \<longleftrightarrow> x \<le> b \<and> (\<forall>y \<in> set xs. y \<le> (b :: rat))"
  by (induction xs arbitrary: x) auto

lemma max_of_le: "xs \<noteq> [] \<Longrightarrow> max_of xs \<le> b \<longleftrightarrow> (\<forall>x \<in> set xs. x \<le> b)"
  by (cases xs) (auto simp: max_of_def fold_max_le)

lemma refresh_global_rate_core [simp]:
  "core (refresh_global_rate s) = core s"
  "audit_events (refresh_global_rate s) = audit_events s" "audit_seq (refresh_global_rate s) = audit_seq s"
  by (simp_all add: refresh_global_rate_def split: prod.splits)

lemma evaluate_check_cases:
  assumes "evaluate_check E t g s = (Inr r, s')"
  obtains (regular) "r = None" "s' = s" "\<not> t_is_attention_check t \<or> t_expected_scores t \<in> {None, Some []}"
  | (checked) a expected where "r = Some a" "t_is_attention_check t" "t_expected_scores t = Some expected" "expected \<noteq> []"
      "ar_task_id a = t_id t" "ar_expert_id a = g_expert_id g" "ar_grade_id a = g_id g"
      "ar_max_deviation a = max_of (deviations (g_scores_snapshot g) expected)"
      "ar_passed a \<longleftrightarrow> ar_max_deviation a \<le> attention_tolerance (cfg E)" "ar_created_at a = tx_now s"
      "ar_id a \<notin> ar_id ` set (attention_results s)" "g_id g \<in> g_id ` set (grades s)"
      "core s' = core (s\<lparr>attention_results := attention_results s @ [a]\<rparr>)" "trail_step s s'"
proof (cases "t_is_attention_check t \<and> t_expected_scores t \<notin> {None, Some []}")
  case False
  then have "r = None \<and> s' = s"
    using assms by (auto simp: evaluate_check_def split: option.splits if_splits)
  with False show thesis by (intro regular) auto
next
  case True
  then obtain expected where exp: "t_expected_scores t = Some expected" "expected \<noteq> []" by auto
  let ?a = "\<lparr>ar_id = uuid4 E (uuid_pos s), ar_task_id = t_id t, ar_expert_id = g_expert_id g,
    ar_grade_id = g_id g,
    ar_passed = (max_of (deviations (g_scores_snapshot g) expected) \<le> attention_tolerance (cfg E)),
    ar_max_deviation = max_of (deviations (g_scores_snapshot g) expected), ar_created_at = tx_now s\<rparr>"
  let ?s2 = "s\<lparr>uuid_pos := Suc (uuid_pos s), attention_results := attention_results s @ [?a]\<rparr>"
  have r: "r = Some ?a" "ar_id ?a \<notin> ar_id ` set (attention_results s)" "g_id g \<in> g_id ` set (grades s)"
    and s': "\<exists>m. s' = refresh_global_rate (emit m ?s2)"
    using assms True exp
    by (auto simp: evaluate_check_def new_uuid_def insert_attention_result_def Let_def result_simps)
  have "core s' = core (s\<lparr>attention_results := attention_results s @ [?a]\<rparr>)"
    using s' by auto (simp add: core_eq_iff)
  moreover have "trail_step s s'" using s' by (auto simp: emit_def intro!: trail_step_same)
  ultimately show thesis
    using True exp r by (intro checked [of ?a]) auto
qed

lemma evaluate_check_frame:
  assumes "evaluate_check E t g s = (Inr r, s')"
  shows "core (s'\<lparr>attention_results := attention_results s\<rparr>) = core s" "trail_step s s'"
  using assms by (cases rule: evaluate_check_cases; simp add: core_eq_iff)+

lemma enforce_cases:
  assumes "enforce E eid s = (Inr b, s')"
  obtains (idle) "\<not> b" "s' = s"
  | (paused) e r passed total where "b" "get_expert eid s = Some e" "e_status e \<noteq> Paused"
      "rolling_pass_rate E eid s = (Some r, passed, total)" "attention_min_checks (cfg E) \<le> total"
      "r < attention_threshold (cfg E)"
      "core s' = core (withhold_pending eid (modify_expert eid (\<lambda>e. e\<lparr>e_status := Paused\<rparr>) s))"
      "trail_step s s'"
proof -
  from assms obtain e where e: "get_expert eid s = Some e" by (auto simp: enforce_def result_simps)
  obtain r passed total where rate: "rolling_pass_rate E eid s = (r, passed, total)"
    by (metis prod_cases3)
  show thesis
proof (cases b)
  case False
  with assms e rate show thesis
    by (intro idle) (auto simp: enforce_def Let_def split: option.splits if_splits)
next
  case True
  with assms e rate obtain q where r: "r = Some q" "attention_min_checks (cfg E) \<le> total"
    "q < attention_threshold (cfg E)" "e_status e \<noteq> Paused"
    by (auto simp: enforce_def Let_def split: option.splits if_splits)
  let ?s1 = "withhold_pending eid (modify_expert eid (\<lambda>e. e\<lparr>e_status := Paused\<rparr>) s)"
  have s': "s' = record_event ''system'' ''expert.paused'' ''expert'' (str_uuid eid)
      [(''rolling_pass_rate'', JFloat q), (''checks'', JInt (int total))] (emit EXPERTS_PAUSED ?s1)"
    using assms True e rate r by (auto simp: enforce_def Let_def split: if_splits)
  have "trail_step s s'"
    by (auto simp: s' emit_def withhold_pending_def intro!: trail_step_record_event trail_step_same)
  with True e rate r s' show thesis by (intro paused [of e q passed total]) auto
qed
qed

lemma enforce_frame:
  assumes "enforce E eid s = (Inr b, s')"
  shows "core (s'\<lparr>payouts := payouts s, experts := experts s\<rparr>) = core s" "trail_step s s'"
    "map (\<lambda>e. e\<lparr>e_status := Active\<rparr>) (experts s') = map (\<lambda>e. e\<lparr>e_status := Active\<rparr>) (experts s)"
  using assms
  by (cases rule: enforce_cases; simp add: core_eq_iff withhold_pending_def map_update_row)+

lemma enforce_payouts_ok:
  assumes "payouts_ok s" "enforce E eid s = (Inr b, s')"
  shows "payouts_ok s'"
  using assms(2)
proof (cases rule: enforce_cases)
  case (paused e r passed total)
  let ?s = "modify_expert eid (\<lambda>e. e\<lparr>e_status := Paused\<rparr>) s"
  have "e_id ` set (experts ?s) = e_id ` set (experts s)"
    by (rule expert_rows.keys_modify) simp
  then have "payouts_ok ?s" using assms(1) by (simp add: payouts_ok_def payout_row_ok_def)
  then have "payouts_ok (withhold_pending eid ?s)"
    unfolding withhold_pending_def by (rule payouts_ok_update_where) (auto simp: payout_row_ok_def)
  then show ?thesis using payouts_ok_core [OF paused(7)] by simp
qed (use assms(1) in simp)

lemma length_recent_checks: "length (recent_checks E eid s) = min (attention_window (cfg E)) (length (checks_of eid s))"
  by (simp add: recent_checks_def min.commute)

lemma set_recent_checks: "set (recent_checks E eid s) \<subseteq> ar_passed ` set (checks_of eid s)"
  unfolding recent_checks_def by (auto dest: in_set_takeD)

lemma enforce_returns: "get_expert eid s = Some e \<Longrightarrow> \<exists>b s'. enforce E eid s = (Inr b, s')"
  by (auto simp: enforce_def Let_def split: prod.split option.split)

section \<open>Properties\<close>

text \<open>
  The verdict on a golden task. A grade is checked exactly when its task is a golden task with
  expected scores; the check passes exactly when the grade is within the tolerance of the expected
  score on every expected criterion, where a criterion the grade does not score counts as 0.
\<close>

theorem golden_check_verdict:
  assumes "evaluate_check E t g s = (Inr r, s')"
  shows "(r = None \<longleftrightarrow> \<not> t_is_attention_check t \<or> t_expected_scores t \<in> {None, Some []}) \<and>
    (\<forall>a expected. r = Some a \<and> t_expected_scores t = Some expected \<longrightarrow>
       (ar_passed a \<longleftrightarrow> (\<forall>(key, e) \<in> set expected.
          \<bar>snapshot_get (g_scores_snapshot g) key - e\<bar> \<le> attention_tolerance (cfg E))))"
  using assms
  by (cases rule: evaluate_check_cases) (auto simp: max_of_le deviations_def)

definition sample_golden_db :: db where
  "sample_golden_db = sample_db\<lparr>grades := [sample_grade 40 22 2 3, sample_grade 41 22 4 1]\<rparr>"

theorem golden_check_verdict_witness:
  "\<exists>a s'. evaluate_check sample_env (sample_task 22 1 True) (sample_grade 41 22 4 1) sample_golden_db = (Inr (Some a), s') \<and>
      \<not> ar_passed a"
proof -
  have "\<exists>a s'. evaluate_check sample_env (sample_task 22 1 True) (sample_grade 41 22 4 1) sample_golden_db
      = (Inr (Some a), s')"
    by (simp add: evaluate_check_def new_uuid_def insert_attention_result_def Let_def sample_golden_db_def sample_defs)
  then obtain a s' where a: "evaluate_check sample_env (sample_task 22 1 True) (sample_grade 41 22 4 1)
      sample_golden_db = (Inr (Some a), s')" by blast
  have "\<not> ar_passed a"
    using golden_check_verdict [OF a] by (simp add: sample_defs snapshot_get_def)
  with a show ?thesis by blast
qed

text \<open>
  C15: the guard acts exactly as configured. For an expert on record, \<open>enforce\<close> always returns; it
  pauses exactly when the expert is not paused yet, at least the minimum of recent checks exists (and
  one at all), and the share of passed ones is below the threshold. A pause marks that expert paused and
  withholds exactly the pending payouts of that expert: every other expert, every other payout and every
  other field stays as it was. Without a pause nothing changes.
\<close>

theorem enforce_pauses_iff:
  assumes "get_expert eid s = Some e"
  shows "\<exists>b s'. enforce E eid s = (Inr b, s') \<and>
    (b \<longleftrightarrow> e_status e \<noteq> Paused \<and> recent_checks E eid s \<noteq> [] \<and>
       attention_min_checks (cfg E) \<le> length (recent_checks E eid s) \<and>
       of_nat (length (filter id (recent_checks E eid s))) <
         attention_threshold (cfg E) * of_nat (length (recent_checks E eid s))) \<and>
    (b \<longrightarrow> experts s' = map (\<lambda>x. if e_id x = eid then x\<lparr>e_status := Paused\<rparr> else x) (experts s) \<and>
       payouts s' = map (\<lambda>p. if p_expert_id p = eid \<and> p_status p = Pending then p\<lparr>p_status := Withheld\<rparr> else p) (payouts s) \<and>
       tasks s' = tasks s \<and> grades s' = grades s \<and> attention_results s' = attention_results s) \<and>
    (\<not> b \<longrightarrow> s' = s)"
proof -
  let ?r = "recent_checks E eid s"
  obtain b s' where en: "enforce E eid s = (Inr b, s')"
    using enforce_returns [OF assms] by blast
  have b: "b \<longleftrightarrow> e_status e \<noteq> Paused \<and> ?r \<noteq> [] \<and> attention_min_checks (cfg E) \<le> length ?r \<and>
      of_nat (length (filter id ?r)) < attention_threshold (cfg E) * of_nat (length ?r)"
    using assms en
    by (auto simp: enforce_def rolling_pass_rate_def Let_def pos_le_divide_eq not_le split: if_splits)
  have "b \<longrightarrow> experts s' = map (\<lambda>x. if e_id x = eid then x\<lparr>e_status := Paused\<rparr> else x) (experts s) \<and>
       payouts s' = map (\<lambda>p. if p_expert_id p = eid \<and> p_status p = Pending then p\<lparr>p_status := Withheld\<rparr> else p) (payouts s) \<and>
       tasks s' = tasks s \<and> grades s' = grades s \<and> attention_results s' = attention_results s"
    using en by (cases rule: enforce_cases) (simp_all add: core_eq_iff withhold_pending_def update_row_def update_where_def)
  moreover have "\<not> b \<longrightarrow> s' = s" using en by (cases rule: enforce_cases) auto
  ultimately show ?thesis using en b by blast
qed

definition sample_careless_db :: db where
  "sample_careless_db = sample_ledger_db\<lparr>
     attention_results := [sample_check 60 4 True, sample_check 61 4 False, sample_check 62 4 False]\<rparr>"

lemma sample_careless:
  "get_expert 4 sample_careless_db = Some (sample_expert 4 ''ada'' Senior)"
  "recent_checks sample_env 4 sample_careless_db = [False, False, True]"
  by (simp_all add: recent_checks_def checks_of_def sample_careless_db_def sample_ledger_db_def sample_defs)

lemma sample_careless_paused: "\<exists>s1. enforce sample_env 4 sample_careless_db = (Inr True, s1)"
  unfolding enforce_def sample_careless the_row_simps rolling_pass_rate_def Let_def
  by (simp add: sample_env_def default_settings_def sample_expert_def)

theorem enforce_pauses_iff_witness:
  "\<exists>s'. enforce sample_env 4 sample_careless_db = (Inr True, s') \<and>
      experts s' = map (\<lambda>x. if e_id x = 4 then x\<lparr>e_status := Paused\<rparr> else x) (experts sample_careless_db) \<and>
      payouts s' = map (\<lambda>p. if p_expert_id p = 4 \<and> p_status p = Pending then p\<lparr>p_status := Withheld\<rparr> else p)
        (payouts sample_careless_db)"
  using enforce_pauses_iff [OF sample_careless(1), of sample_env] unfolding sample_careless(2)
  by (auto simp: sample_env_def default_settings_def sample_expert_def)

text \<open>
  C23: a reinstatement undoes a pause. If none of the expert's payouts was withheld before \<open>enforce\<close>
  paused them, then releasing the expert's withheld payouts afterwards restores every payout exactly
  as it was, and reports as many releases as the expert had pending payouts.
\<close>

theorem release_undoes_pause:
  assumes "enforce E eid s = (Inr True, s1)" "release_withheld eid actor s1 = (n, s2)"
    and none_withheld: "\<And>p. p \<in> set (payouts s) \<Longrightarrow> p_expert_id p = eid \<Longrightarrow> p_status p \<noteq> Withheld"
  shows "payouts s2 = payouts s \<and> n = row_count (\<lambda>p. p_expert_id p = eid \<and> p_status p = Pending) (payouts s)"
  using assms(1)
proof (cases rule: enforce_cases)
  case (paused e r passed total)
  have s1: "payouts s1 = update_where (\<lambda>p. p_expert_id p = eid \<and> p_status p = Pending)
      (\<lambda>p. p\<lparr>p_status := Withheld\<rparr>) (payouts s)"
    using paused(7) by (simp add: core_eq_iff withhold_pending_def)
  have s2: "payouts s2 = update_where (\<lambda>p. p_expert_id p = eid \<and> p_status p = Withheld)
      (\<lambda>p. p\<lparr>p_status := Pending\<rparr>) (payouts s1)"
    "n = row_count (\<lambda>p. p_expert_id p = eid \<and> p_status p = Withheld) (payouts s1)"
    using release_withheld_core [OF assms(2)] by (simp_all add: core_eq_iff)
  have "payouts s2 = payouts s"
    unfolding s2(1) s1 using none_withheld
    by (auto simp: update_where_def intro!: map_idI)
  moreover have "n = row_count (\<lambda>p. p_expert_id p = eid \<and> p_status p = Pending) (payouts s)"
    unfolding s2(2) s1 using none_withheld
    by (induction "payouts s") (auto simp: update_where_def row_count_def filter_map comp_def
      intro!: arg_cong [of _ _ length] filter_cong)
  ultimately show ?thesis by blast
qed simp

theorem release_undoes_pause_witness:
  "\<exists>s1 n s2. enforce sample_env 4 sample_careless_db = (Inr True, s1) \<and>
      release_withheld 4 ''admin'' s1 = (n, s2) \<and> payouts s2 = payouts sample_careless_db \<and> n = 1"
proof -
  from sample_careless_paused obtain s1 where en: "enforce sample_env 4 sample_careless_db = (Inr True, s1)" by blast
  obtain n s2 where rel: "release_withheld 4 ''admin'' s1 = (n, s2)" by fastforce
  have "payouts s2 = payouts sample_careless_db \<and>
      n = row_count (\<lambda>p. p_expert_id p = 4 \<and> p_status p = Pending) (payouts sample_careless_db)"
    by (rule release_undoes_pause [OF en rel])
      (auto simp: sample_careless_db_def sample_ledger_db_def sample_defs)
  then show ?thesis using en rel
    by (auto simp: sample_careless_db_def sample_ledger_db_def sample_defs)
qed

end
