(* ===== verification/Calibration.thy ===== *)
theory Calibration
  imports Attention
begin

text \<open>
  \<open>panelist/services/calibration.py\<close>: the rolling agreement of an expert with reviewers and golden
  answers, and the move of at most one tier when it clears a band edge.
\<close>

section \<open>Signals\<close>

text \<open>
  A signal is a time and whether the expert agreed: a review of one of the expert's grades, or a
  golden check. \<open>newest_first\<close> is the order \<open>created_at DESC\<close> of both queries and of the merge, where
  equal times keep the order they came in.
\<close>

type_synonym signal = "time \<times> bool"

definition newest_first :: "signal list \<Rightarrow> signal list" where
  "newest_first xs = sort_key (\<lambda>x. - fst x) xs"

definition review_signals :: "uuid \<Rightarrow> db \<Rightarrow> signal list" where
  "review_signals eid s = concat (map (\<lambda>r.
     case get_grade (rv_grade_id r) s of
       None \<Rightarrow> []
     | Some g \<Rightarrow> if g_expert_id g = eid then [(rv_created_at r, rv_decision r = Approve)] else [])
     (reviews s))"

definition check_signals :: "uuid \<Rightarrow> db \<Rightarrow> signal list" where
  "check_signals eid s =
     map (\<lambda>a. (ar_created_at a, ar_passed a)) (filter (\<lambda>a. ar_expert_id a = eid) (attention_results s))"

definition signals :: "uuid \<Rightarrow> nat \<Rightarrow> db \<Rightarrow> bool list" where
  "signals eid window s =
    (let revs = take window (newest_first (review_signals eid s));
         checks = take window (newest_first (check_signals eid s));
         merged = take window (newest_first (revs @ checks))
     in map snd merged)"

definition score :: "env \<Rightarrow> uuid \<Rightarrow> db \<Rightarrow> rat option \<times> nat" where
  "score E eid s =
    (let flags = signals eid (calibration_window (cfg E)) s
     in if flags = [] then (None, 0)
        else (Some (of_nat (length (filter id flags)) / of_nat (length flags)), length flags))"

section \<open>Moving between tiers\<close>

definition tiers_ascending :: "tier list" where
  "tiers_ascending = sort_key tier_rank [Junior, Senior, Lead]"

definition step :: "tier \<Rightarrow> int \<Rightarrow> tier" where
  "step t delta =
    (let index = int (length (takeWhile (\<lambda>u. u \<noteq> t) tiers_ascending)) + delta
     in tiers_ascending ! nat (max 0 (min index (int (length tiers_ascending) - 1))))"

definition target_tier :: "env \<Rightarrow> tier \<Rightarrow> rat \<Rightarrow> tier" where
  "target_tier E t rate =
    (if calibration_promote_at (cfg E) \<le> rate then step t 1
     else if rate \<le> calibration_demote_at (cfg E) then step t (- 1)
     else t)"

definition update :: "env \<Rightarrow> uuid \<Rightarrow> string \<Rightarrow> db \<Rightarrow> tier_change option outcome" where
  "update E eid actor s = the_row ''expert'' (get_expert eid s) (\<lambda>e s.
    (let (rate, samples) = score E eid s;
         s1 = modify_expert eid (\<lambda>e. e\<lparr>e_calibration_score := rate, e_calibration_samples := samples\<rparr>) s
     in case rate of
          None \<Rightarrow> (Inr None, s1)
        | Some r \<Rightarrow>
           if samples < calibration_min_samples (cfg E) then (Inr None, s1)
           else let target = target_tier E (e_tier e) r in
             if target = e_tier e then (Inr None, s1)
             else let direction = (if tier_rank (e_tier e) < tier_rank target then ''up'' else ''down'');
                      (now, s2) = now_utc E s1;
                      s3 = modify_expert eid (\<lambda>e. e\<lparr>e_tier := target, e_tier_updated_at := Some now\<rparr>) s2;
                      (cid, s4) = new_uuid E s3;
                      c = \<lparr>tc_id = cid, tc_expert_id = eid, tc_from_tier = e_tier e, tc_to_tier = target,
                           tc_score = r, tc_samples = samples, tc_created_at = tx_now s4\<rparr>
                  in and_then (insert_tier_change c s4) (\<lambda>_ s5.
                       (Inr (Some c), record_event actor ''expert.tier'' ''expert'' (str_uuid eid)
                          [(''from'', JStr (tier_value (e_tier e))), (''to'', JStr (tier_value target)),
                           (''score'', JFloat r), (''samples'', JInt (int samples))]
                          (emit (TIER_CHANGES direction) s5))))) s"

definition history :: "uuid \<Rightarrow> db \<Rightarrow> tier_change list" where
  "history eid s = sort_key (\<lambda>c. (tc_created_at c, tc_id c)) (filter (\<lambda>c. tc_expert_id c = eid) (tier_changes s))"

section \<open>Lemmas\<close>

lemma signals_newest:
  "signals eid w s = map snd (take w (newest_first (review_signals eid s @ check_signals eid s)))"
  by (simp add: signals_def newest_first_def take_sort_append)

lemma length_signals: "length (signals eid w s) = min w (length (review_signals eid s) + length (check_signals eid s))"
  by (simp add: signals_newest newest_first_def)

lemma tiers_ascending_eq: "tiers_ascending = [Junior, Senior, Lead]"
  by (simp add: tiers_ascending_def)

lemma step_simps [simp]:
  "step Junior 1 = Senior" "step Senior 1 = Lead" "step Lead 1 = Lead"
  "step Junior (- 1) = Junior" "step Senior (- 1) = Junior" "step Lead (- 1) = Senior"
  by (simp_all add: step_def tiers_ascending_eq Let_def)

lemma step_rank:
  "tier_rank (step t 1) = min 2 (Suc (tier_rank t))" "tier_rank (step t (- 1)) = tier_rank t - 1"
  by (cases t; simp)+

lemma score_bounds:
  assumes "score E eid s = (Some r, n)"
  shows "0 \<le> r" "r \<le> 1" "0 < n" "n \<le> calibration_window (cfg E)"
proof -
  let ?f = "signals eid (calibration_window (cfg E)) s"
  have eq: "?f \<noteq> []" "r = of_nat (length (filter id ?f)) / of_nat (length ?f)" "n = length ?f"
    using assms by (auto simp: score_def Let_def split: if_splits)
  have "length (filter id ?f) \<le> length ?f" by simp
  then show "0 \<le> r" "r \<le> 1" by (simp_all add: eq(2) divide_le_eq_1 del: length_filter_le)
  show "0 < n" "n \<le> calibration_window (cfg E)"
    using eq(1) by (simp_all add: eq(3)) (simp add: length_signals)
qed

lemma score_depends:
  assumes "grades s' = grades s" "reviews s' = reviews s" "attention_results s' = attention_results s"
  shows "score E eid s' = score E eid s"
  using assms by (simp add: score_def signals_def review_signals_def check_signals_def)

lemma update_cases:
  assumes "update E eid actor s = (Inr r, s')"
  obtains (unmoved) e rate samples where "r = None" "get_expert eid s = Some e"
      "score E eid s = (rate, samples)"
      "case rate of None \<Rightarrow> True | Some q \<Rightarrow> samples < calibration_min_samples (cfg E) \<or> target_tier E (e_tier e) q = e_tier e"
      "s' = modify_expert eid (\<lambda>e. e\<lparr>e_calibration_score := rate, e_calibration_samples := samples\<rparr>) s"
  | (moved) e q samples now c where "r = Some c" "get_expert eid s = Some e"
      "score E eid s = (Some q, samples)" "calibration_min_samples (cfg E) \<le> samples"
      "target_tier E (e_tier e) q \<noteq> e_tier e"
      "c = \<lparr>tc_id = uuid4 E (uuid_pos s), tc_expert_id = eid, tc_from_tier = e_tier e,
            tc_to_tier = target_tier E (e_tier e) q, tc_score = q, tc_samples = samples, tc_created_at = tx_now s\<rparr>"
      "core s' = core ((modify_expert eid (\<lambda>x. x\<lparr>e_calibration_score := Some q, e_calibration_samples := samples,
          e_tier := target_tier E (e_tier e) q, e_tier_updated_at := Some now\<rparr>) s)
         \<lparr>tier_changes := tier_changes s @ [c]\<rparr>)"
      "trail_step s s'"
proof -
  from assms obtain e where e: "get_expert eid s = Some e" by (auto simp: update_def result_simps)
  obtain rate samples where sc: "score E eid s = (rate, samples)" by fastforce
  let ?s1 = "modify_expert eid (\<lambda>e. e\<lparr>e_calibration_score := rate, e_calibration_samples := samples\<rparr>) s"
  show thesis
  proof (cases "case rate of None \<Rightarrow> True | Some q \<Rightarrow> samples < calibration_min_samples (cfg E) \<or> target_tier E (e_tier e) q = e_tier e")
    case True
    with assms e sc have "r = None" "s' = ?s1"
      by (auto simp: update_def Let_def split: option.splits if_splits)
    with True e sc show thesis by (intro unmoved)
  next
    case False
    then obtain q where q: "rate = Some q" "calibration_min_samples (cfg E) \<le> samples"
      "target_tier E (e_tier e) q \<noteq> e_tier e"
      by (auto split: option.splits)
    define now where "now = clock E (clock_pos s)"
    let ?t = "target_tier E (e_tier e) q"
    let ?c = "\<lparr>tc_id = uuid4 E (uuid_pos s), tc_expert_id = eid, tc_from_tier = e_tier e,
            tc_to_tier = ?t, tc_score = q, tc_samples = samples, tc_created_at = tx_now s\<rparr>"
    let ?s5 = "s\<lparr>clock_pos := Suc (clock_pos s),
        experts := update_row e_id eid (\<lambda>e. e\<lparr>e_tier := ?t, e_tier_updated_at := Some now\<rparr>)
          (update_row e_id eid (\<lambda>e. e\<lparr>e_calibration_score := Some q, e_calibration_samples := samples\<rparr>) (experts s)),
        uuid_pos := Suc (uuid_pos s), tier_changes := tier_changes s @ [?c]\<rparr>"
    have r: "r = Some ?c" and s': "s' = record_event actor ''expert.tier'' ''expert'' (str_uuid eid)
         [(''from'', JStr (tier_value (e_tier e))), (''to'', JStr (tier_value ?t)), (''score'', JFloat q), (''samples'', JInt (int samples))]
         (emit (TIER_CHANGES (if tier_rank (e_tier e) < tier_rank ?t then ''up'' else ''down'')) ?s5)"
      using assms e sc q
      by (simp_all del: emit_frame add: update_def Let_def now_utc_def new_uuid_def insert_tier_change_def result_simps now_def)
    have "core s' = core ((modify_expert eid (\<lambda>x. x\<lparr>e_calibration_score := Some q, e_calibration_samples := samples,
          e_tier := ?t, e_tier_updated_at := Some now\<rparr>) s)\<lparr>tier_changes := tier_changes s @ [?c]\<rparr>)"
      using s' q by auto (auto simp: core_eq_iff update_row_def)
    moreover have "trail_step s s'"
      using s' by (auto simp: emit_def intro!: trail_step_record_event trail_step_same)
    ultimately show thesis using r e sc q by (intro moved [of ?c e q samples now]) simp_all
  qed
qed

lemma update_frame:
  assumes "update E eid actor s = (Inr r, s')"
  shows "core (s'\<lparr>experts := experts s, tier_changes := tier_changes s\<rparr>) = core s" "trail_step s s'"
    "map (\<lambda>e. e\<lparr>e_calibration_score := None, e_calibration_samples := 0, e_tier := Junior, e_tier_updated_at := None\<rparr>) (experts s') =
     map (\<lambda>e. e\<lparr>e_calibration_score := None, e_calibration_samples := 0, e_tier := Junior, e_tier_updated_at := None\<rparr>) (experts s)"
  using assms
  by (cases rule: update_cases; simp add: core_eq_iff map_update_row trail_step_same)+

lemma update_get_other:
  assumes "update E eid actor s = (Inr r, s')" "k \<noteq> eid"
  shows "get_expert k s' = get_expert k s"
  using assms(1)
  by (cases rule: update_cases) (simp_all add: core_eq_iff expert_rows.get_modify_other assms(2) row_of_update_row)

lemma update_returns:
  assumes "get_expert eid s = Some e" "uuid4 E (uuid_pos s) \<notin> tc_id ` set (tier_changes s)"
  shows "\<exists>r s'. update E eid actor s = (Inr r, s')"
proof -
  have "eid \<in> e_id ` set (experts s)" using row_of_SomeD [OF assms(1)] by auto
  with assms show ?thesis
    by (auto simp: update_def now_utc_def new_uuid_def insert_tier_change_def Let_def insert_if_def split: prod.split option.split)
qed

section \<open>Properties\<close>

text \<open>
  C24: cutting each source at the window before merging loses nothing. The flags \<open>signals\<close> returns are
  those of the newest \<open>window\<close> entries of all reviews and golden checks of the expert together, newest
  first.
\<close>

theorem calibration_window_exact:
  "signals eid w s = map snd (take w (newest_first (review_signals eid s @ check_signals eid s)))"
  by (rule signals_newest)

text \<open>
  C16: what a calibration update does, for an expert on record and an unused row identifier. It always
  returns, stores the rolling rate and the number of signals behind it, and moves the expert by at most
  one tier: up when there are enough signals and the rate reaches the promotion edge, down when it is at
  or below the demotion edge, and not at all between the two. It writes a tier change exactly when the tier
  changed, from the old tier to the new one, and touches no other expert.
\<close>

theorem calibration_moves_one_tier:
  assumes "get_expert eid s = Some e" "uuid4 E (uuid_pos s) \<notin> tc_id ` set (tier_changes s)"
    "score E eid s = (rate, samples)"
  shows "\<exists>r s' e'. update E eid actor s = (Inr r, s') \<and> get_expert eid s' = Some e' \<and>
    e_calibration_score e' = rate \<and> e_calibration_samples e' = samples \<and>
    e_tier e' = (case rate of None \<Rightarrow> e_tier e | Some q \<Rightarrow>
      if samples < calibration_min_samples (cfg E) then e_tier e
      else if calibration_promote_at (cfg E) \<le> q then step (e_tier e) 1
      else if q \<le> calibration_demote_at (cfg E) then step (e_tier e) (- 1) else e_tier e) \<and>
    tier_rank (e_tier e') \<le> tier_rank (e_tier e) + 1 \<and> tier_rank (e_tier e) \<le> tier_rank (e_tier e') + 1 \<and>
    (e_tier e' = e_tier e \<longrightarrow> r = None \<and> tier_changes s' = tier_changes s) \<and>
    (e_tier e' \<noteq> e_tier e \<longrightarrow> (\<exists>c. r = Some c \<and> tier_changes s' = tier_changes s @ [c] \<and>
       tc_expert_id c = eid \<and> tc_from_tier c = e_tier e \<and> tc_to_tier c = e_tier e')) \<and>
    (\<forall>k. k \<noteq> eid \<longrightarrow> get_expert k s' = get_expert k s)"
proof -
  obtain r s' where up: "update E eid actor s = (Inr r, s')"
    using update_returns [OF assms(1,2)] by blast
  have rank: "tier_rank (target_tier E t q) \<le> tier_rank t + 1 \<and> tier_rank t \<le> tier_rank (target_tier E t q) + 1" for t q
    by (cases t) (auto simp: target_tier_def)
  from up show ?thesis
  proof (cases rule: update_cases)
    case (unmoved e1 rate1 samples1)
    let ?e' = "e\<lparr>e_calibration_score := rate, e_calibration_samples := samples\<rparr>"
    have "get_expert eid s' = Some ?e'"
      using unmoved assms by (simp add: row_of_update_row)
    then show ?thesis
      using up unmoved assms update_get_other [OF up]
      by (intro exI [of _ r] exI [of _ s'] exI [of _ ?e'])
        (auto simp: target_tier_def split: option.splits if_splits)
  next
    case (moved e1 q samples1 now c)
    let ?e' = "e\<lparr>e_calibration_score := Some q, e_calibration_samples := samples,
      e_tier := target_tier E (e_tier e) q, e_tier_updated_at := Some now\<rparr>"
    have "get_expert eid s' = Some ?e'"
      using moved assms by (simp add: core_eq_iff row_of_update_row)
    moreover have "tier_changes s' = tier_changes s @ [c]" using moved(7) by (simp add: core_eq_iff)
    ultimately show ?thesis
      using up moved assms update_get_other [OF up] rank [of "e_tier e" q]
      by (intro exI [of _ r] exI [of _ s'] exI [of _ ?e']) (auto simp: target_tier_def)
  qed
qed

definition sample_praised_db :: db where
  "sample_praised_db = sample_db\<lparr>
     grades := map (\<lambda>i. sample_grade i i 2 4) [40, 41, 42, 43, 44],
     reviews := map (\<lambda>i. sample_review (10 + i) i Approve) [40, 41, 42, 43, 44]\<rparr>"

lemma sample_praised:
  "get_expert 2 sample_praised_db = Some (sample_expert 2 ''bob'' Junior)"
  "uuid4 sample_env (uuid_pos sample_praised_db) \<notin> tc_id ` set (tier_changes sample_praised_db)"
  "score sample_env 2 sample_praised_db = (Some 1, 5)"
proof -
  have "signals 2 20 sample_praised_db = [True, True, True, True, True]"
    by (simp add: signals_newest review_signals_def check_signals_def newest_first_def sample_praised_db_def sample_defs)
  then show "score sample_env 2 sample_praised_db = (Some 1, 5)"
    by (simp add: score_def sample_env_def default_settings_def)
qed (simp_all add: sample_praised_db_def sample_defs)

theorem calibration_moves_one_tier_witness:
  "\<exists>r s' e'. update sample_env 2 ''system'' sample_praised_db = (Inr r, s') \<and>
      get_expert 2 s' = Some e' \<and> e_tier e' = Senior"
proof -
  obtain r s' e' where "update sample_env 2 ''system'' sample_praised_db = (Inr r, s')"
    "get_expert 2 s' = Some e'" "e_tier e' = step Junior 1"
    using calibration_moves_one_tier [OF sample_praised, of "''system''"]
    by (auto simp: sample_settings sample_expert_def)
  then show ?thesis by auto
qed

text \<open>
  An update is not an event of its own. As long as no review and no golden check is added, repeating
  the update repeats the move, so two updates in a row take an expert whose rate is at the promotion edge
  from any tier to lead.
\<close>

theorem calibration_repeats_climb:
  assumes "update E eid actor s = (Inr r, s1)" "update E eid actor' s1 = (Inr r', s2)"
    "score E eid s = (Some q, samples)" "calibration_min_samples (cfg E) \<le> samples"
    "calibration_promote_at (cfg E) \<le> q"
  shows "map_option e_tier (get_expert eid s2) = Some Lead"
proof -
  have up: "map_option e_tier (get_expert eid t') = map_option (\<lambda>e. step (e_tier e) 1) (get_expert eid t) \<and>
      get_expert eid t \<noteq> None"
    if "update E eid a t = (Inr x, t')" "score E eid t = (Some q, samples)" for a t x t'
    using that(1)
    by (cases rule: update_cases)
      (use that(2) assms(4,5) in \<open>auto simp: core_eq_iff row_of_update_row target_tier_def\<close>)
  have "score E eid s1 = score E eid s"
    using update_frame(1) [OF assms(1)] by (intro score_depends) (simp_all add: core_eq_iff)
  moreover have "step (step u 1) 1 = Lead" for u by (cases u) simp_all
  ultimately show ?thesis
    using up [OF assms(1,3)] up [OF assms(2)] assms(3) by auto
qed

theorem calibration_repeats_climb_witness:
  "\<exists>r s1 r' s2. update sample_env 2 ''system'' sample_praised_db = (Inr r, s1) \<and>
      update sample_env 2 ''admin'' s1 = (Inr r', s2) \<and> map_option e_tier (get_expert 2 s2) = Some Lead"
proof -
  have "\<exists>r s1. update sample_env 2 ''system'' sample_praised_db = (Inr r, s1) \<and>
      uuid4 sample_env (uuid_pos s1) \<notin> tc_id ` set (tier_changes s1)"
    using sample_praised(1)
    by (simp add: update_def sample_praised sample_settings sample_expert_def target_tier_def now_utc_def new_uuid_def
        insert_tier_change_def insert_if_def Let_def)
      (simp add: sample_praised_db_def sample_defs image_iff)
  then obtain r s1 where s1: "update sample_env 2 ''system'' sample_praised_db = (Inr r, s1)"
    "uuid4 sample_env (uuid_pos s1) \<notin> tc_id ` set (tier_changes s1)" by blast
  moreover have "get_expert 2 s1 \<noteq> None"
    using s1(1) by (cases rule: update_cases) (auto simp: core_eq_iff row_of_update_row)
  ultimately obtain r' s2 where "update sample_env 2 ''admin'' s1 = (Inr r', s2)"
    using update_returns by blast
  note up = s1(1) this
  from calibration_repeats_climb [OF up sample_praised(3)] up show ?thesis
    by (auto simp: sample_settings)
qed

end
