(* ===== verification/Routing.thy ===== *)
theory Routing
  imports Calibration
begin

text \<open>
  \<open>panelist/services/routing.py\<close>: the work queue. A claim takes the best eligible task whose row no
  other open transaction has locked (\<open>FOR UPDATE SKIP LOCKED\<close>); \<open>locked\<close> is the list of the tasks whose
  rows such transactions hold. A lease that runs out returns its task to the queue at the next claim.
\<close>

section \<open>Eligibility\<close>

definition eligible_tiers :: "tier \<Rightarrow> tier list" where
  "eligible_tiers t = filter (\<lambda>u. tier_rank u \<le> tier_rank t) [Junior, Senior, Lead]"

definition tags_overlap :: "string list \<Rightarrow> string list \<Rightarrow> bool" where
  "tags_overlap a b \<longleftrightarrow> set a \<inter> set b \<noteq> {}"

definition already_graded :: "uuid \<Rightarrow> uuid \<Rightarrow> db \<Rightarrow> bool" where
  "already_graded tid eid s \<longleftrightarrow> (\<exists>g \<in> set (grades s). g_task_id g = tid \<and> g_expert_id g = eid)"

definition eligibility :: "expert \<Rightarrow> db \<Rightarrow> task \<Rightarrow> bool" where
  "eligibility e s t \<longleftrightarrow>
     t_status t = Queued \<and>
     tags_overlap (t_required_tags t) (e_tags e) \<and>
     t_min_tier t \<in> set (eligible_tiers (e_tier e)) \<and>
     \<not> already_graded (t_id t) (e_id e) s"

section \<open>Leases\<close>

definition lease_expired :: "time \<Rightarrow> task \<Rightarrow> bool" where
  "lease_expired now t \<longleftrightarrow>
     t_status t = Assigned \<and> (case t_lease_expires_at t of None \<Rightarrow> False | Some x \<Rightarrow> x < now)"

definition unassigned :: "task \<Rightarrow> task" where
  "unassigned t = t\<lparr>t_status := Queued, t_assigned_expert_id := None, t_assigned_at := None,
     t_lease_expires_at := None\<rparr>"

definition reclaimed :: "task \<Rightarrow> task" where
  "reclaimed t = (unassigned t)\<lparr>t_reclaim_count := t_reclaim_count t + 1\<rparr>"

definition reclaim_expired :: "env \<Rightarrow> db \<Rightarrow> int \<times> db" where
  "reclaim_expired E s =
    (let (now, s1) = now_utc E s;
         n = row_count (lease_expired now) (tasks s1)
     in (n, s1\<lparr>tasks := update_where (lease_expired now) reclaimed (tasks s1)\<rparr>))"

definition leased :: "env \<Rightarrow> uuid \<Rightarrow> time \<Rightarrow> task \<Rightarrow> task" where
  "leased E eid now t = t\<lparr>t_status := Assigned, t_pinned_rubric_id := Some (t_rubric_id t),
     t_assigned_expert_id := Some eid, t_assigned_at := Some now,
     t_lease_expires_at := Some (now + seconds (lease_seconds (cfg E)))\<rparr>"

definition assign :: "env \<Rightarrow> task \<Rightarrow> uuid \<Rightarrow> db \<Rightarrow> task \<times> db" where
  "assign E t eid s =
    (let (now, s1) = now_utc E s;
         t' = leased E eid now t;
         s2 = modify_task (t_id t) (leased E eid now) s1;
         s3 = modify_expert eid (\<lambda>e. e\<lparr>e_served_count := e_served_count e + 1\<rparr>) s2
     in (t', record_event (''expert:'' @ str_uuid eid) ''task.assigned'' ''task'' (str_uuid (t_id t))
               [(''lease_expires_at'', JStr (isoformat (now + seconds (lease_seconds (cfg E)))))] s3))"

section \<open>Picking and claiming\<close>

definition pick_key :: "task \<Rightarrow> int \<times> (bool \<times> time) \<times> int" where
  "pick_key t = (- t_priority t,
     (case t_deadline t of None \<Rightarrow> (True, 0) | Some d \<Rightarrow> (False, d)), t_seq t)"

definition pick :: "expert \<Rightarrow> bool option \<Rightarrow> uuid list \<Rightarrow> db \<Rightarrow> task option" where
  "pick e want_attention locked s = select_first pick_key
     (\<lambda>t. eligibility e s t \<and> t_id t \<notin> set locked \<and>
          (case want_attention of None \<Rightarrow> True | Some b \<Rightarrow> t_is_attention_check t = b)) (tasks s)"

definition from_bytes_big :: "nat list \<Rightarrow> nat" where
  "from_bytes_big bs = foldl (\<lambda>n b. 256 * n + b) 0 bs"

definition prefers_attention_check :: "env \<Rightarrow> uuid \<Rightarrow> int \<Rightarrow> bool" where
  "prefers_attention_check E eid serve_index =
    (let fraction = attention_fraction (cfg E) in
     if fraction \<le> 0 then False
     else if 1 \<le> fraction then True
     else let digest = sha256 E (attention_key (cfg E) @ '':'' @ str_uuid eid @ '':'' @ str_int serve_index)
          in of_nat (from_bytes_big (take 4 digest)) / 2 ^ 32 < fraction)"

definition claim_next :: "env \<Rightarrow> uuid \<Rightarrow> uuid list \<Rightarrow> db \<Rightarrow> task option outcome" where
  "claim_next E eid locked s = the_row ''expert'' (get_expert eid s) (\<lambda>e s.
    (if e_status e \<noteq> Active then (Inl (ServiceError 423 (ExpertIs (e_status e))), s)
     else
       let (_, s1) = reclaim_expired E s;
           prefer_attention = prefers_attention_check E eid (e_served_count e + 1);
           golden = (if prefer_attention then pick e (Some True) locked s1 else None);
           choice = (case golden of None \<Rightarrow> pick e (Some False) locked s1 | Some t \<Rightarrow> Some t)
       in case choice of
            None \<Rightarrow> (Inr None, emit (CLAIMS ''empty'') s1)
          | Some t \<Rightarrow>
              (let (t', s2) = assign E t eid (emit (CLAIMS ''assigned'') s1)
               in (Inr (Some t'), s2)))) s"

definition claim_by_id :: "env \<Rightarrow> uuid \<Rightarrow> uuid \<Rightarrow> uuid list \<Rightarrow> db \<Rightarrow> task outcome" where
  "claim_by_id E eid tid locked s = the_row ''expert'' (get_expert eid s) (\<lambda>e s.
    (if e_status e \<noteq> Active then (Inl (ServiceError 423 (ExpertIs (e_status e))), s)
     else
       let (_, s1) = reclaim_expired E s in
       case (if tid \<in> set locked then None else get_task tid s1) of
         None \<Rightarrow>
           (case get_task tid s1 of
              None \<Rightarrow> (Inl (ServiceError 404 TaskNotFound), s1)
            | Some _ \<Rightarrow> (Inl (ServiceError 409 TaskBeingClaimed), emit DOUBLE_ASSIGN_BLOCKED s1))
       | Some t \<Rightarrow>
           if t_status t \<noteq> Queued
           then (Inl (ServiceError 409 (TaskIs (t_status t))), emit DOUBLE_ASSIGN_BLOCKED s1)
           else if \<not> tags_overlap (t_required_tags t) (e_tags e)
           then (Inl (ServiceError 403 TaskRequiresExpertise), s1)
           else if tier_rank (e_tier e) < tier_rank (t_min_tier t)
           then (Inl (ServiceError 403 TaskRequiresHigherTier), s1)
           else (let (t', s2) = assign E t eid (emit (CLAIMS ''assigned'') s1) in (Inr t', s2)))) s"

definition release :: "uuid \<Rightarrow> uuid \<Rightarrow> db \<Rightarrow> task outcome" where
  "release eid tid s =
    (case get_task tid s of
       None \<Rightarrow> (Inl (ServiceError 404 TaskNotFound), s)
     | Some t \<Rightarrow>
        if t_status t \<noteq> Assigned \<or> t_assigned_expert_id t \<noteq> Some eid
        then (Inl (ServiceError 409 TaskNotAssignedToExpert), s)
        else (Inr (unassigned t), record_event (''expert:'' @ str_uuid eid) ''task.released'' ''task'' (str_uuid tid) []
                (modify_task tid unassigned s)))"

section \<open>The queue's summaries\<close>

definition queue_depth_by_tag :: "db \<Rightarrow> (string \<times> int) list" where
  "queue_depth_by_tag s =
    (let tags = concat (map t_required_tags (filter (\<lambda>t. t_status t = Queued) (tasks s)))
     in map (\<lambda>tag. (tag, row_count (\<lambda>x. x = tag) tags)) (remdups tags))"

definition all_task_statuses :: "task_status list" where
  "all_task_statuses = [Queued, Assigned, Submitted, Adjudication, Approved, Rejected]"

definition queue_summary :: "db \<Rightarrow> (task_status \<times> int) list" where
  "queue_summary s =
    (let grouped = map (\<lambda>st. (st, row_count (\<lambda>t. t_status t = st) (tasks s))) (remdups (map t_status (tasks s)))
     in map (\<lambda>st. (st, case map_of grouped st of None \<Rightarrow> 0 | Some n \<Rightarrow> n)) all_task_statuses)"

section \<open>What the operations do\<close>

text \<open>\<open>swept E s\<close> is the queue a claim reads: \<open>s\<close> with the leases that ran out by now returned.\<close>

definition swept :: "env \<Rightarrow> db \<Rightarrow> db" where
  "swept E s = s\<lparr>tasks := update_where (lease_expired (clock E (clock_pos s))) reclaimed (tasks s)\<rparr>"

lemma unassigned_simps [simp]:
  "t_id (unassigned t) = t_id t" "t_seq (unassigned t) = t_seq t" "t_status (unassigned t) = Queued"
  "t_assigned_expert_id (unassigned t) = None" "t_assigned_at (unassigned t) = None"
  "t_lease_expires_at (unassigned t) = None" "t_rubric_id (unassigned t) = t_rubric_id t"
  "t_pinned_rubric_id (unassigned t) = t_pinned_rubric_id t"
  "t_required_grades (unassigned t) = t_required_grades t"
  "t_grades_received (unassigned t) = t_grades_received t"
  "t_is_attention_check (unassigned t) = t_is_attention_check t"
  "t_min_tier (unassigned t) = t_min_tier t" "t_required_tags (unassigned t) = t_required_tags t"
  by (simp_all add: unassigned_def)

lemma reclaimed_simps [simp]:
  "t_id (reclaimed t) = t_id t" "t_seq (reclaimed t) = t_seq t" "t_status (reclaimed t) = Queued"
  "t_assigned_expert_id (reclaimed t) = None" "t_assigned_at (reclaimed t) = None"
  "t_lease_expires_at (reclaimed t) = None" "t_rubric_id (reclaimed t) = t_rubric_id t"
  "t_pinned_rubric_id (reclaimed t) = t_pinned_rubric_id t"
  "t_required_grades (reclaimed t) = t_required_grades t"
  "t_grades_received (reclaimed t) = t_grades_received t"
  "t_is_attention_check (reclaimed t) = t_is_attention_check t"
  "t_min_tier (reclaimed t) = t_min_tier t" "t_required_tags (reclaimed t) = t_required_tags t"
  by (simp_all add: reclaimed_def)

lemma leased_simps [simp]:
  "t_id (leased E eid now t) = t_id t" "t_seq (leased E eid now t) = t_seq t"
  "t_status (leased E eid now t) = Assigned"
  "t_assigned_expert_id (leased E eid now t) = Some eid" "t_assigned_at (leased E eid now t) = Some now"
  "t_lease_expires_at (leased E eid now t) = Some (now + seconds (lease_seconds (cfg E)))"
  "t_rubric_id (leased E eid now t) = t_rubric_id t"
  "t_pinned_rubric_id (leased E eid now t) = Some (t_rubric_id t)"
  "t_required_grades (leased E eid now t) = t_required_grades t"
  "t_grades_received (leased E eid now t) = t_grades_received t"
  "t_is_attention_check (leased E eid now t) = t_is_attention_check t"
  "t_min_tier (leased E eid now t) = t_min_tier t" "t_required_tags (leased E eid now t) = t_required_tags t"
  by (simp_all add: leased_def)

lemma reclaim_expired_core:
  assumes "reclaim_expired E s = (n, s1)"
  shows "core s1 = core (swept E s)" "n = row_count (lease_expired (clock E (clock_pos s))) (tasks s)"
    "trail_step s s1" "clock_pos s1 = Suc (clock_pos s)"
  using assms by (auto simp: reclaim_expired_def now_utc_def swept_def core_eq_iff intro!: trail_step_same)

lemma assign_core:
  assumes "assign E t eid s = (t', s')"
  shows "t' = leased E eid (clock E (clock_pos s)) t"
    "core s' = core (modify_expert eid (\<lambda>e. e\<lparr>e_served_count := e_served_count e + 1\<rparr>)
       (modify_task (t_id t) (leased E eid (clock E (clock_pos s))) s))"
    "trail_step s s'"
  using assms
  by (auto simp: assign_def now_utc_def Let_def core_eq_iff intro!: trail_step_record_event trail_step_same)

lemma pick_core: "core s = core s' \<Longrightarrow> pick e w locked s = pick e w locked s'"
  unfolding core_eq_iff pick_def eligibility_def already_graded_def by simp

lemma pick_SomeD:
  assumes "pick e w locked s = Some t"
  shows "t \<in> set (tasks s)" "eligibility e s t" "t_id t \<notin> set locked"
    "w = Some b \<Longrightarrow> t_is_attention_check t = b"
    "\<And>u. u \<in> set (tasks s) \<Longrightarrow> eligibility e s u \<Longrightarrow> t_id u \<notin> set locked \<Longrightarrow>
       (case w of None \<Rightarrow> True | Some b \<Rightarrow> t_is_attention_check u = b) \<Longrightarrow> pick_key t \<le> pick_key u"
  using select_first_SomeD [OF assms [unfolded pick_def]] by auto

lemma pick_None_iff: "pick e (Some b) locked s = None \<longleftrightarrow>
    (\<forall>t \<in> set (tasks s). eligibility e s t \<longrightarrow> t_id t \<in> set locked \<or> t_is_attention_check t \<noteq> b)"
  by (auto simp: pick_def select_first_None_iff)

text \<open>The choice of a claim, as one expression over the swept queue.\<close>

definition claim_choice :: "env \<Rightarrow> expert \<Rightarrow> uuid list \<Rightarrow> db \<Rightarrow> task option" where
  "claim_choice E e locked s =
    (case (if prefers_attention_check E (e_id e) (e_served_count e + 1) then pick e (Some True) locked s else None) of
       None \<Rightarrow> pick e (Some False) locked s | Some t \<Rightarrow> Some t)"

lemma claim_choice_core: "core s = core s' \<Longrightarrow> claim_choice E e locked s = claim_choice E e locked s'"
  unfolding claim_choice_def by (simp only: pick_core [of s s'])

lemma claim_choice_SomeD:
  assumes "claim_choice E e locked s = Some t"
  shows "pick e (Some (t_is_attention_check t)) locked s = Some t"
    "t_is_attention_check t \<Longrightarrow> prefers_attention_check E (e_id e) (e_served_count e + 1)"
    "prefers_attention_check E (e_id e) (e_served_count e + 1) \<Longrightarrow> \<not> t_is_attention_check t \<Longrightarrow>
       pick e (Some True) locked s = None"
proof -
  have att: "t_is_attention_check t = b" if "pick e (Some b) locked s = Some t" for b
    using pick_SomeD(4) [OF that] by simp
  show "pick e (Some (t_is_attention_check t)) locked s = Some t"
    using assms att [of True] att [of False] by (auto simp: claim_choice_def split: if_splits option.splits)
  show "t_is_attention_check t \<Longrightarrow> prefers_attention_check E (e_id e) (e_served_count e + 1)"
    using assms att [of False] by (auto simp: claim_choice_def split: if_splits option.splits)
  show "prefers_attention_check E (e_id e) (e_served_count e + 1) \<Longrightarrow> \<not> t_is_attention_check t \<Longrightarrow>
       pick e (Some True) locked s = None"
    using assms att [of True] by (auto simp: claim_choice_def split: if_splits option.splits)
qed

lemma claim_next_run:
  assumes "get_expert eid s = Some e" "e_status e = Active" "reclaim_expired E s = (n, s1)"
  shows "claim_next E eid locked s = (case claim_choice E e locked s1 of
      None \<Rightarrow> (Inr None, emit (CLAIMS ''empty'') s1)
    | Some t \<Rightarrow> let (t', s2) = assign E t eid (emit (CLAIMS ''assigned'') s1) in (Inr (Some t'), s2))"
  using row_of_SomeD [OF assms(1)]
  unfolding claim_next_def Let_def by (simp add: claim_choice_def assms)

lemma claim_next_cases:
  assumes "claim_next E eid locked s = (Inr r, s')"
  obtains (empty) e where "r = None" "get_expert eid s = Some e" "e_status e = Active"
      "claim_choice E e locked (swept E s) = None" "core s' = core (swept E s)" "trail_step s s'"
  | (served) e t now where "get_expert eid s = Some e" "e_status e = Active"
      "claim_choice E e locked (swept E s) = Some t" "r = Some (leased E eid now t)"
      "now = clock E (Suc (clock_pos s))"
      "core s' = core (modify_expert eid (\<lambda>e. e\<lparr>e_served_count := e_served_count e + 1\<rparr>)
         (modify_task (t_id t) (leased E eid now) (swept E s)))" "trail_step s s'"
proof -
  from assms obtain e where e: "get_expert eid s = Some e" by (auto simp: claim_next_def result_simps)
  have act: "e_status e = Active" using assms e by (auto simp: claim_next_def split: if_splits)
  obtain n s1 where s1: "reclaim_expired E s = (n, s1)" by fastforce
  note rc = reclaim_expired_core [OF s1]
  have choice: "claim_choice E e locked s1 = claim_choice E e locked (swept E s)"
    by (rule claim_choice_core [OF rc(1)])
  show thesis
  proof (cases "claim_choice E e locked (swept E s)")
    case None
    then have "r = None" "s' = emit (CLAIMS ''empty'') s1"
      using assms by (simp_all add: claim_next_run [OF e act s1] choice)
    moreover have "trail_step s (emit (CLAIMS ''empty'') s1)"
      using rc(3) by simp
    ultimately show thesis using rc(1) by (intro empty [OF _ e act None]) simp_all
  next
    case (Some t)
    obtain t' s2 where as: "assign E t eid (emit (CLAIMS ''assigned'') s1) = (t', s2)" by fastforce
    have r: "r = Some t'" "s' = s2"
      using assms Some as by (simp_all add: claim_next_run [OF e act s1] choice)
    have "core s2 = core (modify_expert eid (\<lambda>e. e\<lparr>e_served_count := e_served_count e + 1\<rparr>)
         (modify_task (t_id t) (leased E eid (clock E (Suc (clock_pos s)))) (swept E s)))"
      using assign_core(2) [OF as] rc(1,4) by (simp add: core_eq_iff)
    moreover have "trail_step s s2"
      using trail_step_trans [OF _ assign_core(3) [OF as]] rc(3) by simp
    ultimately show thesis
      using r assign_core(1) [OF as] rc(4) by (intro served [OF e act Some]) simp_all
  qed
qed

lemma claim_by_id_run:
  assumes "get_expert eid s = Some e" "e_status e = Active" "reclaim_expired E s = (n, s1)"
  shows "claim_by_id E eid tid locked s =
    (case (if tid \<in> set locked then None else get_task tid s1) of
         None \<Rightarrow>
           (case get_task tid s1 of
              None \<Rightarrow> (Inl (ServiceError 404 TaskNotFound), s1)
            | Some _ \<Rightarrow> (Inl (ServiceError 409 TaskBeingClaimed), emit DOUBLE_ASSIGN_BLOCKED s1))
       | Some t \<Rightarrow>
           if t_status t \<noteq> Queued
           then (Inl (ServiceError 409 (TaskIs (t_status t))), emit DOUBLE_ASSIGN_BLOCKED s1)
           else if \<not> tags_overlap (t_required_tags t) (e_tags e)
           then (Inl (ServiceError 403 TaskRequiresExpertise), s1)
           else if tier_rank (e_tier e) < tier_rank (t_min_tier t)
           then (Inl (ServiceError 403 TaskRequiresHigherTier), s1)
           else (let (t', s2) = assign E t eid (emit (CLAIMS ''assigned'') s1) in (Inr t', s2)))"
  unfolding claim_by_id_def Let_def by (simp add: assms)

lemma claim_by_id_cases:
  assumes "claim_by_id E eid tid locked s = (Inr t', s')"
  obtains e t now where "get_expert eid s = Some e" "e_status e = Active" "tid \<notin> set locked"
      "get_task tid (swept E s) = Some t" "t_status t = Queued" "tags_overlap (t_required_tags t) (e_tags e)"
      "tier_rank (t_min_tier t) \<le> tier_rank (e_tier e)"
      "t' = leased E eid now t" "now = clock E (Suc (clock_pos s))"
      "core s' = core (modify_expert eid (\<lambda>e. e\<lparr>e_served_count := e_served_count e + 1\<rparr>)
         (modify_task tid (leased E eid now) (swept E s)))" "trail_step s s'"
proof -
  from assms obtain e where e: "get_expert eid s = Some e" by (auto simp: claim_by_id_def result_simps)
  have act: "e_status e = Active" using assms e by (auto simp: claim_by_id_def split: if_splits)
  obtain n s1 where s1: "reclaim_expired E s = (n, s1)" by fastforce
  note rc = reclaim_expired_core [OF s1]
  have free: "tid \<notin> set locked" using assms
    by (auto simp: claim_by_id_run [OF e act s1] split: option.splits if_splits)
  then obtain t where t: "get_task tid s1 = Some t" using assms
    by (auto simp: claim_by_id_run [OF e act s1] split: option.splits if_splits)
  have ok: "t_status t = Queued" "tags_overlap (t_required_tags t) (e_tags e)"
      "\<not> tier_rank (e_tier e) < tier_rank (t_min_tier t)"
    using assms by (simp_all add: claim_by_id_run [OF e act s1] t free split: if_splits)
  obtain t1 s2 where as: "assign E t eid (emit (CLAIMS ''assigned'') s1) = (t1, s2)" by fastforce
  have r: "t' = t1" "s' = s2"
    using assms ok as by (simp_all add: claim_by_id_run [OF e act s1] t free split: if_splits)
  have tid: "t_id t = tid" using row_of_SomeD [OF t] by simp
  have "core s2 = core (modify_expert eid (\<lambda>e. e\<lparr>e_served_count := e_served_count e + 1\<rparr>)
         (modify_task tid (leased E eid (clock E (Suc (clock_pos s)))) (swept E s)))"
    using assign_core(2) [OF as] rc(1,4) tid by (simp add: core_eq_iff)
  moreover have "trail_step s s2"
    using trail_step_trans [OF _ assign_core(3) [OF as]] rc(3) by simp
  moreover have "get_task tid (swept E s) = Some t" using t rc(1) by (simp add: core_eq_iff)
  ultimately show thesis
    using ok r assign_core(1) [OF as] rc(4) by (intro that [OF e act free, of t]) simp_all
qed

lemma release_cases:
  assumes "release eid tid s = (Inr t', s')"
  obtains t where "get_task tid s = Some t" "t_status t = Assigned" "t_assigned_expert_id t = Some eid"
      "t' = unassigned t" "core s' = core (modify_task tid unassigned s)" "trail_step s s'"
proof -
  obtain t where t: "get_task tid s = Some t" "t_status t = Assigned" "t_assigned_expert_id t = Some eid"
    using assms by (auto simp: release_def split: option.splits if_splits)
  with assms have "t' = unassigned t"
    "s' = record_event (''expert:'' @ str_uuid eid) ''task.released'' ''task'' (str_uuid tid) [] (modify_task tid unassigned s)"
    by (simp_all add: release_def)
  then show thesis
    by (intro that [OF t]) (auto intro!: trail_step_record_event trail_step_same)
qed

section \<open>The lease invariant\<close>

text \<open>
  A task is assigned exactly when it has an assignee, an assignment time and a lease; an assigned task
  has a pinned rubric. A key of the queue order is never shared: the sequence numbers are distinct and
  below the next one.
\<close>

definition lease_ok :: "task \<Rightarrow> bool" where
  "lease_ok t \<longleftrightarrow>
     (t_status t = Assigned \<longleftrightarrow> t_assigned_expert_id t \<noteq> None) \<and>
     (t_assigned_expert_id t \<noteq> None \<longleftrightarrow> t_assigned_at t \<noteq> None) \<and>
     (t_assigned_expert_id t \<noteq> None \<longleftrightarrow> t_lease_expires_at t \<noteq> None) \<and>
     (t_status t = Assigned \<longrightarrow> t_pinned_rubric_id t \<noteq> None)"

definition leases_ok :: "db \<Rightarrow> bool" where
  "leases_ok s \<longleftrightarrow> (\<forall>t \<in> set (tasks s). lease_ok t)"

definition seqs_ok :: "task list \<Rightarrow> bool" where
  "seqs_ok ts \<longleftrightarrow> distinct (map t_seq ts)"

lemma lease_ok_edits [simp]:
  "lease_ok (unassigned t)" "lease_ok (reclaimed t)" "lease_ok (leased E eid now t)"
  by (simp_all add: lease_ok_def)

lemma leases_ok_core: "core s = core s' \<Longrightarrow> leases_ok s = leases_ok s'"
  by (simp add: leases_ok_def core_eq_iff)

lemma leases_ok_update_where:
  assumes "leases_ok s" "\<And>t. lease_ok t \<Longrightarrow> p t \<Longrightarrow> lease_ok (f t)"
  shows "leases_ok (s\<lparr>tasks := update_where p f (tasks s)\<rparr>)"
  using assms by (auto simp: leases_ok_def elim!: in_update_whereE)

lemma leases_ok_modify_task:
  assumes "leases_ok s" "\<And>t. lease_ok t \<Longrightarrow> t_id t = tid \<Longrightarrow> lease_ok (f t)"
  shows "leases_ok (modify_task tid f s)"
  unfolding update_where_row using assms by (rule leases_ok_update_where)

lemma swept_leases_ok: "leases_ok s \<Longrightarrow> leases_ok (swept E s)"
  unfolding swept_def by (rule leases_ok_update_where) simp_all

lemma swept_frame [simp]:
  "experts (swept E s) = experts s" "grades (swept E s) = grades s" "rubrics (swept E s) = rubrics s"
  "reviews (swept E s) = reviews s" "consensuses (swept E s) = consensuses s" "payouts (swept E s) = payouts s"
  "attention_results (swept E s) = attention_results s" "tx_now (swept E s) = tx_now s"
  "map t_id (tasks (swept E s)) = map t_id (tasks s)" "map t_seq (tasks (swept E s)) = map t_seq (tasks s)"
  by (simp_all add: swept_def map_update_where)

lemma claim_next_leases_ok:
  assumes "leases_ok s" "claim_next E eid locked s = (Inr r, s')"
  shows "leases_ok s'"
  using assms(2)
proof (cases rule: claim_next_cases)
  case (empty e)
  then show ?thesis using leases_ok_core [OF empty(5)] swept_leases_ok [OF assms(1)] by simp
next
  case (served e t now)
  have "leases_ok (modify_task (t_id t) (leased E eid now) (swept E s))"
    by (rule leases_ok_modify_task [OF swept_leases_ok [OF assms(1)]]) simp
  then show ?thesis using leases_ok_core [OF served(6)] by (simp add: leases_ok_def)
qed

lemma claim_by_id_leases_ok:
  assumes "leases_ok s" "claim_by_id E eid tid locked s = (Inr r, s')"
  shows "leases_ok s'"
  using assms(2)
proof (cases rule: claim_by_id_cases)
  case (1 e t now)
  have "leases_ok (modify_task tid (leased E eid now) (swept E s))"
    by (rule leases_ok_modify_task [OF swept_leases_ok [OF assms(1)]]) simp
  then show ?thesis using leases_ok_core [OF 1(10)] by (simp add: leases_ok_def)
qed

lemma release_leases_ok:
  assumes "leases_ok s" "release eid tid s = (Inr r, s')"
  shows "leases_ok s'"
  using assms(2)
proof (cases rule: release_cases)
  case (1 t)
  have "leases_ok (modify_task tid unassigned s)"
    by (rule leases_ok_modify_task [OF assms(1)]) simp
  then show ?thesis using leases_ok_core [OF 1(5)] by simp
qed

text \<open>The order of the queue has no ties, because the last part of the key is the sequence number.\<close>

interpretation queue_order: total_order_key pick_key seqs_ok
  by unfold_locales (auto simp: seqs_ok_def pick_key_def inj_on_def distinct_map)

lemma swept_idle:
  assumes "\<And>t. t \<in> set (tasks s) \<Longrightarrow> \<not> lease_expired (clock E (clock_pos s)) t"
  shows "swept E s = s"
proof -
  have "update_where (lease_expired (clock E (clock_pos s))) reclaimed (tasks s) = tasks s"
    using assms by (simp add: update_where_def map_idI)
  then show ?thesis by (simp add: swept_def)
qed

lemma claim_next_returns:
  assumes "get_expert eid s = Some e" "e_status e = Active"
  shows "\<exists>r s'. claim_next E eid locked s = (Inr r, s')"
proof -
  obtain n s1 where s1: "reclaim_expired E s = (n, s1)" by fastforce
  show ?thesis unfolding claim_next_run [OF assms s1]
    by (cases "claim_choice E e locked s1") (auto simp: Let_def split: prod.split)
qed

lemma claim_by_id_returns:
  assumes "get_expert eid s = Some e" "e_status e = Active" "tid \<notin> set locked"
    "get_task tid (swept E s) = Some t" "t_status t = Queued" "tags_overlap (t_required_tags t) (e_tags e)"
    "tier_rank (t_min_tier t) \<le> tier_rank (e_tier e)"
  shows "\<exists>t' s'. claim_by_id E eid tid locked s = (Inr t', s')"
proof -
  obtain n s1 where s1: "reclaim_expired E s = (n, s1)" by fastforce
  then have "get_task tid s1 = Some t"
    using reclaim_expired_core(1) [OF s1] assms(4) by (simp add: core_eq_iff)
  with assms show ?thesis unfolding claim_by_id_run [OF assms(1,2) s1]
    by (auto simp: Let_def split: prod.split)
qed

lemma eligible_tiers_iff: "u \<in> set (eligible_tiers t) \<longleftrightarrow> tier_rank u \<le> tier_rank t"
  by (cases u) (auto simp: eligible_tiers_def)

text \<open>Locking a row and assigning it hide the same row from the next claim.\<close>

lemma pick_locked_assigned:
  assumes "grades s' = grades s"
    "tasks s' = update_row t_id tid (leased E a now) (tasks s)"
  shows "pick e w (tid # locked) s = pick e w locked s'"
proof -
  have el: "already_graded t a s' = already_graded t a s" for t a
    by (simp add: already_graded_def assms(1))
  have "filter (\<lambda>t. eligibility e s' t \<and> t_id t \<notin> set locked \<and>
          (case w of None \<Rightarrow> True | Some b \<Rightarrow> t_is_attention_check t = b)) (update_row t_id tid (leased E a now) rows)
      = filter (\<lambda>t. eligibility e s t \<and> t_id t \<notin> set (tid # locked) \<and>
          (case w of None \<Rightarrow> True | Some b \<Rightarrow> t_is_attention_check t = b)) rows" for rows
    by (induction rows) (auto simp: el update_row_def eligibility_def)
  then show ?thesis by (simp add: pick_def select_first_def assms(2))
qed

section \<open>Properties\<close>

text \<open>
  C8: which task a claim serves. The expert is active and the task, as it was in the queue once expired
  leases were returned, is queued, shares a tag with the expert, is open to the expert's tier, was never
  graded by the expert and is not locked by another transaction. Every other such task of the same
  class comes strictly later by descending priority, then deadline (none last), then sequence number.
  A golden task is served only when the keyed hash prefers one for this serve, and then whenever one is
  available. The task is returned with its rubric pinned, leased to the expert, and stored so.
\<close>

theorem claim_serves_best:
  assumes "claim_next E eid locked s = (Inr (Some t'), s')" "get_expert eid s = Some e" "seqs_ok (tasks s)"
    "distinct (map t_id (tasks s))"
  shows "\<exists>t \<in> set (tasks (swept E s)). t_id t' = t_id t \<and> e_status e = Active \<and>
    eligibility e (swept E s) t \<and> t_id t \<notin> set locked \<and>
    (\<forall>u \<in> set (tasks (swept E s)). u \<noteq> t \<and> eligibility e (swept E s) u \<and> t_id u \<notin> set locked \<and>
       t_is_attention_check u = t_is_attention_check t \<longrightarrow> pick_key t < pick_key u) \<and>
    (t_is_attention_check t \<longrightarrow> prefers_attention_check E eid (e_served_count e + 1)) \<and>
    (prefers_attention_check E eid (e_served_count e + 1) \<and> \<not> t_is_attention_check t \<longrightarrow>
       (\<forall>u \<in> set (tasks (swept E s)). t_is_attention_check u \<and> eligibility e (swept E s) u \<longrightarrow> t_id u \<in> set locked)) \<and>
    t' = leased E eid (clock E (Suc (clock_pos s))) t \<and> get_task (t_id t) s' = Some t'"
  using assms(1)
proof (cases rule: claim_next_cases)
  case (served e1 t now)
  have e1: "e1 = e" using served(1) assms(2) by simp
  note ch = claim_choice_SomeD [OF served(3)]
  note pk = pick_SomeD [OF ch(1)]
  have id: "e_id e = eid" using row_of_SomeD [OF assms(2)] by simp
  have inj: "inj_on pick_key (set (tasks (swept E s)))"
    by (rule queue_order.no_ties) (use assms(3) in \<open>simp add: seqs_ok_def\<close>)
  have strict: "pick_key t < pick_key u" if "u \<in> set (tasks (swept E s))" "u \<noteq> t" "eligibility e (swept E s) u"
      "t_id u \<notin> set locked" "t_is_attention_check u = t_is_attention_check t" for u
    using pk(5) [of u] that pk(1) inj by (auto simp: e1 order_less_le dest: inj_onD)
  have none: "t_id u \<in> set locked" if "prefers_attention_check E eid (e_served_count e + 1)" "\<not> t_is_attention_check t"
      "u \<in> set (tasks (swept E s))" "t_is_attention_check u" "eligibility e (swept E s) u" for u
    using ch(3) that by (auto simp: e1 id pick_None_iff)
  have "get_task (t_id t) (swept E s) = Some t"
    using pk(1) assms(4) by (simp add: row_of_Some_iff)
  then have "get_task (t_id t) s' = Some t'"
    using served(4,6) by (simp add: core_eq_iff row_of_update_row)
  then show ?thesis
    using pk(1-3) served(2,4,5) ch(2) strict none by (intro bexI [OF _ pk(1)]) (auto simp: e1 id)
qed simp

lemma sample_claim_ok:
  "get_expert 4 sample_db = Some (sample_expert 4 ''ada'' Senior)" "seqs_ok (tasks sample_db)"
  "distinct (map t_id (tasks sample_db))" "swept sample_env sample_db = sample_db"
  by (simp_all add: seqs_ok_def swept_def update_where_def lease_expired_def sample_defs)

lemma sample_claim_choice:
  "claim_choice sample_env (sample_expert 4 ''ada'' Senior) [] sample_db = Some (sample_task 22 1 True)"
  by (simp add: claim_choice_def prefers_attention_check_def sample_settings pick_def select_first_def eligibility_def
      tags_overlap_def eligible_tiers_def already_graded_def pick_key_def sample_defs)

lemma sample_claim: "\<exists>t' s'. claim_next sample_env 4 [] sample_db = (Inr (Some t'), s') \<and> t_id t' = 22"
proof -
  obtain r s' where c: "claim_next sample_env 4 [] sample_db = (Inr r, s')"
    using claim_next_returns [OF sample_claim_ok(1), of sample_env "[]"] by (auto simp: sample_expert_def)
  then show ?thesis
  proof (cases rule: claim_next_cases)
    case (empty e)
    then show ?thesis using sample_claim_ok sample_claim_choice by simp
  next
    case (served e t now)
    then have "t_id t = 22" using sample_claim_ok sample_claim_choice by (auto simp: sample_task_def)
    with served(4) c show ?thesis by auto
  qed
qed

theorem claim_serves_best_witness:
  "\<exists>t' s'. claim_next sample_env 4 [] sample_db = (Inr (Some t'), s') \<and> get_task 22 s' = Some t' \<and>
     t_assigned_expert_id t' = Some 4"
proof -
  obtain t' s' where c: "claim_next sample_env 4 [] sample_db = (Inr (Some t'), s')" "t_id t' = 22"
    using sample_claim by blast
  from claim_serves_best [OF c(1) sample_claim_ok(1-3)] c show ?thesis by auto
qed

text \<open>
  C20: a claim either serves a task or reports an empty queue. For an active expert it always returns,
  and it returns no task exactly when every regular task the expert may take is locked by another
  transaction, and so is every golden one if the hash prefers a golden task. Then nothing was changed
  but the expired leases. An expert who is not active gets the error 423 and nothing changes at all.
\<close>

theorem claim_next_empty_iff:
  assumes "get_expert eid s = Some e"
  shows "(e_status e = Active \<longrightarrow> (\<exists>r s'. claim_next E eid locked s = (Inr r, s') \<and>
      (r = None \<longleftrightarrow> (\<forall>t \<in> set (tasks (swept E s)). eligibility e (swept E s) t \<and>
         (t_is_attention_check t \<longrightarrow> prefers_attention_check E eid (e_served_count e + 1)) \<longrightarrow> t_id t \<in> set locked)) \<and>
      (r = None \<longrightarrow> core s' = core (swept E s)))) \<and>
    (e_status e \<noteq> Active \<longrightarrow> claim_next E eid locked s = (Inl (ServiceError 423 (ExpertIs (e_status e))), s))"
proof (cases "e_status e = Active")
  case True
  have id: "e_id e = eid" using row_of_SomeD [OF assms] by simp
  obtain r s' where c: "claim_next E eid locked s = (Inr r, s')"
    using claim_next_returns [OF assms True] by blast
  have "claim_choice E e locked (swept E s) = None \<longleftrightarrow>
      (prefers_attention_check E eid (e_served_count e + 1) \<longrightarrow> pick e (Some True) locked (swept E s) = None) \<and>
      pick e (Some False) locked (swept E s) = None"
    by (simp add: claim_choice_def id split: option.split)
  also have "\<dots> \<longleftrightarrow> (\<forall>t \<in> set (tasks (swept E s)). eligibility e (swept E s) t \<and>
      (t_is_attention_check t \<longrightarrow> prefers_attention_check E eid (e_served_count e + 1)) \<longrightarrow> t_id t \<in> set locked)"
    unfolding pick_None_iff by blast
  finally have none: "claim_choice E e locked (swept E s) = None \<longleftrightarrow> \<dots>" .
  from c show ?thesis
  proof (cases rule: claim_next_cases)
    case (empty e1)
    then show ?thesis using c none assms True by auto
  next
    case (served e1 t now)
    then show ?thesis using c none assms True by auto
  qed
qed (simp add: claim_next_def assms)

theorem claim_next_empty_iff_witness:
  "\<exists>s'. claim_next sample_env 4 [20, 21, 22] sample_db = (Inr None, s')"
proof -
  have "\<forall>t \<in> set (tasks sample_db). t_id t \<in> set [20, 21, 22]"
    by (simp add: sample_defs)
  with claim_next_empty_iff [OF sample_claim_ok(1), of sample_env "[20, 21, 22]"] show ?thesis
    unfolding sample_claim_ok(4) by (auto simp: sample_expert_def)
qed

text \<open>
  C13: two claimants never receive the same row, and skipping locked rows is as good as waiting. If one
  claim took a task and is still open, a concurrent claim of another expert, which skips that row, serves
  exactly the task it would serve after the first claim committed (as long as no lease runs out in
  between), and never the same one.
\<close>

theorem skip_locked_serializes:
  assumes "claim_next E a locked s = (Inr (Some t), s')" "get_expert b s = Some e" "b \<noteq> a" "e_status e = Active"
    and "\<And>u. u \<in> set (tasks s') \<Longrightarrow> \<not> lease_expired (clock E (clock_pos s')) u"
  shows "\<exists>r r' s1 s2. claim_next E b (t_id t # locked) s = (Inr r, s1) \<and> claim_next E b locked s' = (Inr r', s2) \<and>
    map_option t_id r = map_option t_id r' \<and> map_option t_id r \<noteq> Some (t_id t)"
  using assms(1)
proof (cases rule: claim_next_cases)
  case (served ea u now)
  have tasks': "tasks s' = update_row t_id (t_id u) (leased E a now) (tasks (swept E s))"
    and grades': "grades s' = grades s" and experts': "get_expert b s' = Some e"
    using served(6) assms(2,3) by (simp_all add: core_eq_iff row_of_update_row)
  have id: "t_id t = t_id u" using served(4) by simp
  have same: "pick e w (t_id t # locked) (swept E s) = pick e w locked s'" for w
    unfolding id by (rule pick_locked_assigned) (simp_all add: tasks' grades')
  have sw: "swept E s' = s'" using assms(5) by (rule swept_idle)
  have choice: "claim_choice E e (t_id t # locked) (swept E s) = claim_choice E e locked (swept E s')"
    by (simp only: claim_choice_def same sw)
  obtain r s1 where r: "claim_next E b (t_id t # locked) s = (Inr r, s1)"
    using claim_next_returns [OF assms(2,4)] by blast
  obtain r' s2 where r': "claim_next E b locked s' = (Inr r', s2)"
    using claim_next_returns [OF experts' assms(4)] by blast
  have ids: "map_option t_id r = map_option t_id (claim_choice E e (t_id t # locked) (swept E s))"
    using r by (cases rule: claim_next_cases) (use assms(2) in auto)
  have ids': "map_option t_id r' = map_option t_id (claim_choice E e locked (swept E s'))"
    using r' by (cases rule: claim_next_cases) (use experts' in auto)
  have neq: "map_option t_id r \<noteq> Some (t_id t)"
    unfolding ids by (auto dest!: claim_choice_SomeD(1) dest: pick_SomeD(3))
  show ?thesis
    by (intro exI conjI, rule r, rule r') (simp_all only: ids ids' choice, use neq ids choice in simp)
qed simp

lemma claim_next_clock:
  assumes "claim_next E eid locked s = (Inr (Some t), s')"
  shows "clock_pos s' = Suc (Suc (clock_pos s))"
proof -
  from assms obtain e where e: "get_expert eid s = Some e" by (auto simp: claim_next_def result_simps)
  have act: "e_status e = Active" using assms e by (auto simp: claim_next_def split: if_splits)
  obtain n s1 where s1: "reclaim_expired E s = (n, s1)" by fastforce
  show ?thesis
    using assms reclaim_expired_core(4) [OF s1] unfolding claim_next_run [OF e act s1]
    by (auto simp: assign_def now_utc_def Let_def split: option.splits)
qed

lemma sample_claim_state:
  assumes "claim_next sample_env 4 [] sample_db = (Inr (Some t'), s')" "u \<in> set (tasks s')"
  shows "\<not> lease_expired (clock sample_env (clock_pos s')) u"
  using assms(1)
proof (cases rule: claim_next_cases)
  case (served e u' now)
  have "tasks s' = update_row t_id (t_id u') (leased sample_env 4 now) (tasks sample_db)"
    using served(6) sample_claim_ok(4) by (simp add: core_eq_iff)
  then have "u \<in> set (tasks sample_db) \<or> t_lease_expires_at u = Some (now + seconds 900)"
    using assms(2) by (auto elim!: in_update_rowE simp: sample_settings)
  then show ?thesis
    using claim_next_clock [OF assms(1)] served(5)
    by (auto simp: lease_expired_def sample_settings seconds_def) (auto simp: sample_defs)
qed simp

theorem skip_locked_serializes_witness:
  "\<exists>t s' r s1. claim_next sample_env 4 [] sample_db = (Inr (Some t), s') \<and> t_id t = 22 \<and>
      claim_next sample_env 2 [22] sample_db = (Inr r, s1) \<and> map_option t_id r \<noteq> Some 22"
proof -
  obtain t s' where c: "claim_next sample_env 4 [] sample_db = (Inr (Some t), s')" "t_id t = 22"
    using sample_claim by blast
  have bob: "get_expert 2 sample_db = Some (sample_expert 2 ''bob'' Junior)"
    by (simp add: sample_defs)
  from skip_locked_serializes [OF c(1) bob _ _ sample_claim_state [OF c(1)]] c
  show ?thesis by (auto simp: sample_expert_def)
qed

lemma served_claim_by_id:
  assumes "claim_next E eid locked s = (Inr (Some t'), s')" "distinct (map t_id (tasks s))"
  shows "claim_by_id E eid (t_id t') locked s = (Inr t', s')"
proof -
  obtain e where e: "get_expert eid s = Some e" and act: "e_status e = Active"
    using assms(1) by (cases rule: claim_next_cases) auto
  obtain n s1 where s1: "reclaim_expired E s = (n, s1)" by fastforce
  obtain t where ch: "claim_choice E e locked s1 = Some t"
      and as: "assign E t eid (emit (CLAIMS ''assigned'') s1) = (t', s')"
    using assms(1) by (auto simp: claim_next_run [OF e act s1] Let_def split: option.splits prod.splits)
  have id: "t_id t' = t_id t" using assign_core(1) [OF as] by simp
  note c = pick_SomeD(1-3) [OF claim_choice_SomeD(1) [OF ch]]
  have "tasks s1 = tasks (swept E s)" using reclaim_expired_core(1) [OF s1] by (simp add: core_eq_iff)
  then have "distinct (map t_id (tasks s1))" using assms(2) by (simp add: swept_def map_update_where)
  then have "get_task (t_id t) s1 = Some t" using c(1) by (simp add: row_of_Some_iff)
  moreover have "t_status t = Queued" "tags_overlap (t_required_tags t) (e_tags e)"
      "\<not> tier_rank (e_tier e) < tier_rank (t_min_tier t)" "t_id t \<notin> set locked"
    using c(2,3) by (auto simp: eligibility_def eligible_tiers_iff)
  ultimately show ?thesis by (simp add: claim_by_id_run [OF e act s1] id as)
qed

text \<open>
  C21: what a claim by id accepts. It succeeds exactly when the expert is active, no other transaction holds the row,
  and the task is queued once the expired leases are returned, shares a tag with the expert and asks for no higher
  tier. Whether the expert graded the task before is not asked, and neither is whether it is a golden one or whether the
  schedule of golden serves has come to it. Everything the queue would hand out can be claimed so, with the same result.
  A claim that succeeds leases that task and counts a serve of that expert, and leaves the other tasks and experts
  alone; a refusal changes the tables by no more than the return of expired leases.
\<close>

theorem claim_by_id_accepts:
  assumes "get_expert eid s = Some e" "distinct (map t_id (tasks s))"
  shows "((\<exists>t' s'. claim_by_id E eid tid locked s = (Inr t', s')) \<longleftrightarrow>
      e_status e = Active \<and> tid \<notin> set locked \<and>
      (\<exists>t. get_task tid (swept E s) = Some t \<and> t_status t = Queued \<and> set (t_required_tags t) \<inter> set (e_tags e) \<noteq> {} \<and>
         tier_rank (t_min_tier t) \<le> tier_rank (e_tier e))) \<and>
    (\<forall>t' s'. claim_next E eid locked s = (Inr (Some t'), s') \<longrightarrow> claim_by_id E eid (t_id t') locked s = (Inr t', s')) \<and>
    (\<forall>t' s'. claim_by_id E eid tid locked s = (Inr t', s') \<longrightarrow>
       (let now = clock E (Suc (clock_pos s)) in
        map_option (leased E eid now) (get_task tid (swept E s)) = Some t' \<and>
        tasks s' = map (\<lambda>t. if t_id t = tid then leased E eid now t else t) (tasks (swept E s)) \<and>
        experts s' = map (\<lambda>x. if e_id x = eid then x\<lparr>e_served_count := e_served_count x + 1\<rparr> else x) (experts s))) \<and>
    (\<forall>err s'. claim_by_id E eid tid locked s = (Inl err, s') \<longrightarrow> core s' = core s \<or> core s' = core (swept E s))"
  (is "(?ok \<longleftrightarrow> ?cond) \<and> ?queue \<and> ?res \<and> ?err")
proof (intro conjI)
  show "?ok \<longleftrightarrow> ?cond"
  proof
    assume ?ok
    then obtain t' s' where "claim_by_id E eid tid locked s = (Inr t', s')" by blast
    then show ?cond by (cases rule: claim_by_id_cases) (use assms in \<open>auto simp: tags_overlap_def\<close>)
  next
    assume c: ?cond
    then obtain t where "get_task tid (swept E s) = Some t" "t_status t = Queued" "tags_overlap (t_required_tags t) (e_tags e)"
        "tier_rank (t_min_tier t) \<le> tier_rank (e_tier e)" by (auto simp: tags_overlap_def)
    then show ?ok using claim_by_id_returns [OF assms(1)] c by blast
  qed
  show ?queue using served_claim_by_id [OF _ assms(2)] by blast
  show ?res
  proof (intro allI impI)
    fix t' s' assume "claim_by_id E eid tid locked s = (Inr t', s')"
    then show "let now = clock E (Suc (clock_pos s)) in
        map_option (leased E eid now) (get_task tid (swept E s)) = Some t' \<and>
        tasks s' = map (\<lambda>t. if t_id t = tid then leased E eid now t else t) (tasks (swept E s)) \<and>
        experts s' = map (\<lambda>x. if e_id x = eid then x\<lparr>e_served_count := e_served_count x + 1\<rparr> else x) (experts s)"
      by (cases rule: claim_by_id_cases) (simp add: core_eq_iff update_row_def swept_def)
  qed
  show ?err
  proof (intro allI impI)
    fix err s' assume c: "claim_by_id E eid tid locked s = (Inl err, s')"
    obtain n s1 where s1: "reclaim_expired E s = (n, s1)" by fastforce
    show "core s' = core s \<or> core s' = core (swept E s)"
    proof (cases "e_status e = Active")
      case True
      have "core s' = core s1" using c unfolding claim_by_id_run [OF assms(1) True s1]
        by (auto simp: Let_def split: option.splits if_splits prod.splits)
      then show ?thesis using reclaim_expired_core(1) [OF s1] by simp
    qed (use c in \<open>simp add: claim_by_id_def assms\<close>)
  qed
qed

theorem claim_by_id_accepts_witness:
  "(\<exists>t' s'. claim_by_id sample_env 4 21 [] (sample_db\<lparr>grades := [sample_grade 40 21 4 4]\<rparr>) = (Inr t', s')) \<and>
   \<not> (\<exists>t' s'. claim_by_id sample_env 4 99 [] (sample_db\<lparr>grades := [sample_grade 40 21 4 4]\<rparr>) = (Inr t', s'))"
proof -
  let ?s = "sample_db\<lparr>grades := [sample_grade 40 21 4 4]\<rparr>"
  have e: "get_expert 4 ?s = Some (sample_expert 4 ''ada'' Senior)" by (simp add: sample_defs)
  have ids: "distinct (map t_id (tasks ?s))" by (simp add: sample_defs)
  have sw: "swept sample_env ?s = ?s"
    by (rule swept_idle) (auto simp: lease_expired_def sample_defs)
  show ?thesis
    using conjunct1 [OF claim_by_id_accepts [OF e ids, of sample_env 21 "[]"]]
      conjunct1 [OF claim_by_id_accepts [OF e ids, of sample_env 99 "[]"]] unfolding sw
    by (simp add: sample_defs)
qed

text \<open>
  What the sweep of expired leases does. It counts exactly the tasks whose lease had run out, puts each
  of them back in the queue with no assignee and one more reclaim on its record, and leaves every other
  task alone; afterwards no lease is past that reading of the clock, and the leases are consistent.
\<close>

theorem reclaim_returns_expired:
  assumes "leases_ok s" "reclaim_expired E s = (n, s')"
  shows "n = row_count (lease_expired (clock E (clock_pos s))) (tasks s) \<and>
    map t_id (tasks s') = map t_id (tasks s) \<and>
    (\<forall>i < length (tasks s). if lease_expired (clock E (clock_pos s)) (tasks s ! i)
       then tasks s' ! i = (tasks s ! i)\<lparr>t_status := Queued, t_assigned_expert_id := None, t_assigned_at := None,
              t_lease_expires_at := None, t_reclaim_count := t_reclaim_count (tasks s ! i) + 1\<rparr>
       else tasks s' ! i = tasks s ! i) \<and>
    (\<forall>t \<in> set (tasks s'). \<not> lease_expired (clock E (clock_pos s)) t) \<and> leases_ok s'"
proof -
  note rc = reclaim_expired_core [OF assms(2)]
  have ts: "tasks s' = tasks (swept E s)" using rc(1) by (simp add: core_eq_iff)
  have "\<forall>i < length (tasks s). if lease_expired (clock E (clock_pos s)) (tasks s ! i)
       then tasks s' ! i = (tasks s ! i)\<lparr>t_status := Queued, t_assigned_expert_id := None, t_assigned_at := None,
              t_lease_expires_at := None, t_reclaim_count := t_reclaim_count (tasks s ! i) + 1\<rparr>
       else tasks s' ! i = tasks s ! i"
    by (simp add: ts swept_def update_where_def reclaimed_def unassigned_def)
  moreover have "map t_id (tasks s') = map t_id (tasks s)" by (simp add: ts)
  moreover have "\<forall>t \<in> set (tasks s'). \<not> lease_expired (clock E (clock_pos s)) t"
    by (auto simp: ts swept_def update_where_set lease_expired_def)
  moreover have "leases_ok s'"
    using swept_leases_ok [OF assms(1)] leases_ok_core [OF rc(1)] by simp
  ultimately show ?thesis using rc(2) by blast
qed

definition sample_expired_db :: db where
  "sample_expired_db = sample_db\<lparr>tasks := [leased sample_env 2 0 (sample_task 20 2 False), sample_task 21 1 False],
     clock_pos := 900\<rparr>"

theorem reclaim_returns_expired_witness:
  "\<exists>s'. reclaim_expired sample_env sample_expired_db = (1, s') \<and> leases_ok s' \<and>
      (\<forall>i < 2. t_status (tasks s' ! i) = Queued)"
proof -
  have ok: "leases_ok sample_expired_db"
    by (simp add: sample_expired_db_def leases_ok_def) (simp add: lease_ok_def sample_defs)
  obtain n s' where r: "reclaim_expired sample_env sample_expired_db = (n, s')" by fastforce
  have exp: "lease_expired (clock sample_env 900) (leased sample_env 2 0 (sample_task 20 2 False))"
    "\<not> lease_expired (clock sample_env 900) (sample_task 21 1 False)"
    by (simp_all add: lease_expired_def sample_settings seconds_def) (simp add: sample_defs)
  note R = reclaim_returns_expired [OF ok r]
  have "n = 1" using R exp by (simp add: sample_expired_db_def)
  moreover have "t_status (tasks s' ! 0) = Queued" "t_status (tasks s' ! 1) = Queued"
    using conjunct1 [OF conjunct2 [OF conjunct2 [OF R]]] exp
    by (auto simp: sample_expired_db_def sample_task_def split: if_splits)
  ultimately show ?thesis using r R by (auto simp: less_Suc_eq numeral_2_eq_2)
qed

text \<open>
  C22: a release undoes a claim. The expert who claimed a task can release it, and the task is then the
  queue entry it was, its rubric now pinned; every other task is as the claim left it. Nobody else can
  release it: their attempt is refused with 409 and changes nothing.
\<close>

theorem release_undoes_claim:
  assumes "claim_next E eid locked s = (Inr (Some t'), s')" "leases_ok s" "distinct (map t_id (tasks s))"
  shows "(\<exists>t s''. get_task (t_id t') (swept E s) = Some t \<and>
      release eid (t_id t') s' = (Inr (t\<lparr>t_pinned_rubric_id := Some (t_rubric_id t)\<rparr>), s'') \<and>
      tasks s'' = update_row t_id (t_id t') (\<lambda>t. t\<lparr>t_pinned_rubric_id := Some (t_rubric_id t)\<rparr>) (tasks (swept E s))) \<and>
    (\<forall>other. other \<noteq> eid \<longrightarrow> release other (t_id t') s' = (Inl (ServiceError 409 TaskNotAssignedToExpert), s'))"
  using assms(1)
proof (cases rule: claim_next_cases)
  case (served e t now)
  note pk = pick_SomeD [OF claim_choice_SomeD(1) [OF served(3)]]
  have id: "t_id t' = t_id t" and t': "t' = leased E eid now t" using served(4) by simp_all
  have get: "get_task (t_id t) (swept E s) = Some t"
    using pk(1) assms(3) by (simp add: row_of_Some_iff)
  have tasks': "tasks s' = update_row t_id (t_id t) (leased E eid now) (tasks (swept E s))"
    using served(6) by (simp add: core_eq_iff)
  have get': "get_task (t_id t) s' = Some t'"
    using get by (simp add: tasks' row_of_update_row t')
  have free: "lease_ok u" "t_status u = Queued \<Longrightarrow> unassigned (leased E eid now u) = u\<lparr>t_pinned_rubric_id := Some (t_rubric_id u)\<rparr>"
    if "u \<in> set (tasks (swept E s))" for u
    using swept_leases_ok [OF assms(2), of E] that
    by (auto simp: leases_ok_def lease_ok_def unassigned_def leased_def)
  have "u = t" if "u \<in> set (tasks (swept E s))" "t_id u = t_id t" for u
    using that pk(1) assms(3) by (metis swept_frame(9) distinct_map inj_onD)
  then have edit: "update_row t_id (t_id t) unassigned (tasks s') =
      update_row t_id (t_id t) (\<lambda>t. t\<lparr>t_pinned_rubric_id := Some (t_rubric_id t)\<rparr>) (tasks (swept E s))"
    using free(2) pk(2) by (auto simp: tasks' update_row_def eligibility_def)
  have "unassigned t' = t\<lparr>t_pinned_rubric_id := Some (t_rubric_id t)\<rparr>"
    using free(2) [OF pk(1)] pk(2) by (simp add: t' eligibility_def)
  then show ?thesis
    unfolding id using get get' edit by (auto simp: release_def t')
qed simp

theorem release_undoes_claim_witness:
  "\<exists>t' s' s''. claim_next sample_env 4 [] sample_db = (Inr (Some t'), s') \<and>
      release 4 22 s' = (Inr ((sample_task 22 1 True)\<lparr>t_pinned_rubric_id := Some 10\<rparr>), s'') \<and>
      release 2 22 s' = (Inl (ServiceError 409 TaskNotAssignedToExpert), s')"
proof -
  obtain t' s' where c: "claim_next sample_env 4 [] sample_db = (Inr (Some t'), s')" "t_id t' = 22"
    using sample_claim by blast
  have ok: "leases_ok sample_db" by (simp add: leases_ok_def lease_ok_def sample_defs)
  have "get_task 22 sample_db = Some (sample_task 22 1 True)" by (simp add: sample_defs)
  with release_undoes_claim [OF c(1) ok sample_claim_ok(3)] c show ?thesis
    unfolding sample_claim_ok(4) by (auto simp: sample_task_def)
qed

lemma from_bytes_big_bound:
  assumes "\<forall>b \<in> set bs. b < 256"
  shows "from_bytes_big bs < 256 ^ length bs"
  using assms
proof (induction bs rule: rev_induct)
  case (snoc b bs)
  then have "from_bytes_big bs + 1 \<le> 256 ^ length bs" "b < 256" by auto
  then have "256 * from_bytes_big bs + b < 256 * 256 ^ length bs" by linarith
  then show ?case by (simp add: from_bytes_big_def)
qed (simp add: from_bytes_big_def)

lemma card_below_fraction:
  fixes f :: rat
  assumes "0 < f" "f < 1"
  shows "card {n::nat. n < 2 ^ 32 \<and> of_nat n / 2 ^ 32 < f} = nat \<lceil>f * 2 ^ 32\<rceil>"
proof -
  have top: "\<lceil>f * 2 ^ 32\<rceil> \<le> 2 ^ 32" using assms by (simp add: ceiling_le_iff)
  have "n < 2 ^ 32 \<and> of_nat n / 2 ^ 32 < f \<longleftrightarrow> n < nat \<lceil>f * 2 ^ 32\<rceil>" for n :: nat
  proof -
    have "of_nat n / 2 ^ 32 < f \<longleftrightarrow> int n < \<lceil>f * 2 ^ 32\<rceil>"
      by (simp add: less_ceiling_iff pos_divide_less_eq)
    with top show ?thesis by auto
  qed
  then have "{n::nat. n < 2 ^ 32 \<and> of_nat n / 2 ^ 32 < f} = {..<nat \<lceil>f * 2 ^ 32\<rceil>}" by auto
  then show ?thesis by simp
qed

text \<open>
  The share of golden serves. With a fraction strictly between 0 and 1, whether a serve prefers a
  golden task depends only on the 32-bit number the keyed digest starts with, and of the 2^32
  possible numbers exactly the fraction, rounded up, prefer one.
\<close>

theorem attention_share:
  assumes "0 < attention_fraction (cfg E)" "attention_fraction (cfg E) < 1"
    "\<And>text. length (sha256 E text) = 32 \<and> (\<forall>b \<in> set (sha256 E text). b < 256)"
  shows "\<exists>H. H \<subseteq> {..<2 ^ 32} \<and> card H = nat \<lceil>attention_fraction (cfg E) * 2 ^ 32\<rceil> \<and>
    (\<forall>eid n. let prefix = from_bytes_big (take 4 (sha256 E (attention_key (cfg E) @ '':'' @ str_uuid eid @ '':'' @ str_int n)))
       in prefix < 2 ^ 32 \<and> (prefers_attention_check E eid n \<longleftrightarrow> prefix \<in> H))"
proof -
  let ?H = "{n::nat. n < 2 ^ 32 \<and> of_nat n / 2 ^ 32 < attention_fraction (cfg E)}"
  have "from_bytes_big (take 4 (sha256 E msg)) < 2 ^ 32" for msg
    using from_bytes_big_bound [of "take 4 (sha256 E msg)"] assms(3) [of msg] by (auto dest: in_set_takeD)
  then show ?thesis
    using assms(1,2) by (intro exI [of _ ?H] conjI card_below_fraction) (auto simp: prefers_attention_check_def Let_def)
qed

theorem attention_share_witness:
  "\<exists>H. card H = 429496730 \<and> (\<forall>eid n. prefers_attention_check (sample_env\<lparr>cfg := default_settings\<rparr>) eid n \<longleftrightarrow> (0::nat) \<in> H)"
proof -
  let ?E = "sample_env\<lparr>cfg := default_settings\<rparr>"
  have zero: "from_bytes_big (take 4 (sha256 ?E msg)) = 0" for msg
    by (simp add: sample_settings from_bytes_big_def eval_nat_numeral)
  have f: "attention_fraction (cfg ?E) = 1 / 10" by (simp add: default_settings_def)
  have ceil: "\<lceil>1 / 10 * 2 ^ 32 :: rat\<rceil> = 429496730" by (rule ceiling_unique) simp_all
  have "\<exists>H. H \<subseteq> {..<2 ^ 32} \<and> card H = nat \<lceil>attention_fraction (cfg ?E) * 2 ^ 32\<rceil> \<and>
      (\<forall>eid n. let prefix = from_bytes_big (take 4 (sha256 ?E (attention_key (cfg ?E) @ '':'' @ str_uuid eid @ '':'' @ str_int n)))
         in prefix < 2 ^ 32 \<and> (prefers_attention_check ?E eid n \<longleftrightarrow> prefix \<in> H))"
    by (rule attention_share) (simp_all add: default_settings_def sample_settings)
  then show ?thesis unfolding zero f ceil Let_def by auto
qed

lemma map_of_map_key: "map_of (map (\<lambda>k. (k, f k)) ks) k = (if k \<in> set ks then Some (f k) else None)"
  by (induction ks) auto

text \<open>
  The status summary of the queue is a partition: each of the six statuses is listed once with the
  number of tasks in it, and the numbers add up to the number of tasks.
\<close>

theorem queue_summary_partition:
  "queue_summary s = map (\<lambda>st. (st, row_count (\<lambda>t. t_status t = st) (tasks s)))
      [Queued, Assigned, Submitted, Adjudication, Approved, Rejected] \<and>
   sum_list (map snd (queue_summary s)) = int (length (tasks s))"
proof -
  have "queue_summary s = map (\<lambda>st. (st, row_count (\<lambda>t. t_status t = st) (tasks s))) all_task_statuses"
    by (auto simp: queue_summary_def map_of_map_key row_count_0_iff eq_commute [of 0])
  moreover have "sum_list (map (\<lambda>st. row_count (\<lambda>t. t_status t = st) ts) all_task_statuses) = int (length ts)" for ts
  proof (induction ts)
    case (Cons t ts)
    then show ?case by (cases "t_status t") (simp_all add: all_task_statuses_def)
  qed (simp add: all_task_statuses_def)
  ultimately show ?thesis by (simp add: all_task_statuses_def comp_def)
qed

end
