(* ===== verification/Rubrics.thy ===== *)
theory Rubrics
  imports Routing
begin

text \<open>
  \<open>panelist/services/rubrics.py\<close>: publishing the next version of a rubric. Rubrics are never edited;
  queued tasks nobody has graded follow the newest version, every other task keeps the version it has.
\<close>

record criterion_in =
  ci_key :: string
  ci_label :: string
  ci_weight :: rat
  ci_scale_min :: int
  ci_scale_max :: int

definition max_version :: "string \<Rightarrow> db \<Rightarrow> int option" where
  "max_version name s = (case map r_version (filter (\<lambda>r. r_name r = name) (rubrics s)) of
     [] \<Rightarrow> None | v # vs \<Rightarrow> Some (fold max vs v))"

text \<open>The primary keys of a list of new rows, drawn one after the other.\<close>

definition new_uuids :: "env \<Rightarrow> nat \<Rightarrow> db \<Rightarrow> uuid list \<times> db" where
  "new_uuids E n s = (map (\<lambda>i. uuid4 E (uuid_pos s + i)) [0..<n], s\<lparr>uuid_pos := uuid_pos s + n\<rparr>)"

definition criterion_row :: "uuid \<Rightarrow> nat \<Rightarrow> criterion_in \<Rightarrow> criterion" where
  "criterion_row cid i c = \<lparr>c_id = cid, c_key = ci_key c, c_label = ci_label c, c_weight = ci_weight c,
     c_scale_min = ci_scale_min c, c_scale_max = ci_scale_max c, c_position = int i\<rparr>"

definition criteria_rows :: "uuid list \<Rightarrow> criterion_in list \<Rightarrow> criterion list" where
  "criteria_rows ids cs = map (\<lambda>(i, cid, c). criterion_row cid i c) (zip [0..<length cs] (zip ids cs))"

definition untouched_on :: "uuid \<Rightarrow> task \<Rightarrow> bool" where
  "untouched_on rid t \<longleftrightarrow> t_rubric_id t = rid \<and> t_status t = Queued \<and> t_grades_received t = 0"

definition open_on :: "uuid \<Rightarrow> task \<Rightarrow> bool" where
  "open_on rid t \<longleftrightarrow> t_rubric_id t = rid \<and> t_status t \<in> {Queued, Assigned}"

definition publish :: "env \<Rightarrow> rubric \<Rightarrow> criterion_in list \<Rightarrow> string \<Rightarrow> db \<Rightarrow> (rubric \<times> int \<times> int) outcome" where
  "publish E previous criteria actor s =
    (if r_superseded_at previous \<noteq> None
     then (Inl (ServiceError 409 (RubricAlreadySuperseded (r_name previous) (r_version previous))), s)
     else the_row ''latest'' (max_version (r_name previous) s) (\<lambda>latest s.
       let (rid, s1) = new_uuid E s;
           (cids, s2) = new_uuids E (length criteria) s1;
           r = \<lparr>r_id = rid, r_name = r_name previous, r_version = latest + 1,
                r_criteria = criteria_rows cids criteria, r_created_at = tx_now s2,
                r_superseded_at = None, r_superseded_by_id = None\<rparr>
       in and_then (insert_rubric r s2) (\<lambda>_ s3.
            let (now, s4) = now_utc E s3;
                s5 = s4\<lparr>rubrics := update_row r_id (r_id previous)
                      (\<lambda>r. r\<lparr>r_superseded_at := Some now, r_superseded_by_id := Some rid\<rparr>) (rubrics s4)\<rparr>;
                migrated = row_count (untouched_on (r_id previous)) (tasks s5);
                s6 = s5\<lparr>tasks := update_where (untouched_on (r_id previous)) (\<lambda>t. t\<lparr>t_rubric_id := rid\<rparr>) (tasks s5)\<rparr>;
                open_on_previous = row_count (open_on (r_id previous)) (tasks s6)
            in (Inr (r, migrated, open_on_previous),
                record_event actor ''rubric.published'' ''rubric'' (str_uuid rid)
                  [(''previous'', JStr (str_uuid (r_id previous))), (''version'', JInt (latest + 1)),
                   (''migrated_queued'', JInt migrated), (''open_on_previous'', JInt open_on_previous)] s6))) s)"

definition superseded_among :: "uuid set \<Rightarrow> db \<Rightarrow> rubric option" where
  "superseded_among ids s = find (\<lambda>r. r_id r \<in> ids \<and> r_superseded_at r \<noteq> None) (rubrics s)"

section \<open>Lemmas\<close>

lemma fold_max_ge: "x \<le> fold max xs (x :: int)" "y \<in> set xs \<Longrightarrow> y \<le> fold max xs x"
proof -
  have mono: "x \<le> fold max xs x" for x :: int and xs
    by (induction xs arbitrary: x) (auto intro: order_trans [OF max.cobounded2])
  then show "x \<le> fold max xs x" .
  show "y \<le> fold max xs x" if "y \<in> set xs"
    using that by (induction xs arbitrary: x) (auto intro: order_trans [OF max.cobounded1 mono])
qed

lemma max_version_ge:
  assumes "max_version name s = Some v" "r \<in> set (rubrics s)" "r_name r = name"
  shows "r_version r \<le> v"
proof -
  from assms(1) obtain u us where us: "map r_version (filter (\<lambda>r. r_name r = name) (rubrics s)) = u # us"
    "v = fold max us u"
    by (auto simp: max_version_def split: list.splits)
  have "r_version r \<in> set (u # us)" unfolding us(1) [symmetric] using assms(2,3) by auto
  then show ?thesis using fold_max_ge by (auto simp: us(2))
qed

lemma max_version_Some: "r \<in> set (rubrics s) \<Longrightarrow> r_name r = name \<Longrightarrow> max_version name s \<noteq> None"
  by (auto simp: max_version_def filter_empty_conv split: list.splits)

lemma criteria_rows_simps [simp]:
  "length ids = length cs \<Longrightarrow> map c_key (criteria_rows ids cs) = map ci_key cs"
  "length ids = length cs \<Longrightarrow> map c_id (criteria_rows ids cs) = ids"
  "length ids = length cs \<Longrightarrow> length (criteria_rows ids cs) = length cs"
  by (auto simp: criteria_rows_def criterion_row_def intro!: nth_equalityI)

lemma publish_cases:
  assumes "publish E previous criteria actor s = (Inr (r, migrated, left), s')"
  obtains latest now where "r_superseded_at previous = None" "max_version (r_name previous) s = Some latest"
      "r_name r = r_name previous" "r_version r = latest + 1" "map c_key (r_criteria r) = map ci_key criteria"
      "distinct (map ci_key criteria)" "r_superseded_at r = None"
      "r_id r \<notin> r_id ` set (rubrics s)"
      "migrated = row_count (untouched_on (r_id previous)) (tasks s)"
      "left = row_count (open_on (r_id previous)) (tasks s')"
      "core s' = core (s\<lparr>rubrics := update_row r_id (r_id previous)
           (\<lambda>q. q\<lparr>r_superseded_at := Some now, r_superseded_by_id := Some (r_id r)\<rparr>) (rubrics s @ [r]),
         tasks := update_where (untouched_on (r_id previous)) (\<lambda>t. t\<lparr>t_rubric_id := r_id r\<rparr>) (tasks s)\<rparr>)"
      "trail_step s s'"
proof -
  have open': "r_superseded_at previous = None" using assms by (auto simp: publish_def split: if_splits)
  then obtain latest where l: "max_version (r_name previous) s = Some latest"
    using assms by (auto simp: publish_def result_simps)
  define now where "now = clock E (clock_pos s)"
  let ?r = "\<lparr>r_id = uuid4 E (uuid_pos s), r_name = r_name previous, r_version = latest + 1,
    r_criteria = criteria_rows (map (\<lambda>i. uuid4 E (Suc (uuid_pos s + i))) [0..<length criteria]) criteria,
    r_created_at = tx_now s, r_superseded_at = None, r_superseded_by_id = None\<rparr>"
  let ?s6 = "s\<lparr>uuid_pos := Suc (uuid_pos s + length criteria), clock_pos := Suc (clock_pos s),
    rubrics := update_row r_id (r_id previous) (\<lambda>q. q\<lparr>r_superseded_at := Some now, r_superseded_by_id := Some (r_id ?r)\<rparr>) (rubrics s @ [?r]),
    tasks := update_where (untouched_on (r_id previous)) (\<lambda>t. t\<lparr>t_rubric_id := r_id ?r\<rparr>) (tasks s)\<rparr>"
  have r: "r = ?r" "r_id r \<notin> r_id ` set (rubrics s)" "distinct (map ci_key criteria)"
    "migrated = row_count (untouched_on (r_id previous)) (tasks s)"
    "left = row_count (open_on (r_id previous)) (tasks ?s6)"
    and s': "\<exists>p. s' = record_event actor ''rubric.published'' ''rubric'' (str_uuid (r_id r)) p ?s6"
    using assms open' l
    by (auto simp: publish_def new_uuid_def new_uuids_def insert_rubric_def now_utc_def Let_def result_simps now_def)
  show thesis
  proof (rule that [OF open' l, where now = now])
    show "core s' = core (s\<lparr>rubrics := update_row r_id (r_id previous)
           (\<lambda>q. q\<lparr>r_superseded_at := Some now, r_superseded_by_id := Some (r_id r)\<rparr>) (rubrics s @ [r]),
         tasks := update_where (untouched_on (r_id previous)) (\<lambda>t. t\<lparr>t_rubric_id := r_id r\<rparr>) (tasks s)\<rparr>)"
      using s' by (auto simp: r(1)) (auto simp: core_eq_iff)
    show "left = row_count (open_on (r_id previous)) (tasks s')" using r(5) s' by auto
    show "trail_step s s'" using s' by (auto intro!: trail_step_record_event trail_step_same)
    show "r_name r = r_name previous" "r_version r = latest + 1" "map c_key (r_criteria r) = map ci_key criteria"
      "r_superseded_at r = None" by (simp_all add: r(1))
  qed (fact r)+
qed

section \<open>Properties\<close>

text \<open>
  C18: publishing a version. The new rubric has the old name, a version above every existing one of that
  name, and the given criteria; the previous version points to it and can not be published from again.
  Exactly the tasks that were on the previous version, queued and not graded yet move to the new
  one; every other task is untouched. The two counts returned are the number of tasks moved and the
  number of queued or assigned tasks left behind.
\<close>

theorem publish_retargets_untouched:
  assumes "publish E previous criteria actor s = (Inr (r, migrated, left), s')"
    "get_rubric (r_id previous) s = Some previous"
  shows "r_name r = r_name previous \<and> map c_key (r_criteria r) = map ci_key criteria \<and>
    (\<forall>q \<in> set (rubrics s). r_name q = r_name r \<longrightarrow> r_version q < r_version r) \<and>
    get_rubric (r_id r) s' = Some r \<and>
    (\<forall>i < length (tasks s). tasks s' ! i =
       (if t_rubric_id (tasks s ! i) = r_id previous \<and> t_status (tasks s ! i) = Queued \<and> t_grades_received (tasks s ! i) = 0
        then (tasks s ! i)\<lparr>t_rubric_id := r_id r\<rparr> else tasks s ! i)) \<and>
    migrated = row_count (\<lambda>t. t_rubric_id t = r_id previous \<and> t_status t = Queued \<and> t_grades_received t = 0) (tasks s) \<and>
    left = row_count (\<lambda>t. t_rubric_id t = r_id previous \<and>
      (t_status t = Assigned \<or> t_status t = Queued \<and> t_grades_received t \<noteq> 0)) (tasks s) \<and>
    (\<exists>p. get_rubric (r_id previous) s' = Some p \<and> r_superseded_by_id p = Some (r_id r) \<and>
      publish E p criteria' actor' s' =
        (Inl (ServiceError 409 (RubricAlreadySuperseded (r_name previous) (r_version previous))), s'))"
  using assms(1)
proof (cases rule: publish_cases)
  case (1 latest now)
  let ?sup = "\<lambda>q. q\<lparr>r_superseded_at := Some now, r_superseded_by_id := Some (r_id r)\<rparr>"
  have prev: "r_id previous \<in> r_id ` set (rubrics s)" using row_of_SomeD [OF assms(2)] by auto
  then have ne: "r_id r \<noteq> r_id previous" using 1(8) by metis
  have rubs: "rubrics s' = update_row r_id (r_id previous) ?sup (rubrics s @ [r])"
    and ts: "tasks s' = update_where (untouched_on (r_id previous)) (\<lambda>t. t\<lparr>t_rubric_id := r_id r\<rparr>) (tasks s)"
    using 1(11) by (simp_all add: core_eq_iff)
  have new: "get_rubric (r_id r) s' = Some r"
    using 1(8) ne by (simp add: rubs row_of_update_row table_simps row_of_None_iff [THEN iffD2] split: option.split)
  have old: "get_rubric (r_id previous) s' = Some (?sup previous)"
    using assms(2) by (simp add: rubs row_of_update_row table_simps)
  have "r_version q < r_version r" if "q \<in> set (rubrics s)" "r_name q = r_name r" for q
    using max_version_ge [OF 1(2) that(1)] that(2) 1(3,4) by simp
  moreover have "left = row_count (\<lambda>t. t_rubric_id t = r_id previous \<and>
      (t_status t = Assigned \<or> t_status t = Queued \<and> t_grades_received t \<noteq> 0)) (tasks s)"
    unfolding 1(10) ts using ne
    by (induction "tasks s") (auto simp: update_where_def row_count_def open_on_def untouched_on_def
      filter_map comp_def intro!: arg_cong [of _ _ length] filter_cong)
  moreover have "\<forall>i < length (tasks s). tasks s' ! i =
       (if t_rubric_id (tasks s ! i) = r_id previous \<and> t_status (tasks s ! i) = Queued \<and> t_grades_received (tasks s ! i) = 0
        then (tasks s ! i)\<lparr>t_rubric_id := r_id r\<rparr> else tasks s ! i)"
    by (simp add: ts update_where_def untouched_on_def)
  moreover have "migrated = row_count (\<lambda>t. t_rubric_id t = r_id previous \<and> t_status t = Queued \<and> t_grades_received t = 0) (tasks s)"
    using 1(9) by (simp add: untouched_on_def [abs_def])
  ultimately show ?thesis
    using 1(3,5) new old by (auto simp: publish_def)
qed

definition sample_criteria :: "criterion_in list" where
  "sample_criteria = [\<lparr>ci_key = ''accuracy'', ci_label = ''accuracy'', ci_weight = 1, ci_scale_min = 1, ci_scale_max = 7\<rparr>,
     \<lparr>ci_key = ''safety'', ci_label = ''safety'', ci_weight = 1, ci_scale_min = 0, ci_scale_max = 1\<rparr>]"

theorem publish_retargets_untouched_witness:
  "\<exists>r left s'. publish sample_env sample_rubric sample_criteria ''admin'' sample_db = (Inr (r, 3, left), s') \<and>
      left = 0 \<and> map c_key (r_criteria r) = [''accuracy'', ''safety'']"
proof -
  have "\<exists>r m left s'. publish sample_env sample_rubric sample_criteria ''admin'' sample_db = (Inr (r, m, left), s')"
    by (simp add: publish_def max_version_def new_uuid_def new_uuids_def insert_rubric_def now_utc_def Let_def
      criteria_rows_def criterion_row_def sample_criteria_def sample_rubric_def sample_defs)
  then obtain r m left s' where p: "publish sample_env sample_rubric sample_criteria ''admin'' sample_db = (Inr (r, m, left), s')"
    by blast
  have "get_rubric (r_id sample_rubric) sample_db = Some sample_rubric"
    by (simp add: sample_defs)
  from publish_retargets_untouched [OF p this] p show ?thesis
    by (auto simp: sample_criteria_def sample_rubric_def sample_defs)
qed

end
