(* ===== verification/Consensus.thy ===== *)
theory Consensus
  imports Rubrics
begin

text \<open>
  \<open>panelist/services/consensus.py\<close>: the round over the grades of a task, the choice of the delivered
  grade, its replacement when a reviewer rejects it, and the adjudication by a senior reviewer.
\<close>

section \<open>The grades of a task\<close>

definition grades_for :: "uuid \<Rightarrow> db \<Rightarrow> grade list" where
  "grades_for tid s = sort_key (\<lambda>g. (g_submitted_at g, g_id g)) (filter (\<lambda>g. g_task_id g = tid) (grades s))"

definition decided :: "uuid \<Rightarrow> db \<Rightarrow> review_decision option" where
  "decided gid s = map_option rv_decision (get_review gid s)"

definition unrejected :: "uuid \<Rightarrow> db \<Rightarrow> grade list" where
  "unrejected tid s =
    (let rejected = map rv_grade_id (filter (\<lambda>r. rv_decision r = Reject) (reviews s))
     in filter (\<lambda>g. g_id g \<notin> set rejected) (grades_for tid s))"

definition distance_key :: "rat \<Rightarrow> grade \<Rightarrow> rat \<times> time \<times> uuid" where
  "distance_key m g = (\<bar>g_weighted_score g - m\<bar>, g_submitted_at g, g_id g)"

definition closest_to_mean :: "grade list \<Rightarrow> grade option" where
  "closest_to_mean gs = min_by (distance_key (mean (map g_weighted_score gs))) gs"

definition min_of :: "rat list \<Rightarrow> rat" where
  "min_of xs = (case xs of [] \<Rightarrow> 0 | x # rest \<Rightarrow> fold min rest x)"

section \<open>The round\<close>

definition evaluate :: "env \<Rightarrow> uuid \<Rightarrow> db \<Rightarrow> consensus option outcome" where
  "evaluate E tid s =
    (let gs = unrejected tid s in
     if length gs < 2 then (Inr None, s)
     else
       let scores = map g_weighted_score gs;
           spread = max_of scores - min_of scores;
           agreed = (spread \<le> consensus_tolerance (cfg E));
           (now, s1) = (if agreed then (let (n, s1) = now_utc E s in (Some n, s1)) else (None, s));
           s2 = (if agreed then s1 else modify_task tid (\<lambda>t. t\<lparr>t_status := Adjudication\<rparr>) s1);
           (cid, s3) = new_uuid E s2;
           row = \<lparr>co_id = cid, co_task_id = tid, co_status = (if agreed then Agreed else Adjudicating),
                  co_grade_count = length gs, co_spread = spread, co_tolerance = consensus_tolerance (cfg E),
                  co_delivered_grade_id = (if agreed then map_option g_id (closest_to_mean gs) else None),
                  co_adjudicator_key_id = None, co_reason = None, co_created_at = tx_now s3,
                  co_resolved_at = now\<rparr>
       in and_then (insert_consensus row s3) (\<lambda>_ s4.
            (Inr (Some row), record_event ''system'' (''consensus.'' @ consensus_status_value (co_status row))
               ''task'' (str_uuid tid) [(''spread'', JFloat spread), (''grades'', JInt (int (length gs)))]
               (emit (CONSENSUS (co_status row)) s4))))"

definition redeliver :: "uuid \<Rightarrow> grade \<Rightarrow> string \<Rightarrow> db \<Rightarrow> consensus option \<times> db" where
  "redeliver tid rejected actor s =
    (case get_consensus tid s of
       None \<Rightarrow> (None, s)
     | Some row \<Rightarrow>
        if co_status row \<noteq> Agreed \<or> co_delivered_grade_id row \<noteq> Some (g_id rejected) then (None, s)
        else
          let gs = grades_for tid s;
              pool = filter (\<lambda>g. decided (g_id g) s \<noteq> Some Reject) gs;
              approved = filter (\<lambda>g. decided (g_id g) s = Some Approve) pool;
              candidates = (if approved \<noteq> [] then approved else pool);
              delivered = (if candidates \<noteq> [] then map_option g_id (closest_to_mean candidates) else None);
              row' = row\<lparr>co_delivered_grade_id := delivered\<rparr>
          in (Some row', record_event actor ''consensus.redelivered'' ''task'' (str_uuid tid)
                [(''rejected'', JStr (str_uuid (g_id rejected))),
                 (''delivered'', case delivered of None \<Rightarrow> JNull | Some g \<Rightarrow> JStr (str_uuid g))]
                (modify_consensus tid (\<lambda>c. c\<lparr>co_delivered_grade_id := delivered\<rparr>) s)))"

definition pending :: "nat \<Rightarrow> db \<Rightarrow> consensus list" where
  "pending limit s = take limit (sort_key (\<lambda>c. (co_created_at c, co_id c))
     (filter (\<lambda>c. co_status c = Adjudicating) (consensuses s)))"

definition backlog :: "db \<Rightarrow> int" where
  "backlog s = row_count (\<lambda>c. co_status c = Adjudicating) (consensuses s)"

section \<open>Adjudication\<close>

definition outvoted_payout :: "env \<Rightarrow> grade \<Rightarrow> task \<Rightarrow> string \<Rightarrow> db \<Rightarrow> payout option outcome" where
  "outvoted_payout E g t actor s =
    (case consensus_outvoted_payout (cfg E) of
       PayNone \<Rightarrow> (Inr None, s)
     | rule \<Rightarrow>
        and_then (create_for_grade E g t actor
            (if rule = PayFull then 1 else consensus_outvoted_rate (cfg E)) s)
          (\<lambda>p s. (Inr (Some p), s)))"

record decision =
  dec_round :: consensus
  dec_delivered :: "payout option"
  dec_outvoted :: "(grade \<times> payout option) list"

type_synonym settled = "payout option \<times> (grade \<times> payout option) list"

definition settle_grade :: "env \<Rightarrow> uuid \<Rightarrow> string \<Rightarrow> uuid \<Rightarrow> string \<Rightarrow> task \<Rightarrow> grade \<Rightarrow> settled \<Rightarrow> db \<Rightarrow> settled outcome" where
  "settle_grade E delivered reason key actor t g acc s =
    (let chosen = (g_id g = delivered);
         (rid, s1) = new_uuid E s;
         rv = \<lparr>rv_id = rid, rv_grade_id = g_id g, rv_reviewer_key_id = key,
               rv_decision = (if chosen then Approve else Reject),
               rv_reason = Some (if chosen then reason else ''outvoted in adjudication''),
               rv_created_at = tx_now s1\<rparr>
     in and_then (insert_review rv s1) (\<lambda>_ s2.
        and_then
          (if chosen
           then and_then (create_for_grade E g t actor 1 s2) (\<lambda>p s3. (Inr (Some p, snd acc), s3))
           else and_then (outvoted_payout E g t actor s2) (\<lambda>p s3. (Inr (fst acc, snd acc @ [(g, p)]), s3)))
          (\<lambda>acc' s3. and_then (update E (g_expert_id g) actor s3) (\<lambda>_ s4. (Inr acc', s4)))))"

fun settle_grades :: "env \<Rightarrow> uuid \<Rightarrow> string \<Rightarrow> uuid \<Rightarrow> string \<Rightarrow> task \<Rightarrow> grade list \<Rightarrow> settled \<Rightarrow> db \<Rightarrow> settled outcome" where
  "settle_grades E delivered reason key actor t [] acc s = (Inr acc, s)"
| "settle_grades E delivered reason key actor t (g # gs) acc s =
     and_then (settle_grade E delivered reason key actor t g acc s)
       (\<lambda>acc' s'. settle_grades E delivered reason key actor t gs acc' s')"

definition resolve :: "env \<Rightarrow> uuid \<Rightarrow> uuid \<Rightarrow> string \<Rightarrow> uuid \<Rightarrow> string \<Rightarrow> db \<Rightarrow> decision outcome" where
  "resolve E tid delivered_grade_id reason key actor s =
    (case get_consensus tid s of
       None \<Rightarrow> (Inl (ServiceError 404 NoConsensusRound), s)
     | Some row \<Rightarrow>
        if co_status row \<noteq> Adjudicating
        then (Inl (ServiceError 409 (ConsensusAlready (co_status row))), s)
        else
          let gs = grades_for tid s in
          case find (\<lambda>g. g_id g = delivered_grade_id) gs of
            None \<Rightarrow> (Inl (ServiceError 422 NotAGradeOfTheTask), s)
          | Some delivered \<Rightarrow> the_row ''task'' (get_task tid s) (\<lambda>t s.
              and_then (settle_grades E (g_id delivered) reason key actor t gs (None, []) s)
                (\<lambda>(paid, outvoted) s1.
                  let s2 = modify_task tid (\<lambda>t. t\<lparr>t_status := Approved\<rparr>) s1;
                      (now, s3) = now_utc E s2;
                      close = (\<lambda>c. c\<lparr>co_status := Adjudicated, co_delivered_grade_id := Some (g_id delivered),
                                co_adjudicator_key_id := Some key, co_reason := Some reason, co_resolved_at := Some now\<rparr>);
                      s4 = modify_consensus tid close s3
                  in (Inr \<lparr>dec_round = close row, dec_delivered = paid, dec_outvoted = outvoted\<rparr>,
                      record_event actor ''consensus.adjudicated'' ''task'' (str_uuid tid)
                        [(''delivered_grade_id'', JStr (str_uuid (g_id delivered))),
                         (''outvoted'', JInt (int (length gs) - 1))]
                        (emit (CONSENSUS Adjudicated) s4)))) s)"

section \<open>Lemmas\<close>

lemma set_grades_for [simp]: "set (grades_for tid s) = {g \<in> set (grades s). g_task_id g = tid}"
  by (auto simp: grades_for_def)

lemma distinct_grades_for: "distinct (map g_id (grades s)) \<Longrightarrow> distinct (map g_id (grades_for tid s))"
  by (simp add: grades_for_def distinct_map distinct_filter inj_on_def)

lemma set_unrejected: "set (unrejected tid s) =
    {g \<in> set (grades s). g_task_id g = tid \<and> (\<forall>r \<in> set (reviews s). rv_grade_id r = g_id g \<longrightarrow> rv_decision r \<noteq> Reject)}"
  unfolding unrejected_def Let_def by (auto simp: image_iff)

lemma decided_Some: "decided gid s = Some d \<Longrightarrow> \<exists>r \<in> set (reviews s). rv_grade_id r = gid \<and> rv_decision r = d"
  by (auto simp: decided_def dest: row_of_SomeD)

lemma decided_iff:
  assumes "distinct (map rv_grade_id (reviews s))"
  shows "decided gid s = Some d \<longleftrightarrow> (\<exists>r \<in> set (reviews s). rv_grade_id r = gid \<and> rv_decision r = d)"
  using row_of_Some_iff [OF assms] by (auto simp: decided_def)

lemma fold_min_ge: "b \<le> fold min xs x \<longleftrightarrow> b \<le> x \<and> (\<forall>y \<in> set xs. (b :: rat) \<le> y)"
  by (induction xs arbitrary: x) auto

lemma min_of_ge: "xs \<noteq> [] \<Longrightarrow> b \<le> min_of xs \<longleftrightarrow> (\<forall>x \<in> set xs. b \<le> x)"
  by (cases xs) (auto simp: min_of_def fold_min_ge)

lemma spread_le_iff:
  assumes "xs \<noteq> []"
  shows "max_of xs - min_of xs \<le> b \<longleftrightarrow> (\<forall>x \<in> set xs. \<forall>y \<in> set xs. \<bar>x - y\<bar> \<le> b)"
proof
  assume L: "max_of xs - min_of xs \<le> b"
  have "x \<le> max_of xs" "min_of xs \<le> x" if "x \<in> set xs" for x
    using max_of_le [OF assms, of "max_of xs"] min_of_ge [OF assms, of "min_of xs"] that by auto
  with L show "\<forall>x \<in> set xs. \<forall>y \<in> set xs. \<bar>x - y\<bar> \<le> b" by (force simp: abs_le_iff)
next
  assume R: "\<forall>x \<in> set xs. \<forall>y \<in> set xs. \<bar>x - y\<bar> \<le> b"
  have "max_of xs \<le> b + y" if "y \<in> set xs" for y
    using R that by (auto simp: max_of_le [OF assms] abs_le_iff algebra_simps)
  then have "max_of xs - b \<le> min_of xs"
    by (simp add: min_of_ge [OF assms] algebra_simps)
  then show "max_of xs - min_of xs \<le> b" by simp
qed

lemma closest_to_mean_SomeD:
  assumes "closest_to_mean gs = Some g"
  shows "g \<in> set gs" "\<And>h. h \<in> set gs \<Longrightarrow> distance_key (mean (map g_weighted_score gs)) g \<le> distance_key (mean (map g_weighted_score gs)) h"
  using min_by_SomeD [OF assms [unfolded closest_to_mean_def]] .

lemma closest_to_mean_ex: "gs \<noteq> [] \<Longrightarrow> \<exists>g. closest_to_mean gs = Some g"
  by (simp add: closest_to_mean_def min_by_def split: list.splits)

interpretation mean_order: total_order_key "distance_key m" "\<lambda>gs. distinct (map g_id gs)" for m
  by unfold_locales (auto simp: distance_key_def inj_on_def distinct_map)

definition consensus_row_of :: "env \<Rightarrow> uuid \<Rightarrow> grade list \<Rightarrow> consensus \<Rightarrow> bool" where
  "consensus_row_of E tid gs c \<longleftrightarrow> co_task_id c = tid \<and> co_grade_count c = length gs \<and>
     co_spread c = max_of (map g_weighted_score gs) - min_of (map g_weighted_score gs) \<and>
     co_tolerance c = consensus_tolerance (cfg E) \<and> co_adjudicator_key_id c = None"

lemma evaluate_cases:
  assumes "evaluate E tid s = (Inr r, s')"
  obtains (few) "r = None" "length (unrejected tid s) < 2" "s' = s"
  | (agreed) c g where "r = Some c" "2 \<le> length (unrejected tid s)" "consensus_row_of E tid (unrejected tid s) c"
      "co_spread c \<le> consensus_tolerance (cfg E)" "co_status c = Agreed"
      "closest_to_mean (unrejected tid s) = Some g" "co_delivered_grade_id c = Some (g_id g)"
      "tid \<notin> co_task_id ` set (consensuses s)"
      "core s' = core (s\<lparr>consensuses := consensuses s @ [c]\<rparr>)" "trail_step s s'"
  | (split) c where "r = Some c" "2 \<le> length (unrejected tid s)" "consensus_row_of E tid (unrejected tid s) c"
      "consensus_tolerance (cfg E) < co_spread c" "co_status c = Adjudicating" "co_delivered_grade_id c = None"
      "tid \<notin> co_task_id ` set (consensuses s)"
      "core s' = core (modify_task tid (\<lambda>t. t\<lparr>t_status := Adjudication\<rparr>) (s\<lparr>consensuses := consensuses s @ [c]\<rparr>))"
      "trail_step s s'"
proof (cases "length (unrejected tid s) < 2")
  case True
  with assms show thesis by (intro few) (simp_all add: evaluate_def Let_def)
next
  case False
  then have "unrejected tid s \<noteq> []" by auto
  then obtain g where g: "closest_to_mean (unrejected tid s) = Some g"
    using closest_to_mean_ex by blast
  define spread where "spread = max_of (map g_weighted_score (unrejected tid s)) - min_of (map g_weighted_score (unrejected tid s))"
  let ?row = "\<lparr>co_id = uuid4 E (uuid_pos s), co_task_id = tid,
     co_status = (if spread \<le> consensus_tolerance (cfg E) then Agreed else Adjudicating),
     co_grade_count = length (unrejected tid s), co_spread = spread, co_tolerance = consensus_tolerance (cfg E),
     co_delivered_grade_id = (if spread \<le> consensus_tolerance (cfg E) then Some (g_id g) else None),
     co_adjudicator_key_id = None, co_reason = None, co_created_at = tx_now s,
     co_resolved_at = (if spread \<le> consensus_tolerance (cfg E) then Some (clock E (clock_pos s)) else None)\<rparr>"
  have row: "consensus_row_of E tid (unrejected tid s) ?row" by (simp add: consensus_row_of_def spread_def)
  show thesis
  proof (cases "spread \<le> consensus_tolerance (cfg E)")
    case True
    let ?s4 = "s\<lparr>clock_pos := Suc (clock_pos s), uuid_pos := Suc (uuid_pos s), consensuses := consensuses s @ [?row]\<rparr>"
    have r: "r = Some ?row" "tid \<notin> co_task_id ` set (consensuses s)"
      and s': "s' = record_event ''system'' (''consensus.'' @ consensus_status_value Agreed) ''task'' (str_uuid tid)
        [(''spread'', JFloat spread), (''grades'', JInt (int (length (unrejected tid s))))] (emit (CONSENSUS Agreed) ?s4)"
      using assms False True g
      by (simp_all add: evaluate_def Let_def spread_def [symmetric] now_utc_def new_uuid_def insert_consensus_def result_simps)
    show thesis
      by (rule agreed [OF r(1) _ row _ _ g])
        (use r(2) False True in \<open>simp_all add: s' core_eq_iff, auto intro!: trail_step_record_event trail_step_same\<close>)
  next
    case sp: False
    let ?s4 = "s\<lparr>tasks := update_row t_id tid (\<lambda>t. t\<lparr>t_status := Adjudication\<rparr>) (tasks s),
      uuid_pos := Suc (uuid_pos s), consensuses := consensuses s @ [?row]\<rparr>"
    have r: "r = Some ?row" "tid \<notin> co_task_id ` set (consensuses s)"
      and s': "s' = record_event ''system'' (''consensus.'' @ consensus_status_value Adjudicating) ''task'' (str_uuid tid)
        [(''spread'', JFloat spread), (''grades'', JInt (int (length (unrejected tid s))))] (emit (CONSENSUS Adjudicating) ?s4)"
      using assms False sp g
      by (simp_all add: evaluate_def Let_def spread_def [symmetric] now_utc_def new_uuid_def insert_consensus_def result_simps)
    show thesis
      by (rule split [OF r(1) _ row])
        (use r(2) False sp in \<open>simp_all add: s' core_eq_iff, auto intro!: trail_step_record_event trail_step_same\<close>)
  qed
qed

lemma redeliver_cases:
  assumes "redeliver tid rejected actor s = (r, s')"
  obtains (kept) "r = None" "s' = s"
      "\<And>row. get_consensus tid s = Some row \<Longrightarrow> co_status row = Agreed \<Longrightarrow> co_delivered_grade_id row \<noteq> Some (g_id rejected)"
  | (replaced) row pool delivered where "r = Some (row\<lparr>co_delivered_grade_id := delivered\<rparr>)" "get_consensus tid s = Some row"
      "co_status row = Agreed" "co_delivered_grade_id row = Some (g_id rejected)"
      "pool = filter (\<lambda>g. decided (g_id g) s \<noteq> Some Reject) (grades_for tid s)"
      "delivered = map_option g_id (closest_to_mean (if filter (\<lambda>g. decided (g_id g) s = Some Approve) pool \<noteq> []
         then filter (\<lambda>g. decided (g_id g) s = Some Approve) pool else pool))"
      "core s' = core (modify_consensus tid (\<lambda>c. c\<lparr>co_delivered_grade_id := delivered\<rparr>) s)" "trail_step s s'"
proof (cases "get_consensus tid s")
  case None
  with assms show thesis by (intro kept) (auto simp: redeliver_def)
next
  case (Some row)
  show thesis
  proof (cases "co_status row \<noteq> Agreed \<or> co_delivered_grade_id row \<noteq> Some (g_id rejected)")
    case True
    with assms Some show thesis by (intro kept) (auto simp: redeliver_def)
  next
    case False
    define pool where "pool = filter (\<lambda>g. decided (g_id g) s \<noteq> Some Reject) (grades_for tid s)"
    define candidates where "candidates = (if filter (\<lambda>g. decided (g_id g) s = Some Approve) pool \<noteq> []
       then filter (\<lambda>g. decided (g_id g) s = Some Approve) pool else pool)"
    define delivered where "delivered = map_option g_id (closest_to_mean candidates)"
    have "(if candidates \<noteq> [] then map_option g_id (closest_to_mean candidates) else None) = delivered"
      by (simp add: delivered_def closest_to_mean_def)
    then have "r = Some (row\<lparr>co_delivered_grade_id := delivered\<rparr>)"
      "\<exists>p. s' = record_event actor ''consensus.redelivered'' ''task'' (str_uuid tid) p
         (modify_consensus tid (\<lambda>c. c\<lparr>co_delivered_grade_id := delivered\<rparr>) s)"
      using assms Some False
      unfolding redeliver_def Let_def pool_def [symmetric] candidates_def [symmetric] by auto
    then show thesis using Some False
      by (intro replaced [OF _ Some, of delivered pool]) (auto simp: pool_def delivered_def candidates_def
        intro!: trail_step_record_event trail_step_same)
  qed
qed

text \<open>
  What an adjudication owes the author of a grade: the delivered grade its full rate, an outvoted one
  the share the outvoted rule gives it, if any.
\<close>

definition share :: "env \<Rightarrow> bool \<Rightarrow> rat option" where
  "share E chosen = (if chosen then Some 1 else
     case consensus_outvoted_payout (cfg E) of
       PayNone \<Rightarrow> None | PayFull \<Rightarrow> Some 1 | PayPartial \<Rightarrow> Some (consensus_outvoted_rate (cfg E)))"

definition rate_of :: "grade \<Rightarrow> task \<Rightarrow> db \<Rightarrow> int option" where
  "rate_of g t s = (case get_expert (g_expert_id g) s of
     None \<Rightarrow> None
   | Some e \<Rightarrow> (case fst (rate_for e (t_task_type t) s) of Inl _ \<Rightarrow> None | Inr r \<Rightarrow> Some r))"

definition due :: "env \<Rightarrow> uuid \<Rightarrow> task \<Rightarrow> db \<Rightarrow> grade \<Rightarrow> int option" where
  "due E delivered t s g = (case share E (g_id g = delivered) of
     None \<Rightarrow> None | Some f \<Rightarrow> map_option (\<lambda>r. py_round (of_int r * f)) (rate_of g t s))"

lemma rate_of_depends:
  assumes "get_expert (g_expert_id g) s' = get_expert (g_expert_id g) s" "rate_cards s' = rate_cards s"
  shows "rate_of g t s' = rate_of g t s"
  using assms by (auto simp: rate_of_def rate_for_def get_rate_card_def split: option.splits)

lemma create_for_grade_amount:
  assumes "create_for_grade E g t actor f s = (Inr p, s')" "get_payout (g_id g) s = None"
  shows "Some (p_amount_cents p) = map_option (\<lambda>r. py_round (of_int r * f)) (rate_of g t s)"
  using assms(1)
  by (cases rule: create_for_grade_cases) (use assms(2) in \<open>auto simp: rate_of_def new_payout_def\<close>)

lemma pay_step:
  assumes "(if chosen then and_then (create_for_grade E g t actor 1 s) (\<lambda>p s3. (Inr (Some p, outvoted), s3))
      else and_then (outvoted_payout E g t actor s) (\<lambda>p s3. (Inr (paid, outvoted @ [(g, p)]), s3))) = (Inr acc', s')"
  shows "core (s'\<lparr>payouts := payouts s\<rparr>) = core s" "trail_step s s'"
    "k \<noteq> g_id g \<Longrightarrow> get_payout k s' = get_payout k s"
    "get_payout (g_id g) s = None \<Longrightarrow> map_option p_amount_cents (get_payout (g_id g) s') =
       (case share E chosen of None \<Rightarrow> None | Some f \<Rightarrow> map_option (\<lambda>r. py_round (of_int r * f)) (rate_of g t s))"
    "chosen \<Longrightarrow> acc' = (get_payout (g_id g) s', outvoted) \<and> get_payout (g_id g) s' \<noteq> None"
    "\<not> chosen \<Longrightarrow> \<exists>p. acc' = (paid, outvoted @ [(g, p)]) \<and> (share E False \<noteq> None \<longrightarrow> p = get_payout (g_id g) s' \<and> p \<noteq> None)
       \<and> (share E False = None \<longrightarrow> p = None)"
    "payouts_ok s \<Longrightarrow> g \<in> set (grades s) \<Longrightarrow> t_id t = g_task_id g \<Longrightarrow> payouts_ok s'"
proof -
  have "(\<exists>f p. share E chosen = Some f \<and> create_for_grade E g t actor f s = (Inr p, s') \<and>
          acc' = (if chosen then (Some p, outvoted) else (paid, outvoted @ [(g, Some p)]))) \<or>
        (share E chosen = None \<and> \<not> chosen \<and> s' = s \<and> acc' = (paid, outvoted @ [(g, None)]))"
    using assms
    by (cases "consensus_outvoted_payout (cfg E)")
      (auto simp: outvoted_payout_def share_def result_simps split: if_splits)
  then consider (pays) f p where "share E chosen = Some f" "create_for_grade E g t actor f s = (Inr p, s')"
      "acc' = (if chosen then (Some p, outvoted) else (paid, outvoted @ [(g, Some p)]))"
    | (skips) "share E chosen = None" "\<not> chosen" "s' = s" "acc' = (paid, outvoted @ [(g, None)])"
    by (elim disjE exE conjE) ((rule that(1); assumption), (rule that(2); assumption))
  note cs = this
  show "core (s'\<lparr>payouts := payouts s\<rparr>) = core s" "trail_step s s'"
    by (cases rule: cs; simp add: create_for_grade_frame core_eq_iff)+
  show "get_payout k s' = get_payout k s" if "k \<noteq> g_id g"
    by (cases rule: cs) (use that in \<open>simp_all add: create_for_grade_other\<close>)
  show "map_option p_amount_cents (get_payout (g_id g) s') =
       (case share E chosen of None \<Rightarrow> None | Some f \<Rightarrow> map_option (\<lambda>r. py_round (of_int r * f)) (rate_of g t s))"
    if "get_payout (g_id g) s = None"
    by (cases rule: cs) (use that in \<open>simp_all add: create_for_grade_paid create_for_grade_amount\<close>)
  show "acc' = (get_payout (g_id g) s', outvoted) \<and> get_payout (g_id g) s' \<noteq> None" if chosen
    by (cases rule: cs) (use that in \<open>simp_all add: create_for_grade_paid\<close>)
  show "\<exists>p. acc' = (paid, outvoted @ [(g, p)]) \<and> (share E False \<noteq> None \<longrightarrow> p = get_payout (g_id g) s' \<and> p \<noteq> None)
       \<and> (share E False = None \<longrightarrow> p = None)" if "\<not> chosen"
    by (cases rule: cs) (use that in \<open>simp_all add: create_for_grade_paid\<close>)
  show "payouts_ok s'" if "payouts_ok s" "g \<in> set (grades s)" "t_id t = g_task_id g"
    by (cases rule: cs) (use that in \<open>simp_all add: create_for_grade_payouts_ok\<close>)
qed

text \<open>What a calibration update leaves of an expert: everything but the calibration columns.\<close>

definition uncalibrated :: "expert \<Rightarrow> expert" where
  "uncalibrated e = e\<lparr>e_calibration_score := None, e_calibration_samples := 0, e_tier := Junior, e_tier_updated_at := None\<rparr>"

definition settles :: "uuid \<Rightarrow> uuid \<Rightarrow> grade list \<Rightarrow> db \<Rightarrow> db \<Rightarrow> bool" where
  "settles delivered key gs s s' \<longleftrightarrow>
     (\<exists>revs. reviews s' = reviews s @ revs \<and>
        map (\<lambda>r. (rv_grade_id r, rv_decision r, rv_reviewer_key_id r)) revs =
        map (\<lambda>g. (g_id g, if g_id g = delivered then Approve else Reject, key)) gs \<and>
        (distinct (map rv_id (reviews s)) \<longrightarrow> distinct (map rv_id (reviews s'))) \<and>
        (distinct (map rv_grade_id (reviews s)) \<longrightarrow> distinct (map rv_grade_id (reviews s')))) \<and>
     core (s'\<lparr>reviews := reviews s, payouts := payouts s, experts := experts s, tier_changes := tier_changes s\<rparr>) = core s \<and>
     map uncalibrated (experts s') = map uncalibrated (experts s) \<and>
     (\<forall>k. k \<notin> g_expert_id ` set gs \<longrightarrow> get_expert k s' = get_expert k s) \<and>
     (\<forall>k. k \<notin> g_id ` set gs \<longrightarrow> get_payout k s' = get_payout k s) \<and> trail_step s s'"

lemma settles_refl: "settles d key [] s s"
  by (simp add: settles_def)

lemma settles_trans:
  assumes "settles d key gs s s1" "settles d key hs s1 s'"
  shows "settles d key (gs @ hs) s s'"
proof -
  from assms(1) obtain r1 where 1: "reviews s1 = reviews s @ r1"
    "map (\<lambda>r. (rv_grade_id r, rv_decision r, rv_reviewer_key_id r)) r1 =
        map (\<lambda>g. (g_id g, if g_id g = d then Approve else Reject, key)) gs"
    "distinct (map rv_id (reviews s)) \<longrightarrow> distinct (map rv_id (reviews s1))"
    "distinct (map rv_grade_id (reviews s)) \<longrightarrow> distinct (map rv_grade_id (reviews s1))"
    unfolding settles_def by blast
  from assms(2) obtain r2 where 2: "reviews s' = reviews s1 @ r2"
    "map (\<lambda>r. (rv_grade_id r, rv_decision r, rv_reviewer_key_id r)) r2 =
        map (\<lambda>g. (g_id g, if g_id g = d then Approve else Reject, key)) hs"
    "distinct (map rv_id (reviews s1)) \<longrightarrow> distinct (map rv_id (reviews s'))"
    "distinct (map rv_grade_id (reviews s1)) \<longrightarrow> distinct (map rv_grade_id (reviews s'))"
    unfolding settles_def by blast
  have revs: "\<exists>revs. reviews s' = reviews s @ revs \<and>
        map (\<lambda>r. (rv_grade_id r, rv_decision r, rv_reviewer_key_id r)) revs =
        map (\<lambda>g. (g_id g, if g_id g = d then Approve else Reject, key)) (gs @ hs) \<and>
        (distinct (map rv_id (reviews s)) \<longrightarrow> distinct (map rv_id (reviews s'))) \<and>
        (distinct (map rv_grade_id (reviews s)) \<longrightarrow> distinct (map rv_grade_id (reviews s')))"
    using 1 2 by (intro exI [of _ "r1 @ r2"]) auto
  have frames: "\<forall>k. k \<notin> g_expert_id ` set gs \<longrightarrow> get_expert k s1 = get_expert k s"
    "\<forall>k. k \<notin> g_expert_id ` set hs \<longrightarrow> get_expert k s' = get_expert k s1"
    "\<forall>k. k \<notin> g_id ` set gs \<longrightarrow> get_payout k s1 = get_payout k s"
    "\<forall>k. k \<notin> g_id ` set hs \<longrightarrow> get_payout k s' = get_payout k s1"
    using assms by (simp_all add: settles_def)
  show ?thesis
    unfolding settles_def [of d key "gs @ hs"]
  proof (intro conjI revs)
    show "core (s'\<lparr>reviews := reviews s, payouts := payouts s, experts := experts s, tier_changes := tier_changes s\<rparr>) = core s"
      "map uncalibrated (experts s') = map uncalibrated (experts s)"
      using assms by (simp_all add: settles_def core_eq_iff)
    show "\<forall>k. k \<notin> g_expert_id ` set (gs @ hs) \<longrightarrow> get_expert k s' = get_expert k s"
      "\<forall>k. k \<notin> g_id ` set (gs @ hs) \<longrightarrow> get_payout k s' = get_payout k s"
      using frames by (simp_all add: image_Un)
    show "trail_step s s'"
      using assms trail_step_trans by (simp add: settles_def) blast
  qed
qed

lemma settle_grade_step:
  assumes "settle_grade E d reason key actor t g acc s = (Inr acc', s')"
  shows "settles d key [g] s s'"
    "get_payout (g_id g) s = None \<Longrightarrow> map_option p_amount_cents (get_payout (g_id g) s') = due E d t s g"
    "g_id g = d \<Longrightarrow> acc' = (get_payout d s', snd acc) \<and> get_payout d s' \<noteq> None"
    "g_id g \<noteq> d \<Longrightarrow> \<exists>p. acc' = (fst acc, snd acc @ [(g, p)]) \<and>
       (share E False \<noteq> None \<longrightarrow> p = get_payout (g_id g) s' \<and> p \<noteq> None) \<and> (share E False = None \<longrightarrow> p = None)"
    "payouts_ok s \<Longrightarrow> g \<in> set (grades s) \<Longrightarrow> t_id t = g_task_id g \<Longrightarrow> payouts_ok s'"
proof -
  let ?rv = "\<lparr>rv_id = uuid4 E (uuid_pos s), rv_grade_id = g_id g, rv_reviewer_key_id = key,
     rv_decision = (if g_id g = d then Approve else Reject),
     rv_reason = Some (if g_id g = d then reason else ''outvoted in adjudication''), rv_created_at = tx_now s\<rparr>"
  let ?s2 = "s\<lparr>uuid_pos := Suc (uuid_pos s), reviews := reviews s @ [?rv]\<rparr>"
  obtain s3 c where new: "uuid4 E (uuid_pos s) \<notin> rv_id ` set (reviews s)" "g_id g \<notin> rv_grade_id ` set (reviews s)"
    and pay: "(if g_id g = d then and_then (create_for_grade E g t actor 1 ?s2) (\<lambda>p s3. (Inr (Some p, snd acc), s3))
      else and_then (outvoted_payout E g t actor ?s2) (\<lambda>p s3. (Inr (fst acc, snd acc @ [(g, p)]), s3))) = (Inr acc', s3)"
    and cal: "update E (g_expert_id g) actor s3 = (Inr c, s')"
    using assms
    by (auto simp: settle_grade_def new_uuid_def insert_review_def Let_def result_simps simp del: split_paired_Ex)
  note P = pay_step [OF pay]
  note U = update_frame [OF cal] update_get_other [OF cal]
  have rate: "rate_of g t (s\<lparr>uuid_pos := n, reviews := rs\<rparr>) = rate_of g t s" for n rs
    by (rule rate_of_depends) simp_all
  have gp: "get_payout k s' = get_payout k s3" for k
    using U(1) by (simp add: core_eq_iff)
  have ex: "experts s3 = experts s" using P(1) by (simp add: core_eq_iff)
  have "map uncalibrated (experts s') = map uncalibrated (experts s)"
    using U(3) by (simp add: uncalibrated_def [abs_def] ex)
  moreover have "trail_step s s'"
    using trail_step_trans [OF P(2) U(2)] by (simp add: trail_step_cong(1) [of ?s2 s])
  moreover have "get_expert k s' = get_expert k s" if "k \<noteq> g_expert_id g" for k
    using U(4) [OF that] ex by simp
  ultimately show "settles d key [g] s s'"
    unfolding settles_def using new P(1,3) U(1) gp by (auto simp: core_eq_iff)
  show "map_option p_amount_cents (get_payout (g_id g) s') = due E d t s g" if "get_payout (g_id g) s = None"
    using P(4) that by (simp add: gp due_def rate cong: option.case_cong)
  show "g_id g = d \<Longrightarrow> acc' = (get_payout d s', snd acc) \<and> get_payout d s' \<noteq> None"
    using P(5) by (auto simp: gp)
  show "g_id g \<noteq> d \<Longrightarrow> \<exists>p. acc' = (fst acc, snd acc @ [(g, p)]) \<and>
       (share E False \<noteq> None \<longrightarrow> p = get_payout (g_id g) s' \<and> p \<noteq> None) \<and> (share E False = None \<longrightarrow> p = None)"
    using P(6) by (simp add: gp)
  show "payouts_ok s'" if "payouts_ok s" "g \<in> set (grades s)" "t_id t = g_task_id g"
  proof -
    have "payouts_ok ?s2" using that(1) by (simp add: payouts_ok_def payout_row_ok_def)
    then have "payouts_ok s3" using P(7) that(2,3) by simp
    moreover have "map e_id (experts s') = map e_id (experts s3)"
      using arg_cong [OF U(3), of "map e_id"] by (simp add: comp_def)
    then have "e_id ` set (experts s') = e_id ` set (experts s3)" by (metis list.set_map)
    ultimately show ?thesis using U(1) by (simp add: payouts_ok_def payout_row_ok_def core_eq_iff)
  qed
qed

lemma settle_grades_settles:
  "settle_grades E d reason key actor t gs acc s = (Inr acc', s') \<Longrightarrow> settles d key gs s s'"
proof (induction gs arbitrary: acc s)
  case (Cons g gs)
  then obtain acc1 s1 where step: "settle_grade E d reason key actor t g acc s = (Inr acc1, s1)"
    and rest: "settle_grades E d reason key actor t gs acc1 s1 = (Inr acc', s')"
    by (auto simp: result_simps)
  show ?case
    using settles_trans [OF settle_grade_step(1) [OF step] Cons.IH [OF rest]] by simp
qed (simp add: settles_refl)

lemma settle_grades_due:
  assumes "settle_grades E d reason key actor t gs acc s = (Inr acc', s')"
    "distinct (map g_id gs)" "distinct (map g_expert_id gs)" "g \<in> set gs" "get_payout (g_id g) s = None"
  shows "map_option p_amount_cents (get_payout (g_id g) s') = due E d t s g"
  using assms
proof (induction gs arbitrary: acc s)
  case (Cons h gs)
  then obtain acc1 s1 where step: "settle_grade E d reason key actor t h acc s = (Inr acc1, s1)"
    and rest: "settle_grades E d reason key actor t gs acc1 s1 = (Inr acc', s')"
    by (auto simp: result_simps)
  note st = settle_grade_step [OF step]
  show ?case
  proof (cases "g = h")
    case True
    have "g_id g \<notin> g_id ` set gs" using Cons.prems(2) True by auto
    then have "get_payout (g_id g) s' = get_payout (g_id g) s1"
      using settle_grades_settles [OF rest] unfolding settles_def by blast
    then show ?thesis using st(2) Cons.prems(5) True by simp
  next
    case False
    then have mem: "g \<in> set gs" using Cons.prems(4) by simp
    then have ne: "g_id g \<noteq> g_id h" "g_expert_id g \<noteq> g_expert_id h"
      using Cons.prems(2,3) by (auto simp: image_iff)
    have s1: "get_payout (g_id g) s1 = get_payout (g_id g) s" "get_expert (g_expert_id g) s1 = get_expert (g_expert_id g) s"
      using st(1) ne unfolding settles_def by simp_all
    have "rate_cards s1 = rate_cards s" using st(1) by (simp add: settles_def core_eq_iff)
    then have "due E d t s1 g = due E d t s g"
      using rate_of_depends [OF s1(2)] by (simp add: due_def cong: option.case_cong)
    then show ?thesis using Cons.IH [OF rest] Cons.prems(2,3,5) mem s1(1) by simp
  qed
qed simp

lemma settle_grades_delivered:
  assumes "settle_grades E d reason key actor t gs acc s = (Inr acc', s')" "distinct (map g_id gs)"
  shows "map fst (snd acc') = map fst (snd acc) @ filter (\<lambda>g. g_id g \<noteq> d) gs"
    "if d \<in> g_id ` set gs then fst acc' = get_payout d s' \<and> fst acc' \<noteq> None else fst acc' = fst acc"
  using assms
proof (induction gs arbitrary: acc s)
  case (Cons h gs)
  { case 1
    then obtain acc1 s1 where step: "settle_grade E d reason key actor t h acc s = (Inr acc1, s1)"
      and rest: "settle_grades E d reason key actor t gs acc1 s1 = (Inr acc', s')"
      by (auto simp: result_simps)
    show ?case
      using Cons.IH(1) [OF rest] settle_grade_step(3,4) [OF step] 1(2) by (cases "g_id h = d") auto }
  { case 2
    then obtain acc1 s1 where step: "settle_grade E d reason key actor t h acc s = (Inr acc1, s1)"
      and rest: "settle_grades E d reason key actor t gs acc1 s1 = (Inr acc', s')"
      by (auto simp: result_simps)
    have keep: "get_payout d s' = get_payout d s1" if "d \<notin> g_id ` set gs"
      using settle_grades_settles [OF rest] that unfolding settles_def by blast
    show ?case
      using Cons.IH(2) [OF rest] settle_grade_step(3,4) [OF step] 2(2) keep
      by (cases "g_id h = d") (auto split: if_splits) }
qed simp_all

lemma settle_grades_payouts_ok:
  assumes "settle_grades E d reason key actor t gs acc s = (Inr acc', s')" "payouts_ok s"
    "\<And>g. g \<in> set gs \<Longrightarrow> g \<in> set (grades s) \<and> t_id t = g_task_id g"
  shows "payouts_ok s'"
  using assms
proof (induction gs arbitrary: acc s)
  case (Cons h gs)
  then obtain acc1 s1 where step: "settle_grade E d reason key actor t h acc s = (Inr acc1, s1)"
    and rest: "settle_grades E d reason key actor t gs acc1 s1 = (Inr acc', s')"
    by (auto simp: result_simps)
  have "grades s1 = grades s" using settle_grade_step(1) [OF step] by (simp add: settles_def core_eq_iff)
  moreover have "payouts_ok s1" using settle_grade_step(5) [OF step] Cons.prems by simp
  ultimately show ?case using Cons.IH [OF rest] Cons.prems(3) by simp
qed simp

lemma resolve_cases:
  assumes "resolve E tid d reason key actor s = (Inr r, s')"
  obtains row g t acc s1 now where "get_consensus tid s = Some row" "co_status row = Adjudicating"
      "g \<in> set (grades s)" "g_task_id g = tid" "g_id g = d" "get_task tid s = Some t"
      "settle_grades E d reason key actor t (grades_for tid s) (None, []) s = (Inr acc, s1)"
      "dec_delivered r = fst acc" "dec_outvoted r = snd acc" "co_delivered_grade_id (dec_round r) = Some d"
      "core s' = core (modify_consensus tid (\<lambda>c. c\<lparr>co_status := Adjudicated, co_delivered_grade_id := Some d,
          co_adjudicator_key_id := Some key, co_reason := Some reason, co_resolved_at := Some now\<rparr>)
        (modify_task tid (\<lambda>t. t\<lparr>t_status := Approved\<rparr>) s1))"
      "trail_step s s'"
proof -
  obtain row where row: "get_consensus tid s = Some row" "co_status row = Adjudicating"
    using assms by (auto simp: resolve_def split: option.splits if_splits)
  obtain g where f: "find (\<lambda>g. g_id g = d) (grades_for tid s) = Some g"
    using assms row by (auto simp: resolve_def Let_def split: option.splits)
  have g: "g \<in> set (grades s)" "g_task_id g = tid" "g_id g = d"
    using f by (auto simp: find_Some_iff dest!: nth_mem)
  obtain t where t: "get_task tid s = Some t"
    using assms row f by (auto simp: resolve_def Let_def result_simps)
  obtain acc s1 where sg: "settle_grades E d reason key actor t (grades_for tid s) (None, []) s = (Inr acc, s1)"
    using assms row f g(3) t by (auto simp: resolve_def Let_def result_simps)
  define now where "now = clock E (clock_pos s1)"
  let ?close = "\<lambda>c. c\<lparr>co_status := Adjudicated, co_delivered_grade_id := Some d,
          co_adjudicator_key_id := Some key, co_reason := Some reason, co_resolved_at := Some now\<rparr>"
  let ?s4 = "s1\<lparr>tasks := update_row t_id tid (\<lambda>t. t\<lparr>t_status := Approved\<rparr>) (tasks s1), clock_pos := Suc (clock_pos s1),
     consensuses := update_row co_task_id tid ?close (consensuses s1)\<rparr>"
  have r: "r = \<lparr>dec_round = ?close row, dec_delivered = fst acc, dec_outvoted = snd acc\<rparr>"
    and s': "s' = record_event actor ''consensus.adjudicated'' ''task'' (str_uuid tid)
       [(''delivered_grade_id'', JStr (str_uuid d)), (''outvoted'', JInt (int (length (grades_for tid s)) - 1))]
       (emit (CONSENSUS Adjudicated) ?s4)"
    using assms row f g(3) t sg
    by (simp_all add: resolve_def Let_def now_utc_def now_def split_def)
  have "trail_step s1 s'"
    unfolding s' by (intro trail_step_record_event) (simp add: trail_step_same)
  then have "trail_step s s'"
    using settle_grades_settles [OF sg] trail_step_trans by (auto simp: settles_def)
  then show thesis
    by (rule that [OF row g t sg, where now = now, rotated -1]) (simp_all add: r s' core_eq_iff)
qed

section \<open>Properties\<close>


definition sample_round_db :: "rat \<Rightarrow> db" where
  "sample_round_db w = sample_db\<lparr>grades := [sample_grade 40 20 4 4, sample_grade 41 20 2 w]\<rparr>"

lemma sample_unrejected:
  "unrejected 20 (sample_round_db w) = [sample_grade 40 20 4 4, sample_grade 41 20 2 w]"
  by (simp add: unrejected_def grades_for_def sample_round_db_def sample_defs)

lemma sample_evaluate: "\<exists>c s'. evaluate sample_env 20 (sample_round_db w) = (Inr (Some c), s')"
  by (simp add: evaluate_def sample_unrejected Let_def new_uuid_def now_utc_def insert_consensus_def insert_if_def
      closest_to_mean_def min_by_def)
    (simp add: sample_round_db_def sample_defs)


text \<open>
  The delivered grade does not depend on the order the rows come in: two lists with the same grades
  have the same closest grade, because ties are broken by submission time and then by the unique id.
\<close>

theorem delivery_order_independent:
  assumes "mset gs = mset hs" "distinct (map g_id gs)"
  shows "closest_to_mean gs = closest_to_mean hs"
proof (cases "closest_to_mean gs")
  case None
  then have "gs = []" by (simp add: closest_to_mean_def)
  with assms(1) show ?thesis by simp
next
  case (Some g)
  have sets: "set gs = set hs" using assms(1) by (rule mset_eq_setD)
  have "sum_list (map g_weighted_score gs) = sum_list (map g_weighted_score hs)"
    using assms(1) by (metis mset_map sum_mset_sum_list)
  then have m: "mean (map g_weighted_score gs) = mean (map g_weighted_score hs)"
    using mset_eq_length [OF assms(1)] by (simp add: mean_def)
  note cl = closest_to_mean_SomeD [OF Some]
  have d: "distinct (map g_id hs)"
    using assms by (metis distinct_count_atmost_1 mset_map set_map sets)
  obtain h where h: "closest_to_mean hs = Some h"
    using closest_to_mean_ex [of hs] cl(1) sets by (cases hs) auto
  have "h = g"
    by (rule mean_order.min_by_unique [OF d h [unfolded closest_to_mean_def]]) (use cl sets m in auto)
  with Some h show ?thesis by simp
qed

theorem delivery_order_independent_witness:
  "\<exists>a b. a \<noteq> b \<and> closest_to_mean [a, b] = closest_to_mean [b, a]"
proof -
  let ?a = "sample_grade 40 20 4 4" and ?b = "sample_grade 41 20 2 5"
  have "closest_to_mean [?a, ?b] = closest_to_mean [?b, ?a]"
    by (rule delivery_order_independent) (auto simp: sample_grade_def)
  moreover have "?a \<noteq> ?b" by (simp add: sample_grade_def)
  ultimately show ?thesis by blast
qed

text \<open>
  C19: a rejected grade is never delivered by an agreed round. The round of the task picks again exactly when it
  is an agreed one that delivers the rejected grade; in every other case nothing changes. The new pick is a grade
  of the task that is not rejected, an approved one whenever there is one, and with none left the round
  delivers nothing. The round is stored with the new pick and is otherwise as it was, and so are the rounds of other
  tasks, the tasks, the grades, the reviews and the payouts.
\<close>

theorem redelivery_skips_rejected:
  assumes "redeliver tid rejected actor s = (r, s')" "decided (g_id rejected) s = Some Reject"
  shows "(r \<noteq> None \<longleftrightarrow> (\<exists>row. get_consensus tid s = Some row \<and> co_status row = Agreed \<and>
        co_delivered_grade_id row = Some (g_id rejected))) \<and>
    (\<forall>c. r = Some c \<longrightarrow>
      (\<forall>d. co_delivered_grade_id c = Some d \<longrightarrow> decided d s \<noteq> Some Reject \<and> d \<noteq> g_id rejected \<and>
         (\<exists>g \<in> set (grades s). g_task_id g = tid \<and> g_id g = d) \<and>
         ((\<exists>g \<in> set (grades s). g_task_id g = tid \<and> decided (g_id g) s = Some Approve) \<longrightarrow> decided d s = Some Approve)) \<and>
      (co_delivered_grade_id c = None \<longrightarrow>
         (\<forall>g \<in> set (grades s). g_task_id g = tid \<longrightarrow> decided (g_id g) s = Some Reject)) \<and>
      get_consensus tid s' = Some c \<and>
      map_option (\<lambda>row. row\<lparr>co_delivered_grade_id := co_delivered_grade_id c\<rparr>) (get_consensus tid s) = Some c \<and>
      (\<forall>k. k \<noteq> tid \<longrightarrow> get_consensus k s' = get_consensus k s) \<and>
      tasks s' = tasks s \<and> grades s' = grades s \<and> reviews s' = reviews s \<and> payouts s' = payouts s) \<and>
    (r = None \<longrightarrow> s' = s)"
  using assms(1)
proof (cases rule: redeliver_cases)
  case kept
  then show ?thesis by auto
next
  case (replaced row pool delivered)
  let ?ok = "filter (\<lambda>g. decided (g_id g) s = Some Approve) pool"
  let ?cands = "if ?ok \<noteq> [] then ?ok else pool"
  have d: "co_delivered_grade_id (row\<lparr>co_delivered_grade_id := delivered\<rparr>) = map_option g_id (closest_to_mean ?cands)"
    by (simp add: replaced(6) if_distrib)
  have pool: "set pool = {g \<in> set (grades s). g_task_id g = tid \<and> decided (g_id g) s \<noteq> Some Reject}"
    using replaced(5) by auto
  have get: "get_consensus tid s' = Some (row\<lparr>co_delivered_grade_id := delivered\<rparr>)"
    using replaced(2,7) by (simp add: core_eq_iff row_of_update_row)
  have frame: "\<forall>k. k \<noteq> tid \<longrightarrow> get_consensus k s' = get_consensus k s" "tasks s' = tasks s" "grades s' = grades s"
      "reviews s' = reviews s" "payouts s' = payouts s"
    using replaced(7) by (simp_all add: core_eq_iff row_of_update_row)
  note stored = replaced(2-4) frame
  have none: "\<forall>g \<in> set (grades s). g_task_id g = tid \<longrightarrow> decided (g_id g) s = Some Reject" if "closest_to_mean ?cands = None"
  proof -
    have "?cands = []" using that by (simp add: closest_to_mean_def)
    then have "pool = []" by (auto split: if_splits)
    with pool show ?thesis by auto
  qed
  have some: "decided (g_id g) s \<noteq> Some Reject \<and> g_id g \<noteq> g_id rejected \<and> g \<in> set (grades s) \<and> g_task_id g = tid \<and>
      ((\<exists>g \<in> set (grades s). g_task_id g = tid \<and> decided (g_id g) s = Some Approve) \<longrightarrow> decided (g_id g) s = Some Approve)"
    if "closest_to_mean ?cands = Some g" for g
  proof -
    have g: "g \<in> set ?cands" using closest_to_mean_SomeD(1) [OF that] .
    then have "g \<in> set pool" by (auto split: if_splits)
    then have "decided (g_id g) s \<noteq> Some Reject" "g \<in> set (grades s)" "g_task_id g = tid" using pool by auto
    moreover have "decided (g_id g) s = Some Approve" if "h \<in> set (grades s)" "g_task_id h = tid" "decided (g_id h) s = Some Approve" for h
    proof -
      have "?ok \<noteq> []" using that pool by (auto simp: filter_empty_conv)
      with g show ?thesis by simp
    qed
    ultimately show ?thesis using assms(2) by auto
  qed
  show ?thesis
  proof (cases "closest_to_mean ?cands")
    case None
    then have "delivered = None" using d by simp
    with replaced(1) get none [OF None] stored show ?thesis by simp
  next
    case (Some g)
    then have "delivered = Some (g_id g)" using d by simp
    with replaced(1) get some [OF Some] stored show ?thesis by auto
  qed
qed

definition sample_consensus :: "uuid \<Rightarrow> consensus_status \<Rightarrow> uuid option \<Rightarrow> consensus" where
  "sample_consensus tid st d = \<lparr>co_id = 70, co_task_id = tid, co_status = st, co_grade_count = 2, co_spread = 1,
     co_tolerance = 1, co_delivered_grade_id = d, co_adjudicator_key_id = None, co_reason = None,
     co_created_at = 0, co_resolved_at = None\<rparr>"

theorem redelivery_skips_rejected_witness:
  "\<exists>c s'. redeliver 20 (sample_grade 40 20 4 4) ''r''
      (sample_round_db 5\<lparr>consensuses := [sample_consensus 20 Agreed (Some 40)], reviews := [sample_review 80 40 Reject]\<rparr>) = (Some c, s') \<and>
      co_delivered_grade_id c \<noteq> Some 40"
proof -
  let ?s = "sample_round_db 5\<lparr>consensuses := [sample_consensus 20 Agreed (Some 40)], reviews := [sample_review 80 40 Reject]\<rparr>"
  obtain r s' where red: "redeliver 20 (sample_grade 40 20 4 4) ''r'' ?s = (r, s')" by fastforce
  have "decided (g_id (sample_grade 40 20 4 4)) ?s = Some Reject"
    by (simp add: decided_def sample_review_def sample_grade_def)
  note picks = redelivery_skips_rejected [OF red this]
  have "r \<noteq> None" using conjunct1 [OF picks] by (simp add: sample_consensus_def sample_grade_def)
  then obtain c where "r = Some c" by auto
  with picks red show ?thesis by (auto simp: sample_grade_def)
qed

text \<open>
  C9: what an adjudication settles. Every grade of the task gets one review by the adjudicator's key,
  an approval for the chosen grade and a rejection for the others; the task is approved and the round
  closed on the chosen grade. The chosen grade earns the full rate of its author and the outvoted ones the
  share of the configured rule, or nothing, each rounded to a cent; nobody else's payout changes, and the
  decision returned reports the delivered payout and lists the outvoted grades.
\<close>

theorem adjudication_settles:
  assumes "resolve E tid d reason key actor s = (Inr r, s')" "get_task tid s = Some t"
    "distinct (map g_id (grades s))" "distinct (map g_expert_id (grades_for tid s))"
    "\<And>g. g \<in> set (grades_for tid s) \<Longrightarrow> get_payout (g_id g) s = None"
  shows "d \<in> g_id ` set (grades_for tid s) \<and>
    (\<exists>revs. reviews s' = reviews s @ revs \<and>
       map (\<lambda>rv. (rv_grade_id rv, rv_decision rv, rv_reviewer_key_id rv)) revs =
       map (\<lambda>g. (g_id g, if g_id g = d then Approve else Reject, key)) (grades_for tid s)) \<and>
    map_option t_status (get_task tid s') = Some Approved \<and>
    map_option co_status (get_consensus tid s') = Some Adjudicated \<and>
    map_option co_delivered_grade_id (get_consensus tid s') = Some (Some d) \<and>
    (\<forall>g \<in> set (grades_for tid s). map_option p_amount_cents (get_payout (g_id g) s') = due E d t s g) \<and>
    (\<forall>k. k \<notin> g_id ` set (grades_for tid s) \<longrightarrow> get_payout k s' = get_payout k s) \<and>
    dec_delivered r = get_payout d s' \<and> dec_delivered r \<noteq> None \<and>
    map fst (dec_outvoted r) = filter (\<lambda>g. g_id g \<noteq> d) (grades_for tid s)"
  using assms(1)
proof (cases rule: resolve_cases)
  case (1 row g t' acc s1 now)
  have t': "t' = t" using 1(6) assms(2) by simp
  note ids = distinct_grades_for [OF assms(3), of tid]
  have d: "d \<in> g_id ` set (grades_for tid s)" using 1(3-5) by auto
  have st: "settles d key (grades_for tid s) s s1" by (rule settle_grades_settles [OF 1(7)])
  have post: "payouts s' = payouts s1" "reviews s' = reviews s1"
    "tasks s' = update_row t_id tid (\<lambda>t. t\<lparr>t_status := Approved\<rparr>) (tasks s)"
    and cons: "get_consensus tid s' \<noteq> None \<and> map_option co_status (get_consensus tid s') = Some Adjudicated \<and>
      map_option co_delivered_grade_id (get_consensus tid s') = Some (Some d)"
    using st 1(1,11) by (simp_all add: settles_def core_eq_iff row_of_update_row)
  have due: "map_option p_amount_cents (get_payout (g_id g) s') = due E d t s g" if "g \<in> set (grades_for tid s)" for g
    using settle_grades_due [OF 1(7) ids assms(4) that assms(5) [OF that]] by (simp add: post t')
  have paid: "dec_delivered r = get_payout d s' \<and> dec_delivered r \<noteq> None"
    using settle_grades_delivered(2) [OF 1(7) ids, unfolded if_P [OF d]] by (metis post(1) 1(8))
  have outvoted: "map fst (dec_outvoted r) = filter (\<lambda>g. g_id g \<noteq> d) (grades_for tid s)"
    using settle_grades_delivered(1) [OF 1(7) ids] by (simp add: 1(9))
  have revs: "\<exists>revs. reviews s' = reviews s @ revs \<and>
       map (\<lambda>rv. (rv_grade_id rv, rv_decision rv, rv_reviewer_key_id rv)) revs =
       map (\<lambda>g. (g_id g, if g_id g = d then Approve else Reject, key)) (grades_for tid s)"
    using st unfolding settles_def post by blast
  have others: "\<forall>k. k \<notin> g_id ` set (grades_for tid s) \<longrightarrow> get_payout k s' = get_payout k s"
    using st unfolding settles_def post by blast
  have task: "map_option t_status (get_task tid s') = Some Approved"
    using assms(2) by (simp add: post row_of_update_row)
  show ?thesis using d revs task cons due others paid outvoted by blast
qed

definition sample_split_db :: db where
  "sample_split_db = (sample_round_db 2)\<lparr>consensuses := [sample_consensus 20 Adjudicating None]\<rparr>"

lemma sample_split:
  "get_task 20 sample_split_db = Some (sample_task 20 2 False)"
  "distinct (map g_id (grades sample_split_db))"
  "grades_for 20 sample_split_db = [sample_grade 40 20 4 4, sample_grade 41 20 2 2]"
  "payouts sample_split_db = []"
  by (simp_all add: grades_for_def sample_split_db_def sample_round_db_def sample_defs)

lemma sample_resolve: "\<exists>r s'. resolve sample_env 20 40 ''clear'' 32 ''senior'' sample_split_db = (Inr r, s')"
  by (simp add: resolve_def settle_grade_def new_uuid_def insert_review_def Let_def now_utc_def
      create_for_grade_def rate_for_def get_rate_card_def insert_payout_def outvoted_payout_def update_def score_def
      signals_newest review_signals_def check_signals_def newest_first_def sample_consensus_def py_round_def grades_for_def update_row_def
      sample_split_db_def sample_round_db_def sample_defs)

theorem adjudication_settles_witness:
  "\<exists>r s'. resolve sample_env 20 40 ''clear'' 32 ''senior'' sample_split_db = (Inr r, s') \<and>
     map_option p_amount_cents (get_payout 40 s') = Some 500 \<and>
     map_option p_amount_cents (get_payout 41 s') = Some 150"
proof -
  obtain r s' where r: "resolve sample_env 20 40 ''clear'' 32 ''senior'' sample_split_db = (Inr r, s')"
    using sample_resolve by blast
  have due: "due sample_env 40 (sample_task 20 2 False) sample_split_db (sample_grade 40 20 4 4) = Some 500"
    "due sample_env 40 (sample_task 20 2 False) sample_split_db (sample_grade 41 20 2 2) = Some 150"
    by (simp_all add: due_def share_def rate_of_def rate_for_def get_rate_card_def py_round_def Let_def
      sample_split_db_def sample_round_db_def sample_defs)
  from adjudication_settles [OF r sample_split(1,2)] due r show ?thesis
    unfolding sample_split(3,4) by (auto simp: sample_grade_def sample_split(4))
qed

text \<open>
  An adjudication happens once. After a successful resolution any further attempt, by any key and for
  any grade, is refused with 409 and changes nothing.
\<close>

theorem adjudication_is_final:
  assumes "resolve E tid d reason key actor s = (Inr r, s')"
  shows "resolve E tid d' reason' key' actor' s' = (Inl (ServiceError 409 (ConsensusAlready Adjudicated)), s')"
  using assms
proof (cases rule: resolve_cases)
  case (1 row g t acc s1 now)
  have "consensuses s1 = consensuses s"
    using settle_grades_settles [OF 1(7)] by (simp add: settles_def core_eq_iff)
  then obtain c where "get_consensus tid s' = Some c" "co_status c = Adjudicated"
    using 1(1,11) by (simp add: core_eq_iff row_of_update_row)
  then show ?thesis by (simp add: resolve_def)
qed

theorem adjudication_is_final_witness:
  "\<exists>r s'. resolve sample_env 20 40 ''clear'' 32 ''senior'' sample_split_db = (Inr r, s') \<and>
     resolve sample_env 20 41 ''other'' 32 ''senior'' s' = (Inl (ServiceError 409 (ConsensusAlready Adjudicated)), s')"
proof -
  obtain r s' where "resolve sample_env 20 40 ''clear'' 32 ''senior'' sample_split_db = (Inr r, s')"
    using sample_resolve by blast
  with adjudication_is_final [OF this] show ?thesis by blast
qed

end
