(* ===== verification/Floats.thy ===== *)
theory Floats
  imports Prelude "HOL-Library.Log_Nat"
begin

text \<open>
  Python's floats: a float is the rational it stands for, and an operation returns the exact result rounded to
  binary64, to the nearest float and to the one with the even last bit at a tie, gradual underflow included. Infinities
  and the values that are no numbers are left out: no result here comes near the largest float. The sum of floats is the
  compensated one of Python 3.12.
\<close>

section \<open>Rounding\<close>

text \<open>The exponent of the power of two at or below a number that is not zero.\<close>

definition binade :: "rat \<Rightarrow> int" where
  "binade x = (let (p, q) = quotient_of \<bar>x\<bar>; e = bitlen p - bitlen q in if \<bar>x\<bar> < 2 powi e then e - 1 else e)"

definition last_place :: "rat \<Rightarrow> rat" where
  "last_place x = 2 powi (max (binade x) (- 1022) - 52)"

definition fl :: "rat \<Rightarrow> rat" where
  "fl x = (if x = 0 then 0 else of_int (py_round (x / last_place x)) * last_place x)"

definition float_distance :: "rat \<Rightarrow> rat \<Rightarrow> rat" where
  "float_distance x y = \<bar>fl (x - y)\<bar>"

text \<open>\<open>sum\<close> carries the rounding errors beside the running total and adds them at the end.\<close>

definition sum_step :: "rat \<times> rat \<Rightarrow> rat \<Rightarrow> rat \<times> rat" where
  "sum_step tc x = (case tc of (acc, c) \<Rightarrow>
     let t = fl (acc + x);
         lost = (if \<bar>x\<bar> \<le> \<bar>acc\<bar> then fl (fl (acc - t) + x) else fl (fl (x - t) + acc))
     in (t, fl (c + lost)))"

definition py_sum :: "rat list \<Rightarrow> rat" where
  "py_sum xs = (case foldl sum_step (0, 0) xs of (acc, c) \<Rightarrow> if c = 0 then acc else fl (acc + c))"

section \<open>Lemmas\<close>

lemma powi_pos [simp]: "0 < (2 :: rat) powi e"
  by (simp add: zero_less_power_int)

lemma powi_mono: "a \<le> b \<Longrightarrow> (2 :: rat) powi a \<le> 2 powi b"
  by (rule power_int_increasing) simp_all

lemma powi_less: "(2 :: rat) powi a < 2 powi b \<longleftrightarrow> a < b"
  by (metis linorder_not_less not_less_iff_gr_or_eq order_less_irrefl order_le_less powi_mono power_int_strict_increasing one_less_numeral_iff semiring_norm(76))

lemma bitlen_powi: "0 < p \<Longrightarrow> 2 powi (bitlen p - 1) \<le> (of_int p :: rat) \<and> (of_int p :: rat) < 2 powi bitlen p"
proof -
  assume p: "0 < p"
  have b: "1 \<le> bitlen p" using p bitlen_eq_zero_iff [of p] bitlen_nonneg [of p] by linarith
  have "of_int (2 ^ nat (bitlen p - 1)) \<le> (of_int p :: rat)" "(of_int p :: rat) < of_int (2 ^ nat (bitlen p))"
    unfolding of_int_le_iff of_int_less_iff using bitlen_bounds [OF p] by blast+
  then show ?thesis using b by (simp add: power_int_def)
qed

lemma binade_bounds:
  assumes "x \<noteq> 0"
  shows "2 powi binade x \<le> \<bar>x\<bar>" "\<bar>x\<bar> < 2 powi (binade x + 1)"
proof -
  obtain p q where pq: "quotient_of \<bar>x\<bar> = (p, q)" by fastforce
  have x: "\<bar>x\<bar> = of_int p / of_int q" and q: "0 < q"
    using quotient_of_div [OF pq] quotient_of_denom_pos [OF pq] by simp_all
  have p: "0 < p" using assms x q by (metis of_int_0_less_iff zero_less_abs_iff zero_less_divide_iff not_less_iff_gr_or_eq)
  let ?e = "bitlen p - bitlen q"
  note P = bitlen_powi [OF p] and Q = bitlen_powi [OF q]
  have qpos: "(0 :: rat) < of_int q" using q by simp
  have "2 powi (?e - 1) * of_int q \<le> 2 powi (?e - 1) * (2 :: rat) powi bitlen q" using Q by (intro mult_left_mono) simp_all
  also have "\<dots> = 2 powi (bitlen p - 1)" by (simp flip: power_int_add)
  finally have lo: "2 powi (?e - 1) \<le> \<bar>x\<bar>" unfolding x pos_le_divide_eq [OF qpos] using P by linarith
  have "of_int p < 2 powi (?e + 1) * (2 :: rat) powi (bitlen q - 1)" using P by (simp flip: power_int_add)
  also have "\<dots> \<le> 2 powi (?e + 1) * of_int q" using Q by (intro mult_left_mono) simp_all
  finally have hi: "\<bar>x\<bar> < 2 powi (?e + 1)" unfolding x pos_divide_less_eq [OF qpos] .
  have b: "binade x = (if \<bar>x\<bar> < 2 powi ?e then ?e - 1 else ?e)" by (simp add: binade_def pq)
  show "2 powi binade x \<le> \<bar>x\<bar>" "\<bar>x\<bar> < 2 powi (binade x + 1)" using lo hi by (auto simp: b not_less)
qed

lemma last_place_pos [simp]: "0 < last_place x"
  by (simp add: last_place_def)

lemma last_place_nonzero [simp]: "last_place x \<noteq> 0"
  using last_place_pos [of x] by linarith

text \<open>A whole number of small enough size times a power of two is a float.\<close>

lemma fl_exact:
  assumes "x = of_int n * 2 powi k" "\<bar>n\<bar> < 2 ^ 53" "- 1074 \<le> k"
  shows "fl x = x"
proof (cases "x = 0")
  case False
  let ?e = "max (binade x) (- 1022) - 52"
  have "2 powi binade x \<le> \<bar>of_int n\<bar> * (2 :: rat) powi k" using binade_bounds(1) [OF False] by (simp add: assms(1) abs_mult)
  also have "\<dots> < 2 ^ 53 * 2 powi k"
    using assms(2) by (intro mult_strict_right_mono) (metis of_int_abs of_int_less_iff of_int_numeral of_int_power, simp)
  also have "\<dots> = 2 powi (53 + k)" by (simp add: power_int_add)
  finally have "binade x < 53 + k" by (simp only: powi_less)
  then have e: "?e \<le> k" using assms(3) by linarith
  have "x / last_place x = of_int n * 2 powi (k - ?e)"
    by (simp add: assms(1) last_place_def power_int_diff)
  also have "\<dots> = of_int (n * 2 ^ nat (k - ?e))" using e by (simp add: power_int_def)
  finally have "py_round (x / last_place x) = n * 2 ^ nat (k - ?e)" and
    i: "x / last_place x = of_int (n * 2 ^ nat (k - ?e))" by (simp_all only: py_round_of_int)
  then have "fl x = x / last_place x * last_place x" using False by (simp only: fl_def if_False)
  then show ?thesis by simp
qed (simp add: fl_def)

lemma fl_0 [simp]: "fl 0 = 0"
  by (simp add: fl_def)

lemma fl_last_place: "\<bar>fl x - x\<bar> \<le> last_place x / 2"
proof (cases "x = 0")
  case False
  let ?u = "last_place x" and ?i = "py_round (x / last_place x)"
  have "fl x - x = - (x / ?u - of_int ?i) * ?u"
    using False last_place_pos [of x] by (simp add: fl_def algebra_simps)
  then have "\<bar>fl x - x\<bar> = \<bar>x / ?u - of_int ?i\<bar> * ?u" by (simp add: abs_mult order_less_imp_le)
  also have "\<dots> \<le> 1 / 2 * ?u" by (intro mult_right_mono py_round_error order_less_imp_le last_place_pos)
  finally show ?thesis by simp
qed (simp add: order_less_imp_le)

text \<open>A rounded number is off by at most one part in \<open>2 ^ 53\<close>, one of at most two by at most \<open>2 ^ - 52\<close>.\<close>

lemma fl_error:
  assumes "2 powi (- 1022) \<le> \<bar>x\<bar>"
  shows "\<bar>fl x - x\<bar> \<le> \<bar>x\<bar> / 2 ^ 53"
proof -
  have x: "x \<noteq> 0" using assms powi_pos [of "- 1022"] by (auto simp del: powi_pos)
  have "- 1022 < binade x + 1" using assms binade_bounds(2) [OF x] powi_less by (metis order.strict_trans1)
  then have m: "max (binade x) (- 1022) = binade x" by simp
  have "\<bar>fl x - x\<bar> \<le> last_place x / 2" by (rule fl_last_place)
  also have "\<dots> = 2 powi binade x / 2 ^ 53" by (simp add: last_place_def m power_int_diff)
  also have "\<dots> \<le> \<bar>x\<bar> / 2 ^ 53" using binade_bounds(1) [OF x] by (intro divide_right_mono) simp_all
  finally show ?thesis .
qed

lemma fl_near:
  assumes "\<bar>x\<bar> \<le> 2"
  shows "\<bar>fl x - x\<bar> \<le> 1 / 2 ^ 52"
proof (cases "x = 0")
  case False
  have "2 powi binade x \<le> (2 :: rat) powi 1" using binade_bounds(1) [OF False] assms by simp
  then have "binade x \<le> 1" using powi_less [of 1 "binade x"] by linarith
  then have "last_place x \<le> 2 powi (- 51)" unfolding last_place_def by (intro powi_mono) simp
  then have "last_place x / 2 \<le> 1 / 2 ^ 52" by (simp add: power_int_minus)
  then show ?thesis using fl_last_place order_trans by blast
qed simp

text \<open>Sums of halves lose nothing.\<close>

definition half :: "rat \<Rightarrow> bool" where
  "half x \<longleftrightarrow> (\<exists>n. x = of_int n / 2 \<and> \<bar>n\<bar> < 2 ^ 53)"

lemma fl_half: "half x \<Longrightarrow> fl x = x"
  by (auto simp: half_def power_int_minus intro!: fl_exact [of _ _ "- 1"])

lemma halfI: "\<bar>n\<bar> < 2 ^ 53 \<Longrightarrow> half (of_int n / 2)"
  unfolding half_def by blast

lemma half_minus: "half x \<Longrightarrow> half (- x)"
  unfolding half_def by (metis abs_minus_cancel minus_divide_left of_int_minus)

lemma sum_step_half: "half acc \<Longrightarrow> half x \<Longrightarrow> half (acc + x) \<Longrightarrow> sum_step (acc, 0) x = (acc + x, 0)"
proof -
  assume h: "half acc" "half x" "half (acc + x)"
  then show ?thesis using half_minus [OF h(1)] half_minus [OF h(2)] by (simp add: sum_step_def Let_def fl_half)
qed

lemma sum_steps_half:
  "0 \<le> m \<Longrightarrow> \<forall>n \<in> set ns. 0 \<le> n \<Longrightarrow> m + sum_list ns < 2 ^ 53 \<Longrightarrow>
     foldl sum_step (of_int m / 2, 0) (map (\<lambda>n. of_int n / 2) ns) = (of_int (m + sum_list ns) / 2, 0)"
proof (induction ns arbitrary: m)
  case (Cons n ns)
  have "0 \<le> sum_list ns" using Cons.prems(2) by (intro sum_list_nonneg) auto
  then have h: "half (of_int m / 2)" "half (of_int n / 2)" "half (of_int (m + n) / 2)"
    using Cons.prems by (auto intro!: halfI simp del: of_int_add)
  have "sum_step (of_int m / 2, 0) (of_int n / 2) = (of_int (m + n) / 2, 0)"
    using sum_step_half [OF h(1,2)] h(3) by (simp add: add_divide_distrib)
  then show ?case using Cons.IH [of "m + n"] Cons.prems by (simp add: add.assoc)
qed simp

lemma py_sum_halves:
  assumes "\<forall>n \<in> set ns. 0 \<le> n" "sum_list ns < 2 ^ 53"
  shows "py_sum (map (\<lambda>n. of_int n / 2) ns) = of_int (sum_list ns) / 2"
  using sum_steps_half [of 0 ns] assms by (simp add: py_sum_def)

end
