(* ===== verification/Grading.thy ===== *)
theory Grading
  imports Consensus Floats
begin

text \<open>
  \<open>panelist/services/grading.py\<close>: the submission of a grade against the pinned rubric, the status the
  task takes, and the decision of a reviewer on a grade.
\<close>

section \<open>Submission\<close>

definition pinned_rubric :: "task \<Rightarrow> db \<Rightarrow> rubric option" where
  "pinned_rubric t s =
    (case (case t_pinned_rubric_id t of None \<Rightarrow> None | Some rid \<Rightarrow> get_rubric rid s) of
       Some r \<Rightarrow> Some r
     | None \<Rightarrow> get_rubric (t_rubric_id t) s)"

definition pin_conflict :: "rubric option \<Rightarrow> rubric \<Rightarrow> detail" where
  "pin_conflict given pinned = (case given of
     None \<Rightarrow> UnknownRubricPinned (r_version pinned)
   | Some g \<Rightarrow> if r_superseded_at g \<noteq> None then RubricVersionSuperseded (r_version g) (r_version pinned)
               else RubricVersionNotPinned (r_version g) (r_version pinned))"

definition by_key :: "rubric \<Rightarrow> string \<Rightarrow> criterion option" where
  "by_key r = map_of (map (\<lambda>c. (c_key c, c)) (rev (r_criteria r)))"

definition keys_missing :: "string list \<Rightarrow> string list \<Rightarrow> string list" where
  "keys_missing wanted given = sort (remdups (filter (\<lambda>k. k \<notin> set given) wanted))"

fun scale_error :: "rubric \<Rightarrow> (string \<times> rat) list \<Rightarrow> detail option" where
  "scale_error r [] = None"
| "scale_error r ((key, v) # rest) =
    (case by_key r key of
       None \<Rightarrow> scale_error r rest
     | Some c \<Rightarrow>
        if of_int (c_scale_min c) \<le> v \<and> v \<le> of_int (c_scale_max c) then scale_error r rest
        else Some (ScoreOutOfScale key (c_scale_min c) (c_scale_max c)))"

definition check_scores :: "rubric \<Rightarrow> (string \<times> rat) list \<Rightarrow> detail option" where
  "check_scores r scores =
    (let missing = keys_missing (map c_key (r_criteria r)) (map fst scores);
         unknown = keys_missing (map fst scores) (map c_key (r_criteria r))
     in if missing \<noteq> [] \<or> unknown \<noteq> [] then Some (ScoresMismatch missing unknown)
        else scale_error r scores)"

definition weighted_score :: "rubric \<Rightarrow> (string \<times> rat) list \<Rightarrow> rat" where
  "weighted_score r scores =
    (let summed = py_sum (map c_weight (r_criteria r));
         total_weight = (if summed = 0 then 1 else summed)
     in fl (py_sum (map (\<lambda>c. fl (snapshot_get scores (c_key c) * c_weight c)) (r_criteria r)) / total_weight))"

definition graded :: "task \<Rightarrow> task" where
  "graded t = t\<lparr>t_grades_received := t_grades_received t + 1, t_assigned_expert_id := None,
     t_assigned_at := None, t_lease_expires_at := None,
     t_status := (if t_is_attention_check t \<or> t_grades_received t + 1 < t_required_grades t
                  then Queued else Submitted)\<rparr>"

text \<open>
  The aftermath of a grade on a golden task: the check, the pause if it failed, and the calibration update.
\<close>

definition aftermath :: "env \<Rightarrow> uuid \<Rightarrow> task \<Rightarrow> grade \<Rightarrow> db \<Rightarrow> unit outcome" where
  "aftermath E eid t g s =
    and_then (evaluate_check E t g s) (\<lambda>result s6.
      case result of
        None \<Rightarrow> (Inr (), s6)
      | Some a \<Rightarrow>
         and_then (if ar_passed a then (Inr False, s6) else enforce E eid s6) (\<lambda>_ s7.
         and_then (update E eid ''system'' s7) (\<lambda>_ s8. (Inr (), s8))))"

definition grade_of :: "env \<Rightarrow> uuid \<Rightarrow> uuid \<Rightarrow> (string \<times> rat) list \<Rightarrow> string \<Rightarrow> int \<Rightarrow> rubric \<Rightarrow> db \<Rightarrow> grade" where
  "grade_of E eid tid scores rationale time_spent r s =
     \<lparr>g_id = uuid4 E (uuid_pos s), g_task_id = tid, g_expert_id = eid, g_rubric_id = r_id r,
      g_scores_snapshot = scores, g_rationale = rationale, g_time_spent_seconds = time_spent,
      g_weighted_score = weighted_score r scores, g_submitted_at = tx_now s,
      g_scores = map (\<lambda>(k, v). \<lparr>gs_criterion_id = (case by_key r k of None \<Rightarrow> 0 | Some c \<Rightarrow> c_id c), gs_score = v\<rparr>) scores\<rparr>"

definition submit ::
  "env \<Rightarrow> uuid \<Rightarrow> uuid \<Rightarrow> (string \<times> rat) list \<Rightarrow> string \<Rightarrow> int \<Rightarrow> uuid option \<Rightarrow> db \<Rightarrow> grade outcome" where
  "submit E eid tid scores rationale time_spent rubric_id s =
    (case get_task tid s of
       None \<Rightarrow> (Inl (ServiceError 404 TaskNotFound), s)
     | Some t \<Rightarrow>
        if t_status t \<noteq> Assigned \<or> t_assigned_expert_id t \<noteq> Some eid
        then (Inl (ServiceError 409 TaskNotAssignedToExpert), s)
        else the_row ''rubric'' (pinned_rubric t s) (\<lambda>r s.
          case (case rubric_id of
                  None \<Rightarrow> None
                | Some rid \<Rightarrow> if rid \<noteq> r_id r then Some (pin_conflict (get_rubric rid s) r) else None) of
            Some d \<Rightarrow> (Inl (ServiceError 409 d), s)
          | None \<Rightarrow>
             (case check_scores r scores of
                Some d \<Rightarrow> (Inl (ServiceError 422 d), s)
              | None \<Rightarrow>
                 (let g = grade_of E eid tid scores rationale time_spent r s;
                      (gid, s1) = new_uuid E s
                  in and_then (insert_grade g s1) (\<lambda>_ s2.
                     let s3 = modify_task tid graded (emit GRADES s2) in
                     and_then (if t_status (graded t) = Queued then (Inr None, s3) else evaluate E tid s3) (\<lambda>_ s4.
                     and_then (aftermath E eid t g
                         (record_event (''expert:'' @ str_uuid eid) ''grade.submitted'' ''grade'' (str_uuid gid) [] s4))
                       (\<lambda>_ s5. (Inr g, s5))))))) s)"

section \<open>Review\<close>

definition rejections :: "uuid \<Rightarrow> db \<Rightarrow> int" where
  "rejections tid s = row_count (\<lambda>r. rv_decision r = Reject \<and>
     (case get_grade (rv_grade_id r) s of None \<Rightarrow> False | Some g \<Rightarrow> g_task_id g = tid)) (reviews s)"

definition reject_if_consensus_pending :: "task \<Rightarrow> detail option" where
  "reject_if_consensus_pending t =
    (if t_is_attention_check t \<or> t_required_grades t < 2 then None
     else if t_grades_received t < t_required_grades t then Some (WaitingForGrades (t_required_grades t))
     else if t_status t = Adjudication then Some AwaitingAdjudication
     else None)"

definition requeued :: "task \<Rightarrow> task" where
  "requeued t = t\<lparr>t_status := Queued, t_grades_received := max 0 (t_grades_received t - 1)\<rparr>"

definition requeue :: "uuid \<Rightarrow> grade \<Rightarrow> string \<Rightarrow> db \<Rightarrow> db" where
  "requeue tid rejected actor s =
    (let s1 = modify_task tid requeued s
     in record_event actor ''task.requeued'' ''task'' (str_uuid tid)
          [(''rejected_grade_id'', JStr (str_uuid (g_id rejected))), (''rejections'', JInt (rejections tid s1))] s1)"

definition settle_status :: "uuid \<Rightarrow> task \<Rightarrow> grade \<Rightarrow> review_decision \<Rightarrow> string \<Rightarrow> db \<Rightarrow> db" where
  "settle_status tid t g d actor s =
    (if t_is_attention_check t then s
     else if d = Approve then modify_task tid (\<lambda>t. t\<lparr>t_status := Approved\<rparr>) s
     else if t_required_grades t = 1 then requeue tid g actor s
     else if t_status t \<noteq> Approved then modify_task tid (\<lambda>t. t\<lparr>t_status := Rejected\<rparr>) s
     else s)"

definition review_grade ::
  "env \<Rightarrow> uuid \<Rightarrow> uuid \<Rightarrow> review_decision \<Rightarrow> string option \<Rightarrow> string \<Rightarrow> db \<Rightarrow> (review \<times> payout option) outcome" where
  "review_grade E key gid d reason actor s =
    (case get_grade gid s of
       None \<Rightarrow> (Inl (ServiceError 404 GradeNotFound), s)
     | Some g \<Rightarrow>
        if get_review gid s \<noteq> None then (Inl (ServiceError 409 GradeAlreadyReviewed), s)
        else the_row ''grade.task'' (get_task (g_task_id g) s) (\<lambda>t s.
          case reject_if_consensus_pending t of
            Some e \<Rightarrow> (Inl (ServiceError 409 e), s)
          | None \<Rightarrow>
             (let (rid, s1) = new_uuid E s;
                  rv = \<lparr>rv_id = rid, rv_grade_id = gid, rv_reviewer_key_id = key, rv_decision = d,
                        rv_reason = reason, rv_created_at = tx_now s1\<rparr>
              in and_then (insert_review rv s1) (\<lambda>_ s2.
                 and_then (if d = Approve then and_then (create_for_grade E g t actor 1 s2) (\<lambda>p s3. (Inr (Some p), s3))
                           else (Inr None, s2)) (\<lambda>p s3.
                 let s4 = settle_status (t_id t) t g d actor s3;
                     s5 = (if d = Reject then snd (redeliver (t_id t) g actor s4) else s4);
                     s6 = record_event actor (''grade.'' @ review_decision_value d) ''grade'' (str_uuid gid)
                            [(''reason'', case reason of None \<Rightarrow> JNull | Some x \<Rightarrow> JStr x)] s5
                 in and_then (update E (g_expert_id g) actor s6) (\<lambda>_ s7. (Inr (rv, p), s7)))))) s)"

section \<open>What the operations do\<close>

lemma graded_simps [simp]:
  "t_id (graded t) = t_id t" "t_seq (graded t) = t_seq t" "t_grades_received (graded t) = t_grades_received t + 1"
  "t_assigned_expert_id (graded t) = None" "t_assigned_at (graded t) = None" "t_lease_expires_at (graded t) = None"
  "t_rubric_id (graded t) = t_rubric_id t" "t_required_grades (graded t) = t_required_grades t"
  "t_is_attention_check (graded t) = t_is_attention_check t" "t_pinned_rubric_id (graded t) = t_pinned_rubric_id t"
  "t_status (graded t) = (if t_is_attention_check t \<or> t_grades_received t + 1 < t_required_grades t then Queued else Submitted)"
  "t_expected_scores (graded t) = t_expected_scores t"
  by (simp_all add: graded_def)

lemma requeued_simps [simp]:
  "t_id (requeued t) = t_id t" "t_seq (requeued t) = t_seq t" "t_status (requeued t) = Queued"
  "t_grades_received (requeued t) = max 0 (t_grades_received t - 1)" "t_rubric_id (requeued t) = t_rubric_id t"
  "t_assigned_expert_id (requeued t) = t_assigned_expert_id t" "t_assigned_at (requeued t) = t_assigned_at t"
  "t_lease_expires_at (requeued t) = t_lease_expires_at t" "t_required_grades (requeued t) = t_required_grades t"
  "t_is_attention_check (requeued t) = t_is_attention_check t" "t_pinned_rubric_id (requeued t) = t_pinned_rubric_id t"
  by (simp_all add: requeued_def)

lemma aftermath_cases:
  assumes "aftermath E eid t g s = (Inr u, s')"
  obtains (regular) "s' = s" "\<not> t_is_attention_check t \<or> t_expected_scores t \<in> {None, Some []}"
  | (checked) a s1 s2 b c where "evaluate_check E t g s = (Inr (Some a), s1)" "t_is_attention_check t"
      "if ar_passed a then s2 = s1 else enforce E eid s1 = (Inr b, s2)" "update E eid ''system'' s2 = (Inr c, s')"
proof -
  from assms obtain r s1 where r: "evaluate_check E t g s = (Inr r, s1)" by (auto simp: aftermath_def result_simps)
  show thesis
  proof (cases r)
    case None
    with r have "s1 = s \<and> (\<not> t_is_attention_check t \<or> t_expected_scores t \<in> {None, Some []})"
      by (auto elim: evaluate_check_cases)
    moreover have "s' = s1" using assms r None by (simp add: aftermath_def)
    ultimately show thesis using regular by blast
  next
    case (Some a)
    then have t: "t_is_attention_check t" using r by (auto elim: evaluate_check_cases)
    show thesis
    proof (cases "ar_passed a")
      case True
      then obtain c where "update E eid ''system'' s1 = (Inr c, s')"
        using assms r Some by (auto simp: aftermath_def result_simps)
      with True r Some t show thesis by (intro checked [of a s1 s1 undefined c]) simp_all
    next
      case False
      then obtain b s2 c where "enforce E eid s1 = (Inr b, s2)" "update E eid ''system'' s2 = (Inr c, s')"
        using assms r Some by (auto simp: aftermath_def result_simps)
      with False r Some t show thesis by (intro checked [of a s1 s2 b c]) simp_all
    qed
  qed
qed

lemma aftermath_frame:
  assumes "aftermath E eid t g s = (Inr u, s')"
  shows "core (s'\<lparr>experts := experts s, tier_changes := tier_changes s, payouts := payouts s,
      attention_results := attention_results s\<rparr>) = core s" "trail_step s s'"
    "map e_id (experts s') = map e_id (experts s)"
proof -
  have "core (s'\<lparr>experts := experts s, tier_changes := tier_changes s, payouts := payouts s,
      attention_results := attention_results s\<rparr>) = core s \<and> trail_step s s' \<and> map e_id (experts s') = map e_id (experts s)"
    using assms
  proof (cases rule: aftermath_cases)
    case (checked a s1 s2 b c)
    note F1 = evaluate_check_frame [OF checked(1)]
    have F2: "core (s2\<lparr>payouts := payouts s1, experts := experts s1\<rparr>) = core s1 \<and> trail_step s1 s2 \<and>
        map e_id (experts s2) = map e_id (experts s1)"
    proof (cases "ar_passed a")
      case False
      then have en: "enforce E eid s1 = (Inr b, s2)" using checked(3) by simp
      have "map e_id (experts s2) = map e_id (experts s1)"
        using arg_cong [OF enforce_frame(3) [OF en], of "map e_id"] by (simp add: comp_def)
      then show ?thesis using enforce_frame(1,2) [OF en] by blast
    qed (use checked(3) in simp)
    note F3 = update_frame [OF checked(4)]
    have "map e_id (experts s') = map e_id (experts s2)"
      using arg_cong [OF F3(3), of "map e_id"] by (simp add: comp_def)
    moreover have "trail_step s s'" using F1(2) F2 F3(2) trail_step_trans by blast
    moreover have "core (s'\<lparr>experts := experts s, tier_changes := tier_changes s, payouts := payouts s,
      attention_results := attention_results s\<rparr>) = core s"
      using F1(1) conjunct1 [OF F2] F3(1) by (simp add: core_eq_iff)
    moreover have "experts s1 = experts s" using F1(1) by (simp add: core_eq_iff)
    ultimately show ?thesis using F2 by simp
  qed simp
  then show "core (s'\<lparr>experts := experts s, tier_changes := tier_changes s, payouts := payouts s,
      attention_results := attention_results s\<rparr>) = core s" "trail_step s s'" "map e_id (experts s') = map e_id (experts s)"
    by blast+
qed

lemma submit_run:
  assumes "get_task tid s = Some t" "t_status t = Assigned" "t_assigned_expert_id t = Some eid"
    "pinned_rubric t s = Some r" "rubric_id = None \<or> rubric_id = Some (r_id r)" "check_scores r scores = None"
  shows "submit E eid tid scores rationale time_spent rubric_id s =
    and_then (insert_grade (grade_of E eid tid scores rationale time_spent r s) (s\<lparr>uuid_pos := Suc (uuid_pos s)\<rparr>)) (\<lambda>_ s2.
      let s3 = modify_task tid graded (emit GRADES s2) in
      and_then (if t_status (graded t) = Queued then (Inr None, s3) else evaluate E tid s3) (\<lambda>_ s4.
        and_then (aftermath E eid t (grade_of E eid tid scores rationale time_spent r s)
            (record_event (''expert:'' @ str_uuid eid) ''grade.submitted'' ''grade'' (str_uuid (uuid4 E (uuid_pos s))) [] s4))
          (\<lambda>_ s'. (Inr (grade_of E eid tid scores rationale time_spent r s), s'))))"
proof -
  have rid: "(case rubric_id of None \<Rightarrow> None | Some rid \<Rightarrow> if rid \<noteq> r_id r then Some (pin_conflict (get_rubric rid s) r) else None) = None"
    using assms(5) by auto
  show ?thesis
    unfolding submit_def Let_def new_uuid_def assms(1,4) option.case(2) the_row_simps rid option.case(1) assms(6)
    using assms(2,3) by simp
qed

lemma grade_of_simps [simp]:
  "g_id (grade_of E eid tid sc ra ti r s) = uuid4 E (uuid_pos s)" "g_task_id (grade_of E eid tid sc ra ti r s) = tid"
  "g_expert_id (grade_of E eid tid sc ra ti r s) = eid" "g_rubric_id (grade_of E eid tid sc ra ti r s) = r_id r"
  "g_scores_snapshot (grade_of E eid tid sc ra ti r s) = sc"
  "g_weighted_score (grade_of E eid tid sc ra ti r s) = weighted_score r sc"
  "g_submitted_at (grade_of E eid tid sc ra ti r s) = tx_now s"
  by (simp_all add: grade_of_def)

lemma submit_cases:
  assumes "submit E eid tid scores rationale time_spent rubric_id s = (Inr g, s')"
  obtains t r s3 c s4 s5 where "get_task tid s = Some t" "t_status t = Assigned" "t_assigned_expert_id t = Some eid"
      "pinned_rubric t s = Some r" "rubric_id = None \<or> rubric_id = Some (r_id r)" "check_scores r scores = None"
      "g = grade_of E eid tid scores rationale time_spent r s" "g_id g \<notin> g_id ` set (grades s)"
      "\<forall>g' \<in> set (grades s). \<not> (g_task_id g' = tid \<and> g_expert_id g' = eid)" "eid \<in> e_id ` set (experts s)"
      "core s3 = core (modify_task tid graded (s\<lparr>grades := grades s @ [g]\<rparr>))" "trail_step s s3"
      "if t_status (graded t) = Queued then c = None \<and> s4 = s3 else evaluate E tid s3 = (Inr c, s4)"
      "core s5 = core s4" "trail_step s4 s5" "aftermath E eid t g s5 = (Inr (), s')"
proof -
  obtain t where t: "get_task tid s = Some t" "t_status t = Assigned" "t_assigned_expert_id t = Some eid"
    using assms by (auto simp: submit_def split: option.splits if_splits)
  obtain r where r: "pinned_rubric t s = Some r" using assms t by (auto simp: submit_def result_simps)
  have rid: "rubric_id = None \<or> rubric_id = Some (r_id r)"
    using assms t r by (auto simp: submit_def split: option.splits if_splits)
  have chk: "check_scores r scores = None"
    using assms t r rid by (auto simp: submit_def split: option.splits if_splits)
  let ?g = "grade_of E eid tid scores rationale time_spent r s"
  let ?s2 = "s\<lparr>uuid_pos := Suc (uuid_pos s), grades := grades s @ [?g]\<rparr>"
  let ?s3 = "modify_task tid graded (emit GRADES ?s2)"
  note run = submit_run [OF t r rid chk, of E rationale time_spent]
  have ins: "insert_grade ?g (s\<lparr>uuid_pos := Suc (uuid_pos s)\<rparr>) = (Inr x, s2) \<longleftrightarrow>
      g_id ?g \<notin> g_id ` set (grades s) \<and> (\<forall>g' \<in> set (grades s). \<not> (g_task_id g' = tid \<and> g_expert_id g' = eid)) \<and>
      tid \<in> t_id ` set (tasks s) \<and> eid \<in> e_id ` set (experts s) \<and> r_id r \<in> r_id ` set (rubrics s) \<and> s2 = ?s2" for x s2
    by (simp add: insert_grade_def result_simps)
  from assms [unfolded run and_then_returns Let_def] obtain x s1 c s4 u s5 where
    a: "insert_grade ?g (s\<lparr>uuid_pos := Suc (uuid_pos s)\<rparr>) = (Inr x, s1)"
    and b: "(if t_status (graded t) = Queued then (Inr None, modify_task tid graded (emit GRADES s1))
        else evaluate E tid (modify_task tid graded (emit GRADES s1))) = (Inr c, s4)"
    and c: "aftermath E eid t ?g (record_event (''expert:'' @ str_uuid eid) ''grade.submitted'' ''grade''
        (str_uuid (uuid4 E (uuid_pos s))) [] s4) = (Inr u, s5)"
    and d: "(Inr ?g, s5) = (Inr g :: error + grade, s')"
    by (elim exE conjE) (rule that)
  note a' = a [unfolded ins]
  have g: "g = ?g" "g_id ?g \<notin> g_id ` set (grades s)"
      "\<forall>g' \<in> set (grades s). \<not> (g_task_id g' = tid \<and> g_expert_id g' = eid)" "eid \<in> e_id ` set (experts s)"
    subgoal using d by simp
    subgoal using a' by blast
    subgoal using a' by blast
    subgoal using a' by blast
    done
  have s1: "s1 = ?s2" using a' by blast
  have ev: "(if t_status (graded t) = Queued then (Inr None, ?s3) else evaluate E tid ?s3) = (Inr c, s4)"
    using b unfolding s1 .
  have "u = ()" "s5 = s'" using d by simp_all
  then have af: "aftermath E eid t ?g (record_event (''expert:'' @ str_uuid eid) ''grade.submitted'' ''grade''
        (str_uuid (uuid4 E (uuid_pos s))) [] s4) = (Inr (), s')"
    using c by simp
  have core3: "core ?s3 = core (modify_task tid graded (s\<lparr>grades := grades s @ [?g]\<rparr>))"
    by (simp add: core_eq_iff)
  have trail3: "trail_step s ?s3" by (rule trail_step_same) simp_all
  have ev': "if t_status (graded t) = Queued then c = None \<and> s4 = ?s3 else evaluate E tid ?s3 = (Inr c, s4)"
    using ev by (cases "t_status (graded t) = Queued") (simp_all only: if_True if_False simp_thms prod.inject sum.inject)
  show thesis
    by (rule that [OF t r rid chk g(1) _ g(3,4) _ trail3 ev' _ _ af [folded g(1)]])
      (use g(1,2) core3 in simp_all)
qed

lemma evaluate_frame:
  assumes "evaluate E tid s = (Inr r, s')"
  shows "core (s'\<lparr>consensuses := consensuses s, tasks := tasks s\<rparr>) = core s" "trail_step s s'"
    "map t_id (tasks s') = map t_id (tasks s)" "map t_seq (tasks s') = map t_seq (tasks s)"
  using assms by (cases rule: evaluate_cases; simp add: core_eq_iff map_update_row)+

lemma submit_frame:
  assumes "submit E eid tid scores rationale time_spent rubric_id s = (Inr g, s')"
  shows "core (s'\<lparr>grades := grades s, tasks := tasks s, consensuses := consensuses s, experts := experts s,
      tier_changes := tier_changes s, payouts := payouts s, attention_results := attention_results s\<rparr>) = core s"
    "trail_step s s'" "grades s' = grades s @ [g]" "map e_id (experts s') = map e_id (experts s)"
    "map t_id (tasks s') = map t_id (tasks s)" "map t_seq (tasks s') = map t_seq (tasks s)"
proof -
  have "core (s'\<lparr>grades := grades s, tasks := tasks s, consensuses := consensuses s, experts := experts s,
      tier_changes := tier_changes s, payouts := payouts s, attention_results := attention_results s\<rparr>) = core s \<and>
    trail_step s s' \<and> grades s' = grades s @ [g] \<and> map e_id (experts s') = map e_id (experts s) \<and>
    map t_id (tasks s') = map t_id (tasks s) \<and> map t_seq (tasks s') = map t_seq (tasks s)"
    using assms
  proof (cases rule: submit_cases)
    case (1 t r s3 c s4 s5)
    have ids3: "map t_id (tasks s3) = map t_id (tasks s)" "map t_seq (tasks s3) = map t_seq (tasks s)"
      using 1(11) by (simp_all add: core_eq_iff map_update_row)
    have E4: "core (s4\<lparr>consensuses := consensuses s3, tasks := tasks s3\<rparr>) = core s3 \<and> trail_step s3 s4 \<and>
        map t_id (tasks s4) = map t_id (tasks s3) \<and> map t_seq (tasks s4) = map t_seq (tasks s3)"
    proof (cases "t_status (graded t) = Queued")
      case False
      then have "evaluate E tid s3 = (Inr c, s4)" using 1(13) by simp
      then show ?thesis using evaluate_frame by blast
    qed (use 1(13) in simp)
    note A = aftermath_frame [OF 1(16)]
    have "trail_step s s'" using 1(12,15) E4 A(2) trail_step_trans by blast
    moreover have "core (s'\<lparr>grades := grades s, tasks := tasks s, consensuses := consensuses s, experts := experts s,
        tier_changes := tier_changes s, payouts := payouts s, attention_results := attention_results s\<rparr>) = core s"
      using 1(11,14) conjunct1 [OF E4] A(1) by (simp add: core_eq_iff)
    moreover have "grades s' = grades s @ [g]" "tasks s' = tasks s4" "experts s5 = experts s"
      using 1(11,14) conjunct1 [OF E4] A(1) by (simp_all add: core_eq_iff)
    ultimately show ?thesis using A(3) E4 ids3 by simp
  qed
  then show "core (s'\<lparr>grades := grades s, tasks := tasks s, consensuses := consensuses s, experts := experts s,
      tier_changes := tier_changes s, payouts := payouts s, attention_results := attention_results s\<rparr>) = core s"
    "trail_step s s'" "grades s' = grades s @ [g]" "map e_id (experts s') = map e_id (experts s)"
    "map t_id (tasks s') = map t_id (tasks s)" "map t_seq (tasks s') = map t_seq (tasks s)" by blast+
qed

definition settled_task :: "grade \<Rightarrow> review_decision \<Rightarrow> task \<Rightarrow> task" where
  "settled_task g d t =
    (if t_is_attention_check t then t
     else if d = Approve then t\<lparr>t_status := Approved\<rparr>
     else if t_required_grades t = 1 then requeued t
     else if t_status t \<noteq> Approved then t\<lparr>t_status := Rejected\<rparr> else t)"

lemma settled_task_simps [simp]:
  "t_id (settled_task g d t) = t_id t" "t_seq (settled_task g d t) = t_seq t"
  "t_is_attention_check (settled_task g d t) = t_is_attention_check t"
  "t_required_grades (settled_task g d t) = t_required_grades t"
  by (simp_all add: settled_task_def)

lemma settle_status_frame:
  "core ((settle_status tid t g d actor s)\<lparr>tasks := tasks s\<rparr>) = core s"
  "trail_step s (settle_status tid t g d actor s)"
  "map t_id (tasks (settle_status tid t g d actor s)) = map t_id (tasks s)"
  "map t_seq (tasks (settle_status tid t g d actor s)) = map t_seq (tasks s)"
  by (auto simp: settle_status_def requeue_def Let_def core_eq_iff map_update_row
      intro!: trail_step_record_event trail_step_same)

lemma settle_status_tasks:
  assumes "distinct (map t_id (tasks s))" "t \<in> set (tasks s)"
  shows "tasks (settle_status (t_id t) t g d actor s) = update_row t_id (t_id t) (settled_task g d) (tasks s)"
proof -
  have same: "u = t" if "u \<in> set (tasks s)" "t_id u = t_id t" for u
    using that assms by (metis distinct_map inj_onD)
  have const: "update_row t_id (t_id t) f (tasks s) = update_row t_id (t_id t) (\<lambda>_. f t) (tasks s)" for f
    using same by (auto simp: update_row_def)
  have keep: "update_row t_id (t_id t) (\<lambda>_. t) (tasks s) = tasks s"
    unfolding update_row_def by (rule map_idI) (simp, metis same)
  show ?thesis
    unfolding const [of "settled_task g d"]
    by (cases "t_is_attention_check t"; cases d; cases "t_required_grades t = 1"; cases "t_status t = Approved")
      (simp_all add: settle_status_def settled_task_def requeue_def Let_def keep const [of "\<lambda>t. t\<lparr>t_status := Approved\<rparr>"]
        const [of "\<lambda>t. t\<lparr>t_status := Rejected\<rparr>"] const [of requeued])
qed

lemma redeliver_frame:
  assumes "redeliver tid rejected actor s = (r, s')"
  shows "core (s'\<lparr>consensuses := consensuses s\<rparr>) = core s" "trail_step s s'"
  using assms by (cases rule: redeliver_cases; simp add: core_eq_iff)+

lemma review_cases:
  assumes "review_grade E key gid d reason actor s = (Inr (rv, p), s')"
  obtains g t s2 s3 s4 s5 s6 c where "get_grade gid s = Some g" "get_review gid s = None"
      "get_task (g_task_id g) s = Some t" "reject_if_consensus_pending t = None"
      "rv_grade_id rv = gid" "rv_decision rv = d" "rv_reviewer_key_id rv = key" "rv_created_at rv = tx_now s"
      "rv_id rv \<notin> rv_id ` set (reviews s)" "gid \<notin> rv_grade_id ` set (reviews s)" "key \<in> k_id ` set (api_keys s)"
      "core s2 = core (s\<lparr>reviews := reviews s @ [rv]\<rparr>)" "trail_step s s2"
      "if d = Approve then (\<exists>q. p = Some q \<and> create_for_grade E g t actor 1 s2 = (Inr q, s3)) else p = None \<and> s3 = s2"
      "s4 = settle_status (t_id t) t g d actor s3"
      "if d = Reject then (\<exists>r. redeliver (t_id t) g actor s4 = (r, s5)) else s5 = s4"
      "core s6 = core s5" "trail_step s5 s6" "update E (g_expert_id g) actor s6 = (Inr c, s')"
proof -
  obtain g where g: "get_grade gid s = Some g" using assms by (auto simp: review_grade_def split: option.splits)
  have nr: "get_review gid s = None" using assms g by (auto simp: review_grade_def split: if_splits)
  obtain t where t: "get_task (g_task_id g) s = Some t" using assms g nr by (auto simp: review_grade_def result_simps)
  have ok: "reject_if_consensus_pending t = None" using assms g nr t by (auto simp: review_grade_def split: option.splits)
  let ?rv = "\<lparr>rv_id = uuid4 E (uuid_pos s), rv_grade_id = gid, rv_reviewer_key_id = key, rv_decision = d,
                        rv_reason = reason, rv_created_at = tx_now s\<rparr>"
  let ?s2 = "s\<lparr>uuid_pos := Suc (uuid_pos s), reviews := reviews s @ [?rv]\<rparr>"
  have ins: "insert_review ?rv (s\<lparr>uuid_pos := Suc (uuid_pos s)\<rparr>) = (Inr x, s2) \<longleftrightarrow>
      uuid4 E (uuid_pos s) \<notin> rv_id ` set (reviews s) \<and> gid \<notin> rv_grade_id ` set (reviews s) \<and>
      gid \<in> g_id ` set (grades s) \<and> key \<in> k_id ` set (api_keys s) \<and> s2 = ?s2" for x s2
    by (simp add: insert_review_def result_simps)
  have "and_then (insert_review ?rv (s\<lparr>uuid_pos := Suc (uuid_pos s)\<rparr>)) (\<lambda>_ s2.
      and_then (if d = Approve then and_then (create_for_grade E g t actor 1 s2) (\<lambda>p s3. (Inr (Some p), s3))
                else (Inr None, s2)) (\<lambda>p s3.
        and_then (update E (g_expert_id g) actor
            (record_event actor (''grade.'' @ review_decision_value d) ''grade'' (str_uuid gid)
              [(''reason'', case reason of None \<Rightarrow> JNull | Some x \<Rightarrow> JStr x)]
              (if d = Reject then snd (redeliver (t_id t) g actor (settle_status (t_id t) t g d actor s3))
               else settle_status (t_id t) t g d actor s3)))
          (\<lambda>_ s7. (Inr (?rv, p), s7)))) = (Inr (rv, p), s')"
    using assms nr ok by (simp add: review_grade_def g t new_uuid_def Let_def)
  then obtain x s1 q s3 c s7 where
    a: "insert_review ?rv (s\<lparr>uuid_pos := Suc (uuid_pos s)\<rparr>) = (Inr x, s1)"
    and b: "(if d = Approve then and_then (create_for_grade E g t actor 1 s1) (\<lambda>p s3. (Inr (Some p), s3))
                else (Inr None, s1)) = (Inr q, s3)"
    and c: "update E (g_expert_id g) actor
            (record_event actor (''grade.'' @ review_decision_value d) ''grade'' (str_uuid gid)
              [(''reason'', case reason of None \<Rightarrow> JNull | Some x \<Rightarrow> JStr x)]
              (if d = Reject then snd (redeliver (t_id t) g actor (settle_status (t_id t) t g d actor s3))
               else settle_status (t_id t) t g d actor s3)) = (Inr c, s7)"
    and e: "(Inr (?rv, q), s7) = (Inr (rv, p) :: error + (review \<times> payout option), s')"
    unfolding and_then_returns by (elim exE conjE) (rule that)
  have rv: "rv = ?rv" "q = p" "s7 = s'" using e by simp_all
  note a' = a [unfolded ins]
  have pay: "if d = Approve then (\<exists>q. p = Some q \<and> create_for_grade E g t actor 1 s1 = (Inr q, s3)) else p = None \<and> s3 = s1"
    using b unfolding rv(2) by (cases "d = Approve") (auto simp: result_simps)
  show thesis
  proof (rule that [OF g nr t ok, of s1 s3 "settle_status (t_id t) t g d actor s3"
        "if d = Reject then snd (redeliver (t_id t) g actor (settle_status (t_id t) t g d actor s3)) else settle_status (t_id t) t g d actor s3"
        "record_event actor (''grade.'' @ review_decision_value d) ''grade'' (str_uuid gid)
              [(''reason'', case reason of None \<Rightarrow> JNull | Some x \<Rightarrow> JStr x)]
              (if d = Reject then snd (redeliver (t_id t) g actor (settle_status (t_id t) t g d actor s3)) else settle_status (t_id t) t g d actor s3)" c])
    show "core s1 = core (s\<lparr>reviews := reviews s @ [rv]\<rparr>)" "trail_step s s1"
      "rv_id rv \<notin> rv_id ` set (reviews s)" "gid \<notin> rv_grade_id ` set (reviews s)" "key \<in> k_id ` set (api_keys s)"
      using a' rv(1) by (auto simp: core_eq_iff intro!: trail_step_same)
    show "if d = Reject then \<exists>r. redeliver (t_id t) g actor (settle_status (t_id t) t g d actor s3) =
        (r, if d = Reject then snd (redeliver (t_id t) g actor (settle_status (t_id t) t g d actor s3)) else settle_status (t_id t) t g d actor s3)
      else (if d = Reject then snd (redeliver (t_id t) g actor (settle_status (t_id t) t g d actor s3)) else settle_status (t_id t) t g d actor s3) =
        settle_status (t_id t) t g d actor s3"
      by (auto intro: exI [of _ "fst (redeliver (t_id t) g actor (settle_status (t_id t) t g d actor s3))"])
  qed (use rv pay c in simp_all)
qed

lemma review_frame:
  assumes "review_grade E key gid d reason actor s = (Inr (rv, p), s')"
  shows "core (s'\<lparr>reviews := reviews s, tasks := tasks s, consensuses := consensuses s, experts := experts s,
      tier_changes := tier_changes s, payouts := payouts s\<rparr>) = core s"
    "trail_step s s'" "reviews s' = reviews s @ [rv]" "map e_id (experts s') = map e_id (experts s)"
    "map t_id (tasks s') = map t_id (tasks s)" "map t_seq (tasks s') = map t_seq (tasks s)"
proof -
  have "core (s'\<lparr>reviews := reviews s, tasks := tasks s, consensuses := consensuses s, experts := experts s,
      tier_changes := tier_changes s, payouts := payouts s\<rparr>) = core s \<and>
    trail_step s s' \<and> reviews s' = reviews s @ [rv] \<and> map e_id (experts s') = map e_id (experts s) \<and>
    map t_id (tasks s') = map t_id (tasks s) \<and> map t_seq (tasks s') = map t_seq (tasks s)"
    using assms
  proof (cases rule: review_cases)
    case (1 g t s2 s3 s4 s5 s6 c)
    have P: "core (s3\<lparr>payouts := payouts s2\<rparr>) = core s2 \<and> trail_step s2 s3"
      using 1(14) by (auto simp: create_for_grade_frame split: if_splits)
    note S = settle_status_frame [where tid = "t_id t" and t = t and g = g and d = d and actor = actor and s = s3, folded 1(15)]
    have R: "core (s5\<lparr>consensuses := consensuses s4\<rparr>) = core s4 \<and> trail_step s4 s5"
      using 1(16) by (auto dest: redeliver_frame split: if_splits)
    note U = update_frame [OF 1(19)]
    have "trail_step s s'" using 1(13,18) P S(2) R U(2) trail_step_trans by blast
    moreover have "map e_id (experts s') = map e_id (experts s6)"
      using arg_cong [OF U(3), of "map e_id"] by (simp add: comp_def)
    moreover have "core (s'\<lparr>reviews := reviews s, tasks := tasks s, consensuses := consensuses s, experts := experts s,
      tier_changes := tier_changes s, payouts := payouts s\<rparr>) = core s"
      using 1(12,17) conjunct1 [OF P] S(1) conjunct1 [OF R] U(1) by (simp add: core_eq_iff)
    moreover have "reviews s' = reviews s @ [rv]" "tasks s' = tasks s4" "tasks s3 = tasks s" "experts s6 = experts s"
      using 1(12,17) conjunct1 [OF P] S(1) conjunct1 [OF R] U(1) by (simp_all add: core_eq_iff)
    ultimately show ?thesis using S(3,4) by simp
  qed
  then show "core (s'\<lparr>reviews := reviews s, tasks := tasks s, consensuses := consensuses s, experts := experts s,
      tier_changes := tier_changes s, payouts := payouts s\<rparr>) = core s"
    "trail_step s s'" "reviews s' = reviews s @ [rv]" "map e_id (experts s') = map e_id (experts s)"
    "map t_id (tasks s') = map t_id (tasks s)" "map t_seq (tasks s') = map t_seq (tasks s)" by blast+
qed

section \<open>Validation\<close>

lemma keys_missing_Nil: "keys_missing wanted given = [] \<longleftrightarrow> set wanted \<subseteq> set given"
proof -
  have "keys_missing wanted given = [] \<longleftrightarrow> set (keys_missing wanted given) = {}" by simp
  also have "\<dots> \<longleftrightarrow> set wanted \<subseteq> set given" unfolding keys_missing_def by auto
  finally show ?thesis .
qed

lemma by_key_None: "by_key r k = None \<longleftrightarrow> k \<notin> c_key ` set (r_criteria r)"
  by (force simp: by_key_def map_of_eq_None_iff image_iff)

lemma by_key_SomeD: "by_key r k = Some c \<Longrightarrow> c \<in> set (r_criteria r) \<and> c_key c = k"
  unfolding by_key_def by (drule map_of_SomeD) auto

lemma by_key_distinct:
  assumes "distinct (map c_key (r_criteria r))" "c \<in> set (r_criteria r)"
  shows "by_key r (c_key c) = Some c"
proof -
  obtain c' where c': "by_key r (c_key c) = Some c'"
    using assms(2) by_key_None [of r "c_key c"] by (cases "by_key r (c_key c)") auto
  with by_key_SomeD [OF c'] assms show ?thesis by (metis distinct_map inj_onD)
qed

definition within_scale :: "rubric \<Rightarrow> string \<Rightarrow> rat \<Rightarrow> bool" where
  "within_scale r key v \<longleftrightarrow> (\<forall>c. by_key r key = Some c \<longrightarrow> of_int (c_scale_min c) \<le> v \<and> v \<le> of_int (c_scale_max c))"

lemma scale_error_None: "scale_error r scores = None \<longleftrightarrow> (\<forall>(k, v) \<in> set scores. within_scale r k v)"
  by (induction r scores rule: scale_error.induct) (auto simp: within_scale_def split: option.splits)

lemma check_scores_None:
  "check_scores r scores = None \<longleftrightarrow>
     fst ` set scores = c_key ` set (r_criteria r) \<and> (\<forall>(k, v) \<in> set scores. within_scale r k v)"
  by (auto simp: check_scores_def Let_def keys_missing_Nil scale_error_None)

lemma snapshot_get_mem: "distinct (map fst sc) \<Longrightarrow> (k, v) \<in> set sc \<Longrightarrow> snapshot_get sc k = v"
  by (simp add: snapshot_get_def map_of_is_SomeI)

text \<open>A failing later step of a submission is never a refusal of the service.\<close>

definition not_refused :: "'a outcome \<Rightarrow> bool" where
  "not_refused r \<longleftrightarrow> (\<forall>c d s'. r \<noteq> (Inl (ServiceError c d), s'))"

lemma not_refused_simps [simp]:
  "not_refused (Inr x, s)" "not_refused (Inl (IntegrityError t), s)" "not_refused (Inl (AttributeError t), s)"
  by (simp_all add: not_refused_def)

lemma not_refused_and_then:
  assumes "not_refused r" "\<And>x s. not_refused (f x s)"
  shows "not_refused (and_then r f)"
  using assms by (auto simp: not_refused_def and_then_raises)

lemma not_refused_insert [simp]: "not_refused (insert_if table ok f s)"
  by (simp add: insert_if_def)

lemma not_refused_the_row: "(\<And>r. not_refused (f r s)) \<Longrightarrow> not_refused (the_row what row f s)"
  by (cases row) simp_all

lemma not_refused_steps:
  "not_refused (evaluate E tid s)" "not_refused (evaluate_check E t g s)" "not_refused (enforce E eid s)"
  "not_refused (update E eid actor s)" "not_refused (aftermath E eid t g s)"
proof -
  show "not_refused (evaluate E tid s)" for s
    by (auto simp: evaluate_def Let_def insert_consensus_def new_uuid_def now_utc_def intro!: not_refused_and_then)
  show chk: "not_refused (evaluate_check E t g s)" for s
    by (auto simp: evaluate_check_def Let_def insert_attention_result_def new_uuid_def
        intro!: not_refused_and_then split: option.split)
  show enf: "not_refused (enforce E eid s)" for s
    by (auto simp: enforce_def Let_def intro!: not_refused_the_row split: option.split prod.split)
  show upd: "not_refused (update E eid actor s)" for actor s
    by (auto simp: update_def Let_def insert_tier_change_def new_uuid_def now_utc_def
        intro!: not_refused_the_row not_refused_and_then split: option.split prod.split)
  show "not_refused (aftermath E eid t g s)"
    unfolding aftermath_def
    by (intro not_refused_and_then chk) (auto intro!: not_refused_and_then enf upd split: option.split)
qed

section \<open>Properties\<close>

text \<open>
  C14: which submissions are refused. For a task on record whose rubric exists, the service refuses
  a submission exactly when the task is not leased to the expert, or another rubric version is named than the
  pinned one, or the scored keys are not exactly the rubric's criteria, or a score is outside
  its criterion's scale; a refusal changes nothing.
\<close>

theorem submission_refused_iff:
  assumes "get_task tid s = Some t" "pinned_rubric t s = Some r"
  shows "((\<exists>c d s'. submit E eid tid scores rationale time_spent rubric_id s = (Inl (ServiceError c d), s')) \<longleftrightarrow>
      \<not> (t_status t = Assigned \<and> t_assigned_expert_id t = Some eid \<and> (\<forall>rid. rubric_id = Some rid \<longrightarrow> rid = r_id r) \<and>
         fst ` set scores = c_key ` set (r_criteria r) \<and>
         (\<forall>(k, v) \<in> set scores. \<forall>c. by_key r k = Some c \<longrightarrow> of_int (c_scale_min c) \<le> v \<and> v \<le> of_int (c_scale_max c)))) \<and>
    (\<forall>c d s'. submit E eid tid scores rationale time_spent rubric_id s = (Inl (ServiceError c d), s') \<longrightarrow> s' = s)"
proof -
  let ?run = "submit E eid tid scores rationale time_spent rubric_id s"
  let ?valid = "t_status t = Assigned \<and> t_assigned_expert_id t = Some eid \<and> (\<forall>rid. rubric_id = Some rid \<longrightarrow> rid = r_id r) \<and>
    check_scores r scores = None"
  show ?thesis
  proof (cases ?valid)
    case True
    then have ok: "t_status t = Assigned" "t_assigned_expert_id t = Some eid" "rubric_id = None \<or> rubric_id = Some (r_id r)"
      "check_scores r scores = None" by (cases rubric_id; simp)+
    have "not_refused ?run"
      unfolding submit_run [OF assms(1) ok(1,2) assms(2) ok(3,4)] insert_grade_def Let_def
      by (intro not_refused_and_then not_refused_insert) (auto intro!: not_refused_and_then not_refused_steps)
    with True show ?thesis by (simp add: not_refused_def check_scores_None within_scale_def)
  next
    case False
    have "\<exists>c d. ?run = (Inl (ServiceError c d), s)"
    proof (cases "t_status t = Assigned \<and> t_assigned_expert_id t = Some eid")
      case True
      with False consider rid where "rubric_id = Some rid" "rid \<noteq> r_id r"
        | d where "rubric_id = None \<or> rubric_id = Some (r_id r)" "check_scores r scores = Some d"
        by (cases rubric_id; cases "check_scores r scores") auto
      then show ?thesis
        by cases (use True assms in \<open>auto simp: submit_def\<close>)
    qed (use assms in \<open>auto simp: submit_def\<close>)
    with False show ?thesis by (auto simp: check_scores_None within_scale_def)
  qed
qed

definition sample_assigned_db :: "uuid \<Rightarrow> uuid \<Rightarrow> db" where
  "sample_assigned_db tid eid = modify_task tid (leased sample_env eid 0) sample_db"

lemma sample_assigned:
  "get_task 20 (sample_assigned_db 20 4) = Some (leased sample_env 4 0 (sample_task 20 2 False))"
  "pinned_rubric (leased sample_env 4 0 (sample_task 20 2 False)) (sample_assigned_db 20 4) = Some sample_rubric"
  "get_task 21 (sample_assigned_db 21 4) = Some (leased sample_env 4 0 (sample_task 21 1 False))"
  "pinned_rubric (leased sample_env 4 0 (sample_task 21 1 False)) (sample_assigned_db 21 4) = Some sample_rubric"
  by (simp_all add: sample_assigned_db_def row_of_update_row pinned_rubric_def)
    (simp_all add: sample_defs sample_rubric_def)

theorem submission_refused_iff_witness:
  "(\<exists>c d s'. submit sample_env 4 20 [(''accuracy'', 6), (''clarity'', 4)] ''r'' 9 None (sample_assigned_db 20 4) =
      (Inl (ServiceError c d), s')) \<and>
   \<not> (\<exists>c d s'. submit sample_env 4 20 [(''accuracy'', 5), (''clarity'', 4)] ''r'' 9 None (sample_assigned_db 20 4) =
      (Inl (ServiceError c d), s'))"
  using submission_refused_iff [OF sample_assigned(1,2), of sample_env 4 "[(''accuracy'', 6), (''clarity'', 4)]" "''r''" 9 None]
    submission_refused_iff [OF sample_assigned(1,2), of sample_env 4 "[(''accuracy'', 5), (''clarity'', 4)]" "''r''" 9 None]
  by (simp add: sample_rubric_def sample_criterion_def by_key_def)

lemma unrejected_depends:
  "grades s' = grades s \<Longrightarrow> reviews s' = reviews s \<Longrightarrow> unrejected tid s' = unrejected tid s"
  by (simp add: unrejected_def grades_for_def)

lemma evaluate_opens_round:
  assumes "evaluate E tid s = (Inr c, s')" "get_task tid s = Some t" "t_status t = Submitted"
    "tid \<notin> co_task_id ` set (consensuses s)"
  shows "get_task u s' = (if u = tid then Some (t\<lparr>t_status :=
        if \<exists>c \<in> set (consensuses s'). co_task_id c = tid \<and> co_status c = Adjudicating then Adjudication else Submitted\<rparr>)
      else get_task u s)" (is ?task)
    "tid \<in> co_task_id ` set (consensuses s') \<longleftrightarrow> 2 \<le> length (unrejected tid s)" (is ?round)
proof -
  have same: "t\<lparr>t_status := Submitted\<rparr> = t" using assms(3) by simp
  have none: "\<forall>c \<in> set (consensuses s). co_task_id c \<noteq> tid" using assms(4) by auto
  have "?task \<and> ?round"
    using assms(1)
  proof (cases rule: evaluate_cases)
    case few
    then show ?thesis using assms(2,4) same by auto
  next
    case (agreed d h)
    then have "consensuses s' = consensuses s @ [d]" "tasks s' = tasks s" "co_task_id d = tid"
      by (simp_all add: core_eq_iff consensus_row_of_def)
    then show ?thesis using agreed(2,5) assms(2) same none by auto
  next
    case (split d)
    then have "consensuses s' = consensuses s @ [d]" "co_task_id d = tid"
      "tasks s' = update_row t_id tid (\<lambda>t. t\<lparr>t_status := Adjudication\<rparr>) (tasks s)"
      by (simp_all add: core_eq_iff consensus_row_of_def)
    then show ?thesis using split(2,5) assms(2,4) by (auto simp: row_of_update_row)
  qed
  then show ?task ?round by blast+
qed

text \<open>
  C11: what a submission does to its task. Exactly one grade is added, the expert's first on that task; the
  task is released and counts one more grade. A golden task, or one that still needs grades, is
  queued again and opens no round; the last grade of any other task makes it submitted, and opens a
  round exactly when at least two of its grades are not rejected; the task is in adjudication exactly when that
  round is split. No other task changes.
\<close>

theorem submission_advances_task:
  assumes "submit E eid tid scores rationale time_spent rubric_id s = (Inr g, s')"
    "get_task tid s = Some t" "tid \<notin> co_task_id ` set (consensuses s)"
  shows "grades s' = grades s @ [g] \<and> g_task_id g = tid \<and> g_expert_id g = eid \<and>
    (\<forall>h \<in> set (grades s). g_task_id h = tid \<longrightarrow> g_expert_id h \<noteq> eid) \<and>
    (\<exists>t'. get_task tid s' = Some t' \<and> t_grades_received t' = t_grades_received t + 1 \<and>
       t_assigned_expert_id t' = None \<and> t_assigned_at t' = None \<and> t_lease_expires_at t' = None \<and>
       (if t_is_attention_check t \<or> t_grades_received t + 1 < t_required_grades t
        then t_status t' = Queued \<and> consensuses s' = consensuses s
        else (tid \<in> co_task_id ` set (consensuses s') \<longleftrightarrow> 2 \<le> length (unrejected tid s')) \<and>
          t_status t' = (if \<exists>c \<in> set (consensuses s'). co_task_id c = tid \<and> co_status c = Adjudicating
                         then Adjudication else Submitted))) \<and>
    (\<forall>u. u \<noteq> tid \<longrightarrow> get_task u s' = get_task u s)"
proof -
  have gs: "grades s' = grades s @ [g]" by (rule submit_frame(3) [OF assms(1)])
  from assms(1) show ?thesis
  proof (cases rule: submit_cases)
    case (1 t1 r s3 c s4 s5)
    have t1: "t1 = t" using 1(1) assms(2) by simp
    have A: "tasks s' = tasks s4" "consensuses s' = consensuses s4" "reviews s' = reviews s" "grades s4 = grades s'"
      using aftermath_frame(1) [OF 1(16)] 1(14) submit_frame(1) [OF assms(1)] by (simp_all add: core_eq_iff)
    have s3: "get_task u s3 = (if u = tid then Some (graded t) else get_task u s)" for u
      using 1(11) assms(2) by (simp add: core_eq_iff row_of_update_row)
    have c3: "consensuses s3 = consensuses s" "grades s3 = grades s'" "reviews s3 = reviews s'"
      using 1(11) gs A(3) by (simp_all add: core_eq_iff)
    note unr = unrejected_depends [OF c3(2,3)]
    have g: "g_task_id g = tid" "g_expert_id g = eid" using 1(7) by simp_all
    show ?thesis
    proof (cases "t_is_attention_check t \<or> t_grades_received t + 1 < t_required_grades t")
      case True
      then have "s4 = s3" using 1(13) by (simp add: t1)
      with s3 c3 show ?thesis using gs g 1(9) True by (simp add: A)
    next
      case False
      then have sub: "t_status (graded t) = Submitted" by simp
      have ev: "evaluate E tid s3 = (Inr c, s4)" using 1(13) sub by (simp add: t1)
      have "get_task tid s3 = Some (graded t)" "tid \<notin> co_task_id ` set (consensuses s3)"
        using s3 c3 assms(3) by simp_all
      note round = evaluate_opens_round [OF ev this(1) sub this(2)]
      show ?thesis
        using gs g 1(9) False round s3 by (simp add: A unr)
    qed
  qed
qed

lemma sample_submit: "\<exists>g s'. submit sample_env 4 21 [(''accuracy'', 5), (''clarity'', 2)] ''r'' 9 None (sample_assigned_db 21 4) = (Inr g, s')"
proof -
  have t: "t_status (leased sample_env 4 0 (sample_task 21 1 False)) = Assigned"
    "t_assigned_expert_id (leased sample_env 4 0 (sample_task 21 1 False)) = Some 4" by simp_all
  have chk: "check_scores sample_rubric [(''accuracy'', 5), (''clarity'', 2)] = None"
    by (auto simp: check_scores_None within_scale_def by_key_def sample_rubric_def sample_criterion_def)
  show ?thesis
    unfolding submit_run [OF sample_assigned(3) t sample_assigned(4) disjI1 [OF refl] chk] Let_def
    by (simp add: insert_grade_def evaluate_def unrejected_def grades_for_def aftermath_def evaluate_check_def)
      (simp add: sample_assigned_db_def sample_rubric_def leased_def update_row_def sample_defs)
qed

theorem submission_advances_task_witness:
  "\<exists>g s'. submit sample_env 4 21 [(''accuracy'', 5), (''clarity'', 2)] ''r'' 9 None (sample_assigned_db 21 4) = (Inr g, s') \<and>
     map_option t_grades_received (get_task 21 s') = Some 1 \<and> map_option t_assigned_expert_id (get_task 21 s') = Some None"
proof -
  obtain g s' where sub: "submit sample_env 4 21 [(''accuracy'', 5), (''clarity'', 2)] ''r'' 9 None (sample_assigned_db 21 4) = (Inr g, s')"
    using sample_submit by blast
  have "21 \<notin> co_task_id ` set (consensuses (sample_assigned_db 21 4))"
    by (simp add: sample_assigned_db_def sample_defs)
  from submission_advances_task [OF sub sample_assigned(3) this] sub
  show ?thesis by (auto simp: sample_task_def leased_def)
qed

text \<open>
  C10: what a review decides. It is the only review of the grade. Approving approves the task and creates
  the grade's payout. Rejecting pays nothing; it puts a single-grader task back in the queue with one
  grade fewer counted, rejects a task with several graders unless another grade of it was approved,
  and leaves no agreed round delivering the rejected grade. A golden task keeps its state, no other task
  changes, and the grade's author can not be served the task again.
\<close>

theorem review_decides:
  assumes "review_grade E key gid d reason actor s = (Inr (rv, p), s')" "distinct (map t_id (tasks s))"
    "get_grade gid s = Some g" "get_task (g_task_id g) s = Some t"
  shows "get_review gid s = None \<and> reviews s' = reviews s @ [rv] \<and> rv_grade_id rv = gid \<and> rv_decision rv = d \<and>
    get_task (g_task_id g) s' = Some (
      if t_is_attention_check t then t
      else if d = Approve then t\<lparr>t_status := Approved\<rparr>
      else if t_required_grades t = 1
      then t\<lparr>t_status := Queued, t_grades_received := max 0 (t_grades_received t - 1)\<rparr>
      else if t_status t = Approved then t else t\<lparr>t_status := Rejected\<rparr>) \<and>
    (\<forall>u. u \<noteq> g_task_id g \<longrightarrow> get_task u s' = get_task u s) \<and>
    (d = Approve \<longrightarrow> p \<noteq> None \<and> get_payout gid s' = p) \<and>
    (d = Reject \<longrightarrow> p = None \<and> payouts s' = payouts s \<and>
      (\<forall>c. get_consensus (g_task_id g) s' = Some c \<and> co_status c = Agreed \<longrightarrow> co_delivered_grade_id c \<noteq> Some gid)) \<and>
    (\<forall>e u. e_id e = g_expert_id g \<and> t_id u = g_task_id g \<longrightarrow> \<not> eligibility e s' u)"
  using assms(1)
proof (cases rule: review_cases)
  case (1 g1 t1 s2 s3 s4 s5 s6 c)
  have eq: "g1 = g" "t1 = t" using 1(1,3) assms(3,4) by simp_all
  have t: "t \<in> set (tasks s)" "t_id t = g_task_id g" using row_of_SomeD [OF assms(4)] by simp_all
  have gid: "g_id g = gid" "g \<in> set (grades s)" using row_of_SomeD [OF assms(3)] by simp_all
  have P: "core (s3\<lparr>payouts := payouts s2\<rparr>) = core s2"
    using 1(14) by (auto simp: create_for_grade_frame split: if_splits)
  have R: "core (s5\<lparr>consensuses := consensuses s4\<rparr>) = core s4"
    using 1(16) by (auto dest: redeliver_frame split: if_splits)
  note S = settle_status_frame(1) [where tid = "t_id t1" and t = t1 and g = g1 and d = d and actor = actor and s = s3, folded 1(15)]
  note U = update_frame(1) [OF 1(19)]
  have ts3: "tasks s3 = tasks s" "payouts s' = payouts s3" "consensuses s' = consensuses s5" "reviews s4 = reviews s @ [rv]"
    "tasks s' = tasks s4" "grades s' = grades s"
    using 1(12,17) P S R U by (simp_all add: core_eq_iff)
  have "tasks s4 = update_row t_id (t_id t) (settled_task g d) (tasks s)"
    unfolding 1(15) eq using settle_status_tasks [of s3 t] assms(2) t(1) by (simp add: ts3)
  then have task': "get_task u s' = (if u = g_task_id g then Some (settled_task g d t) else get_task u s)" for u
    using assms(4) t(2) by (simp add: ts3 row_of_update_row)
  have paid: "p \<noteq> None \<and> get_payout gid s' = p" if "d = Approve"
    using 1(14) that create_for_grade_paid gid(1) by (auto simp: eq ts3)
  have rejected: "p = None \<and> payouts s' = payouts s" if "d = Reject"
    using 1(12,14) that by (simp add: ts3 core_eq_iff)
  have round: "co_delivered_grade_id c \<noteq> Some gid"
    if d: "d = Reject" "get_consensus (g_task_id g) s' = Some c" "co_status c = Agreed" for c
  proof -
    have dec: "decided gid s4 = Some Reject"
      using 1(2,5,6) d(1) by (simp add: decided_def ts3 table_simps)
    obtain r where "redeliver (t_id t) g actor s4 = (r, s5)" using 1(16) d(1) by (auto simp: eq)
    then show ?thesis
    proof (cases rule: redeliver_cases)
      case kept
      then show ?thesis using d(2,3) t(2) gid(1) by (auto simp: ts3)
    next
      case (replaced row pool delivered)
      have "delivered \<noteq> Some gid"
        using replaced(5,6) dec by (auto dest!: closest_to_mean_SomeD(1) split: if_splits)
      moreover have "co_delivered_grade_id c = delivered"
        using replaced(2,7) d(2) t(2) by (auto simp: ts3 core_eq_iff row_of_update_row)
      ultimately show ?thesis by simp
    qed
  qed
  have "\<not> eligibility e s' u" if "e_id e = g_expert_id g" "t_id u = g_task_id g" for e u
    using gid(2) that by (auto simp: eligibility_def already_graded_def ts3)
  moreover have "reviews s' = reviews s @ [rv]" by (rule review_frame(3) [OF assms(1)])
  ultimately show ?thesis
    using 1(2,5,6) task' paid rejected round by (simp add: settled_task_def requeued_def)
qed

text \<open>
  A grade is reviewed at most once: after any review of it, a further one by any reviewer is refused
  with 409 and changes nothing.
\<close>

theorem review_happens_once:
  assumes "review_grade E key gid d reason actor s = (Inr r, s')"
  shows "review_grade E key' gid d' reason' actor' s' = (Inl (ServiceError 409 GradeAlreadyReviewed), s')"
proof -
  obtain rv p where r: "r = (rv, p)" by fastforce
  note rev = assms [unfolded r]
  have "grades s' = grades s" using review_frame(1) [OF rev] by (simp add: core_eq_iff)
  moreover have "get_review gid s' \<noteq> None"
    using rev
  proof (cases rule: review_cases)
    case (1 g t s2 s3 s4 s5 s6 c)
    then show ?thesis using review_frame(3) [OF rev] by (simp add: row_of_None_iff)
  qed
  moreover obtain g where "get_grade gid s = Some g" using rev by (auto elim: review_cases)
  ultimately show ?thesis by (simp add: review_grade_def)
qed

text \<open>
  No review overtakes a round. The grades of a task with several graders can not be reviewed before
  the last grade is in, nor while the task is in adjudication: the request is refused with 409 and
  changes nothing.
\<close>

theorem review_waits_for_round:
  assumes "get_grade gid s = Some g" "get_review gid s = None" "get_task (g_task_id g) s = Some t"
    "\<not> t_is_attention_check t" "2 \<le> t_required_grades t"
    "t_grades_received t < t_required_grades t \<or> t_status t = Adjudication"
  shows "\<exists>why. review_grade E key gid d reason actor s = (Inl (ServiceError 409 why), s)"
  using assms by (auto simp: review_grade_def reject_if_consensus_pending_def)

definition sample_review_db :: db where
  "sample_review_db = sample_db\<lparr>tasks := [(sample_task 21 1 False)\<lparr>t_status := Submitted, t_grades_received := 1\<rparr>],
     grades := [sample_grade 40 21 4 4]\<rparr>"

lemma sample_review_ok:
  "distinct (map t_id (tasks sample_review_db))"
  "get_grade 40 sample_review_db = Some (sample_grade 40 21 4 4)"
  "get_task (g_task_id (sample_grade 40 21 4 4)) sample_review_db =
     Some ((sample_task 21 1 False)\<lparr>t_status := Submitted, t_grades_received := 1\<rparr>)"
  by (simp_all add: sample_review_db_def sample_defs)

lemma sample_review_run: "\<exists>rv p s'. review_grade sample_env 31 40 d None ''r'' sample_review_db = (Inr (rv, p), s')"
  by (cases d; simp add: review_grade_def reject_if_consensus_pending_def new_uuid_def insert_review_def
      create_for_grade_def rate_for_def get_rate_card_def insert_payout_def py_round_def Let_def settle_status_def requeue_def
      requeued_def redeliver_def update_def score_def signals_newest review_signals_def check_signals_def newest_first_def
      sample_review_db_def sample_defs)

theorem review_decides_witness:
  "\<exists>rv p s' t. review_grade sample_env 31 40 Reject None ''r'' sample_review_db = (Inr (rv, p), s') \<and>
      p = None \<and> get_task 21 s' = Some t \<and> t_status t = Queued \<and> t_grades_received t = 0"
proof -
  obtain rv p s' where r: "review_grade sample_env 31 40 Reject None ''r'' sample_review_db = (Inr (rv, p), s')"
    using sample_review_run by blast
  from review_decides [OF r sample_review_ok] r show ?thesis
    by (auto simp: sample_grade_def sample_task_def)
qed

theorem review_happens_once_witness:
  "\<exists>r s'. review_grade sample_env 31 40 Approve None ''r'' sample_review_db = (Inr r, s') \<and>
      review_grade sample_env 32 40 Reject None ''s'' s' = (Inl (ServiceError 409 GradeAlreadyReviewed), s')"
proof -
  obtain rv p s' where "review_grade sample_env 31 40 Approve None ''r'' sample_review_db = (Inr (rv, p), s')"
    using sample_review_run by blast
  with review_happens_once [OF this] show ?thesis by blast
qed

theorem review_waits_for_round_witness:
  "\<exists>why. review_grade sample_env 31 40 Approve None ''r'' (sample_round_db 5\<lparr>grades := [sample_grade 40 20 4 4]\<rparr>) =
      (Inl (ServiceError 409 why), sample_round_db 5\<lparr>grades := [sample_grade 40 20 4 4]\<rparr>)"
  by (rule review_waits_for_round [where g = "sample_grade 40 20 4 4" and t = "sample_task 20 2 False"])
    (simp_all add: sample_round_db_def sample_defs)

end
