(* ===== verification/Ops.thy ===== *)
theory Ops
  imports Grading
begin

text \<open>
  \<open>panelist/services/ops.py\<close>: the operator's overview and the scheduler tick, which reclaims expired
  leases, refreshes every expert's calibration and reports what needs attention; and the gauges
  \<open>refresh_gauges\<close> of \<open>panelist/metrics.py\<close> sets from the tables.
\<close>

section \<open>Counts\<close>

definition paused_experts :: "env \<Rightarrow> db \<Rightarrow> expert list" where
  "paused_experts E s = sort_key (\<lambda>e. collate E (e_name e)) (filter (\<lambda>e. e_status e = Paused) (experts s))"

definition expired_leases :: "env \<Rightarrow> db \<Rightarrow> int \<times> db" where
  "expired_leases E s = (let (now, s1) = now_utc E s in (row_count (lease_expired now) (tasks s1), s1))"

definition undelivered_approved :: "db \<Rightarrow> int" where
  "undelivered_approved s = row_count
     (\<lambda>(t, c). co_task_id c = t_id t \<and> t_status t = Approved \<and> \<not> t_is_attention_check t \<and>
        \<not> (\<exists>r \<in> set (reviews s). co_delivered_grade_id c = Some (rv_grade_id r) \<and> rv_decision r = Approve))
     (List.product (tasks s) (consensuses s))"

definition rejects_of :: "uuid \<Rightarrow> db \<Rightarrow> int" where
  "rejects_of tid s = row_count
     (\<lambda>(g, r). g_task_id g = tid \<and> rv_grade_id r = g_id g \<and> rv_decision r = Reject)
     (List.product (grades s) (reviews s))"

definition rejected_twice :: "db \<Rightarrow> int" where
  "rejected_twice s = row_count
     (\<lambda>t. t_required_grades t = 1 \<and> \<not> t_is_attention_check t \<and> 2 \<le> rejects_of (t_id t) s) (tasks s)"

record period_status =
  ps_last_label :: "string option"
  ps_last_closed_at :: "time option"
  ps_unbilled_payouts :: int
  ps_unbilled_cents :: int
  ps_withheld_cents :: int

definition last_period :: "db \<Rightarrow> payout_period option" where
  "last_period s = min_by (\<lambda>p. - pp_closed_at p) (payout_periods s)"

definition period_status_of :: "db \<Rightarrow> period_status" where
  "period_status_of s =
    (let unbilled = filter (\<lambda>p. p_period_id p = None) (payouts s);
         pending_rows = filter (\<lambda>p. p_status p = Pending) unbilled;
         withheld_rows = filter (\<lambda>p. p_status p = Withheld) unbilled
     in \<lparr>ps_last_label = map_option pp_label (last_period s), ps_last_closed_at = map_option pp_closed_at (last_period s),
         ps_unbilled_payouts = int (length pending_rows),
         ps_unbilled_cents = sum_list (map p_amount_cents pending_rows),
         ps_withheld_cents = sum_list (map p_amount_cents withheld_rows)\<rparr>)"

section \<open>The overview\<close>

record ops_overview =
  ov_generated_at :: time
  ov_queued_by_tag :: "(string \<times> int) list"
  ov_tasks_by_status :: "(task_status \<times> int) list"
  ov_expired_leases :: int
  ov_paused_experts :: "(uuid \<times> string \<times> tier \<times> rat option) list"
  ov_adjudication_backlog :: int
  ov_period :: period_status
  ov_last_delivery :: "delivery option"

definition overview :: "env \<Rightarrow> db \<Rightarrow> ops_overview \<times> db" where
  "overview E s =
    (let (now, s1) = now_utc E s;
         (expired, s2) = expired_leases E s1
     in (\<lparr>ov_generated_at = now, ov_queued_by_tag = queue_depth_by_tag s2, ov_tasks_by_status = queue_summary s2,
          ov_expired_leases = expired,
          ov_paused_experts = map (\<lambda>e. (e_id e, e_name e, e_tier e, e_calibration_score e)) (paused_experts E s2),
          ov_adjudication_backlog = backlog s2, ov_period = period_status_of s2,
          ov_last_delivery = min_by (\<lambda>d. - d_version d) (deliveries s2)\<rparr>, s2))"

section \<open>The tick\<close>

text \<open>\<open>f"{x:.1f}"\<close>: one decimal, the half rounded to even.\<close>

definition fixed1 :: "rat \<Rightarrow> string" where
  "fixed1 x = (let n = py_round (x * 10) in
     (if x < 0 then ''-'' else []) @ str_int (\<bar>n\<bar> div 10) @ ''.'' @ str_int (\<bar>n\<bar> mod 10))"

definition days_since :: "env \<Rightarrow> time option \<Rightarrow> db \<Rightarrow> rat option \<times> db" where
  "days_since E moment s =
    (case moment of
       None \<Rightarrow> (None, s)
     | Some m \<Rightarrow> (let (now, s1) = now_utc E s in (Some (of_int (now - m) / of_int (seconds 86400)), s1)))"

definition reminders :: "env \<Rightarrow> nat \<Rightarrow> period_status \<Rightarrow> int \<Rightarrow> int \<Rightarrow> int \<Rightarrow> db \<Rightarrow> string list \<times> db" where
  "reminders E uncal period waiting twice undelivered s =
    (let (age, s1) = days_since E (ps_last_closed_at period) s
     in ((if uncal \<noteq> 0
          then [str_int (int uncal) @ '' experts have fewer than '' @
                str_int (int (calibration_min_samples (cfg E))) @ '' calibration signals''] else []) @
         (if ps_unbilled_payouts period \<noteq> 0
          then [str_int (ps_unbilled_payouts period) @ '' payouts worth '' @ str_int (ps_unbilled_cents period) @
                '' cents are not in a statement; last period '' @
                (case age of None \<Rightarrow> ''never closed'' | Some d \<Rightarrow> ''closed '' @ fixed1 d @ '' days ago'')] else []) @
         (if waiting \<noteq> 0 then [str_int waiting @ '' tasks are waiting for adjudication''] else []) @
         (if twice \<noteq> 0
          then [str_int twice @ '' tasks have been rejected twice and are back in the queue''] else []) @
         (if undelivered \<noteq> 0
          then [str_int undelivered @ '' approved tasks have no delivered grade: the consensus pick is unreviewed'']
          else []), s1))"

text \<open>The loop over the experts in the order of their names: the moves made, and how many experts are
  short of signals.\<close>

type_synonym moves = "(string \<times> tier \<times> tier) list \<times> nat"

fun refresh_experts :: "env \<Rightarrow> string \<Rightarrow> expert list \<Rightarrow> moves \<Rightarrow> db \<Rightarrow> moves outcome" where
  "refresh_experts E actor [] acc s = (Inr acc, s)"
| "refresh_experts E actor (e # es) (moves, uncal) s =
    and_then (update E (e_id e) actor s) (\<lambda>change s1.
      the_row ''expert'' (get_expert (e_id e) s1) (\<lambda>e' s1.
        refresh_experts E actor es
          (moves @ (case change of None \<Rightarrow> [] | Some c \<Rightarrow> [(e_name e', tc_from_tier c, tc_to_tier c)]),
           if e_calibration_samples e' < calibration_min_samples (cfg E) then Suc uncal else uncal) s1) s1)"

record tick_report =
  tk_reclaimed :: int
  tk_experts_scored :: int
  tk_tier_changes :: "(string \<times> tier \<times> tier) list"
  tk_uncalibrated_experts :: nat
  tk_adjudication_backlog :: int
  tk_unbilled_payouts :: int
  tk_unbilled_cents :: int
  tk_days_since_period_close :: "rat option"
  tk_rejected_twice :: int
  tk_undelivered_approved :: int
  tk_reminders :: "string list"

definition tick :: "env \<Rightarrow> string \<Rightarrow> db \<Rightarrow> tick_report outcome" where
  "tick E actor s =
    (let (n, s1) = reclaim_expired E s;
         es = sort_key (\<lambda>e. collate E (e_name e)) (experts s1)
     in and_then (refresh_experts E actor es ([], 0) s1) (\<lambda>(moves, uncal) s2.
          let period = period_status_of s2;
              waiting = backlog s2;
              twice = rejected_twice s2;
              undelivered = undelivered_approved s2;
              s3 = record_event actor ''ops.tick'' ''system'' ''tick''
                     [(''reclaimed'', JInt n), (''tier_changes'', JInt (int (length moves)))] s2;
              (age, s4) = days_since E (ps_last_closed_at period) s3;
              (remarks, s5) = reminders E uncal period waiting twice undelivered s4
          in (Inr \<lparr>tk_reclaimed = n, tk_experts_scored = int (length es), tk_tier_changes = moves,
                tk_uncalibrated_experts = uncal, tk_adjudication_backlog = waiting,
                tk_unbilled_payouts = ps_unbilled_payouts period, tk_unbilled_cents = ps_unbilled_cents period,
                tk_days_since_period_close = map_option (\<lambda>d. of_int (py_round (d * 100)) / 100) age,
                tk_rejected_twice = twice, tk_undelivered_approved = undelivered, tk_reminders = remarks\<rparr>, s5)))"

section \<open>Gauges\<close>

record gauges =
  queue_depth :: "string \<rightharpoonup> int"
  payout_balance :: "payout_status \<rightharpoonup> int"
  adjudication_backlog :: int
  paused_count :: int
  experts_by_tier :: "tier \<rightharpoonup> int"
  queue_tags :: "string list"

definition refresh_gauges :: "db \<Rightarrow> gauges \<Rightarrow> gauges" where
  "refresh_gauges s g =
    (let rows = queue_depth_by_tag s;
         seen = map fst rows;
         depth = fold (\<lambda>(tag, n) m. m(tag \<mapsto> n)) rows (queue_depth g);
         depth' = fold (\<lambda>tag m. m(tag \<mapsto> 0)) (filter (\<lambda>tag. tag \<notin> set seen) (queue_tags g)) depth;
         cleared = fold (\<lambda>st m. m(st \<mapsto> 0)) all_payout_statuses (payout_balance g);
         statuses = remdups (map p_status (payouts s));
         balance = fold (\<lambda>st m. m(st \<mapsto> cents_where (\<lambda>p. p_status p = st) (payouts s))) statuses cleared
     in g\<lparr>queue_depth := depth', queue_tags := remdups (queue_tags g @ seen), payout_balance := balance,
          adjudication_backlog := row_count (\<lambda>c. co_status c = Adjudicating) (consensuses s),
          paused_count := row_count (\<lambda>e. e_status e = Paused) (experts s),
          experts_by_tier := fold (\<lambda>tr m. m(tr \<mapsto> row_count (\<lambda>e. e_tier e = tr) (experts s)))
             [Junior, Senior, Lead] (experts_by_tier g)\<rparr>)"

section \<open>The gauges\<close>

lemma fold_map_upd: "fold (\<lambda>x m. m(x \<mapsto> f x)) xs m y = (if y \<in> set xs then Some (f y) else m y)"
  by (induction xs arbitrary: m) auto

lemma fold_rows_upd: "fold (\<lambda>(k, v) m. m(k \<mapsto> v)) (map (\<lambda>k. (k, f k)) ks) m = fold (\<lambda>x m. m(x \<mapsto> f x)) ks m"
  by (simp add: fold_map comp_def)

definition queued_tags :: "db \<Rightarrow> string list" where
  "queued_tags s = concat (map t_required_tags (filter (\<lambda>t. t_status t = Queued) (tasks s)))"

lemma queue_depth_by_tag_eq:
  "queue_depth_by_tag s = map (\<lambda>tag. (tag, row_count (\<lambda>x. x = tag) (queued_tags s))) (remdups (queued_tags s))"
  by (simp add: queue_depth_by_tag_def queued_tags_def Let_def)

lemma cents_where_none: "st \<notin> p_status ` set ps \<Longrightarrow> cents_where (\<lambda>p. p_status p = st) ps = 0"
  by (induction ps) (auto simp: cents_where_def)

text \<open>
  After a refresh every gauge reads what the tables hold: the balance of each status is the sum of
  its payouts, zero when there are none; each tier reads its number of experts; and every tag that ever
  had a depth reads the tasks now queued with it, zero once its queue has drained.
\<close>
theorem gauges_read_the_tables:
  "payout_balance (refresh_gauges s g) st = Some (cents_where (\<lambda>p. p_status p = st) (payouts s)) \<and>
   experts_by_tier (refresh_gauges s g) tr = Some (row_count (\<lambda>e. e_tier e = tr) (experts s)) \<and>
   adjudication_backlog (refresh_gauges s g) = backlog s \<and>
   set (queue_tags (refresh_gauges s g)) = set (queue_tags g) \<union> set (queued_tags s) \<and>
   (tag \<in> set (queue_tags (refresh_gauges s g)) \<longrightarrow>
      queue_depth (refresh_gauges s g) tag = Some (row_count (\<lambda>x. x = tag) (queued_tags s)))"
proof (intro conjI impI)
  show "payout_balance (refresh_gauges s g) st = Some (cents_where (\<lambda>p. p_status p = st) (payouts s))"
    by (cases st) (auto simp: refresh_gauges_def Let_def fold_map_upd all_payout_statuses_def cents_where_none)
  show "experts_by_tier (refresh_gauges s g) tr = Some (row_count (\<lambda>e. e_tier e = tr) (experts s))"
    by (cases tr) (simp_all add: refresh_gauges_def Let_def)
  show "adjudication_backlog (refresh_gauges s g) = backlog s"
    by (simp add: refresh_gauges_def Let_def backlog_def)
  show tags: "set (queue_tags (refresh_gauges s g)) = set (queue_tags g) \<union> set (queued_tags s)"
    by (simp add: refresh_gauges_def Let_def queue_depth_by_tag_eq comp_def)
  assume "tag \<in> set (queue_tags (refresh_gauges s g))"
  then have tag: "tag \<in> set (queue_tags g) \<or> tag \<in> set (queued_tags s)" using tags by blast
  have depth: "queue_depth (refresh_gauges s g) =
      fold (\<lambda>tag m. m(tag \<mapsto> 0)) (filter (\<lambda>tag. tag \<notin> set (queued_tags s)) (queue_tags g))
        (fold (\<lambda>tag m. m(tag \<mapsto> row_count (\<lambda>x. x = tag) (queued_tags s))) (remdups (queued_tags s)) (queue_depth g))"
    by (simp add: refresh_gauges_def Let_def queue_depth_by_tag_eq fold_rows_upd image_image)
  have "row_count (\<lambda>x. x = tag) (queued_tags s) = 0" if "tag \<notin> set (queued_tags s)"
    using that by (auto simp: row_count_0_iff)
  then show "queue_depth (refresh_gauges s g) tag = Some (row_count (\<lambda>x. x = tag) (queued_tags s))"
    using tag unfolding depth fold_map_upd by auto
qed

definition sample_gauges :: gauges where
  "sample_gauges = \<lparr>queue_depth = [''sql'' \<mapsto> 7], payout_balance = Map.empty, adjudication_backlog = 3,
     paused_count = 0, experts_by_tier = Map.empty, queue_tags = [''sql'']\<rparr>"

theorem gauges_read_the_tables_witness:
  "queue_depth (refresh_gauges sample_db sample_gauges) ''sql'' = Some 0 \<and>
   queue_depth (refresh_gauges sample_db sample_gauges) ''python'' = Some 3"
proof -
  have q: "queued_tags sample_db = [''python'', ''python'', ''python'']"
    by (simp add: queued_tags_def sample_defs)
  have tags: "set (queue_tags (refresh_gauges sample_db sample_gauges)) = {''sql'', ''python''}"
    using gauges_read_the_tables [of sample_db sample_gauges] by (auto simp: q sample_gauges_def)
  show ?thesis
    using gauges_read_the_tables [of sample_db sample_gauges _ _ "''sql''"]
      gauges_read_the_tables [of sample_db sample_gauges _ _ "''python''"] by (simp add: tags q)
qed

section \<open>The tick\<close>

text \<open>The identifiers still to be drawn are new: drawn without repetition, and no tier change has one.\<close>

definition change_ids_fresh :: "env \<Rightarrow> db \<Rightarrow> bool" where
  "change_ids_fresh E s \<longleftrightarrow> inj (uuid4 E) \<and> (\<forall>i \<ge> uuid_pos s. uuid4 E i \<notin> tc_id ` set (tier_changes s))"

lemma days_since_core: "days_since E m s = (d, s') \<Longrightarrow> core s' = core s \<and> trail_step s s'"
  by (auto simp: days_since_def now_utc_def core_eq_iff trail_step_same split: option.splits)

lemma reminders_core: "reminders E u p w t n s = (r, s') \<Longrightarrow> core s' = core s \<and> trail_step s s'"
  using days_since_core [of E "ps_last_closed_at p" s] by (cases "days_since E (ps_last_closed_at p) s") (auto simp: reminders_def Let_def)

text \<open>\<open>tuned E s e e'\<close>: \<open>e'\<close> is \<open>e\<close> with the rate of its signals in \<open>s\<close>, moved by at most one tier.\<close>

definition tuned :: "env \<Rightarrow> db \<Rightarrow> expert \<Rightarrow> expert \<Rightarrow> bool" where
  "tuned E s e e' \<longleftrightarrow> (e_calibration_score e', e_calibration_samples e') = score E (e_id e) s \<and>
     tier_rank (e_tier e') \<le> tier_rank (e_tier e) + 1 \<and> tier_rank (e_tier e) \<le> tier_rank (e_tier e') + 1 \<and>
     e_id e' = e_id e \<and> e_name e' = e_name e \<and> e_status e' = e_status e \<and> e_tags e' = e_tags e \<and>
     e_task_rate_cents e' = e_task_rate_cents e \<and> e_served_count e' = e_served_count e"

lemma target_tier_near: "tier_rank (target_tier E t q) \<le> tier_rank t + 1" "tier_rank t \<le> tier_rank (target_tier E t q) + 1"
  by (cases t; simp add: target_tier_def)+

lemma update_tunes:
  assumes "update E eid actor s = (Inr r, s')" "get_expert eid s = Some e"
  shows "\<exists>e'. get_expert eid s' = Some e' \<and> tuned E s e e'"
    "length (tier_changes s') = length (tier_changes s) + (case r of None \<Rightarrow> 0 | Some _ \<Rightarrow> 1)"
proof -
  have k: "e_id e = eid" using row_of_SomeD [OF assms(2)] by simp
  have both: "(\<exists>e'. get_expert eid s' = Some e' \<and> tuned E s e e') \<and>
      length (tier_changes s') = length (tier_changes s) + (case r of None \<Rightarrow> 0 | Some _ \<Rightarrow> 1)"
    using assms(1)
  proof (cases rule: update_cases)
    case (unmoved x rate samples)
    then show ?thesis using assms(2) k by (auto simp: row_of_update_row tuned_def)
  next
    case (moved x q samples now c)
    have x: "x = e" using moved(2) assms(2) by simp
    have "experts s' = update_row e_id eid (\<lambda>x. x\<lparr>e_calibration_score := Some q, e_calibration_samples := samples,
          e_tier := target_tier E (e_tier e) q, e_tier_updated_at := Some now\<rparr>) (experts s)"
      "tier_changes s' = tier_changes s @ [c]"
      using moved(7) by (simp_all add: core_eq_iff x)
    then show ?thesis using assms(2) k moved(1,3) target_tier_near by (simp add: row_of_update_row tuned_def)
  qed
  then show "\<exists>e'. get_expert eid s' = Some e' \<and> tuned E s e e'"
    "length (tier_changes s') = length (tier_changes s) + (case r of None \<Rightarrow> 0 | Some _ \<Rightarrow> 1)" by blast+
qed

lemma update_uuid_pos:
  assumes "update E eid actor s = (Inr r, s')"
  shows "r = None \<and> uuid_pos s' = uuid_pos s \<or> (\<exists>c. r = Some c \<and> uuid_pos s' = Suc (uuid_pos s))"
proof -
  obtain e where e: "get_expert eid s = Some e" using assms by (auto simp: update_def result_simps)
  obtain rate samples where sc: "score E eid s = (rate, samples)" by fastforce
  show ?thesis
    using assms
    by (auto simp: update_def e sc now_utc_def new_uuid_def insert_tier_change_def insert_if_def Let_def
        split: option.splits if_splits)
qed

lemma update_change_ids_fresh:
  assumes "update E eid actor s = (Inr r, s')" "change_ids_fresh E s"
  shows "change_ids_fresh E s'"
proof -
  have old: "tc_id ` set (tier_changes s') \<subseteq> tc_id ` set (tier_changes s) \<union> (if r = None then {} else {uuid4 E (uuid_pos s)})"
    using assms(1) by (cases rule: update_cases) (auto simp: core_eq_iff)
  have later: "uuid_pos s \<le> uuid_pos s'" "r \<noteq> None \<Longrightarrow> uuid_pos s < uuid_pos s'"
    using update_uuid_pos [OF assms(1)] by auto
  have "uuid4 E i \<notin> tc_id ` set (tier_changes s')" if i: "uuid_pos s' \<le> i" for i
  proof
    assume "uuid4 E i \<in> tc_id ` set (tier_changes s')"
    then have "uuid4 E i \<in> tc_id ` set (tier_changes s) \<or> r \<noteq> None \<and> uuid4 E i = uuid4 E (uuid_pos s)"
      using old by (auto split: if_splits)
    then show False
    proof
      assume "uuid4 E i \<in> tc_id ` set (tier_changes s)"
      then show False using assms(2) later(1) i by (simp add: change_ids_fresh_def)
    next
      assume "r \<noteq> None \<and> uuid4 E i = uuid4 E (uuid_pos s)"
      then show False using assms(2) later(2) i by (auto simp: change_ids_fresh_def inj_eq)
    qed
  qed
  then show ?thesis using assms(2) by (simp add: change_ids_fresh_def)
qed

lemma refresh_experts_runs:
  assumes "change_ids_fresh E s" "distinct (map e_id es)" "\<forall>e \<in> set es. get_expert (e_id e) s \<noteq> None"
  shows "\<exists>moves' s'. refresh_experts E actor es (moves, uncal) s =
      (Inr (moves', uncal + length (filter (\<lambda>e. snd (score E (e_id e) s) < calibration_min_samples (cfg E)) es)), s') \<and>
    core (s'\<lparr>experts := experts s, tier_changes := tier_changes s\<rparr>) = core s \<and> trail_step s s' \<and>
    map e_id (experts s') = map e_id (experts s) \<and>
    length (tier_changes s') + length moves = length (tier_changes s) + length moves' \<and>
    (\<forall>e. e \<in> set es \<longrightarrow> (\<exists>x x'. get_expert (e_id e) s = Some x \<and> get_expert (e_id e) s' = Some x' \<and> tuned E s x x')) \<and>
    (\<forall>k. k \<notin> e_id ` set es \<longrightarrow> get_expert k s' = get_expert k s)"
  using assms
proof (induction es arbitrary: moves uncal s)
  case Nil
  then show ?case by simp
next
  case (Cons e es)
  let ?k = "e_id e"
  obtain x where x: "get_expert ?k s = Some x" using Cons.prems(3) by auto
  have "uuid4 E (uuid_pos s) \<notin> tc_id ` set (tier_changes s)" using Cons.prems(1) by (auto simp: change_ids_fresh_def)
  then obtain r s1 where up: "update E ?k actor s = (Inr r, s1)" using update_returns [OF x] by blast
  obtain x1 where x1: "get_expert ?k s1 = Some x1" "tuned E s x x1" using update_tunes(1) [OF up x] by blast
  note frame = update_frame [OF up] and other = update_get_other [OF up] and more = update_tunes(2) [OF up x]
  have same: "grades s1 = grades s" "reviews s1 = reviews s" "attention_results s1 = attention_results s"
    using frame(1) by (simp_all add: core_eq_iff)
  note sc = score_depends [OF same]
  have ids: "map e_id (experts s1) = map e_id (experts s)"
    using arg_cong [OF frame(3), of "map e_id"] by (simp add: comp_def)
  have known: "\<forall>e \<in> set es. get_expert (e_id e) s1 \<noteq> None"
  proof
    fix f assume f: "f \<in> set es"
    then have "e_id f \<in> e_id ` set es" by (rule imageI)
    then have "e_id f \<noteq> ?k" using Cons.prems(2) by (metis distinct.simps(2) list.simps(9) set_map)
    then show "get_expert (e_id f) s1 \<noteq> None" using other Cons.prems(3) f by simp
  qed
  have n: "e_calibration_samples x1 = snd (score E ?k s)"
  proof -
    have "e_id x = ?k" using row_of_SomeD [OF x] by simp
    then show ?thesis using x1(2) by (metis snd_conv tuned_def)
  qed
  let ?moves = "moves @ (case r of None \<Rightarrow> [] | Some c \<Rightarrow> [(e_name x1, tc_from_tier c, tc_to_tier c)])"
  let ?uncal = "if snd (score E ?k s) < calibration_min_samples (cfg E) then Suc uncal else uncal"
  have rec: "refresh_experts E actor (e # es) (moves, uncal) s = refresh_experts E actor es (?moves, ?uncal) s1"
    by (simp add: up x1 n)
  obtain moves' s' where IH: "refresh_experts E actor es (?moves, ?uncal) s1 =
      (Inr (moves', ?uncal + length (filter (\<lambda>e. snd (score E (e_id e) s1) < calibration_min_samples (cfg E)) es)), s')"
    "core (s'\<lparr>experts := experts s1, tier_changes := tier_changes s1\<rparr>) = core s1" "trail_step s1 s'"
    "map e_id (experts s') = map e_id (experts s1)"
    "length (tier_changes s') + length ?moves = length (tier_changes s1) + length moves'"
    "\<forall>e. e \<in> set es \<longrightarrow> (\<exists>x x'. get_expert (e_id e) s1 = Some x \<and> get_expert (e_id e) s' = Some x' \<and> tuned E s1 x x')"
    "\<forall>k. k \<notin> e_id ` set es \<longrightarrow> get_expert k s' = get_expert k s1"
    using Cons.IH [OF update_change_ids_fresh [OF up Cons.prems(1)] _ known, of ?moves ?uncal] Cons.prems(2) by auto
  have t: "tuned E s1 = tuned E s" by (intro ext) (simp add: tuned_def sc)
  show ?case
  proof (intro exI [of _ moves'] exI [of _ s'] conjI allI impI)
    show "refresh_experts E actor (e # es) (moves, uncal) s =
      (Inr (moves', uncal + length (filter (\<lambda>e. snd (score E (e_id e) s) < calibration_min_samples (cfg E)) (e # es))), s')"
      unfolding rec IH(1) by (simp add: sc)
    show "core (s'\<lparr>experts := experts s, tier_changes := tier_changes s\<rparr>) = core s"
      using IH(2) frame(1) by (simp add: core_eq_iff)
    show "trail_step s s'" using frame(2) IH(3) by (rule trail_step_trans)
    show "map e_id (experts s') = map e_id (experts s)" using IH(4) ids by simp
    show "length (tier_changes s') + length moves = length (tier_changes s) + length moves'"
      using IH(5) more by (cases r) simp_all
    show "\<exists>x x'. get_expert (e_id f) s = Some x \<and> get_expert (e_id f) s' = Some x' \<and> tuned E s x x'" if "f \<in> set (e # es)" for f
    proof (cases "f \<in> set es")
      case True
      then have "e_id f \<in> e_id ` set es" by (rule imageI)
      then have "e_id f \<noteq> ?k" using Cons.prems(2) by (metis distinct.simps(2) list.simps(9) set_map)
      then show ?thesis using IH(6) True other t by auto
    next
      case False
      then have "f = e" using that by simp
      moreover have "?k \<notin> e_id ` set es" using Cons.prems(2) by auto
      ultimately show ?thesis using IH(7) x x1 by auto
    qed
    show "get_expert k s' = get_expert k s" if "k \<notin> e_id ` set (e # es)" for k
      using that IH(7) other by auto
  qed
qed

lemma swept_experts: "experts (snd (reclaim_expired E s)) = experts s"
  "tier_changes (snd (reclaim_expired E s)) = tier_changes s" "uuid_pos (snd (reclaim_expired E s)) = uuid_pos s"
  "grades (snd (reclaim_expired E s)) = grades s" "reviews (snd (reclaim_expired E s)) = reviews s"
  "attention_results (snd (reclaim_expired E s)) = attention_results s"
  by (simp_all add: reclaim_expired_def now_utc_def)

lemma tick_runs:
  assumes "distinct (map e_id (experts s))" "change_ids_fresh E s"
  obtains moves uncal s1 s2 s3 report where "reclaim_expired E s = (tk_reclaimed report, s1)"
    "refresh_experts E actor (sort_key (\<lambda>e. collate E (e_name e)) (experts s1)) ([], 0) s1 = (Inr (moves, uncal), s2)"
    "tick E actor s = (Inr report, s3)" "core s3 = core s2" "trail_step s2 s3"
    "tk_tier_changes report = moves" "tk_uncalibrated_experts report = uncal" "tk_adjudication_backlog report = backlog s2"
    "tk_undelivered_approved report = undelivered_approved s2"
proof -
  obtain n s1 where s1: "reclaim_expired E s = (n, s1)" by fastforce
  define es where "es = sort_key (\<lambda>e. collate E (e_name e)) (experts s1)"
  have ex: "experts s1 = experts s" "tier_changes s1 = tier_changes s" "uuid_pos s1 = uuid_pos s"
    using swept_experts [of E s] by (simp_all add: s1)
  have "mset (map e_id es) = mset (map e_id (experts s))" by (simp add: es_def ex)
  then have d: "distinct (map e_id es)" using assms(1) mset_eq_imp_distinct_iff by blast
  have f: "change_ids_fresh E s1" using assms(2) by (simp add: change_ids_fresh_def ex)
  have k: "\<forall>e \<in> set es. get_expert (e_id e) s1 \<noteq> None" by (auto simp: es_def row_of_None_iff simp del: not_None_eq)
  obtain moves uncal s2 where s2: "refresh_experts E actor es ([], 0) s1 = (Inr (moves, uncal), s2)"
    using refresh_experts_runs [OF f d k, of actor "[]" 0] by (elim exE conjE) (rule that)
  let ?p = "period_status_of s2"
  let ?r = "record_event actor ''ops.tick'' ''system'' ''tick'' [(''reclaimed'', JInt n), (''tier_changes'', JInt (int (length moves)))] s2"
  obtain age s4 where s4: "days_since E (ps_last_closed_at ?p) ?r = (age, s4)" by fastforce
  obtain remarks s5 where s5: "reminders E uncal ?p (backlog s2) (rejected_twice s2) (undelivered_approved s2) s4 = (remarks, s5)"
    by fastforce
  have run: "tick E actor s = (Inr \<lparr>tk_reclaimed = n, tk_experts_scored = int (length es), tk_tier_changes = moves,
                tk_uncalibrated_experts = uncal, tk_adjudication_backlog = backlog s2,
                tk_unbilled_payouts = ps_unbilled_payouts ?p, tk_unbilled_cents = ps_unbilled_cents ?p,
                tk_days_since_period_close = map_option (\<lambda>d. of_int (py_round (d * 100)) / 100) age,
                tk_rejected_twice = rejected_twice s2, tk_undelivered_approved = undelivered_approved s2, tk_reminders = remarks\<rparr>, s5)"
  proof -
    have "length (experts s1) = length es" by (simp add: es_def)
    then show ?thesis by (simp add: tick_def s1 es_def [symmetric] s2 s4 s5 Let_def)
  qed
  have c: "core s5 = core s2" "trail_step s2 s5"
    using days_since_core [OF s4] reminders_core [OF s5] by (auto intro: trail_step_trans trail_step_record_event trail_step_refl)
  show thesis by (rule that [OF _ _ run c]) (use s1 s2 in \<open>simp_all add: es_def\<close>)
qed

text \<open>
  C29: a tick always returns and leaves the service in order. When experts have distinct identifiers and
  the identifiers still to be drawn are new, the tick reports how many leases had run out at its reading
  of the clock and none of them is left; every expert then has the rate and the number of the signals
  on record, moved by at most one tier, the reported moves are the new tier changes, and the report counts
  the experts short of signals. No grade, review, round or payout changes.
\<close>
theorem tick_leaves_order:
  assumes "distinct (map e_id (experts s))" "change_ids_fresh E s"
  shows "\<exists>report s'. tick E actor s = (Inr report, s') \<and>
    tk_reclaimed report = row_count (lease_expired (clock E (clock_pos s))) (tasks s) \<and>
    (\<forall>t \<in> set (tasks s'). \<not> lease_expired (clock E (clock_pos s)) t) \<and>
    (\<forall>k e. get_expert k s = Some e \<longrightarrow> (\<exists>e'. get_expert k s' = Some e' \<and> tuned E s e e')) \<and>
    length (tier_changes s') = length (tier_changes s) + length (tk_tier_changes report) \<and>
    tk_uncalibrated_experts report = length (filter (\<lambda>e. snd (score E (e_id e) s) < calibration_min_samples (cfg E)) (experts s)) \<and>
    grades s' = grades s \<and> reviews s' = reviews s \<and> consensuses s' = consensuses s \<and> payouts s' = payouts s"
proof -
  obtain moves uncal s1 s2 s3 report where r: "reclaim_expired E s = (tk_reclaimed report, s1)"
    "refresh_experts E actor (sort_key (\<lambda>e. collate E (e_name e)) (experts s1)) ([], 0) s1 = (Inr (moves, uncal), s2)"
    "tick E actor s = (Inr report, s3)" "core s3 = core s2"
    "tk_tier_changes report = moves" "tk_uncalibrated_experts report = uncal"
    by (rule tick_runs [OF assms, of actor])
  define es where "es = sort_key (\<lambda>e. collate E (e_name e)) (experts s1)"
  have ex: "experts s1 = experts s" "tier_changes s1 = tier_changes s" "uuid_pos s1 = uuid_pos s"
    "grades s1 = grades s" "reviews s1 = reviews s" "attention_results s1 = attention_results s"
    using swept_experts [of E s] by (simp_all add: r(1))
  have rest: "consensuses s1 = consensuses s" "payouts s1 = payouts s"
    "tk_reclaimed report = row_count (lease_expired (clock E (clock_pos s))) (tasks s)"
    "tasks s1 = update_where (lease_expired (clock E (clock_pos s))) reclaimed (tasks s)"
    using r(1) by (auto simp: reclaim_expired_def now_utc_def)
  have m: "mset es = mset (experts s)" by (simp add: es_def ex)
  then have d: "distinct (map e_id es)" using assms(1) by (metis mset_eq_imp_distinct_iff mset_map)
  have f: "change_ids_fresh E s1" using assms(2) by (simp add: change_ids_fresh_def ex)
  have k: "\<forall>e \<in> set es. get_expert (e_id e) s1 \<noteq> None" by (auto simp: es_def row_of_None_iff simp del: not_None_eq)
  note sc = score_depends [OF ex(4-6)]
  have t: "tuned E s1 = tuned E s" by (intro ext) (simp add: tuned_def sc)
  note run = refresh_experts_runs [OF f d k, of actor "[]" 0]
  have fr: "uncal = length (filter (\<lambda>e. snd (score E (e_id e) s) < calibration_min_samples (cfg E)) es)"
    "core (s2\<lparr>experts := experts s1, tier_changes := tier_changes s1\<rparr>) = core s1"
    "length (tier_changes s2) = length (tier_changes s) + length moves"
    and tuned_all: "\<forall>e. e \<in> set es \<longrightarrow> (\<exists>x x'. get_expert (e_id e) s = Some x \<and> get_expert (e_id e) s2 = Some x' \<and> tuned E s x x')"
    using run r(2) [folded es_def] by (simp_all add: sc t ex(1,2))
  have tasks: "tasks s3 = update_where (lease_expired (clock E (clock_pos s))) reclaimed (tasks s)"
    using fr(2) r(4) rest(4) by (simp add: core_eq_iff)
  have swept: "\<not> lease_expired (clock E (clock_pos s)) t" if "t \<in> set (tasks s3)" for t
    using that unfolding tasks by (auto elim!: in_update_whereE simp: lease_expired_def reclaimed_def unassigned_def)
  have each: "\<exists>e'. get_expert k s3 = Some e' \<and> tuned E s e e'" if "get_expert k s = Some e" for k e
  proof -
    have "e \<in> set es" "e_id e = k" using row_of_SomeD [OF that] by (simp_all add: es_def ex)
    then show ?thesis using tuned_all that r(4) by (auto simp: core_eq_iff)
  qed
  have "length (filter P es) = length (filter P (experts s))" for P
    using arg_cong [OF m, of "\<lambda>M. size (filter_mset P M)"] by (simp flip: mset_filter)
  then show ?thesis
    using r(3-6) fr rest swept each ex by (intro exI [of _ report] exI [of _ s3]) (simp add: core_eq_iff)
qed

theorem tick_leaves_order_witness:
  "\<exists>report s'. tick sample_env ''system:tick'' sample_expired_db = (Inr report, s') \<and> tk_reclaimed report = 1 \<and>
     tk_uncalibrated_experts report = 3"
proof -
  have ids: "distinct (map e_id (experts sample_expired_db))"
    by (simp add: sample_expired_db_def sample_defs)
  have fresh: "change_ids_fresh sample_env sample_expired_db"
    by (simp add: change_ids_fresh_def sample_expired_db_def sample_defs inj_def)
  have n: "row_count (lease_expired (clock sample_env (clock_pos sample_expired_db))) (tasks sample_expired_db) = 1"
    by (simp add: sample_expired_db_def sample_defs lease_expired_def seconds_def)
  have "snd (score sample_env k sample_expired_db) = 0" for k
    by (simp add: score_def signals_def review_signals_def check_signals_def newest_first_def sample_expired_db_def sample_defs)
  then have "length (filter (\<lambda>e. snd (score sample_env (e_id e) sample_expired_db) < calibration_min_samples (cfg sample_env))
      (experts sample_expired_db)) = 3"
    by (simp add: sample_settings) (simp add: sample_expired_db_def sample_defs)
  with tick_leaves_order [OF ids fresh, of "''system:tick''"] n show ?thesis by auto
qed

end
