(* ===== verification/Analytics.thy ===== *)
theory Analytics
  imports Ops
begin

text \<open>
  \<open>panelist/services/analytics.py\<close>: aggregates over the normalized rubric scores. Each query is the list
  of the rows its joins produce; a rate over no rows is absent. The square root behind the sample
  deviation of a criterion is an argument.
\<close>

section \<open>Rows of scores\<close>

text \<open>An aggregate over no rows is \<open>None\<close>.\<close>

definition rate_over :: "rat \<Rightarrow> nat \<Rightarrow> rat option" where
  "rate_over x n = (if n \<noteq> 0 then Some (x / of_nat n) else None)"

definition avg :: "rat list \<Rightarrow> rat option" where
  "avg xs = rate_over (sum_list xs) (length xs)"

definition var_samp :: "rat list \<Rightarrow> rat option" where
  "var_samp xs = (if 2 \<le> length xs
     then Some (sum_list (map (\<lambda>x. (x - mean xs) ^ 2) xs) / of_nat (length xs - 1)) else None)"

record criterion_stat =
  cs_rubric_id :: uuid
  cs_rubric_name :: string
  cs_rubric_version :: int
  cs_criterion_key :: string
  cs_mean :: rat
  cs_stddev :: "rat option"
  cs_n :: nat

definition scores_on :: "uuid \<Rightarrow> db \<Rightarrow> rat list" where
  "scores_on cid s = map gs_score (filter (\<lambda>x. gs_criterion_id x = cid) (concat (map g_scores (grades s))))"

definition criterion_means :: "env \<Rightarrow> (rat \<Rightarrow> rat) \<Rightarrow> uuid option \<Rightarrow> db \<Rightarrow> criterion_stat list" where
  "criterion_means E sqrt_of rid s =
    (let rows = concat (map (\<lambda>r. map (Pair r) (filter (\<lambda>c. scores_on (c_id c) s \<noteq> []) (r_criteria r)))
           (filter (\<lambda>r. case rid of None \<Rightarrow> True | Some k \<Rightarrow> r_id r = k) (rubrics s)))
     in map (\<lambda>(r, c). let xs = scores_on (c_id c) s in
              \<lparr>cs_rubric_id = r_id r, cs_rubric_name = r_name r, cs_rubric_version = r_version r,
               cs_criterion_key = c_key c, cs_mean = mean xs, cs_stddev = map_option sqrt_of (var_samp xs), cs_n = length xs\<rparr>)
          (sort_key (\<lambda>(r, c). (collate E (r_name r), r_version r, c_position c)) rows))"

section \<open>Agreement\<close>

record agreement =
  ag_expert_a :: uuid
  ag_expert_b :: uuid
  ag_shared_tasks :: nat
  ag_compared_scores :: nat
  ag_exact_agreement :: "rat option"
  ag_mean_abs_diff :: "rat option"
  ag_within_one :: "rat option"

text \<open>The scores two grades give the same criterion.\<close>

definition score_pairs :: "grade \<Rightarrow> grade \<Rightarrow> (rat \<times> rat) list" where
  "score_pairs ga gb = map (\<lambda>(x, y). (gs_score x, gs_score y))
     (filter (\<lambda>(x, y). gs_criterion_id y = gs_criterion_id x) (List.product (g_scores ga) (g_scores gb)))"

definition shared_rows :: "uuid \<Rightarrow> uuid \<Rightarrow> db \<Rightarrow> (uuid \<times> rat \<times> rat) list" where
  "shared_rows a b s = concat (map (\<lambda>(ga, gb). map (Pair (g_task_id ga)) (score_pairs ga gb))
     (filter (\<lambda>(ga, gb). g_expert_id ga = a \<and> g_expert_id gb = b \<and> g_task_id gb = g_task_id ga)
       (List.product (grades s) (grades s))))"

definition share_of :: "(rat \<Rightarrow> bool) \<Rightarrow> rat list \<Rightarrow> rat option" where
  "share_of p xs = rate_over (of_nat (length (filter p xs))) (length xs)"

definition pair_agreement :: "uuid \<Rightarrow> uuid \<Rightarrow> db \<Rightarrow> agreement" where
  "pair_agreement a b s =
    (let rows = shared_rows a b s;
         diffs = map (\<lambda>(_, x, y). \<bar>x - y\<bar>) rows
     in \<lparr>ag_expert_a = a, ag_expert_b = b, ag_shared_tasks = card (fst ` set rows), ag_compared_scores = length diffs,
         ag_exact_agreement = share_of (\<lambda>d. d = 0) diffs, ag_mean_abs_diff = avg diffs,
         ag_within_one = share_of (\<lambda>d. d \<le> 1) diffs\<rparr>)"

text \<open>A dict written in order: a known key keeps its place.\<close>

definition dict_set :: "'k \<Rightarrow> 'v \<Rightarrow> ('k \<times> 'v) list \<Rightarrow> ('k \<times> 'v) list" where
  "dict_set k v d = (if k \<in> fst ` set d then map (\<lambda>(k', v'). if k' = k then (k, v) else (k', v')) d else d @ [(k, v)])"

definition dict_get :: "'v \<Rightarrow> 'k \<Rightarrow> ('k \<times> 'v) list \<Rightarrow> 'v" where
  "dict_get v k d = (case map_of d k of None \<Rightarrow> v | Some x \<Rightarrow> x)"

fun combinations2 :: "'a list \<Rightarrow> ('a \<times> 'a) list" where
  "combinations2 [] = []"
| "combinations2 (x # xs) = map (Pair x) xs @ combinations2 xs"

record criterion_scores =
  cr_scores :: "(uuid \<times> rat) list"
  cr_mean :: rat
  cr_range :: rat

record task_agreement_view =
  ta_task_id :: uuid
  ta_grades :: nat
  ta_criteria :: "(string \<times> criterion_scores) list"
  ta_mean_pairwise_abs_diff :: "rat option"

definition task_rows :: "uuid \<Rightarrow> db \<Rightarrow> (uuid \<times> string \<times> rat) list" where
  "task_rows tid s = concat (map (\<lambda>g. concat (map (\<lambda>x. concat (map (\<lambda>c.
       if c_id c = gs_criterion_id x then [(g_expert_id g, c_key c, gs_score x)] else [])
       (concat (map r_criteria (rubrics s))))) (g_scores g)))
     (filter (\<lambda>g. g_task_id g = tid) (grades s)))"

definition by_criterion :: "(uuid \<times> string \<times> rat) list \<Rightarrow> (string \<times> (uuid \<times> rat) list) list" where
  "by_criterion rows = fold (\<lambda>(e, key, v) d. dict_set key (dict_set e v (dict_get [] key d)) d) rows []"

definition pair_diffs :: "rat list \<Rightarrow> rat list" where
  "pair_diffs values = map (\<lambda>(x, y). \<bar>x - y\<bar>) (combinations2 values)"

definition task_agreement :: "uuid \<Rightarrow> db \<Rightarrow> task_agreement_view" where
  "task_agreement tid s =
    (let rows = task_rows tid s;
         grouped = by_criterion rows
     in \<lparr>ta_task_id = tid, ta_grades = card (fst ` set rows),
         ta_criteria = map (\<lambda>(key, scores). (key, let values = map snd scores in
            \<lparr>cr_scores = scores, cr_mean = mean values, cr_range = max_of values - min_of values\<rparr>)) grouped,
         ta_mean_pairwise_abs_diff = avg (concat (map (\<lambda>(_, scores). pair_diffs (map snd scores)) grouped))\<rparr>)"

record global_view =
  ga_multi_graded_tasks :: nat
  ga_compared_pairs :: nat
  ga_mean_abs_diff :: "rat option"
  ga_exact_agreement :: "rat option"
  ga_within_one :: "rat option"

definition global_rows :: "db \<Rightarrow> (uuid \<times> rat \<times> rat) list" where
  "global_rows s = concat (map (\<lambda>(ga, gb). map (Pair (g_task_id ga)) (score_pairs ga gb))
     (filter (\<lambda>(ga, gb). g_task_id gb = g_task_id ga \<and> g_id gb < g_id ga \<and>
         (\<exists>t \<in> set (tasks s). t_id t = g_task_id ga \<and> \<not> t_is_attention_check t))
       (List.product (grades s) (grades s))))"

definition global_agreement :: "db \<Rightarrow> global_view" where
  "global_agreement s =
    (let rows = global_rows s;
         diffs = map (\<lambda>(_, x, y). \<bar>x - y\<bar>) rows
     in \<lparr>ga_multi_graded_tasks = card (fst ` set rows), ga_compared_pairs = length diffs,
         ga_mean_abs_diff = avg diffs, ga_exact_agreement = share_of (\<lambda>d. d = 0) diffs,
         ga_within_one = share_of (\<lambda>d. d \<le> 1) diffs\<rparr>)"

section \<open>The record of one expert\<close>

record reliability =
  re_expert_id :: uuid
  re_grades_total :: int
  re_grades_approved :: int
  re_grades_rejected :: int
  re_approval_rate :: "rat option"
  re_attention_pass_rate :: "rat option"
  re_deviation :: "rat option"

definition decisions_on :: "uuid \<Rightarrow> review_decision \<Rightarrow> db \<Rightarrow> int" where
  "decisions_on eid d s = row_count
     (\<lambda>(g, r). g_expert_id g = eid \<and> rv_grade_id r = g_id g \<and> rv_decision r = d) (List.product (grades s) (reviews s))"

definition others_on :: "uuid \<Rightarrow> uuid \<Rightarrow> uuid \<Rightarrow> db \<Rightarrow> rat list" where
  "others_on eid tid cid s = concat (map (\<lambda>g. map gs_score (filter (\<lambda>x. gs_criterion_id x = cid) (g_scores g)))
     (filter (\<lambda>g. g_expert_id g \<noteq> eid \<and> g_task_id g = tid) (grades s)))"

definition expert_reliability :: "uuid \<Rightarrow> db \<Rightarrow> reliability" where
  "expert_reliability eid s =
    (let approved = decisions_on eid Approve s;
         rejected = decisions_on eid Reject s;
         checks = filter (\<lambda>a. ar_expert_id a = eid) (attention_results s);
         devs = concat (map (\<lambda>g. concat (map (\<lambda>x.
                   case avg (others_on eid (g_task_id g) (gs_criterion_id x) s) of
                     None \<Rightarrow> [] | Some m \<Rightarrow> [\<bar>gs_score x - m\<bar>]) (g_scores g)))
                  (filter (\<lambda>g. g_expert_id g = eid) (grades s)))
     in \<lparr>re_expert_id = eid, re_grades_total = row_count (\<lambda>g. g_expert_id g = eid) (grades s),
         re_grades_approved = approved, re_grades_rejected = rejected,
         re_approval_rate = rate_over (of_int approved) (nat (approved + rejected)),
         re_attention_pass_rate = rate_over (of_nat (length (filter ar_passed checks))) (length checks),
         re_deviation = avg devs\<rparr>)"

section \<open>Lemmas\<close>

lemma share_of_mono: "share_of p xs = Some u \<Longrightarrow> share_of q xs = Some v \<Longrightarrow> (\<And>x. p x \<Longrightarrow> q x) \<Longrightarrow> u \<le> v"
proof -
  assume u: "share_of p xs = Some u" and v: "share_of q xs = Some v" and pq: "\<And>x. p x \<Longrightarrow> q x"
  have "length (filter p xs) \<le> length (filter q xs)"
    using pq by (induction xs) auto
  then have "(of_nat (length (filter p xs)) :: rat) \<le> of_nat (length (filter q xs))" by simp
  then show ?thesis using u v by (auto simp: share_of_def rate_over_def divide_right_mono split: if_splits)
qed

lemma share_of_le_1: "share_of p xs = Some u \<Longrightarrow> 0 \<le> u \<and> u \<le> 1"
  by (auto simp: share_of_def rate_over_def divide_le_eq_1 split: if_splits)

lemma share_of_eq_1: "share_of p xs = Some u \<Longrightarrow> u = 1 \<longleftrightarrow> (\<forall>x \<in> set xs. p x)"
proof -
  assume u: "share_of p xs = Some u"
  then have xs: "xs \<noteq> []" "u = of_nat (length (filter p xs)) / of_nat (length xs)"
    by (auto simp: share_of_def rate_over_def split: if_splits)
  then have "u = 1 \<longleftrightarrow> length (filter p xs) = length xs" by auto
  also have "\<dots> \<longleftrightarrow> (\<forall>x \<in> set xs. p x)"
    by (metis filter_id_conv length_filter_less less_irrefl)
  finally show ?thesis .
qed

lemma rate_over_None [simp]: "rate_over x n = None \<longleftrightarrow> n = 0"
  by (simp add: rate_over_def)

text \<open>Swapping the two experts swaps every compared pair.\<close>

lemma mset_product_Cons: "mset (List.product ys (x # xs)) = mset (map (\<lambda>y. (y, x)) ys) + mset (List.product ys xs)"
  by (induction ys) auto

lemma mset_product_swap: "mset (List.product ys xs) = mset (map prod.swap (List.product xs ys))"
proof (induction xs)
  case Nil
  then show ?case by (induction ys) auto
next
  case (Cons x xs)
  then show ?case by (simp add: mset_product_Cons comp_def)
qed

lemma mset_concat_cong: "mset zs = mset zs' \<Longrightarrow> mset (concat (map f zs)) = mset (concat (map f zs'))"
proof -
  assume "mset zs = mset zs'"
  then have "sum_mset (image_mset (\<lambda>z. mset (f z)) (mset zs)) = sum_mset (image_mset (\<lambda>z. mset (f z)) (mset zs'))" by simp
  moreover have "mset (concat (map f us)) = sum_mset (image_mset (\<lambda>z. mset (f z)) (mset us))" for us
    by (induction us) auto
  ultimately show ?thesis by simp
qed

lemma mset_filter_map: "mset (filter p (map f xs)) = image_mset f (mset (filter (p \<circ> f) xs))"
  by (simp add: filter_map comp_def)

lemma score_pairs_swap: "mset (score_pairs gb ga) = mset (map prod.swap (score_pairs ga gb))"
proof -
  have "mset (score_pairs gb ga) = image_mset (\<lambda>(x, y). (gs_score x, gs_score y))
      (filter_mset (\<lambda>(x, y). gs_criterion_id y = gs_criterion_id x) (mset (List.product (g_scores gb) (g_scores ga))))"
    by (simp add: score_pairs_def)
  also have "\<dots> = mset (map prod.swap (score_pairs ga gb))"
    unfolding mset_product_swap [of "g_scores gb"]
    by (simp add: score_pairs_def filter_mset_image_mset comp_def split_def eq_commute image_mset.compositionality)
  finally show ?thesis .
qed

lemma concat_map_mset: "(\<And>z. z \<in> set zs \<Longrightarrow> mset (f z) = mset (g z)) \<Longrightarrow> mset (concat (map f zs)) = mset (concat (map g zs))"
  by (induction zs) auto

definition swapped :: "uuid \<times> rat \<times> rat \<Rightarrow> uuid \<times> rat \<times> rat" where
  "swapped = (\<lambda>(t, x, y). (t, y, x))"

lemma shared_rows_swap: "mset (shared_rows b a s) = mset (map swapped (shared_rows a b s))"
proof -
  let ?both = "\<lambda>(ga, gb). g_expert_id ga = a \<and> g_expert_id gb = b \<and> g_task_id gb = g_task_id ga"
  let ?rows = "\<lambda>(ga, gb). map (Pair (g_task_id ga)) (score_pairs ga gb)"
  let ?zs = "filter ?both (List.product (grades s) (grades s))"
  have flipped: "filter (\<lambda>(ga, gb). g_expert_id ga = b \<and> g_expert_id gb = a \<and> g_task_id gb = g_task_id ga)
      (map prod.swap (List.product (grades s) (grades s))) = map prod.swap ?zs"
    by (simp add: filter_map comp_def split_def) (rule filter_cong, auto)
  have "mset (filter p (List.product (grades s) (grades s))) =
      mset (filter p (map prod.swap (List.product (grades s) (grades s))))" for p
    using mset_product_swap [of "grades s" "grades s"] by (simp only: mset_filter)
  note perm = this
  have "mset (filter (\<lambda>(ga, gb). g_expert_id ga = b \<and> g_expert_id gb = a \<and> g_task_id gb = g_task_id ga)
      (List.product (grades s) (grades s))) = mset (map prod.swap ?zs)"
    by (rule trans [OF perm]) (simp only: flipped)
  then have "mset (shared_rows b a s) = mset (concat (map ?rows (map prod.swap ?zs)))"
    unfolding shared_rows_def by (rule mset_concat_cong)
  also have "map ?rows (map prod.swap ?zs) = map (\<lambda>z. ?rows (prod.swap z)) ?zs" by simp
  also have "mset (concat (map (\<lambda>z. ?rows (prod.swap z)) ?zs)) = mset (concat (map (\<lambda>z. map swapped (?rows z)) ?zs))"
  proof (rule concat_map_mset)
    fix z assume sel: "z \<in> set ?zs"
    obtain ga gb where pair: "z = (ga, gb)" by fastforce
    with sel have z: "z = (ga, gb)" "g_task_id gb = g_task_id ga" by simp_all
    have "mset (?rows (prod.swap z)) = image_mset (Pair (g_task_id ga)) (mset (score_pairs gb ga))" by (simp add: z)
    also have "\<dots> = mset (map swapped (?rows z))"
      unfolding score_pairs_swap [of gb ga] by (simp add: z swapped_def comp_def image_mset.compositionality split_def prod.swap_def)
    finally show "mset (?rows (prod.swap z)) = mset (map swapped (?rows z))" .
  qed
  also have "concat (map (\<lambda>z. map swapped (?rows z)) ?zs) = map swapped (shared_rows a b s)"
    by (simp add: shared_rows_def map_concat comp_def)
  finally show ?thesis .
qed

section \<open>Properties\<close>

text \<open>
  Agreement is symmetric. Asking for the agreement of two experts in either order compares the same
  tasks and scores and gives the same three rates.
\<close>
theorem pair_agreement_symmetric:
  "pair_agreement b a s = (pair_agreement a b s)\<lparr>ag_expert_a := b, ag_expert_b := a\<rparr>"
proof -
  note sw = shared_rows_swap [of b a s]
  let ?d = "\<lambda>(_, x, y). \<bar>x - y\<bar> :: rat"
  have "mset (map ?d (shared_rows b a s)) = image_mset ?d (mset (map swapped (shared_rows a b s)))"
    by (simp add: sw)
  also have "\<dots> = mset (map ?d (shared_rows a b s))"
    by (auto simp: swapped_def image_mset.compositionality comp_def split_def abs_minus_commute)
  finally have d: "mset (map ?d (shared_rows b a s)) = mset (map ?d (shared_rows a b s))" .
  have len: "length (map ?d (shared_rows b a s)) = length (map ?d (shared_rows a b s))"
    using mset_eq_length [OF d] .
  have sums: "sum_list (map ?d (shared_rows b a s)) = sum_list (map ?d (shared_rows a b s))"
    using d by (metis sum_mset_sum_list)
  have share: "share_of p (map ?d (shared_rows b a s)) = share_of p (map ?d (shared_rows a b s))" for p
    unfolding share_of_def len using d by (metis mset_filter size_mset)
  have "set (shared_rows b a s) = swapped ` set (shared_rows a b s)"
    using arg_cong [OF sw, of set_mset] by simp
  then have "fst ` set (shared_rows b a s) = fst ` set (shared_rows a b s)"
    by (auto simp: swapped_def image_image split_def)
  then show ?thesis
    unfolding pair_agreement_def Let_def by (simp only: len sums share avg_def) simp
qed

text \<open>
  The rates of the agreement reports make sense. Over all tasks graded more than once, the three
  rates are present exactly when some pair of scores was compared; exact agreement is at most agreement
  within one, both lie between zero and one, and the mean difference is zero exactly when every compared
  pair agrees.
\<close>
theorem global_agreement_rates:
  "case (ga_exact_agreement (global_agreement s), ga_within_one (global_agreement s), ga_mean_abs_diff (global_agreement s)) of
     (Some e, Some w, Some m) \<Rightarrow> ga_compared_pairs (global_agreement s) \<noteq> 0 \<and> 0 \<le> e \<and> e \<le> w \<and> w \<le> 1 \<and> 0 \<le> m \<and>
        ((m = 0) = (e = 1))
   | (None, None, None) \<Rightarrow> ga_compared_pairs (global_agreement s) = 0
   | _ \<Rightarrow> False"
proof -
  let ?diffs = "map (\<lambda>(_, x, y). \<bar>x - y\<bar>) (global_rows s) :: rat list"
  have nonneg: "\<forall>d \<in> set ?diffs. 0 \<le> d" by auto
  have g: "ga_exact_agreement (global_agreement s) = share_of (\<lambda>d. d = 0) ?diffs"
    "ga_within_one (global_agreement s) = share_of (\<lambda>d. d \<le> 1) ?diffs"
    "ga_mean_abs_diff (global_agreement s) = avg ?diffs" "ga_compared_pairs (global_agreement s) = length ?diffs"
    by (simp_all only: global_agreement_def Let_def global_view.simps)
  show ?thesis
  proof (cases "?diffs = []")
    case True
    then show ?thesis unfolding g by (simp add: share_of_def avg_def rate_over_def)
  next
    case False
    obtain e where e: "share_of (\<lambda>d. d = 0) ?diffs = Some e" using False by (auto simp: share_of_def rate_over_def)
    obtain w where w: "share_of (\<lambda>d. d \<le> 1) ?diffs = Some w" using False by (auto simp: share_of_def rate_over_def)
    have "e \<le> w" by (rule share_of_mono [OF e w]) simp
    moreover have m: "avg ?diffs = Some (sum_list ?diffs / of_nat (length ?diffs))" "0 \<le> sum_list ?diffs"
      using False nonneg by (auto simp: avg_def rate_over_def intro!: sum_list_nonneg)
    moreover have "sum_list ?diffs = 0 \<longleftrightarrow> (\<forall>d \<in> set ?diffs. d = 0)"
      using sum_list_nonneg_eq_0_iff [of ?diffs] nonneg by simp
    moreover have "e = 1 \<longleftrightarrow> (\<forall>d \<in> set ?diffs. d = 0)" by (rule share_of_eq_1 [OF e])
    ultimately show ?thesis
      unfolding g using e w False share_of_le_1 [OF e] share_of_le_1 [OF w] by (simp del: length_map)
  qed
qed

end
