(* ===== verification/Textio.thy ===== *)
theory Textio
  imports Pytext
begin

text \<open>
  The two text formats the service writes: JSON as \<open>json.dumps(value, sort_keys=True,
  separators=(",", ":"))\<close> and CSV as \<open>csv.writer\<close> with its default dialect. The shortest decimal text of
  a float, Python's \<open>repr\<close>, is a parameter. A reader of CSV is defined beside the writer, to state what a
  consumer gets back.
\<close>

section \<open>JSON\<close>

definition printable :: "char \<Rightarrow> bool" where
  "printable c \<longleftrightarrow> 32 \<le> (of_char c :: nat) \<and> (of_char c :: nat) \<le> 126"

definition escape_char :: "char \<Rightarrow> string" where
  "escape_char c =
    (if c = CHR 0x5C then [CHR 0x5C, CHR 0x5C]
     else if c = CHR 0x22 then [CHR 0x5C, CHR 0x22]
     else if c = CHR 0x0A then CHR 0x5C # ''n''
     else if c = CHR 0x0D then CHR 0x5C # ''r''
     else if c = CHR 0x09 then CHR 0x5C # ''t''
     else if c = CHR 0x08 then CHR 0x5C # ''b''
     else if c = CHR 0x0C then CHR 0x5C # ''f''
     else if printable c then [c]
     else CHR 0x5C # ''u'' @ hex_digits 4 (of_char c))"

definition json_string :: "string \<Rightarrow> string" where
  "json_string s = [CHR 0x22] @ concat (map escape_char s) @ [CHR 0x22]"

definition join :: "string \<Rightarrow> string list \<Rightarrow> string" where
  "join sep parts = (case parts of [] \<Rightarrow> [] | p # rest \<Rightarrow> p @ concat (map (\<lambda>q. sep @ q) rest))"

fun dumps :: "(rat \<Rightarrow> string) \<Rightarrow> json \<Rightarrow> string" where
  "dumps F JNull = ''null''"
| "dumps F (JBool b) = (if b then ''true'' else ''false'')"
| "dumps F (JInt n) = str_int n"
| "dumps F (JFloat x) = F x"
| "dumps F (JStr s) = json_string s"
| "dumps F (JList js) = ''['' @ join '','' (map (dumps F) js) @ '']''"
| "dumps F (JObj kvs) = ''{'' @ join '','' (map (\<lambda>(k, text). json_string k @ '':'' @ text)
     (sort_key fst (map (\<lambda>(k, j). (k, dumps F j)) kvs))) @ ''}''"

text \<open>\<open>json.dumps(value, sort_keys=True)\<close> with the default separators.\<close>

fun spaced_dumps :: "(rat \<Rightarrow> string) \<Rightarrow> json \<Rightarrow> string" where
  "spaced_dumps F JNull = ''null''"
| "spaced_dumps F (JBool b) = (if b then ''true'' else ''false'')"
| "spaced_dumps F (JInt n) = str_int n"
| "spaced_dumps F (JFloat x) = F x"
| "spaced_dumps F (JStr s) = json_string s"
| "spaced_dumps F (JList js) = ''['' @ join '', '' (map (spaced_dumps F) js) @ '']''"
| "spaced_dumps F (JObj kvs) = ''{'' @ join '', '' (map (\<lambda>(k, text). json_string k @ '': '' @ text)
     (sort_key fst (map (\<lambda>(k, j). (k, spaced_dumps F j)) kvs))) @ ''}''"

lemma printable_digit: "digit_char c \<Longrightarrow> printable c"
  by (simp add: digit_char_def printable_def)

lemma printable_hex_digit: "d < 16 \<Longrightarrow> printable (hex_digit d)"
  by (simp add: hex_digit_def printable_def)

lemma printable_hex_digits: "c \<in> set (hex_digits w n) \<Longrightarrow> printable c"
  by (induction w arbitrary: n) (auto simp: printable_hex_digit)

lemma printable_str_int: "c \<in> set (str_int n) \<Longrightarrow> printable c"
  by (auto simp: str_int_def dest!: nat_digits_chars printable_digit split: if_splits) (simp_all add: printable_def)

lemma printable_join:
  assumes "\<And>c. c \<in> set sep \<Longrightarrow> printable c" "\<And>p c. p \<in> set parts \<Longrightarrow> c \<in> set p \<Longrightarrow> printable c"
    "c \<in> set (join sep parts)"
  shows "printable c"
  using assms by (cases parts) (auto simp: join_def split: if_splits)

lemma printable_escape: "c \<in> set (escape_char d) \<Longrightarrow> printable c"
  by (auto simp: escape_char_def printable_hex_digits split: if_splits) (simp_all add: printable_def)

lemma printable_json_string: "c \<in> set (json_string s) \<Longrightarrow> printable c"
  by (auto simp: json_string_def printable_escape) (simp_all add: printable_def)

lemma printable_dumps:
  "(\<And>x c. c \<in> set (F x) \<Longrightarrow> printable c) \<Longrightarrow> c \<in> set (dumps F j) \<Longrightarrow> printable c"
proof (induction F j arbitrary: c rule: dumps.induct)
  case (4 F x)
  then show ?case by simp
next
  case (6 F js)
  have "printable c" if "c \<in> set (join '','' (map (dumps F) js))"
    by (rule printable_join [OF _ _ that]) (use 6 in \<open>auto simp: printable_def\<close>)
  with 6 show ?case by (auto simp: printable_def)
next
  case (7 F kvs)
  have "printable d" if "p \<in> set (map (\<lambda>(k, text). json_string k @ '':'' @ text) (sort_key fst (map (\<lambda>(k, j). (k, dumps F j)) kvs)))"
    "d \<in> set p" for p d
  proof -
    from that obtain k j where kj: "(k, j) \<in> set kvs" "d \<in> set (json_string k) \<or> d = CHR '':'' \<or> d \<in> set (dumps F j)"
      by auto
    have "printable d" if "d \<in> set (dumps F j)" using 7 kj(1) that by blast
    with kj(2) show ?thesis using printable_json_string by (auto simp: printable_def)
  qed
  then have "printable c" if "c \<in> set (join '','' (map (\<lambda>(k, text). json_string k @ '':'' @ text)
     (sort_key fst (map (\<lambda>(k, j). (k, dumps F j)) kvs))))"
    by (rule printable_join [OF _ _ that, rotated]) (auto simp: printable_def)
  with 7 show ?case by (auto simp: printable_def)
qed (auto simp: printable_str_int printable_json_string split: if_splits, auto simp: printable_def)

section \<open>CSV\<close>

definition csv_special :: "char \<Rightarrow> bool" where
  "csv_special c \<longleftrightarrow> c \<in> {CHR '','', CHR 0x22, CHR 0x0D, CHR 0x0A}"

definition csv_field :: "string \<Rightarrow> string" where
  "csv_field f =
    (if list_ex csv_special f
     then [CHR 0x22] @ concat (map (\<lambda>c. if c = CHR 0x22 then [c, c] else [c]) f) @ [CHR 0x22]
     else f)"

definition csv_row :: "string list \<Rightarrow> string" where
  "csv_row fields = join '','' (map csv_field fields) @ [CHR 0x0D, CHR 0x0A]"

definition csv_text :: "string list list \<Rightarrow> string" where
  "csv_text rows = concat (map csv_row rows)"

text \<open>The reader: a field ends at a comma or at the end of its row; in quotes a doubled quote is one.\<close>

fun read_quoted :: "string \<Rightarrow> string \<times> string" where
  "read_quoted [] = ([], [])"
| "read_quoted (c # s) =
    (if c = CHR 0x22
     then (case s of d # s' \<Rightarrow> if d = CHR 0x22 then (let (f, r) = read_quoted s' in (CHR 0x22 # f, r)) else ([], s)
           | [] \<Rightarrow> ([], []))
     else (let (f, r) = read_quoted s in (c # f, r)))"

definition read_field :: "string \<Rightarrow> string \<times> string" where
  "read_field s = (case s of
     [] \<Rightarrow> ([], [])
   | c # s' \<Rightarrow> if c = CHR 0x22 then read_quoted s'
               else (takeWhile (\<lambda>d. \<not> csv_special d) s, dropWhile (\<lambda>d. \<not> csv_special d) s))"

fun read_fields :: "nat \<Rightarrow> string \<Rightarrow> string list \<times> string" where
  "read_fields 0 s = ([], s)"
| "read_fields (Suc n) s =
    (let (f, r) = read_field s in
     case r of
       c # r' \<Rightarrow> if c = CHR '','' then (let (fs, rest) = read_fields n r' in (f # fs, rest)) else ([f], drop 2 r)
     | [] \<Rightarrow> ([f], []))"

fun read_rows :: "nat \<Rightarrow> string \<Rightarrow> string list list" where
  "read_rows 0 s = []"
| "read_rows (Suc n) s =
    (if s = [] then [] else let (row, rest) = read_fields (length s) s in row # read_rows n rest)"

definition read_csv :: "string \<Rightarrow> string list list" where
  "read_csv s = read_rows (length s) s"

lemma read_quoted_field:
  "read_quoted (concat (map (\<lambda>c. if c = CHR 0x22 then [c, c] else [c]) f) @ CHR 0x22 # d # s) = (f, d # s)"
  if "d \<noteq> CHR 0x22"
  using that by (induction f) auto

lemma read_field_written:
  assumes "csv_special d" "d \<noteq> CHR 0x22"
  shows "read_field (csv_field f @ d # s) = (f, d # s)"
proof (cases "list_ex csv_special f")
  case True
  then show ?thesis using assms(2) by (simp add: csv_field_def read_field_def read_quoted_field)
next
  case False
  then have plain: "\<forall>c \<in> set f. \<not> csv_special c" by (simp add: list_ex_iff)
  then have "takeWhile (\<lambda>d. \<not> csv_special d) (f @ d # s) = f" "dropWhile (\<lambda>d. \<not> csv_special d) (f @ d # s) = d # s"
    using assms(1) by (simp_all add: takeWhile_append2 dropWhile_append2)
  moreover have "hd (f @ [d]) \<noteq> CHR 0x22"
    using plain assms(2) by (cases f) (auto simp: csv_special_def)
  ultimately show ?thesis
    using False by (cases f) (auto simp: csv_field_def read_field_def)
qed

lemma join_Cons: "parts \<noteq> [] \<Longrightarrow> join sep (p # parts) = p @ sep @ join sep parts"
  by (cases parts) (simp_all add: join_def)

lemma read_fields_written:
  assumes "fields \<noteq> []" "length fields \<le> n"
  shows "read_fields n (csv_row fields @ s) = (fields, s)"
  using assms
proof (induction fields arbitrary: n)
  case (Cons f fs)
  then obtain m where n: "n = Suc m" by (cases n) auto
  show ?case
  proof (cases "fs = []")
    case True
    have "read_field (csv_field f @ CHR 0x0D # CHR 0x0A # s) = (f, CHR 0x0D # CHR 0x0A # s)"
      by (rule read_field_written) (simp_all add: csv_special_def)
    then show ?thesis by (simp add: True n csv_row_def join_def)
  next
    case False
    have "read_field (csv_field f @ CHR '','' # csv_row fs @ s) = (f, CHR '','' # csv_row fs @ s)"
      by (rule read_field_written) (simp_all add: csv_special_def)
    then show ?thesis
      using False Cons n by (simp add: csv_row_def join_Cons)
  qed
qed simp

lemma csv_row_Cons: "fs \<noteq> [] \<Longrightarrow> csv_row (f # fs) = csv_field f @ '','' @ csv_row fs"
  by (simp add: csv_row_def join_Cons)

lemma length_csv_row: "fields \<noteq> [] \<Longrightarrow> length fields < length (csv_row fields)"
proof (induction fields)
  case (Cons f fs)
  then show ?case by (cases "fs = []") (auto simp: csv_row_Cons, simp add: csv_row_def join_def)
qed simp

lemma read_rows_written:
  assumes "\<forall>row \<in> set rows. row \<noteq> []" "length rows \<le> n"
  shows "read_rows n (csv_text rows) = rows"
  using assms
proof (induction rows arbitrary: n)
  case Nil
  then show ?case by (cases n) (simp_all add: csv_text_def)
next
  case (Cons row rows)
  then obtain m where n: "n = Suc m" by (cases n) auto
  have long: "length row < length (csv_row row)" using length_csv_row Cons.prems(1) by simp
  then have "read_fields (length (csv_row row @ csv_text rows)) (csv_row row @ csv_text rows) = (row, csv_text rows)"
    using Cons.prems(1) by (intro read_fields_written) auto
  moreover have "csv_row row @ csv_text rows \<noteq> []" using long by auto
  ultimately show ?case using Cons n by (simp add: csv_text_def Let_def)
qed

lemma length_csv_text: "\<forall>row \<in> set rows. row \<noteq> [] \<Longrightarrow> length rows \<le> length (csv_text rows)"
proof (induction rows)
  case (Cons row rows)
  then show ?case using length_csv_row [of row] by (auto simp: csv_text_def)
qed simp

lemma read_csv_written: "\<forall>row \<in> set rows. row \<noteq> [] \<Longrightarrow> read_csv (csv_text rows) = rows"
  by (simp add: read_csv_def read_rows_written length_csv_text)

end
