(* ===== verification/Delivery.thy ===== *)
theory Delivery
  imports Grading Textio
begin

text \<open>
  \<open>panelist/services/delivery.py\<close>: the dataset of approved grades as JSON lines, its checksum, its
  storage, and the verification that reads the stored object back. The object store and the file system
  are parameters: what is written under a name and what is read under one. A write says whether it was done; one that
  fails, whatever it leaves behind, raises.
\<close>

record 'st storage =
  put_object :: "string \<Rightarrow> string \<Rightarrow> string \<Rightarrow> 'st \<Rightarrow> bool \<times> 'st"
  get_object :: "string \<Rightarrow> string \<Rightarrow> 'st \<Rightarrow> string option"
  write_bytes :: "string \<Rightarrow> string \<Rightarrow> 'st \<Rightarrow> bool \<times> 'st"
  read_bytes :: "string \<Rightarrow> 'st \<Rightarrow> string option"
  resolve_path :: "string \<Rightarrow> string \<Rightarrow> string"

section \<open>The rows of a delivery\<close>

definition delivered_grades :: "db \<Rightarrow> (grade \<times> task \<times> consensus option) list" where
  "delivered_grades s = sort_key (\<lambda>(g, t, _). (t_seq t, g_expert_id g))
    (concat (map (\<lambda>g. concat (map (\<lambda>r. concat (map (\<lambda>t.
       if rv_grade_id r = g_id g \<and> t_id t = g_task_id g \<and> rv_decision r = Approve \<and> \<not> t_is_attention_check t
       then (case get_consensus (t_id t) s of
               None \<Rightarrow> [(g, t, None)]
             | Some c \<Rightarrow> if co_delivered_grade_id c = Some (g_id g) then [(g, t, Some c)] else [])
       else []) (tasks s))) (reviews s))) (grades s)))"

definition get_criterion :: "uuid \<Rightarrow> db \<Rightarrow> criterion option" where
  "get_criterion cid s = find (\<lambda>c. c_id c = cid) (concat (map r_criteria (rubrics s)))"

definition optional :: "('a \<Rightarrow> json) \<Rightarrow> 'a option \<Rightarrow> json" where
  "optional f x = (case x of None \<Rightarrow> JNull | Some v \<Rightarrow> f v)"

text \<open>The normalized scores of a grade, sorted by the position of their criteria.\<close>

definition scores_json :: "grade \<Rightarrow> db \<Rightarrow> json option" where
  "scores_json g s =
    (case those (map (\<lambda>gs. map_option (\<lambda>c. (c, gs_score gs)) (get_criterion (gs_criterion_id gs) s)) (g_scores g)) of
       None \<Rightarrow> None
     | Some pairs \<Rightarrow> Some (JObj (map (\<lambda>(c, v). (c_key c, JFloat v)) (sort_key (\<lambda>(c, _). c_position c) pairs))))"

definition delivery_row :: "grade \<Rightarrow> task \<Rightarrow> consensus option \<Rightarrow> db \<Rightarrow> json option" where
  "delivery_row g t chosen s =
    (case (get_rubric (g_rubric_id g) s, get_expert (g_expert_id g) s, scores_json g s) of
       (Some r, Some e, Some scores) \<Rightarrow> Some (JObj [
         (''task_id'', JStr (str_uuid (t_id t))),
         (''external_ref'', optional JStr (t_external_ref t)),
         (''task_type'', JStr (t_task_type t)),
         (''required_tags'', JList (map JStr (sort (t_required_tags t)))),
         (''prompt'', JStr (t_prompt t)),
         (''responses'', JList (t_responses t)),
         (''rubric'', JObj [(''id'', JStr (str_uuid (g_rubric_id g))), (''name'', JStr (r_name r)),
                            (''version'', JInt (r_version r))]),
         (''expert_id'', JStr (str_uuid (g_expert_id g))),
         (''expert_tier'', JStr (tier_value (e_tier e))),
         (''scores'', scores),
         (''weighted_score'', JFloat (g_weighted_score g)),
         (''rationale'', JStr (g_rationale g)),
         (''time_spent_seconds'', JInt (g_time_spent_seconds g)),
         (''consensus'', optional (\<lambda>c. JObj [(''status'', JStr (consensus_status_value (co_status c))),
            (''graders'', JInt (int (co_grade_count c))), (''spread'', JFloat (co_spread c))]) chosen)])
     | _ \<Rightarrow> None)"

definition delivery_rows :: "db \<Rightarrow> json list option" where
  "delivery_rows s = those (map (\<lambda>(g, t, c). delivery_row g t c s) (delivered_grades s))"

definition newline :: string where
  "newline = [CHR 0x0A]"

definition build_jsonl :: "env \<Rightarrow> db \<Rightarrow> (string \<times> int) option" where
  "build_jsonl E s =
    (case delivery_rows s of
       None \<Rightarrow> None
     | Some rows \<Rightarrow>
        let lines = map (dumps (float_repr E)) rows
        in Some (join newline lines @ (if lines \<noteq> [] then newline else []), int (length lines)))"

section \<open>Storage, export and verification\<close>

definition written :: "string \<Rightarrow> bool \<times> 'st \<Rightarrow> (error, string, 'st) result" where
  "written location done = (case done of (ok, st) \<Rightarrow> (if ok then Inr location else Inl (StorageError ''write''), st))"

definition store :: "env \<Rightarrow> 'st storage \<Rightarrow> string \<Rightarrow> int \<Rightarrow> string \<Rightarrow> 'st \<Rightarrow> (error, string, 'st) result" where
  "store E io body version checksum st =
    (let name = ''panelist-grades-v'' @ str_int version @ ''-'' @ take 12 checksum @ ''.jsonl'';
         bucket = delivery_s3_bucket (cfg E)
     in if bucket \<noteq> []
        then (let key = ''deliveries/'' @ name
              in written (''s3://'' @ bucket @ ''/'' @ key) (put_object io bucket key body st))
        else (let path = resolve_path io (delivery_dir (cfg E)) name
              in written path (write_bytes io path body st)))"

definition read_location :: "'st storage \<Rightarrow> string \<Rightarrow> 'st \<Rightarrow> string option" where
  "read_location io location st =
    (if take 5 location = ''s3://''
     then (let rest = drop 5 location;
               bucket = takeWhile (\<lambda>c. c \<noteq> CHR ''/'') rest;
               key = drop (Suc (length bucket)) rest
           in if CHR ''/'' \<in> set rest then get_object io bucket key st else None)
     else read_bytes io location st)"

record verification =
  vf_version :: int
  vf_location :: string
  vf_stored_checksum :: string
  vf_checksum :: string
  vf_row_count :: int
  vf_rows_read :: int
  vf_size_bytes :: int
  vf_bytes_read :: int
  vf_match :: bool

definition verify :: "env \<Rightarrow> 'st storage \<Rightarrow> delivery \<Rightarrow> 'st \<Rightarrow> verification option" where
  "verify E io d st =
    (case read_location io (d_location d) st of
       None \<Rightarrow> None
     | Some body \<Rightarrow>
        let checksum = hexdigest (sha256 E body);
            rows_read = row_count (\<lambda>c. c = CHR 0x0A) body
        in Some \<lparr>vf_version = d_version d, vf_location = d_location d, vf_stored_checksum = d_checksum d,
             vf_checksum = checksum, vf_row_count = d_row_count d, vf_rows_read = rows_read,
             vf_size_bytes = d_size_bytes d, vf_bytes_read = int (length body),
             vf_match = (checksum = d_checksum d \<and> rows_read = d_row_count d \<and> int (length body) = d_size_bytes d)\<rparr>)"

definition next_version :: "db \<Rightarrow> int" where
  "next_version s = (case map d_version (deliveries s) of [] \<Rightarrow> 0 | v # vs \<Rightarrow> fold max vs v) + 1"

definition export :: "env \<Rightarrow> 'st storage \<Rightarrow> string \<Rightarrow> db \<times> 'st \<Rightarrow> (error, delivery, db \<times> 'st) result" where
  "export E io actor sst =
    (let (s, st) = sst in
     case build_jsonl E s of
       None \<Rightarrow> (Inl (AttributeError ''grade''), sst)
     | Some (body, n) \<Rightarrow>
        let checksum = hexdigest (sha256 E body);
            version = next_version s
        in (case store E io body version checksum st of
              (Inl e, st') \<Rightarrow> (Inl e, (s, st'))
            | (Inr location, st') \<Rightarrow>
               (let (did, s1) = new_uuid E s;
                    d = \<lparr>d_id = did, d_version = version, d_checksum = checksum, d_location = location,
                         d_row_count = n, d_size_bytes = int (length body), d_created_at = tx_now s1\<rparr>
                in case insert_delivery d s1 of
                     (Inl e, s2) \<Rightarrow> (Inl e, (s2, st'))
                   | (Inr _, s2) \<Rightarrow> (Inr d, (record_event actor ''delivery.exported'' ''delivery'' (str_uuid did)
                         [(''version'', JInt version), (''rows'', JInt n)] s2, st')))))"

section \<open>Lemmas\<close>

lemma those_Some_length: "those xs = Some ys \<Longrightarrow> length ys = length xs"
  by (induction xs arbitrary: ys) (auto split: option.splits)

lemma in_delivered_grades:
  assumes "(g, t, c) \<in> set (delivered_grades s)"
  shows "g \<in> set (grades s)" "t \<in> set (tasks s)" "t_id t = g_task_id g" "\<not> t_is_attention_check t"
    "\<exists>r \<in> set (reviews s). rv_grade_id r = g_id g \<and> rv_decision r = Approve"
    "c = get_consensus (t_id t) s" "\<And>x. c = Some x \<Longrightarrow> co_delivered_grade_id x = Some (g_id g)"
proof -
  from assms obtain r where r: "g \<in> set (grades s)" "r \<in> set (reviews s)" "t \<in> set (tasks s)"
    and m: "(g, t, c) \<in> set (if rv_grade_id r = g_id g \<and> t_id t = g_task_id g \<and> rv_decision r = Approve \<and> \<not> t_is_attention_check t
       then (case get_consensus (t_id t) s of None \<Rightarrow> [(g, t, None)]
             | Some c \<Rightarrow> if co_delivered_grade_id c = Some (g_id g) then [(g, t, Some c)] else []) else [])"
    by (auto simp: delivered_grades_def split: if_splits option.splits)
  then show "g \<in> set (grades s)" "t \<in> set (tasks s)" "t_id t = g_task_id g" "\<not> t_is_attention_check t"
    "\<exists>r \<in> set (reviews s). rv_grade_id r = g_id g \<and> rv_decision r = Approve"
    "c = get_consensus (t_id t) s" "\<And>x. c = Some x \<Longrightarrow> co_delivered_grade_id x = Some (g_id g)"
    by (auto split: if_splits option.splits)
qed

lemma delivered_grades_complete:
  assumes "g \<in> set (grades s)" "t \<in> set (tasks s)" "t_id t = g_task_id g" "\<not> t_is_attention_check t"
    "r \<in> set (reviews s)" "rv_grade_id r = g_id g" "rv_decision r = Approve"
    "\<And>x. get_consensus (t_id t) s = Some x \<Longrightarrow> co_delivered_grade_id x = Some (g_id g)"
  shows "(g, t, get_consensus (t_id t) s) \<in> set (delivered_grades s)"
proof -
  have "(g, t, get_consensus (t_id t) s) \<in> set (case get_consensus (t_id t) s of None \<Rightarrow> [(g, t, None)]
             | Some c \<Rightarrow> if co_delivered_grade_id c = Some (g_id g) then [(g, t, Some c)] else [])"
    using assms(8) by (cases "get_consensus (t_id t) s") auto
  then show ?thesis
    using assms(1-7) unfolding delivered_grades_def set_sort
    by (simp, intro bexI [of _ g] bexI [of _ r] bexI [of _ t]) simp_all
qed

text \<open>A JSON line has no line break, so the lines of the body are its rows.\<close>

definition plain_floats :: "env \<Rightarrow> bool" where
  "plain_floats E \<longleftrightarrow> (\<forall>x. \<forall>c \<in> set (float_repr E x). printable c)"

lemma newlines_none: "\<forall>c \<in> set s. printable c \<Longrightarrow> row_count (\<lambda>c. c = CHR 0x0A) s = 0"
  by (auto simp: row_count_0_iff printable_def)

lemma newlines_lines:
  assumes "\<And>l. l \<in> set lines \<Longrightarrow> \<forall>c \<in> set l. printable c"
  shows "row_count (\<lambda>c. c = CHR 0x0A) (join newline lines @ (if lines \<noteq> [] then newline else [])) = int (length lines)"
proof -
  have one: "row_count (\<lambda>c. c = CHR 0x0A) newline = 1" by (simp add: newline_def)
  have "row_count (\<lambda>c. c = CHR 0x0A) (concat (map ((@) newline) ls)) = int (length ls)" if "set ls \<subseteq> set lines" for ls
    using that assms by (induction ls) (auto simp: row_count_append one newlines_none)
  note rest = this
  show ?thesis
  proof (cases lines)
    case Nil
    then show ?thesis by (simp add: join_def row_count_0_iff)
  next
    case (Cons l ls)
    have "row_count (\<lambda>c. c = CHR 0x0A) (concat (map ((@) newline) ls)) = int (length ls)"
      by (rule rest) (auto simp: Cons)
    moreover have "row_count (\<lambda>c. c = CHR 0x0A) l = 0" by (rule newlines_none) (rule assms, simp add: Cons)
    ultimately show ?thesis by (simp add: Cons join_def row_count_append one)
  qed
qed

lemma build_jsonl_rows:
  assumes "plain_floats E" "build_jsonl E s = Some (body, n)"
  shows "row_count (\<lambda>c. c = CHR 0x0A) body = n" "n = int (length (delivered_grades s))"
proof -
  obtain rows where rows: "delivery_rows s = Some rows" "n = int (length rows)"
    "body = join newline (map (dumps (float_repr E)) rows) @ (if map (dumps (float_repr E)) rows \<noteq> [] then newline else [])"
    using assms(2) by (auto simp: build_jsonl_def Let_def split: option.splits)
  have pr: "\<forall>c \<in> set l. printable c" if "l \<in> set (map (dumps (float_repr E)) rows)" for l
    using that assms(1) by (auto simp: plain_floats_def intro: printable_dumps)
  show "row_count (\<lambda>c. c = CHR 0x0A) body = n"
    unfolding rows(2,3) using newlines_lines [of "map (dumps (float_repr E)) rows", OF pr] by (simp only: length_map)
  show "n = int (length (delivered_grades s))"
    using those_Some_length [OF rows(1) [unfolded delivery_rows_def]] rows(2) by simp
qed

text \<open>What the store promises: after a write that was done, reading the name gives what was written.\<close>

definition store_ok :: "env \<Rightarrow> 'st storage \<Rightarrow> bool" where
  "store_ok E io \<longleftrightarrow>
     (\<forall>b k x st. fst (put_object io b k x st) \<longrightarrow> get_object io b k (snd (put_object io b k x st)) = Some x) \<and>
     (\<forall>p x st. fst (write_bytes io p x st) \<longrightarrow> read_bytes io p (snd (write_bytes io p x st)) = Some x) \<and>
     (\<forall>d n. take 1 (resolve_path io d n) = ''/'') \<and>
     CHR ''/'' \<notin> set (delivery_s3_bucket (cfg E))"

lemma written_iff: "written location done = (r, st') \<longleftrightarrow>
    st' = snd done \<and> r = (if fst done then Inr location else Inl (StorageError ''write''))"
  by (cases "done") (auto simp: written_def)

lemma read_stored:
  assumes "store_ok E io" "store E io body version checksum st = (Inr location, st')"
  shows "read_location io location st' = Some body"
proof (cases "delivery_s3_bucket (cfg E) = []")
  case True
  then obtain path where path: "location = path" "fst (write_bytes io path body st)" "st' = snd (write_bytes io path body st)"
      "take 1 path = ''/''"
    using assms by (auto simp: store_def store_ok_def written_iff Let_def split: if_splits)
  then have "take 5 path \<noteq> ''s3://''" by (cases path) auto
  then show ?thesis using assms(1) path by (simp add: read_location_def store_ok_def)
next
  case False
  define bucket key where "bucket = delivery_s3_bucket (cfg E)"
    and "key = ''deliveries/panelist-grades-v'' @ str_int version @ ''-'' @ take 12 checksum @ ''.jsonl''"
  have st: "location = ''s3://'' @ bucket @ ''/'' @ key" "fst (put_object io bucket key body st)"
      "st' = snd (put_object io bucket key body st)"
    using assms(2) False by (auto simp: store_def bucket_def key_def written_iff Let_def split: if_splits)
  have free: "\<forall>c \<in> set bucket. c \<noteq> CHR ''/''" using assms(1) by (auto simp: store_ok_def bucket_def)
  then have "takeWhile (\<lambda>c. c \<noteq> CHR ''/'') (bucket @ ''/'' @ key) = bucket"
    by (subst takeWhile_append2) auto
  then show ?thesis using assms(1) st by (simp add: read_location_def store_ok_def Let_def)
qed

lemma next_version_gt: "d \<in> set (deliveries s) \<Longrightarrow> d_version d < next_version s"
proof -
  assume "d \<in> set (deliveries s)"
  then have m: "d_version d \<in> set (map d_version (deliveries s))" by simp
  then obtain v vs where vs: "map d_version (deliveries s) = v # vs" by (cases "map d_version (deliveries s)") auto
  then have "d_version d \<le> fold max vs v" using m fold_max_ge by auto
  then show ?thesis using vs by (simp add: next_version_def)
qed

lemma export_cases:
  assumes "export E io actor (s, st) = (Inr d, (s', st'))"
  obtains body n where "build_jsonl E s = Some (body, n)" "d_row_count d = n"
      "d_size_bytes d = int (length body)" "d_checksum d = hexdigest (sha256 E body)" "d_version d = next_version s"
      "store E io body (d_version d) (d_checksum d) st = (Inr (d_location d), st')"
      "core s' = core (s\<lparr>deliveries := deliveries s @ [d]\<rparr>)" "trail_step s s'"
proof -
  obtain body n where b: "build_jsonl E s = Some (body, n)"
    using assms by (auto simp: export_def Let_def split: option.splits)
  obtain location st1 where l: "store E io body (next_version s) (hexdigest (sha256 E body)) st = (Inr location, st1)"
    using assms b by (auto simp: export_def Let_def split: prod.splits sum.splits)
  let ?d = "\<lparr>d_id = uuid4 E (uuid_pos s), d_version = next_version s, d_checksum = hexdigest (sha256 E body), d_location = location,
                 d_row_count = n, d_size_bytes = int (length body), d_created_at = tx_now s\<rparr>"
  have r: "d = ?d" "st' = st1" "s' = record_event actor ''delivery.exported'' ''delivery'' (str_uuid (uuid4 E (uuid_pos s)))
       [(''version'', JInt (next_version s)), (''rows'', JInt n)]
       (s\<lparr>uuid_pos := Suc (uuid_pos s), deliveries := deliveries s @ [?d]\<rparr>)"
    using assms b l by (simp_all add: export_def new_uuid_def insert_delivery_def insert_if_def Let_def split: if_splits, auto)
  show thesis
    by (rule that [OF b]) (simp_all add: r l core_eq_iff trail_step_same)
qed

section \<open>Properties of a delivery\<close>

text \<open>What the rows of a delivery refer to exists: the rubric and the expert of each grade and the
  criterion of each of its scores, as the foreign keys of the tables demand.\<close>

definition grade_refs_ok :: "db \<Rightarrow> grade \<Rightarrow> bool" where
  "grade_refs_ok s g \<longleftrightarrow> g_rubric_id g \<in> r_id ` set (rubrics s) \<and> g_expert_id g \<in> e_id ` set (experts s) \<and>
     (\<forall>gs \<in> set (g_scores g). gs_criterion_id gs \<in> c_id ` (\<Union>r \<in> set (rubrics s). set (r_criteria r)))"

lemma those_total: "(\<And>x. x \<in> set xs \<Longrightarrow> f x \<noteq> None) \<Longrightarrow> \<exists>ys. those (map f xs) = Some ys"
proof (induction xs)
  case (Cons x xs)
  then obtain ys where "those (map f xs) = Some ys" by auto
  moreover obtain y where "f x = Some y" using Cons.prems [of x] by auto
  ultimately show ?case by simp
qed simp

lemma row_of_exists: "k \<in> key ` set rows \<Longrightarrow> \<exists>r. row_of key k rows = Some r"
  using row_of_None_iff [of key k rows] by auto

lemma get_criterion_exists:
  "k \<in> c_id ` (\<Union>r \<in> set (rubrics s). set (r_criteria r)) \<Longrightarrow> get_criterion k s \<noteq> None"
  by (auto simp: get_criterion_def find_None_iff)

lemma delivery_row_exists:
  assumes "grade_refs_ok s g"
  shows "delivery_row g t c s \<noteq> None"
proof -
  obtain ps where "those (map (\<lambda>gs. map_option (\<lambda>c. (c, gs_score gs)) (get_criterion (gs_criterion_id gs) s)) (g_scores g)) = Some ps"
    using those_total [of "g_scores g" "\<lambda>gs. map_option (\<lambda>c. (c, gs_score gs)) (get_criterion (gs_criterion_id gs) s)"]
      get_criterion_exists [of _ s] assms by (auto simp: grade_refs_ok_def)
  then have "scores_json g s \<noteq> None" by (simp add: scores_json_def)
  moreover obtain r e where "get_rubric (g_rubric_id g) s = Some r" "get_expert (g_expert_id g) s = Some e"
    using assms row_of_exists [of "g_rubric_id g" r_id "rubrics s"] row_of_exists [of "g_expert_id g" e_id "experts s"]
    by (auto simp: grade_refs_ok_def)
  ultimately show ?thesis by (auto simp: delivery_row_def)
qed

lemma delivery_rows_exist:
  assumes "\<forall>g \<in> set (grades s). grade_refs_ok s g"
  shows "\<exists>rows. delivery_rows s = Some rows"
  unfolding delivery_rows_def
proof (rule those_total)
  fix x assume x: "x \<in> set (delivered_grades s)"
  obtain g t c where "x = (g, t, c)" by (cases x)
  then show "(case x of (g, t, c) \<Rightarrow> delivery_row g t c s) \<noteq> None"
    using x assms in_delivered_grades(1) [of g t c s] delivery_row_exists [of s g t c] by simp
qed

text \<open>An export goes as the store goes.\<close>

lemma export_run:
  assumes "\<forall>g \<in> set (grades s). grade_refs_ok s g" "uuid4 E (uuid_pos s) \<notin> d_id ` set (deliveries s)"
  shows "\<exists>body n. build_jsonl E s = Some (body, n) \<and>
    (case store E io body (next_version s) (hexdigest (sha256 E body)) st of
       (Inr location, st') \<Rightarrow> \<exists>d s'. export E io actor (s, st) = (Inr d, (s', st')) \<and> d_location d = location
     | (Inl e, st') \<Rightarrow> export E io actor (s, st) = (Inl e, (s, st')))"
proof -
  obtain rows where "delivery_rows s = Some rows" using delivery_rows_exist assms(1) by blast
  then obtain body n where b: "build_jsonl E s = Some (body, n)" by (simp add: build_jsonl_def Let_def)
  have new: "next_version s \<notin> d_version ` set (deliveries s)" using next_version_gt by fastforce
  show ?thesis
    by (intro exI conjI, rule b)
      (use assms(2) new in \<open>auto simp: export_def b new_uuid_def insert_delivery_def insert_if_def Let_def split: prod.split sum.split\<close>)
qed

text \<open>
  The rows of a delivery are exactly the approved grades of tasks that are no attention checks,
  each with its task; where the task has a consensus round, only the grade the round selected.
\<close>

lemma delivery_ships_approved_picks:
  "(g, t, c) \<in> set (delivered_grades s) \<longleftrightarrow>
     g \<in> set (grades s) \<and> t \<in> set (tasks s) \<and> t_id t = g_task_id g \<and> \<not> t_is_attention_check t \<and>
     (\<exists>r \<in> set (reviews s). rv_grade_id r = g_id g \<and> rv_decision r = Approve) \<and>
     c = get_consensus (t_id t) s \<and>
     (case c of None \<Rightarrow> True | Some x \<Rightarrow> co_delivered_grade_id x = Some (g_id g))" (is "?in \<longleftrightarrow> ?ok")
proof
  assume ?in
  then show ?ok using in_delivered_grades [of g t c s] by (auto split: option.split)
next
  assume ok: ?ok
  then obtain r where r: "r \<in> set (reviews s)" "rv_grade_id r = g_id g" "rv_decision r = Approve" by blast
  have pick: "co_delivered_grade_id x = Some (g_id g)" if "get_consensus (t_id t) s = Some x" for x
    using ok that by auto
  have c: "c = get_consensus (t_id t) s" using ok by blast
  show ?in unfolding c by (rule delivered_grades_complete [OF _ _ _ _ r pick]) (use ok in blast)+
qed

text \<open>What a line says of the grade it ships: the task and its text, the author as the tables know him now, the rubric,
  every normalized score under the key of its criterion, and the round the grade was selected in.\<close>

definition ships :: "db \<Rightarrow> grade \<times> task \<times> consensus option \<Rightarrow> json \<Rightarrow> bool" where
  "ships s x row \<longleftrightarrow> (case x of (g, t, c) \<Rightarrow> \<exists>fs r e sc. row = JObj fs \<and>
     map_of fs ''task_id'' = Some (JStr (str_uuid (t_id t))) \<and>
     map_of fs ''prompt'' = Some (JStr (t_prompt t)) \<and> map_of fs ''responses'' = Some (JList (t_responses t)) \<and>
     map_of fs ''expert_id'' = Some (JStr (str_uuid (g_expert_id g))) \<and>
     get_expert (g_expert_id g) s = Some e \<and> map_of fs ''expert_tier'' = Some (JStr (tier_value (e_tier e))) \<and>
     get_rubric (g_rubric_id g) s = Some r \<and> map_of fs ''rubric'' = Some (JObj [(''id'', JStr (str_uuid (g_rubric_id g))),
       (''name'', JStr (r_name r)), (''version'', JInt (r_version r))]) \<and>
     map_of fs ''scores'' = Some (JObj sc) \<and>
     set sc = {(c_key k, JFloat (gs_score gs)) | k gs. gs \<in> set (g_scores g) \<and> get_criterion (gs_criterion_id gs) s = Some k} \<and>
     map_of fs ''weighted_score'' = Some (JFloat (g_weighted_score g)) \<and>
     map_of fs ''rationale'' = Some (JStr (g_rationale g)) \<and>
     (case c of None \<Rightarrow> map_of fs ''consensus'' = Some JNull
      | Some x \<Rightarrow> map_of fs ''consensus'' = Some (JObj [(''status'', JStr (consensus_status_value (co_status x))),
          (''graders'', JInt (int (co_grade_count x))), (''spread'', JFloat (co_spread x))])))"

lemma those_list_all2: "those xs = Some ys \<longleftrightarrow> list_all2 (\<lambda>x y. x = Some y) xs ys"
  by (induction xs arbitrary: ys) (auto simp: list_all2_Cons1 split: option.splits)

lemma those_set: "those (map f xs) = Some ys \<Longrightarrow> set ys = {y. \<exists>x \<in> set xs. f x = Some y}"
  by (induction xs arbitrary: ys) (auto split: option.splits)

lemma scores_json_pairs:
  assumes "scores_json g s = Some j"
  obtains sc where "j = JObj sc"
    "set sc = {(c_key k, JFloat (gs_score gs)) | k gs. gs \<in> set (g_scores g) \<and> get_criterion (gs_criterion_id gs) s = Some k}"
proof -
  let ?f = "\<lambda>gs. map_option (\<lambda>c. (c, gs_score gs)) (get_criterion (gs_criterion_id gs) s)"
  obtain ps where ps: "those (map ?f (g_scores g)) = Some ps"
      and j: "j = JObj (map (\<lambda>(c, v). (c_key c, JFloat v)) (sort_key (\<lambda>(c, _). c_position c) ps))"
    using assms by (auto simp: scores_json_def split: option.splits)
  have "set ps = {(k, gs_score gs) | k gs. gs \<in> set (g_scores g) \<and> get_criterion (gs_criterion_id gs) s = Some k}"
    unfolding those_set [OF ps] by auto
  then show thesis by (intro that [OF j]) (simp only: set_map set_sort, force)
qed

lemma delivery_row_ships: "delivery_row g t c s = Some row \<Longrightarrow> ships s (g, t, c) row"
proof -
  assume row: "delivery_row g t c s = Some row"
  then obtain r e j where e: "get_rubric (g_rubric_id g) s = Some r" "get_expert (g_expert_id g) s = Some e" "scores_json g s = Some j"
    by (auto simp: delivery_row_def split: option.splits)
  obtain sc where sc: "j = JObj sc"
      "set sc = {(c_key k, JFloat (gs_score gs)) | k gs. gs \<in> set (g_scores g) \<and> get_criterion (gs_criterion_id gs) s = Some k}"
    using e(3) by (rule scores_json_pairs)
  note fields = row [unfolded delivery_row_def e sc(1) prod.case option.case option.inject]
  show ?thesis unfolding ships_def prod.case
    by (rule exI, rule exI [of _ r], rule exI [of _ e], rule exI [of _ sc], intro conjI, rule fields [symmetric])
      (rule sc(2) | simp add: e optional_def split: option.split)+
qed

lemma join_lines: "join newline lines @ (if lines \<noteq> [] then newline else []) = concat (map (\<lambda>l. l @ newline) lines)"
proof (cases lines)
  case (Cons l ls)
  have "concat (map ((@) newline) ls) @ newline = newline @ concat (map (\<lambda>l. l @ newline) ls)" by (induction ls) auto
  then show ?thesis by (simp add: Cons join_def)
qed (simp add: join_def)

lemma build_jsonl_lines:
  assumes "build_jsonl E s = Some (body, n)"
  shows "\<exists>rows. body = concat (map (\<lambda>row. dumps (float_repr E) row @ newline) rows) \<and>
    list_all2 (ships s) (delivered_grades s) rows"
proof -
  obtain rows where rows: "delivery_rows s = Some rows"
    "body = concat (map (\<lambda>l. l @ newline) (map (dumps (float_repr E)) rows))"
    using assms by (auto simp: build_jsonl_def Let_def join_lines simp del: map_map split: option.splits)
  have "list_all2 (\<lambda>(g, t, c) row. delivery_row g t c s = Some row) (delivered_grades s) rows"
    using rows(1) unfolding delivery_rows_def those_list_all2 list_all2_map1 by (rule list_all2_mono) auto
  then have "list_all2 (ships s) (delivered_grades s) rows"
    by (rule list_all2_mono) (auto intro: delivery_row_ships)
  then show ?thesis using rows(2) by (auto simp: comp_def)
qed

text \<open>
  C25: an export writes the approved grades and nothing else, and its own check accepts them. When what the grades refer
  to exists, the new identifier is unused, the store takes what is written and returns it, and no float's text has a
  line break, the export returns a delivery recorded last in the table, with a version above every earlier one. What is
  read back from its location is one line for each selected grade in their order, the text of an object with the
  fields of that grade; the selected ones are exactly the approved grades of tasks that are no attention checks, where
  there is a round only its pick. The check finds the recorded checksum, size and number of rows.
\<close>
theorem export_verifies:
  assumes "\<forall>g \<in> set (grades s). grade_refs_ok s g" "uuid4 E (uuid_pos s) \<notin> d_id ` set (deliveries s)"
    "store_ok E io" "plain_floats E"
    "\<And>b k x. fst (put_object io b k x st)" "\<And>p x. fst (write_bytes io p x st)"
  shows "\<exists>d s' st' v rows. export E io actor (s, st) = (Inr d, (s', st')) \<and> deliveries s' = deliveries s @ [d] \<and>
     (\<forall>old \<in> set (deliveries s). d_version old < d_version d) \<and>
     read_location io (d_location d) st' = Some (concat (map (\<lambda>row. dumps (float_repr E) row @ newline) rows)) \<and>
     list_all2 (ships s) (delivered_grades s) rows \<and>
     set (delivered_grades s) = {(g, t, c). g \<in> set (grades s) \<and> t \<in> set (tasks s) \<and> t_id t = g_task_id g \<and>
       \<not> t_is_attention_check t \<and> (\<exists>r \<in> set (reviews s). rv_grade_id r = g_id g \<and> rv_decision r = Approve) \<and>
       c = get_consensus (t_id t) s \<and> (case c of None \<Rightarrow> True | Some x \<Rightarrow> co_delivered_grade_id x = Some (g_id g))} \<and>
     verify E io d st' = Some v \<and> vf_match v \<and> vf_rows_read v = int (length (delivered_grades s))"
proof -
  have taken: "\<exists>location st'. store E io body v c st = (Inr location, st')" for body v c
    by (simp add: store_def Let_def written_def assms(5,6) split: prod.split) (metis assms(5,6) fst_conv)
  obtain d s' st' where ex: "export E io actor (s, st) = (Inr d, (s', st'))"
  proof -
    obtain body where run: "case store E io body (next_version s) (hexdigest (sha256 E body)) st of
       (Inr location, st') \<Rightarrow> \<exists>d s'. export E io actor (s, st) = (Inr d, (s', st')) \<and> d_location d = location
     | (Inl e, st') \<Rightarrow> export E io actor (s, st) = (Inl e, (s, st'))"
      using export_run [OF assms(1,2), where io = io and st = st and actor = actor] by (elim exE conjE) (rule that)
    obtain location st' where l: "store E io body (next_version s) (hexdigest (sha256 E body)) st = (Inr location, st')"
      using taken by blast
    show thesis using run unfolding l prod.case sum.case by (elim exE conjE) (rule that)
  qed
  then obtain body n where b: "build_jsonl E s = Some (body, n)" "d_row_count d = n" "d_size_bytes d = int (length body)"
      "d_checksum d = hexdigest (sha256 E body)" "d_version d = next_version s"
      "store E io body (d_version d) (d_checksum d) st = (Inr (d_location d), st')"
      "core s' = core (s\<lparr>deliveries := deliveries s @ [d]\<rparr>)"
    by (rule export_cases)
  note lines = build_jsonl_rows [OF assms(4) b(1)] and r = read_stored [OF assms(3) b(6)]
  obtain rows where rows: "body = concat (map (\<lambda>row. dumps (float_repr E) row @ newline) rows)"
      "list_all2 (ships s) (delivered_grades s) rows"
    using build_jsonl_lines [OF b(1)] by blast
  note lines_read = r [unfolded rows(1)]
  from lines r obtain v where "verify E io d st' = Some v" "vf_match v" "vf_rows_read v = int (length (delivered_grades s))"
    by (simp add: verify_def r b(2-4) Let_def)
  moreover have "deliveries s' = deliveries s @ [d]" using b(7) by (simp add: core_eq_iff)
  moreover have "\<forall>old \<in> set (deliveries s). d_version old < d_version d" using next_version_gt b(5) by simp
  moreover have "set (delivered_grades s) = {(g, t, c). g \<in> set (grades s) \<and> t \<in> set (tasks s) \<and> t_id t = g_task_id g \<and>
       \<not> t_is_attention_check t \<and> (\<exists>r \<in> set (reviews s). rv_grade_id r = g_id g \<and> rv_decision r = Approve) \<and>
       c = get_consensus (t_id t) s \<and> (case c of None \<Rightarrow> True | Some x \<Rightarrow> co_delivered_grade_id x = Some (g_id g))}"
    unfolding set_eq_iff split_paired_All delivery_ships_approved_picks by simp
  ultimately show ?thesis using ex lines_read rows(2) by (intro exI conjI) assumption+
qed

definition sample_storage :: "(string \<Rightarrow> string option) storage" where
  "sample_storage = \<lparr>put_object = (\<lambda>b k x st. (True, st(b @ ''/'' @ k := Some x))), get_object = (\<lambda>b k st. st (b @ ''/'' @ k)),
     write_bytes = (\<lambda>p x st. (True, st(p := Some x))), read_bytes = (\<lambda>p st. st p), resolve_path = (\<lambda>d n. ''/srv/'' @ n)\<rparr>"

definition sample_delivery_db :: db where
  "sample_delivery_db = sample_db\<lparr>grades := [sample_grade 50 21 4 4, sample_grade 51 20 4 4, sample_grade 52 20 2 3],
     reviews := [sample_review 60 50 Approve, sample_review 61 51 Approve],
     consensuses := [\<lparr>co_id = 70, co_task_id = 20, co_status = Agreed, co_grade_count = 2, co_spread = 1, co_tolerance = 1,
       co_delivered_grade_id = Some 51, co_adjudicator_key_id = None, co_reason = None, co_created_at = 0, co_resolved_at = None\<rparr>]\<rparr>"

lemma sample_storage_ok: "store_ok sample_env sample_storage"
  by (simp add: store_ok_def sample_storage_def sample_env_def default_settings_def)

lemma sample_plain_floats: "plain_floats sample_env"
  by (auto simp: plain_floats_def sample_env_def printable_str_int) (simp_all add: printable_def)

theorem export_verifies_witness:
  "\<exists>d s' st' v. export sample_env sample_storage ''admin:1'' (sample_delivery_db, \<lambda>_. None) = (Inr d, (s', st')) \<and>
     deliveries s' = [d] \<and> (\<exists>rows. length rows = 2 \<and>
       read_location sample_storage (d_location d) st' = Some (concat (map (\<lambda>row. dumps (float_repr sample_env) row @ newline) rows))) \<and>
     verify sample_env sample_storage d st' = Some v \<and> vf_match v \<and> vf_rows_read v = 2"
proof -
  have n: "length (delivered_grades sample_delivery_db) = 2"
    by (simp add: delivered_grades_def sample_delivery_db_def sample_defs row_of_def sort_key_def)
  have refs: "\<forall>g \<in> set (grades sample_delivery_db). grade_refs_ok sample_delivery_db g"
    by (auto simp: sample_delivery_db_def sample_defs grade_refs_ok_def)
  have fresh: "uuid4 sample_env (uuid_pos sample_delivery_db) \<notin> d_id ` set (deliveries sample_delivery_db)"
    by (simp add: sample_delivery_db_def sample_defs)
  have none: "deliveries sample_delivery_db = []" by (simp add: sample_delivery_db_def sample_defs)
  have up: "fst (put_object sample_storage b k x st)" "fst (write_bytes sample_storage p x st)" for b k p x st
    by (simp_all add: sample_storage_def)
  obtain d s' st' v rows where ex: "export sample_env sample_storage ''admin:1'' (sample_delivery_db, \<lambda>_. None) = (Inr d, (s', st'))"
      "deliveries s' = [] @ [d]"
    and body: "read_location sample_storage (d_location d) st' = Some (concat (map (\<lambda>row. dumps (float_repr sample_env) row @ newline) rows))"
      "list_all2 (ships sample_delivery_db) (delivered_grades sample_delivery_db) rows"
    and v: "verify sample_env sample_storage d st' = Some v" "vf_match v" "vf_rows_read v = int (length (delivered_grades sample_delivery_db))"
    using export_verifies [OF refs fresh sample_storage_ok sample_plain_floats up, of "''admin:1''" "\<lambda>_. None"]
    unfolding none by (elim exE conjE) (rule that)
  have "length rows = 2" using list_all2_lengthD [OF body(2)] n by simp
  moreover have "deliveries s' = [d]" "vf_rows_read v = 2" using ex(2) v(3) n by simp_all
  ultimately show ?thesis using ex(1) body(1) v(1,2) by blast
qed

end
