(* ===== verification/Responses.thy ===== *)
theory Responses
  imports Auth Analytics Delivery Ops
begin

text \<open>
  What the API answers: the response models of \<open>panelist/schemas.py\<close> that copy columns of a row, each as a
  record with the fields the model declares and the function that fills it from the row, as the framework
  does for a handler that returns the row. What a model does not declare does not leave the service.
\<close>

record expert_out =
  xo_id :: uuid
  xo_name :: string
  xo_tags :: "string list"
  xo_tier :: tier
  xo_task_rate_cents :: "int option"
  xo_status :: expert_status
  xo_served_count :: int
  xo_calibration_score :: "rat option"
  xo_calibration_samples :: nat
  xo_created_at :: time

definition expert_out_of :: "expert \<Rightarrow> expert_out" where
  "expert_out_of e = \<lparr>xo_id = e_id e, xo_name = e_name e, xo_tags = e_tags e, xo_tier = e_tier e,
     xo_task_rate_cents = e_task_rate_cents e, xo_status = e_status e, xo_served_count = e_served_count e,
     xo_calibration_score = e_calibration_score e, xo_calibration_samples = e_calibration_samples e,
     xo_created_at = e_created_at e\<rparr>"

text \<open>The raw key is shown once, when it is issued; the stored hash never is.\<close>

record api_key_out =
  ko_id :: uuid
  ko_role :: role
  ko_expert_id :: "uuid option"
  ko_label :: string
  ko_key :: string

definition api_key_out_of :: "api_key \<Rightarrow> string \<Rightarrow> api_key_out" where
  "api_key_out_of k raw = \<lparr>ko_id = k_id k, ko_role = k_role k, ko_expert_id = k_expert_id k, ko_label = k_label k, ko_key = raw\<rparr>"

record criterion_out =
  no_id :: uuid
  no_key :: string
  no_label :: string
  no_weight :: rat
  no_scale_min :: int
  no_scale_max :: int
  no_position :: int

definition criterion_out_of :: "criterion \<Rightarrow> criterion_out" where
  "criterion_out_of c = \<lparr>no_id = c_id c, no_key = c_key c, no_label = c_label c, no_weight = c_weight c,
     no_scale_min = c_scale_min c, no_scale_max = c_scale_max c, no_position = c_position c\<rparr>"

record rubric_out =
  uo_id :: uuid
  uo_name :: string
  uo_version :: int
  uo_criteria :: "criterion_out list"
  uo_superseded_at :: "time option"
  uo_superseded_by_id :: "uuid option"

definition rubric_out_of :: "rubric \<Rightarrow> rubric_out" where
  "rubric_out_of r = \<lparr>uo_id = r_id r, uo_name = r_name r, uo_version = r_version r,
     uo_criteria = map criterion_out_of (r_criteria r), uo_superseded_at = r_superseded_at r,
     uo_superseded_by_id = r_superseded_by_id r\<rparr>"

record rubric_publish_out =
  po_rubric :: rubric_out
  po_previous_version :: int
  po_migrated_queued :: int
  po_open_on_previous :: int

section \<open>Tasks\<close>

record task_expert_view =
  ev_id :: uuid
  ev_prompt :: string
  ev_responses :: "json list"
  ev_task_type :: string
  ev_rubric :: rubric_out
  ev_deadline :: "time option"
  ev_lease_expires_at :: "time option"

definition task_expert_view_of :: "task \<Rightarrow> rubric \<Rightarrow> task_expert_view" where
  "task_expert_view_of t r = \<lparr>ev_id = t_id t, ev_prompt = t_prompt t, ev_responses = t_responses t,
     ev_task_type = t_task_type t, ev_rubric = rubric_out_of r, ev_deadline = t_deadline t,
     ev_lease_expires_at = t_lease_expires_at t\<rparr>"

record task_admin_view =
  tv_id :: uuid
  tv_external_ref :: "string option"
  tv_prompt :: string
  tv_responses :: "json list"
  tv_required_tags :: "string list"
  tv_task_type :: string
  tv_min_tier :: tier
  tv_rubric_id :: uuid
  tv_pinned_rubric_id :: "uuid option"
  tv_priority :: int
  tv_deadline :: "time option"
  tv_status :: task_status
  tv_required_grades :: int
  tv_grades_received :: int
  tv_is_attention_check :: bool
  tv_expected_scores :: "(string \<times> rat) list option"
  tv_assigned_expert_id :: "uuid option"
  tv_assigned_at :: "time option"
  tv_lease_expires_at :: "time option"
  tv_reclaim_count :: int
  tv_created_at :: time

definition task_admin_view_of :: "task \<Rightarrow> task_admin_view" where
  "task_admin_view_of t = \<lparr>tv_id = t_id t, tv_external_ref = t_external_ref t, tv_prompt = t_prompt t,
     tv_responses = t_responses t, tv_required_tags = t_required_tags t, tv_task_type = t_task_type t,
     tv_min_tier = t_min_tier t, tv_rubric_id = t_rubric_id t, tv_pinned_rubric_id = t_pinned_rubric_id t,
     tv_priority = t_priority t, tv_deadline = t_deadline t, tv_status = t_status t,
     tv_required_grades = t_required_grades t, tv_grades_received = t_grades_received t,
     tv_is_attention_check = t_is_attention_check t, tv_expected_scores = t_expected_scores t,
     tv_assigned_expert_id = t_assigned_expert_id t, tv_assigned_at = t_assigned_at t,
     tv_lease_expires_at = t_lease_expires_at t, tv_reclaim_count = t_reclaim_count t, tv_created_at = t_created_at t\<rparr>"

section \<open>Grades, reviews, payouts and moves\<close>

record grade_out =
  go_id :: uuid
  go_task_id :: uuid
  go_expert_id :: uuid
  go_rubric_id :: uuid
  go_scores_snapshot :: "(string \<times> rat) list"
  go_rationale :: string
  go_time_spent_seconds :: int
  go_weighted_score :: rat
  go_submitted_at :: time

definition grade_out_of :: "grade \<Rightarrow> grade_out" where
  "grade_out_of g = \<lparr>go_id = g_id g, go_task_id = g_task_id g, go_expert_id = g_expert_id g, go_rubric_id = g_rubric_id g,
     go_scores_snapshot = g_scores_snapshot g, go_rationale = g_rationale g, go_time_spent_seconds = g_time_spent_seconds g,
     go_weighted_score = g_weighted_score g, go_submitted_at = g_submitted_at g\<rparr>"

record review_out =
  ro_id :: uuid
  ro_grade_id :: uuid
  ro_decision :: review_decision
  ro_reason :: "string option"
  ro_created_at :: time
  ro_payout_id :: "uuid option"
  ro_payout_status :: "payout_status option"

definition review_out_of :: "review \<Rightarrow> review_out" where
  "review_out_of rv = \<lparr>ro_id = rv_id rv, ro_grade_id = rv_grade_id rv, ro_decision = rv_decision rv,
     ro_reason = rv_reason rv, ro_created_at = rv_created_at rv, ro_payout_id = None, ro_payout_status = None\<rparr>"

record payout_out =
  yo_id :: uuid
  yo_expert_id :: uuid
  yo_task_id :: uuid
  yo_grade_id :: uuid
  yo_tier :: tier
  yo_task_type :: string
  yo_amount_cents :: int
  yo_status :: payout_status
  yo_period_id :: "uuid option"
  yo_created_at :: time
  yo_paid_at :: "time option"

definition payout_out_of :: "payout \<Rightarrow> payout_out" where
  "payout_out_of p = \<lparr>yo_id = p_id p, yo_expert_id = p_expert_id p, yo_task_id = p_task_id p, yo_grade_id = p_grade_id p,
     yo_tier = p_tier p, yo_task_type = p_task_type p, yo_amount_cents = p_amount_cents p, yo_status = p_status p,
     yo_period_id = p_period_id p, yo_created_at = p_created_at p, yo_paid_at = p_paid_at p\<rparr>"

record tier_change_out =
  zo_from_tier :: tier
  zo_to_tier :: tier
  zo_score :: rat
  zo_samples :: nat
  zo_created_at :: time

definition tier_change_out_of :: "tier_change \<Rightarrow> tier_change_out" where
  "tier_change_out_of c = \<lparr>zo_from_tier = tc_from_tier c, zo_to_tier = tc_to_tier c, zo_score = tc_score c,
     zo_samples = tc_samples c, zo_created_at = tc_created_at c\<rparr>"

end
