(* ===== verification/Reports.thy ===== *)
theory Reports
  imports Payouts Textio
begin

text \<open>
  The two files an operator downloads: the audit trail (\<open>export_csv\<close> of \<open>panelist/services/audit.py\<close>)
  and the statement of a closed payout period (\<open>period_csv\<close> of \<open>panelist/services/payouts.py\<close>), written
  with the CSV writer of \<open>Textio\<close>. The lemmas read the files back and compare them with the tables.
\<close>

section \<open>The audit trail as a file\<close>

definition audit_columns :: "string list" where
  "audit_columns = [''id'', ''created_at'', ''actor'', ''action'', ''entity_type'', ''entity_id'', ''payload'']"

definition audit_cells :: "env \<Rightarrow> audit_event \<Rightarrow> string list" where
  "audit_cells E a = [str_int (ae_id a), isoformat (ae_created_at a), ae_actor a, ae_action a,
     ae_entity_type a, ae_entity_id a, dumps (float_repr E) (JObj (ae_payload a))]"

definition audit_matches :: "time option \<Rightarrow> string option \<Rightarrow> audit_event \<Rightarrow> bool" where
  "audit_matches since action a \<longleftrightarrow>
     (case since of None \<Rightarrow> True | Some m \<Rightarrow> m \<le> ae_created_at a) \<and>
     (case action of None \<Rightarrow> True | Some x \<Rightarrow> ae_action a = x)"

definition export_csv :: "env \<Rightarrow> time option \<Rightarrow> string option \<Rightarrow> nat \<Rightarrow> db \<Rightarrow> string" where
  "export_csv E since action limit s =
    csv_text (audit_columns # map (audit_cells E)
      (take limit (filter (audit_matches since action) (sort_key ae_id (audit_events s)))))"

section \<open>The statement of a period as a file\<close>

definition period_columns :: "string list" where
  "period_columns = [''period'', ''payout_id'', ''expert_id'', ''expert_name'', ''task_id'', ''tier'',
     ''task_type'', ''amount_cents'', ''paid_at'']"

definition period_cells :: "payout_period \<Rightarrow> payout \<times> expert \<Rightarrow> string list" where
  "period_cells period = (\<lambda>(p, e). [pp_label period, str_uuid (p_id p), str_uuid (p_expert_id p), e_name e,
     str_uuid (p_task_id p), tier_value (p_tier p), p_task_type p, str_int (p_amount_cents p),
     (case p_paid_at p of None \<Rightarrow> [] | Some m \<Rightarrow> isoformat m)])"

definition period_rows :: "env \<Rightarrow> payout_period \<Rightarrow> db \<Rightarrow> (payout \<times> expert) list" where
  "period_rows E period s = sort_key (\<lambda>(p, e). (collate E (e_name e), p_created_at p))
     (filter (\<lambda>(p, _). p_period_id p = Some (pp_id period)) (payout_expert_join s))"

definition period_csv :: "env \<Rightarrow> payout_period \<Rightarrow> db \<Rightarrow> string" where
  "period_csv E period s = csv_text (period_columns # map (period_cells period) (period_rows E period s))"

section \<open>Reading the files back\<close>

lemma trail_sorted: "trail_ok s \<Longrightarrow> sort_key ae_id (audit_events s) = audit_events s"
  by (auto simp: trail_ok_def intro!: sort_key_id_if_sorted elim: sorted_wrt_mono_rel [rotated])

lemma read_export_csv:
  "trail_ok s \<Longrightarrow> read_csv (export_csv E since action limit s) =
     audit_columns # map (audit_cells E) (take limit (filter (audit_matches since action) (audit_events s)))"
  unfolding export_csv_def by (subst read_csv_written) (auto simp: audit_columns_def audit_cells_def trail_sorted)

text \<open>
  C26: the exported trail is the trail. Reading the file back gives the header and then the matching
  events, oldest first, each cell as it was recorded, up to the limit; and a later export, with room for
  all its events, starts with every line of an earlier one: what was exported is never rewritten.
\<close>
theorem audit_export_is_the_trail:
  assumes "trail_ok s" "trail_step s s'" "length (audit_events s') \<le> limit"
  shows "read_csv (export_csv E since action n s) =
      audit_columns # map (audit_cells E) (take n (filter (audit_matches since action) (audit_events s))) \<and>
    (\<exists>later. read_csv (export_csv E since action limit s') = read_csv (export_csv E since action limit s) @ later)"
proof -
  obtain new where new: "audit_events s' = audit_events s @ new" and ok: "trail_ok s'"
    using assms(1,2) by (auto simp: trail_step_def trail_extends_def prefix_def)
  let ?sel = "filter (audit_matches since action)"
  have room: "take limit (?sel xs) = ?sel xs" if "length xs \<le> length (audit_events s')" for xs
    using le_trans [OF length_filter_le le_trans [OF that assms(3)]] by simp
  have "read_csv (export_csv E since action limit s') =
      read_csv (export_csv E since action limit s) @ map (audit_cells E) (?sel new)"
    using room [of "audit_events s"] room [of "audit_events s'"]
    by (simp add: read_export_csv [OF ok] read_export_csv [OF assms(1)] new)
  then show ?thesis using read_export_csv [OF assms(1)] by blast
qed

theorem audit_export_is_the_trail_witness:
  "\<exists>later. read_csv (export_csv sample_env None (Some ''task.claimed'') 5
       (record_event ''a, b'' ''task.claimed'' ''task'' ''1'' [(''note'', JStr ''x'')] sample_db)) =
     read_csv (export_csv sample_env None (Some ''task.claimed'') 5 sample_db) @ later"
proof -
  let ?s' = "record_event ''a, b'' ''task.claimed'' ''task'' ''1'' [(''note'', JStr ''x'')] sample_db"
  have "trail_ok sample_db" "length (audit_events ?s') \<le> 5"
    by (simp_all add: trail_ok_def record_event_def sample_db_def empty_db_def)
  then show ?thesis
    by (intro conjunct2 [OF audit_export_is_the_trail]) simp_all
qed

lemma sum_list_same_mset: "mset xs = mset ys \<Longrightarrow> sum_list (map f xs) = sum_list (map f ys)" for f :: "'a \<Rightarrow> int"
  by (metis mset_map sum_mset_sum_list)

text \<open>
  The statement of a period adds up. Reading the file back gives the header and one line per payout
  the period settled, each once, with the payout's own identifiers and amount; the amounts sum to the
  total, and the lines number the count, that the period reports.
\<close>
theorem statement_matches_period:
  assumes "distinct (map e_id (experts s))" "payouts_ok s"
  shows "\<exists>rows. read_csv (period_csv E period s) = period_columns # map (period_cells period) rows \<and>
    mset (map fst rows) = mset (filter (\<lambda>p. p_period_id p = Some (pp_id period)) (payouts s)) \<and>
    sum_list (map (\<lambda>(p, _). p_amount_cents p) rows) = ps_total_cents (period_totals period s) \<and>
    int (length rows) = ps_payout_count (period_totals period s)"
proof (intro exI conjI)
  let ?rows = "period_rows E period s"
  let ?mine = "\<lambda>p. p_period_id p = Some (pp_id period)"
  have "map fst (payout_expert_join s) = payouts s"
    by (rule payout_expert_join_eq) (use assms in \<open>auto simp: payouts_ok_def payout_row_ok_def\<close>)
  then have sel: "filter ?mine (payouts s) = map fst (filter (\<lambda>(p, _). ?mine p) (payout_expert_join s))"
    by (simp add: filter_map comp_def split_def flip: \<open>map fst (payout_expert_join s) = payouts s\<close>)
  show all: "mset (map fst ?rows) = mset (filter ?mine (payouts s))"
    unfolding sel by (simp add: period_rows_def)
  have "sum_list (map (\<lambda>(p, _). p_amount_cents p) ?rows) = sum_list (map p_amount_cents (map fst ?rows))"
    by (intro arg_cong [of _ _ sum_list]) auto
  also have "\<dots> = sum_list (map p_amount_cents (filter ?mine (payouts s)))"
    by (rule sum_list_same_mset [OF all])
  finally show "sum_list (map (\<lambda>(p, _). p_amount_cents p) ?rows) = ps_total_cents (period_totals period s)"
    by (simp add: period_totals_def cents_where_def Let_def)
  show "int (length ?rows) = ps_payout_count (period_totals period s)"
    using mset_eq_length [OF all] by (simp add: period_totals_def row_count_def Let_def)
  show "read_csv (period_csv E period s) = period_columns # map (period_cells period) ?rows"
    unfolding period_csv_def by (rule read_csv_written) (auto simp: period_columns_def period_cells_def)
qed

definition sample_period :: payout_period where
  "sample_period = \<lparr>pp_id = 90, pp_label = ''2026-09-A'', pp_closed_at = 5\<rparr>"

definition sample_settled_db :: db where
  "sample_settled_db = sample_ledger_db\<lparr>payout_periods := [sample_period],
     payouts := map (\<lambda>p. if p_status p = Pending then p\<lparr>p_status := Paid, p_period_id := Some 90, p_paid_at := Some 5\<rparr> else p)
       (payouts sample_ledger_db)\<rparr>"

theorem statement_matches_period_witness:
  "\<exists>rows. read_csv (period_csv sample_env sample_period sample_settled_db) =
      period_columns # map (period_cells sample_period) rows \<and>
    length rows = 2 \<and> sum_list (map (\<lambda>(p, _). p_amount_cents p) rows) = 1300"
proof -
  have "distinct (map e_id (experts sample_settled_db))" "payouts_ok sample_settled_db"
    by (simp_all add: sample_settled_db_def sample_ledger_db_def payouts_ok_def payout_row_ok_def sample_period_def sample_defs)
  from statement_matches_period [OF this, of sample_env sample_period] obtain rows where
    "read_csv (period_csv sample_env sample_period sample_settled_db) = period_columns # map (period_cells sample_period) rows"
    "sum_list (map (\<lambda>(p, _). p_amount_cents p) rows) = ps_total_cents (period_totals sample_period sample_settled_db)"
    "int (length rows) = ps_payout_count (period_totals sample_period sample_settled_db)" by blast
  moreover have "ps_total_cents (period_totals sample_period sample_settled_db) = 1300"
    "ps_payout_count (period_totals sample_period sample_settled_db) = 2"
    by (simp_all add: period_totals_def cents_where_def Let_def sample_settled_db_def sample_ledger_db_def sample_period_def sample_defs)
  ultimately show ?thesis by auto
qed

end
