(* ===== verification/Api.thy ===== *)
theory Api
  imports Responses Reports
begin

text \<open>
  The HTTP layer: the request bodies of \<open>panelist/schemas.py\<close> with their validation and the handlers of \<open>panelist/routers/\<close> that change the database. A handler is the code after its
  dependencies: it gets the principal or the expert they resolved. \<open>Requests\<close> puts the guards in front.
\<close>

section \<open>Request bodies\<close>

definition sized :: "nat \<Rightarrow> nat \<Rightarrow> 'a list \<Rightarrow> bool" where
  "sized lo hi xs \<longleftrightarrow> lo \<le> length xs \<and> length xs \<le> hi"

record expert_create =
  xc_name :: string
  xc_tags :: "string list"
  xc_tier :: tier
  xc_task_rate_cents :: "int option"

definition expert_create_ok :: "expert_create \<Rightarrow> bool" where
  "expert_create_ok b \<longleftrightarrow> sized 1 200 (xc_name b) \<and> xc_tags b \<noteq> []"

record api_key_create =
  kc_role :: role
  kc_expert_id :: "uuid option"
  kc_label :: string

definition criterion_in_ok :: "criterion_in \<Rightarrow> bool" where
  "criterion_in_ok c \<longleftrightarrow> sized 1 64 (ci_key c)"

record rubric_create =
  bc_name :: string
  bc_version :: int
  bc_criteria :: "criterion_in list"

definition rubric_create_ok :: "rubric_create \<Rightarrow> bool" where
  "rubric_create_ok b \<longleftrightarrow> bc_criteria b \<noteq> [] \<and> list_all criterion_in_ok (bc_criteria b)"

definition rubric_publish_ok :: "criterion_in list \<Rightarrow> bool" where
  "rubric_publish_ok cs \<longleftrightarrow> cs \<noteq> [] \<and> list_all criterion_in_ok cs"

definition rate_card_in_ok :: "rate_card \<Rightarrow> bool" where
  "rate_card_in_ok c \<longleftrightarrow> 0 \<le> rc_rate_cents c"

record task_create =
  kt_prompt :: string
  kt_responses :: "json list"
  kt_required_tags :: "string list"
  kt_task_type :: string
  kt_min_tier :: tier
  kt_rubric_id :: uuid
  kt_priority :: int
  kt_deadline :: "time option"
  kt_required_grades :: int
  kt_is_attention_check :: bool
  kt_expected_scores :: "(string \<times> rat) list option"
  kt_external_ref :: "string option"

definition task_create_ok :: "task_create \<Rightarrow> bool" where
  "task_create_ok b \<longleftrightarrow> kt_responses b \<noteq> [] \<and> kt_required_tags b \<noteq> [] \<and>
     1 \<le> kt_required_grades b \<and> kt_required_grades b \<le> 5"

definition task_bulk_ok :: "task_create list \<Rightarrow> bool" where
  "task_bulk_ok bs \<longleftrightarrow> sized 1 2000 bs \<and> list_all task_create_ok bs"

record grade_create =
  gc_task_id :: uuid
  gc_rubric_id :: "uuid option"
  gc_scores :: "(string \<times> rat) list"
  gc_rationale :: string
  gc_time_spent_seconds :: int

text \<open>A JSON object has one value per key.\<close>

definition grade_create_ok :: "grade_create \<Rightarrow> bool" where
  "grade_create_ok b \<longleftrightarrow> gc_rationale b \<noteq> [] \<and> 0 \<le> gc_time_spent_seconds b \<and> distinct (map fst (gc_scores b))"

record review_create =
  rb_grade_id :: uuid
  rb_decision :: review_decision
  rb_reason :: "string option"

record adjudication_decision =
  ad_delivered_grade_id :: uuid
  ad_reason :: string

definition adjudication_decision_ok :: "adjudication_decision \<Rightarrow> bool" where
  "adjudication_decision_ok b \<longleftrightarrow> ad_reason b \<noteq> []"

definition period_close_ok :: "string \<Rightarrow> bool" where
  "period_close_ok label \<longleftrightarrow> sized 1 64 label"

section \<open>Showing a task\<close>

text \<open>\<open>task.rubric\<close>, read when the response is built.\<close>

definition show_task :: "task \<Rightarrow> db \<Rightarrow> task_expert_view outcome" where
  "show_task t s = the_row ''rubric'' (get_rubric (t_rubric_id t) s) (\<lambda>r s. (Inr (task_expert_view_of t r), s)) s"

section \<open>Experts and keys\<close>

definition create_expert :: "env \<Rightarrow> principal \<Rightarrow> expert_create \<Rightarrow> db \<Rightarrow> expert outcome" where
  "create_expert E p b s =
    (let (eid, s1) = new_uuid E s;
         e = \<lparr>e_id = eid, e_name = xc_name b, e_tags = xc_tags b, e_tier = xc_tier b,
              e_task_rate_cents = xc_task_rate_cents b, e_status = Active, e_served_count = 0,
              e_calibration_score = None, e_calibration_samples = 0, e_tier_updated_at = None,
              e_created_at = tx_now s1\<rparr>
     in and_then (insert_expert e s1) (\<lambda>_ s2.
          (Inr e, record_event (actor_of p) ''expert.created'' ''expert'' (str_uuid eid) [] s2)))"

definition create_expert_key :: "env \<Rightarrow> principal \<Rightarrow> uuid \<Rightarrow> string \<Rightarrow> db \<Rightarrow> (api_key \<times> string) outcome" where
  "create_expert_key E p eid token s =
    (case get_expert eid s of
       None \<Rightarrow> (Inl (HTTPException 404 ExpertNotFound), s)
     | Some e \<Rightarrow> and_then (issue_key E ExpertRole (Some (e_id e)) (e_name e) token s) (\<lambda>(k, raw) s1.
         (Inr (k, raw), record_event (actor_of p) ''apikey.issued'' ''api_key'' (str_uuid (k_id k)) [] s1)))"

definition set_status :: "env \<Rightarrow> principal \<Rightarrow> uuid \<Rightarrow> expert_status \<Rightarrow> db \<Rightarrow> expert outcome" where
  "set_status E p eid status s =
    (case get_expert eid s of
       None \<Rightarrow> (Inl (HTTPException 404 ExpertNotFound), s)
     | Some e \<Rightarrow>
        let previous = e_status e;
            s1 = modify_expert eid (\<lambda>e. e\<lparr>e_status := status\<rparr>) s;
            s2 = (if previous = Paused \<and> status = Active then snd (release_withheld eid (actor_of p) s1) else s1)
        in (Inr (e\<lparr>e_status := status\<rparr>),
            record_event (actor_of p) ''expert.status'' ''expert'' (str_uuid (e_id e))
              [(''from'', JStr (expert_status_value previous)), (''to'', JStr (expert_status_value status))] s2))"

section \<open>Tasks\<close>

definition new_task :: "uuid \<Rightarrow> int \<Rightarrow> time \<Rightarrow> task_create \<Rightarrow> task" where
  "new_task tid sq now b = \<lparr>t_id = tid, t_seq = sq, t_external_ref = kt_external_ref b, t_prompt = kt_prompt b,
     t_responses = kt_responses b, t_required_tags = kt_required_tags b, t_task_type = kt_task_type b,
     t_min_tier = kt_min_tier b, t_rubric_id = kt_rubric_id b, t_pinned_rubric_id = None,
     t_priority = kt_priority b, t_deadline = kt_deadline b, t_status = Queued,
     t_required_grades = kt_required_grades b, t_grades_received = 0,
     t_is_attention_check = kt_is_attention_check b, t_expected_scores = kt_expected_scores b,
     t_assigned_expert_id = None, t_assigned_at = None, t_lease_expires_at = None, t_reclaim_count = 0,
     t_created_at = now\<rparr>"

text \<open>The flush of \<open>db.add_all(tasks)\<close>: the rows in order, each with the next sequence number.\<close>

fun insert_tasks :: "env \<Rightarrow> task_create list \<Rightarrow> db \<Rightarrow> uuid list outcome" where
  "insert_tasks E [] s = (Inr [], s)"
| "insert_tasks E (b # bs) s =
    (let (tid, s1) = new_uuid E s;
         t = new_task tid (task_seq s1) (tx_now s1) b
     in and_then (insert_task t (s1\<lparr>task_seq := task_seq s1 + 1\<rparr>)) (\<lambda>_ s2.
          and_then (insert_tasks E bs s2) (\<lambda>ids s3. (Inr (tid # ids), s3))))"

definition create_tasks :: "env \<Rightarrow> principal \<Rightarrow> task_create list \<Rightarrow> db \<Rightarrow> uuid list outcome" where
  "create_tasks E p bs s =
    (case superseded_among (set (map kt_rubric_id bs)) s of
       Some stale \<Rightarrow> (Inl (HTTPException 409 (RubricIsSuperseded (r_name stale) (r_version stale))), s)
     | None \<Rightarrow>
        if \<exists>b \<in> set bs. kt_is_attention_check b \<and> kt_expected_scores b \<in> {None, Some []}
        then (Inl (HTTPException 422 AttentionNeedsExpectedScores), s)
        else and_then (insert_tasks E bs s) (\<lambda>ids s1.
          (Inr ids, record_event (actor_of p) ''tasks.created'' ''task'' ''bulk'' [(''count'', JInt (int (length ids)))] s1)))"

definition next_task :: "env \<Rightarrow> expert \<Rightarrow> uuid list \<Rightarrow> db \<Rightarrow> task_expert_view option outcome" where
  "next_task E e locked s = and_then (claim_next E (e_id e) locked s) (\<lambda>t s1.
     case t of None \<Rightarrow> (Inr None, s1) | Some t \<Rightarrow> and_then (show_task t s1) (\<lambda>v s2. (Inr (Some v), s2)))"

definition claim_task :: "env \<Rightarrow> expert \<Rightarrow> uuid \<Rightarrow> uuid list \<Rightarrow> db \<Rightarrow> task_expert_view outcome" where
  "claim_task E e tid locked s = and_then (claim_by_id E (e_id e) tid locked s) show_task"

definition release_task :: "expert \<Rightarrow> uuid \<Rightarrow> db \<Rightarrow> unit outcome" where
  "release_task e tid s = and_then (release (e_id e) tid s) (\<lambda>_ s1. (Inr (), s1))"

definition reclaim_route :: "env \<Rightarrow> db \<Rightarrow> int outcome" where
  "reclaim_route E s = (let (n, s1) = reclaim_expired E s in (Inr n, s1))"

section \<open>Grades, reviews and adjudication\<close>

definition submit_grade :: "env \<Rightarrow> expert \<Rightarrow> grade_create \<Rightarrow> db \<Rightarrow> grade outcome" where
  "submit_grade E e b s =
     submit E (e_id e) (gc_task_id b) (gc_scores b) (gc_rationale b) (gc_time_spent_seconds b) (gc_rubric_id b) s"

definition create_review :: "env \<Rightarrow> principal \<Rightarrow> review_create \<Rightarrow> db \<Rightarrow> review_out outcome" where
  "create_review E p b s =
    and_then (review_grade E (pr_key_id p) (rb_grade_id b) (rb_decision b) (rb_reason b) (actor_of p) s)
      (\<lambda>(rec, pay) s1. (Inr ((review_out_of rec)\<lparr>ro_payout_id := map_option p_id pay,
                              ro_payout_status := map_option p_status pay\<rparr>), s1))"

record outvoted_out =
  oo_grade_id :: uuid
  oo_expert_id :: uuid
  oo_payout_id :: "uuid option"
  oo_amount_cents :: "int option"

record adjudication_result =
  aj_task_id :: uuid
  aj_status :: consensus_status
  aj_delivered_grade_id :: uuid
  aj_delivered_amount_cents :: int
  aj_outvoted_rule :: Models.outvoted_payout
  aj_outvoted :: "outvoted_out list"

definition decide :: "env \<Rightarrow> principal \<Rightarrow> uuid \<Rightarrow> adjudication_decision \<Rightarrow> db \<Rightarrow> adjudication_result outcome" where
  "decide E p tid b s =
    and_then (resolve E tid (ad_delivered_grade_id b) (ad_reason b) (pr_key_id p) (actor_of p) s) (\<lambda>d s1.
      the_row ''amount_cents'' (dec_delivered d) (\<lambda>paid s1.
        (Inr \<lparr>aj_task_id = tid, aj_status = co_status (dec_round d), aj_delivered_grade_id = ad_delivered_grade_id b,
              aj_delivered_amount_cents = p_amount_cents paid, aj_outvoted_rule = consensus_outvoted_payout (cfg E),
              aj_outvoted = map (\<lambda>(g, pay). \<lparr>oo_grade_id = g_id g, oo_expert_id = g_expert_id g,
                 oo_payout_id = map_option p_id pay, oo_amount_cents = map_option p_amount_cents pay\<rparr>) (dec_outvoted d)\<rparr>, s1)) s1)"

section \<open>Rubrics, rates and payouts\<close>

definition create_rubric :: "env \<Rightarrow> principal \<Rightarrow> rubric_create \<Rightarrow> db \<Rightarrow> rubric outcome" where
  "create_rubric E p b s =
    (let (rid, s1) = new_uuid E s;
         (cids, s2) = new_uuids E (length (bc_criteria b)) s1;
         r = \<lparr>r_id = rid, r_name = bc_name b, r_version = bc_version b, r_criteria = criteria_rows cids (bc_criteria b),
              r_created_at = tx_now s2, r_superseded_at = None, r_superseded_by_id = None\<rparr>
     in and_then (insert_rubric r s2) (\<lambda>_ s3.
          (Inr r, record_event (actor_of p) ''rubric.created'' ''rubric'' (str_uuid rid) [] s3)))"

definition publish_version :: "env \<Rightarrow> principal \<Rightarrow> uuid \<Rightarrow> criterion_in list \<Rightarrow> db \<Rightarrow> rubric_publish_out outcome" where
  "publish_version E p rid cs s =
    (case get_rubric rid s of
       None \<Rightarrow> (Inl (HTTPException 404 RubricNotFound), s)
     | Some previous \<Rightarrow> and_then (publish E previous cs (actor_of p) s) (\<lambda>(r, migrated, left) s1.
         (Inr \<lparr>po_rubric = rubric_out_of r, po_previous_version = r_version previous, po_migrated_queued = migrated,
               po_open_on_previous = left\<rparr>, s1)))"

definition put_rate_cards :: "principal \<Rightarrow> rate_card list \<Rightarrow> db \<Rightarrow> unit outcome" where
  "put_rate_cards p cards s =
    (Inr (), record_event (actor_of p) ''ratecard.updated'' ''rate_card'' ''bulk'' [(''count'', JInt (int (length cards)))]
       (fold merge_rate_card cards s))"

definition close_period_route :: "env \<Rightarrow> principal \<Rightarrow> string \<Rightarrow> db \<Rightarrow> period_summary outcome" where
  "close_period_route E p label s =
    and_then (close_period E label (actor_of p) s) (\<lambda>period s1. (Inr (period_totals period s1), s1))"

section \<open>Queries with logic of their own\<close>

definition list_unreviewed :: "int \<Rightarrow> db \<Rightarrow> grade list" where
  "list_unreviewed limit s = take (nat (min limit 1000)) (sort_key g_submitted_at
    (filter (\<lambda>g. get_review (g_id g) s = None \<and>
       (case get_task (g_task_id g) s of
          None \<Rightarrow> False
        | Some t \<Rightarrow> t_status t \<noteq> Adjudication \<and> t_required_grades t \<le> t_grades_received t)) (grades s)))"

definition list_payouts :: "uuid option \<Rightarrow> payout_status option \<Rightarrow> int \<Rightarrow> db \<Rightarrow> payout list" where
  "list_payouts expert_id status limit s = take (nat (min limit 5000)) (sort_key p_created_at
    (filter (\<lambda>p. (case expert_id of None \<Rightarrow> True | Some e \<Rightarrow> p_expert_id p = e) \<and>
                 (case status of None \<Rightarrow> True | Some x \<Rightarrow> p_status p = x)) (payouts s)))"

record attention_view =
  av_expert_id :: uuid
  av_status :: expert_status
  av_checks_total :: nat
  av_checks_passed :: nat
  av_rolling_window :: nat
  av_rolling_pass_rate :: "rat option"
  av_paused :: bool

definition attention_summary :: "env \<Rightarrow> uuid \<Rightarrow> db \<Rightarrow> attention_view outcome" where
  "attention_summary E eid s =
    (case get_expert eid s of
       None \<Rightarrow> (Inl (HTTPException 404 ExpertNotFound), s)
     | Some e \<Rightarrow>
        let (total, passed) = lifetime_counts (e_id e) s;
            (rate, _, window_n) = rolling_pass_rate E (e_id e) s
        in (Inr \<lparr>av_expert_id = e_id e, av_status = e_status e, av_checks_total = total, av_checks_passed = passed,
                 av_rolling_window = window_n, av_rolling_pass_rate = rate, av_paused = (e_status e = Paused)\<rparr>, s))"

record calibration_view =
  cv_expert_id :: uuid
  cv_tier :: tier
  cv_score :: "rat option"
  cv_samples :: nat
  cv_window :: nat
  cv_min_samples :: nat
  cv_promote_at :: rat
  cv_demote_at :: rat
  cv_changes :: "tier_change_out list"

definition calibration_summary :: "env \<Rightarrow> uuid \<Rightarrow> db \<Rightarrow> calibration_view outcome" where
  "calibration_summary E eid s =
    (case get_expert eid s of
       None \<Rightarrow> (Inl (HTTPException 404 ExpertNotFound), s)
     | Some e \<Rightarrow> (Inr \<lparr>cv_expert_id = e_id e, cv_tier = e_tier e, cv_score = e_calibration_score e,
         cv_samples = e_calibration_samples e, cv_window = calibration_window (cfg E),
         cv_min_samples = calibration_min_samples (cfg E), cv_promote_at = calibration_promote_at (cfg E),
         cv_demote_at = calibration_demote_at (cfg E), cv_changes = map tier_change_out_of (history (e_id e) s)\<rparr>, s))"

record consensus_grade =
  cg_grade_id :: uuid
  cg_expert_id :: uuid
  cg_expert_name :: string
  cg_weighted_score :: rat
  cg_scores :: "(string \<times> rat) list"
  cg_rationale :: string

record adjudication_view =
  jv_task_id :: uuid
  jv_external_ref :: "string option"
  jv_prompt :: string
  jv_status :: consensus_status
  jv_grade_count :: nat
  jv_spread :: rat
  jv_tolerance :: rat
  jv_opened_at :: time
  jv_grades :: "consensus_grade list"

definition consensus_grade_of :: "db \<Rightarrow> grade \<Rightarrow> consensus_grade option" where
  "consensus_grade_of s g = map_option (\<lambda>e. \<lparr>cg_grade_id = g_id g, cg_expert_id = g_expert_id g, cg_expert_name = e_name e,
     cg_weighted_score = g_weighted_score g, cg_scores = g_scores_snapshot g, cg_rationale = g_rationale g\<rparr>)
     (get_expert (g_expert_id g) s)"

definition adjudication_view_of :: "db \<Rightarrow> consensus \<Rightarrow> adjudication_view option" where
  "adjudication_view_of s row =
    (case (get_task (co_task_id row) s, those (map (consensus_grade_of s) (grades_for (co_task_id row) s))) of
       (Some t, Some gs) \<Rightarrow> Some \<lparr>jv_task_id = co_task_id row, jv_external_ref = t_external_ref t, jv_prompt = t_prompt t,
          jv_status = co_status row, jv_grade_count = co_grade_count row, jv_spread = co_spread row,
          jv_tolerance = co_tolerance row, jv_opened_at = co_created_at row, jv_grades = gs\<rparr>
     | _ \<Rightarrow> None)"

definition adjudication_queue :: "int \<Rightarrow> db \<Rightarrow> adjudication_view list outcome" where
  "adjudication_queue limit s =
    the_row ''task'' (those (map (adjudication_view_of s) (pending (nat (min limit 1000)) s))) (\<lambda>rows s. (Inr rows, s)) s"

end
