(* ===== verification/Requests.thy ===== *)
theory Requests
  imports Api
begin

text \<open>
  Requests as the application serves them: \<open>command\<close>s, which may change the database, and \<open>query\<close>s,
  which only read it; each with the scope guard its route declares in \<open>panelist/routers/\<close>, the validation
  of its body, and the transaction around it: a handler that raises is rolled back.
\<close>

section \<open>Commands\<close>

datatype command =
    CreateExpert expert_create
  | CreateExpertKey uuid
  | SetStatus uuid expert_status
  | CreateTasks "task_create list"
  | NextTask
  | Reclaim
  | ClaimTask uuid
  | ReleaseTask uuid
  | SubmitGrade grade_create
  | CreateReview review_create
  | Decide uuid adjudication_decision
  | CreateRubric rubric_create
  | PublishVersion uuid "criterion_in list"
  | PutRateCards "rate_card list"
  | ClosePeriod string
  | ExportDelivery
  | CreateKey api_key_create
  | RevokeKey uuid

datatype response =
    ExpertOut expert_out
  | ApiKeyOut api_key_out
  | IdsOut "uuid list"
  | NoContent
  | TaskOut task_expert_view
  | ReclaimOut int
  | GradeOut grade_out
  | ReviewOut review_out
  | AdjudicationResult adjudication_result
  | RubricOut rubric_out
  | RubricPublishOut rubric_publish_out
  | PeriodOut period_summary
  | DeliveryOut delivery

text \<open>What surrounds a request: the time its transaction begins, the tasks other transactions hold
  locked, and the random text of a key it may issue.\<close>

record moment =
  m_now :: time
  m_locked :: "uuid list"
  m_token :: string

definition checked :: "bool \<Rightarrow> (db \<Rightarrow> 'a outcome) \<Rightarrow> db \<Rightarrow> 'a outcome" where
  "checked ok f s = (if ok then f s else (Inl (HTTPException 422 InvalidBody), s))"

definition with_scopes :: "env \<Rightarrow> string list \<Rightarrow> string option \<Rightarrow> (principal \<Rightarrow> db \<Rightarrow> 'a outcome) \<Rightarrow> db \<Rightarrow> 'a outcome" where
  "with_scopes E needed raw f s = and_then (require_scopes E needed raw s) f"

definition as_expert :: "env \<Rightarrow> string option \<Rightarrow> (expert \<Rightarrow> db \<Rightarrow> 'a outcome) \<Rightarrow> db \<Rightarrow> 'a outcome" where
  "as_expert E raw f s = and_then (current_expert E raw s) f"

definition responds :: "('a \<Rightarrow> response) \<Rightarrow> 'a outcome \<Rightarrow> response outcome" where
  "responds f r = and_then r (\<lambda>x s. (Inr (f x), s))"

text \<open>The commands that leave the store of deliveries alone; \<open>ExportDelivery\<close> is served by \<open>perform\<close>.\<close>

fun run_command :: "env \<Rightarrow> moment \<Rightarrow> command \<Rightarrow> string option \<Rightarrow> db \<Rightarrow> response outcome" where
  "run_command E m (CreateExpert b) raw s = with_scopes E [''experts:write''] raw (\<lambda>p.
     checked (expert_create_ok b) (\<lambda>s. responds (ExpertOut \<circ> expert_out_of) (create_expert E p b s))) s"
| "run_command E m (CreateExpertKey eid) raw s = with_scopes E [''experts:write''] raw (\<lambda>p s.
     responds (\<lambda>(k, raw). ApiKeyOut (api_key_out_of k raw)) (create_expert_key E p eid (m_token m) s)) s"
| "run_command E m (SetStatus eid status) raw s = with_scopes E [''experts:write''] raw (\<lambda>p s.
     responds (ExpertOut \<circ> expert_out_of) (set_status E p eid status s)) s"
| "run_command E m (CreateTasks bs) raw s = with_scopes E [''tasks:write''] raw (\<lambda>p.
     checked (task_bulk_ok bs) (\<lambda>s. responds IdsOut (create_tasks E p bs s))) s"
| "run_command E m NextTask raw s = as_expert E raw (\<lambda>e s.
     responds (\<lambda>v. case v of None \<Rightarrow> NoContent | Some v \<Rightarrow> TaskOut v) (next_task E e (m_locked m) s)) s"
| "run_command E m Reclaim raw s = with_scopes E [''tasks:write''] raw (\<lambda>_ s.
     responds ReclaimOut (reclaim_route E s)) s"
| "run_command E m (ClaimTask tid) raw s = as_expert E raw (\<lambda>e s.
     responds TaskOut (claim_task E e tid (m_locked m) s)) s"
| "run_command E m (ReleaseTask tid) raw s = as_expert E raw (\<lambda>e s.
     responds (\<lambda>_. NoContent) (release_task e tid s)) s"
| "run_command E m (SubmitGrade b) raw s = as_expert E raw (\<lambda>e.
     checked (grade_create_ok b) (\<lambda>s. responds (GradeOut \<circ> grade_out_of) (submit_grade E e b s))) s"
| "run_command E m (CreateReview b) raw s = with_scopes E [''reviews:write''] raw (\<lambda>p s.
     responds ReviewOut (create_review E p b s)) s"
| "run_command E m (Decide tid b) raw s = with_scopes E [''adjudications:write''] raw (\<lambda>p.
     checked (adjudication_decision_ok b) (\<lambda>s. responds AdjudicationResult (decide E p tid b s))) s"
| "run_command E m (CreateRubric b) raw s = with_scopes E [''rubrics:write''] raw (\<lambda>p.
     checked (rubric_create_ok b) (\<lambda>s. responds (RubricOut \<circ> rubric_out_of) (create_rubric E p b s))) s"
| "run_command E m (PublishVersion rid cs) raw s = with_scopes E [''rubrics:write''] raw (\<lambda>p.
     checked (rubric_publish_ok cs) (\<lambda>s. responds RubricPublishOut (publish_version E p rid cs s))) s"
| "run_command E m (PutRateCards cards) raw s = with_scopes E [''payouts:write''] raw (\<lambda>p.
     checked (list_all rate_card_in_ok cards) (\<lambda>s. responds (\<lambda>_. NoContent) (put_rate_cards p cards s))) s"
| "run_command E m (ClosePeriod label) raw s = with_scopes E [''payouts:write''] raw (\<lambda>p.
     checked (period_close_ok label) (\<lambda>s. responds PeriodOut (close_period_route E p label s))) s"
| "run_command E m ExportDelivery raw s = with_scopes E [''deliveries:write''] raw (\<lambda>_ s. (Inr NoContent, s)) s"
| "run_command E m (CreateKey b) raw s = with_scopes E [''admin''] raw (\<lambda>p s.
     responds (\<lambda>(k, raw). ApiKeyOut (api_key_out_of k raw)) (create_key E p (kc_role b) (kc_expert_id b) (kc_label b) (m_token m) s)) s"
| "run_command E m (RevokeKey kid) raw s = with_scopes E [''admin''] raw (\<lambda>p s.
     responds (\<lambda>_. NoContent) (revoke_key E p kid s)) s"

definition perform :: "env \<Rightarrow> 'st storage \<Rightarrow> moment \<Rightarrow> command \<Rightarrow> string option \<Rightarrow> db \<times> 'st \<Rightarrow> (error, response, db \<times> 'st) result" where
  "perform E io m c raw sst =
    (let (s, st) = sst in
     if c = ExportDelivery
     then (case require_scopes E [''deliveries:write''] raw s of
             (Inl e, s1) \<Rightarrow> (Inl e, (s1, st))
           | (Inr p, s1) \<Rightarrow> and_then (export E io (actor_of p) (s1, st)) (\<lambda>d sst. (Inr (DeliveryOut d), sst)))
     else (let (r, s1) = run_command E m c raw s in (r, (s1, st))))"

text \<open>Rolling back keeps what is not transactional: readings, drawn identifiers, metrics, the sequences,
  which never go back, and what was written to the store.\<close>

definition rolled_back :: "db \<Rightarrow> db \<Rightarrow> db" where
  "rolled_back s s' = s\<lparr>task_seq := max (task_seq s) (task_seq s'), audit_seq := max (audit_seq s) (audit_seq s'),
     tx_now := tx_now s', clock_pos := clock_pos s', uuid_pos := uuid_pos s', metrics := metrics s'\<rparr>"

definition serve :: "env \<Rightarrow> 'st storage \<Rightarrow> moment \<Rightarrow> command \<Rightarrow> string option \<Rightarrow> db \<times> 'st \<Rightarrow> (error, response, db \<times> 'st) result" where
  "serve E io m c raw sst =
    (let (s, st) = sst in
     case perform E io m c raw (s\<lparr>tx_now := m_now m\<rparr>, st) of
       (Inl e, (s', st')) \<Rightarrow> (Inl e, (rolled_back s s', st'))
     | (Inr x, sst') \<Rightarrow> (Inr x, sst'))"

section \<open>Queries\<close>

datatype query =
    Me
  | GetExpert uuid
  | AttentionOf uuid
  | CalibrationOf uuid
  | QueueSummary
  | GetTask uuid
  | GetGrade uuid
  | ListUnreviewed int
  | AdjudicationQueue int
  | GetRubric uuid
  | ListPayouts "uuid option" "payout_status option" int
  | Ledger
  | GetPeriod uuid
  | ExportPeriod uuid
  | Criteria "uuid option"
  | Agreement uuid uuid
  | AgreementGlobal
  | TaskAgreement uuid
  | Reliability uuid
  | ListDeliveries
  | VerifyDelivery int
  | Overview
  | AuditExport "time option" "string option" int

datatype answer =
    ExpertAnswer expert_out
  | AttentionAnswer attention_view
  | CalibrationAnswer calibration_view
  | QueueAnswer "(task_status \<times> int) list" "(string \<times> int) list"
  | TaskAnswer task_admin_view
  | GradeAnswer grade_out
  | GradesAnswer "grade_out list"
  | AdjudicationsAnswer "adjudication_view list"
  | RubricAnswer rubric_out
  | PayoutsAnswer "payout_out list"
  | LedgerAnswer ledger_view
  | PeriodAnswer period_summary
  | CsvAnswer string
  | CriteriaAnswer "criterion_stat list"
  | AgreementAnswer agreement
  | GlobalAnswer global_view
  | TaskAgreementAnswer task_agreement_view
  | ReliabilityAnswer reliability
  | DeliveriesAnswer "delivery list"
  | VerificationAnswer verification
  | OverviewAnswer ops_overview

definition found :: "detail \<Rightarrow> 'r option \<Rightarrow> ('r \<Rightarrow> answer) \<Rightarrow> db \<Rightarrow> answer outcome" where
  "found d row f s = (case row of None \<Rightarrow> (Inl (HTTPException 404 d), s) | Some r \<Rightarrow> (Inr (f r), s))"

text \<open>The endpoints that only read, with their guards. PostgreSQL refuses a negative \<open>LIMIT\<close>.\<close>

definition limited :: "int \<Rightarrow> (db \<Rightarrow> 'a outcome) \<Rightarrow> db \<Rightarrow> 'a outcome" where
  "limited limit f s = (if limit < 0 then (Inl (DataError ''LIMIT must not be negative''), s) else f s)"

definition me_route :: "env \<Rightarrow> string option \<Rightarrow> db \<Rightarrow> answer outcome" where
  "me_route E raw s = as_expert E raw (\<lambda>e s. (Inr (ExpertAnswer (expert_out_of e)), s)) s"

definition get_expert_route :: "env \<Rightarrow> uuid \<Rightarrow> string option \<Rightarrow> db \<Rightarrow> answer outcome" where
  "get_expert_route E eid raw s = with_scopes E [''tasks:read''] raw (\<lambda>_ s.
     found ExpertNotFound (get_expert eid s) (ExpertAnswer \<circ> expert_out_of) s) s"

definition attention_route :: "env \<Rightarrow> uuid \<Rightarrow> string option \<Rightarrow> db \<Rightarrow> answer outcome" where
  "attention_route E eid raw s = with_scopes E [''tasks:read''] raw (\<lambda>_ s.
     and_then (attention_summary E eid s) (\<lambda>v s. (Inr (AttentionAnswer v), s))) s"

definition calibration_route :: "env \<Rightarrow> uuid \<Rightarrow> string option \<Rightarrow> db \<Rightarrow> answer outcome" where
  "calibration_route E eid raw s = with_scopes E [''tasks:read''] raw (\<lambda>_ s.
     and_then (calibration_summary E eid s) (\<lambda>v s. (Inr (CalibrationAnswer v), s))) s"

definition queue_route :: "env \<Rightarrow> string option \<Rightarrow> db \<Rightarrow> answer outcome" where
  "queue_route E raw s = with_scopes E [''tasks:read''] raw (\<lambda>_ s.
     (Inr (QueueAnswer (queue_summary s) (queue_depth_by_tag s)), s)) s"

definition get_task_route :: "env \<Rightarrow> uuid \<Rightarrow> string option \<Rightarrow> db \<Rightarrow> answer outcome" where
  "get_task_route E tid raw s = with_scopes E [''tasks:read''] raw (\<lambda>_ s.
     found TaskNotFound (get_task tid s) (TaskAnswer \<circ> task_admin_view_of) s) s"

definition get_grade_route :: "env \<Rightarrow> uuid \<Rightarrow> string option \<Rightarrow> db \<Rightarrow> answer outcome" where
  "get_grade_route E gid raw s = with_scopes E [''grades:read''] raw (\<lambda>_ s.
     found GradeNotFound (get_grade gid s) (GradeAnswer \<circ> grade_out_of) s) s"

definition unreviewed_route :: "env \<Rightarrow> int \<Rightarrow> string option \<Rightarrow> db \<Rightarrow> answer outcome" where
  "unreviewed_route E limit raw s = with_scopes E [''grades:read''] raw (\<lambda>_.
     limited limit (\<lambda>s. (Inr (GradesAnswer (map grade_out_of (list_unreviewed limit s))), s))) s"

definition adjudications_route :: "env \<Rightarrow> int \<Rightarrow> string option \<Rightarrow> db \<Rightarrow> answer outcome" where
  "adjudications_route E limit raw s = with_scopes E [''tasks:read''] raw (\<lambda>_.
     limited limit (\<lambda>s. and_then (adjudication_queue limit s) (\<lambda>v s. (Inr (AdjudicationsAnswer v), s)))) s"

definition get_rubric_route :: "env \<Rightarrow> uuid \<Rightarrow> string option \<Rightarrow> db \<Rightarrow> answer outcome" where
  "get_rubric_route E rid raw s = with_scopes E [''experts:self''] raw (\<lambda>_ s.
     found RubricNotFound (get_rubric rid s) (RubricAnswer \<circ> rubric_out_of) s) s"

definition payouts_route ::
  "env \<Rightarrow> uuid option \<Rightarrow> payout_status option \<Rightarrow> int \<Rightarrow> string option \<Rightarrow> db \<Rightarrow> answer outcome" where
  "payouts_route E eid status limit raw s = with_scopes E [''payouts:read''] raw (\<lambda>_.
     limited limit (\<lambda>s. (Inr (PayoutsAnswer (map payout_out_of (list_payouts eid status limit s))), s))) s"

definition ledger_route :: "env \<Rightarrow> string option \<Rightarrow> db \<Rightarrow> answer outcome" where
  "ledger_route E raw s = with_scopes E [''payouts:read''] raw (\<lambda>_ s. (Inr (LedgerAnswer (ledger E s)), s)) s"

definition get_period_route :: "env \<Rightarrow> uuid \<Rightarrow> string option \<Rightarrow> db \<Rightarrow> answer outcome" where
  "get_period_route E pid raw s = with_scopes E [''payouts:read''] raw (\<lambda>_ s.
     found PeriodNotFound (row_of pp_id pid (payout_periods s)) (\<lambda>p. PeriodAnswer (period_totals p s)) s) s"

definition export_period_route :: "env \<Rightarrow> uuid \<Rightarrow> string option \<Rightarrow> db \<Rightarrow> answer outcome" where
  "export_period_route E pid raw s = with_scopes E [''payouts:read''] raw (\<lambda>_ s.
     found PeriodNotFound (row_of pp_id pid (payout_periods s)) (\<lambda>p. CsvAnswer (period_csv E p s)) s) s"

definition criteria_route :: "env \<Rightarrow> (rat \<Rightarrow> rat) \<Rightarrow> uuid option \<Rightarrow> string option \<Rightarrow> db \<Rightarrow> answer outcome" where
  "criteria_route E sqrt_of rid raw s = with_scopes E [''analytics:read''] raw (\<lambda>_ s.
     (Inr (CriteriaAnswer (criterion_means E sqrt_of rid s)), s)) s"

definition agreement_route :: "env \<Rightarrow> uuid \<Rightarrow> uuid \<Rightarrow> string option \<Rightarrow> db \<Rightarrow> answer outcome" where
  "agreement_route E a b raw s = with_scopes E [''analytics:read''] raw (\<lambda>_ s.
     (Inr (AgreementAnswer (pair_agreement a b s)), s)) s"

definition agreement_global_route :: "env \<Rightarrow> string option \<Rightarrow> db \<Rightarrow> answer outcome" where
  "agreement_global_route E raw s = with_scopes E [''analytics:read''] raw (\<lambda>_ s.
     (Inr (GlobalAnswer (global_agreement s)), s)) s"

definition task_agreement_route :: "env \<Rightarrow> uuid \<Rightarrow> string option \<Rightarrow> db \<Rightarrow> answer outcome" where
  "task_agreement_route E tid raw s = with_scopes E [''analytics:read''] raw (\<lambda>_ s.
     (Inr (TaskAgreementAnswer (task_agreement tid s)), s)) s"

definition reliability_route :: "env \<Rightarrow> uuid \<Rightarrow> string option \<Rightarrow> db \<Rightarrow> answer outcome" where
  "reliability_route E eid raw s = with_scopes E [''analytics:read''] raw (\<lambda>_ s.
     (Inr (ReliabilityAnswer (expert_reliability eid s)), s)) s"

definition deliveries_route :: "env \<Rightarrow> string option \<Rightarrow> db \<Rightarrow> answer outcome" where
  "deliveries_route E raw s = with_scopes E [''deliveries:read''] raw (\<lambda>_ s.
     (Inr (DeliveriesAnswer (sort_key d_version (deliveries s))), s)) s"

definition verify_route :: "env \<Rightarrow> 'st storage \<Rightarrow> int \<Rightarrow> string option \<Rightarrow> 'st \<Rightarrow> db \<Rightarrow> answer outcome" where
  "verify_route E io version raw st s = with_scopes E [''deliveries:read''] raw (\<lambda>_ s.
     case row_of d_version version (deliveries s) of
       None \<Rightarrow> (Inl (HTTPException 404 DeliveryNotFound), s)
     | Some d \<Rightarrow> (case verify E io d st of
           None \<Rightarrow> (Inl (StorageError ''read''), s)
         | Some v \<Rightarrow> (Inr (VerificationAnswer v), s))) s"

definition overview_route :: "env \<Rightarrow> string option \<Rightarrow> db \<Rightarrow> answer outcome" where
  "overview_route E raw s = with_scopes E [''tasks:read''] raw (\<lambda>_ s.
     (let (v, s1) = overview E s in (Inr (OverviewAnswer v), s1))) s"

definition audit_route :: "env \<Rightarrow> time option \<Rightarrow> string option \<Rightarrow> int \<Rightarrow> string option \<Rightarrow> db \<Rightarrow> answer outcome" where
  "audit_route E since action limit raw s = with_scopes E [''admin''] raw (\<lambda>_.
     limited limit (\<lambda>s. (Inr (CsvAnswer (export_csv E since action (nat (min limit 100000)) s)), s))) s"

fun ask :: "env \<Rightarrow> 'st storage \<Rightarrow> (rat \<Rightarrow> rat) \<Rightarrow> query \<Rightarrow> string option \<Rightarrow> 'st \<Rightarrow> db \<Rightarrow> answer outcome" where
  "ask E io sq Me raw st s = me_route E raw s"
| "ask E io sq (GetExpert eid) raw st s = get_expert_route E eid raw s"
| "ask E io sq (AttentionOf eid) raw st s = attention_route E eid raw s"
| "ask E io sq (CalibrationOf eid) raw st s = calibration_route E eid raw s"
| "ask E io sq QueueSummary raw st s = queue_route E raw s"
| "ask E io sq (GetTask tid) raw st s = get_task_route E tid raw s"
| "ask E io sq (GetGrade gid) raw st s = get_grade_route E gid raw s"
| "ask E io sq (ListUnreviewed limit) raw st s = unreviewed_route E limit raw s"
| "ask E io sq (AdjudicationQueue limit) raw st s = adjudications_route E limit raw s"
| "ask E io sq (GetRubric rid) raw st s = get_rubric_route E rid raw s"
| "ask E io sq (ListPayouts eid status limit) raw st s = payouts_route E eid status limit raw s"
| "ask E io sq Ledger raw st s = ledger_route E raw s"
| "ask E io sq (GetPeriod pid) raw st s = get_period_route E pid raw s"
| "ask E io sq (ExportPeriod pid) raw st s = export_period_route E pid raw s"
| "ask E io sq (Criteria rid) raw st s = criteria_route E sq rid raw s"
| "ask E io sq (Agreement a b) raw st s = agreement_route E a b raw s"
| "ask E io sq AgreementGlobal raw st s = agreement_global_route E raw s"
| "ask E io sq (TaskAgreement tid) raw st s = task_agreement_route E tid raw s"
| "ask E io sq (Reliability eid) raw st s = reliability_route E eid raw s"
| "ask E io sq ListDeliveries raw st s = deliveries_route E raw s"
| "ask E io sq (VerifyDelivery version) raw st s = verify_route E io version raw st s"
| "ask E io sq Overview raw st s = overview_route E raw s"
| "ask E io sq (AuditExport since action limit) raw st s = audit_route E since action limit raw s"

section \<open>Errors as responses\<close>

text \<open>A service error and an HTTP error become a response with their status; any other exception is a 500.\<close>

fun http_status :: "error \<Rightarrow> nat" where
  "http_status (ServiceError status d) = status"
| "http_status (HTTPException status d) = status"
| "http_status e = 500"

section \<open>What each role may do\<close>

fun permitted :: "role \<Rightarrow> command \<Rightarrow> bool" where
  "permitted AdminRole c = True"
| "permitted ExpertRole c = (case c of NextTask \<Rightarrow> True | ClaimTask _ \<Rightarrow> True | ReleaseTask _ \<Rightarrow> True | SubmitGrade _ \<Rightarrow> True | _ \<Rightarrow> False)"
| "permitted ReviewerRole c = (case c of CreateReview _ \<Rightarrow> True | _ \<Rightarrow> False)"
| "permitted SeniorReviewerRole c = (case c of CreateReview _ \<Rightarrow> True | Decide _ _ \<Rightarrow> True | _ \<Rightarrow> False)"

lemma with_scopes_refuses:
  assumes "holds_key E raw k s" "\<not> set needed \<subseteq> set (scopes_of (k_role k))"
  shows "\<exists>x xs. with_scopes E needed raw f s = (Inl (HTTPException 403 (MissingScopes (x # xs))), s)"
proof -
  have "filter (\<lambda>x. x \<notin> set (scopes_of (k_role k))) needed \<noteq> []" using assms(2) by (auto simp: filter_empty_conv)
  then show ?thesis
    by (cases "filter (\<lambda>x. x \<notin> set (scopes_of (k_role k))) needed")
      (auto simp: with_scopes_def require_scopes_run [OF assms(1)] Let_def)
qed

lemma as_expert_refuses:
  assumes "holds_key E raw k s" "''experts:self'' \<notin> set (scopes_of (k_role k))"
  shows "\<exists>x xs. as_expert E raw f s = (Inl (HTTPException 403 (MissingScopes (x # xs))), s)"
  using assms(2) by (simp add: as_expert_def current_expert_def require_scopes_run [OF assms(1)])

lemma with_scopes_unknown:
  "(\<And>k. \<not> holds_key E raw k s) \<Longrightarrow> \<exists>d. with_scopes E needed raw f s = (Inl (HTTPException 401 d), s)"
  using require_scopes_unknown [of E raw s needed] by (auto simp: with_scopes_def)

lemma as_expert_unknown:
  "(\<And>k. \<not> holds_key E raw k s) \<Longrightarrow> \<exists>d. as_expert E raw f s = (Inl (HTTPException 401 d), s)"
  using require_scopes_unknown [of E raw s "[''experts:self'']"] by (auto simp: as_expert_def current_expert_def)

lemma run_command_unknown:
  "(\<And>k. \<not> holds_key E raw k s) \<Longrightarrow> \<exists>d. run_command E m c raw s = (Inl (HTTPException 401 d), s)"
  by (cases c) (simp_all add: with_scopes_unknown as_expert_unknown)

lemma run_command_refuses:
  assumes "holds_key E raw k s" "\<not> permitted (k_role k) c"
  shows "\<exists>x xs. run_command E m c raw s = (Inl (HTTPException 403 (MissingScopes (x # xs))), s)"
proof (cases "k_role k")
  case AdminRole
  then show ?thesis using assms(2) by simp
next
  case ExpertRole
  then show ?thesis using assms(2)
    by (cases c) (simp_all add: with_scopes_refuses [OF assms(1)] as_expert_refuses [OF assms(1)])
next
  case ReviewerRole
  then show ?thesis using assms(2)
    by (cases c) (simp_all add: with_scopes_refuses [OF assms(1)] as_expert_refuses [OF assms(1)] reviewer_scopes_def)
next
  case SeniorReviewerRole
  then show ?thesis using assms(2)
    by (cases c) (simp_all add: with_scopes_refuses [OF assms(1)] as_expert_refuses [OF assms(1)] reviewer_scopes_def)
qed

text \<open>
  C7: a request that may change something (a command; queries have no part here) does what the role of its key
  permits and nothing else. Without a valid key it is answered 401; with a key whose role does not permit the command, 403 with the scopes missing; and then nothing is
  stored, neither in a table nor in the audit trail nor in the store of deliveries.
\<close>
theorem role_confines_commands:
  assumes "\<forall>k. holds_key E raw k s \<longrightarrow> \<not> permitted (k_role k) c"
  shows "\<exists>e d s'. serve E io m c raw (s, st) = (Inl (HTTPException e d), (s', st)) \<and> (e = 401 \<or> e = 403) \<and>
     core s' = core (s\<lparr>tx_now := m_now m\<rparr>) \<and> audit_events s' = audit_events s"
proof -
  let ?s = "s\<lparr>tx_now := m_now m\<rparr>"
  have same: "holds_key E raw k ?s = holds_key E raw k s" for k by (simp add: holds_key_def)
  have refused: "\<exists>e d. run_command E m c raw ?s = (Inl (HTTPException e d), ?s) \<and> (e = 401 \<or> e = 403)"
  proof (cases "\<exists>k. holds_key E raw k ?s")
    case True
    then obtain k where "holds_key E raw k ?s" by blast
    then show ?thesis using run_command_refuses [of E raw k ?s c m] assms same by auto
  next
    case False
    then show ?thesis using run_command_unknown [of E raw ?s m c] by auto
  qed
  then obtain e d where r: "run_command E m c raw ?s = (Inl (HTTPException e d), ?s)" "e = 401 \<or> e = 403" by blast
  have "perform E io m c raw (?s, st) = (Inl (HTTPException e d), (?s, st))"
  proof (cases "c = ExportDelivery")
    case True
    then have "require_scopes E [''deliveries:write''] raw ?s = (Inl (HTTPException e d), ?s)"
      using r(1) by (auto simp: with_scopes_def and_then_raises)
    then show ?thesis using True by (simp add: perform_def)
  qed (simp add: perform_def r(1))
  then have "serve E io m c raw (s, st) = (Inl (HTTPException e d), (rolled_back s ?s, st))" by (simp add: serve_def)
  moreover have "core (rolled_back s ?s) = core ?s" "audit_events (rolled_back s ?s) = audit_events s"
    by (simp_all add: rolled_back_def core_eq_iff)
  ultimately show ?thesis using r(2) by blast
qed

theorem role_confines_commands_witness:
  "\<exists>e d s'. serve sample_env sample_storage \<lparr>m_now = 9, m_locked = [], m_token = ''t''\<rparr> (ClosePeriod ''2026-10'') (Some ''pk'')
       (sample_db\<lparr>api_keys := [(sample_key 31 ReviewerRole None)\<lparr>k_key_hash := hash_key sample_env ''pk''\<rparr>]\<rparr>, \<lambda>_. None) =
     (Inl (HTTPException e d), (s', \<lambda>_. None)) \<and> payout_periods s' = []"
proof -
  let ?s = "sample_db\<lparr>api_keys := [(sample_key 31 ReviewerRole None)\<lparr>k_key_hash := hash_key sample_env ''pk''\<rparr>]\<rparr>"
  have "\<forall>k. holds_key sample_env (Some ''pk'') k ?s \<longrightarrow> \<not> permitted (k_role k) (ClosePeriod ''2026-10'')"
    by (auto simp: holds_key_def sample_key_def)
  from role_confines_commands [OF this, of sample_storage "\<lparr>m_now = 9, m_locked = [], m_token = ''t''\<rparr>" "\<lambda>_. None"]
  obtain e d s' where run: "serve sample_env sample_storage \<lparr>m_now = 9, m_locked = [], m_token = ''t''\<rparr> (ClosePeriod ''2026-10'')
      (Some ''pk'') (?s, \<lambda>_. None) = (Inl (HTTPException e d), (s', \<lambda>_. None))"
    and c: "core s' = core (?s\<lparr>tx_now := 9\<rparr>)" by auto
  have "payout_periods s' = []" using c by (simp add: core_eq_iff) (simp add: sample_db_def empty_db_def)
  with run show ?thesis by blast
qed

end
