(* ===== verification/History.thy ===== *)
theory History
  imports Requests
begin

text \<open>
  What no operation of the service ever takes back. \<open>evolves s s'\<close> relates two sessions when \<open>s'\<close> keeps the
  history of \<open>s\<close>: the audit trail, grades, reviews, check results, tier changes, periods and deliveries are
  append-only; experts, tasks, rubrics, keys, rounds and payouts are never dropped, the terms of a payout
  and the content of a rubric never change, a paid payout and a revoked key stay as they are. Every
  operation of the services evolves the session, so every request does.
\<close>

definition payout_terms :: "payout \<Rightarrow> payout" where
  "payout_terms p = p\<lparr>p_status := Pending, p_period_id := None, p_paid_at := None\<rparr>"

definition rubric_content :: "rubric \<Rightarrow> rubric" where
  "rubric_content r = r\<lparr>r_superseded_at := None, r_superseded_by_id := None\<rparr>"

definition tables_evolve :: "db \<Rightarrow> db \<Rightarrow> bool" where
  "tables_evolve s s' \<longleftrightarrow>
     prefix (grades s) (grades s') \<and> prefix (reviews s) (reviews s') \<and>
     prefix (attention_results s) (attention_results s') \<and> prefix (tier_changes s) (tier_changes s') \<and>
     prefix (payout_periods s) (payout_periods s') \<and> prefix (deliveries s) (deliveries s') \<and>
     prefix (map e_id (experts s)) (map e_id (experts s')) \<and> prefix (map t_id (tasks s)) (map t_id (tasks s')) \<and>
     prefix (map co_task_id (consensuses s)) (map co_task_id (consensuses s')) \<and>
     prefix (map k_id (api_keys s)) (map k_id (api_keys s')) \<and>
     prefix (map rubric_content (rubrics s)) (map rubric_content (rubrics s')) \<and>
     prefix (map payout_terms (payouts s)) (map payout_terms (payouts s')) \<and>
     {p \<in> set (payouts s). p_status p = Paid} \<subseteq> set (payouts s') \<and>
     {k \<in> set (api_keys s). k_revoked_at k \<noteq> None} \<subseteq> set (api_keys s')"

definition evolves :: "db \<Rightarrow> db \<Rightarrow> bool" where
  "evolves s s' \<longleftrightarrow> tables_evolve s s' \<and> trail_step s s'"

lemma tables_evolve_refl [simp]: "tables_evolve s s"
  by (simp add: tables_evolve_def)

lemma kept_trans: "{x \<in> A. p x} \<subseteq> B \<Longrightarrow> {x \<in> B. p x} \<subseteq> C \<Longrightarrow> {x \<in> A. p x} \<subseteq> C"
  by blast

lemma tables_evolve_trans: "tables_evolve s s1 \<Longrightarrow> tables_evolve s1 s' \<Longrightarrow> tables_evolve s s'"
  unfolding tables_evolve_def
  by (elim conjE, intro conjI; (erule (1) prefix_order.trans | erule (1) kept_trans))

lemma evolves_refl [simp]: "evolves s s"
  by (simp add: evolves_def)

lemma evolves_trans [trans]: "evolves s s1 \<Longrightarrow> evolves s1 s' \<Longrightarrow> evolves s s'"
  using tables_evolve_trans trail_step_trans unfolding evolves_def by blast

lemma tables_evolve_core: "core s' = core u \<Longrightarrow> tables_evolve s s' = tables_evolve s u"
  by (simp add: tables_evolve_def core_eq_iff)

lemma tables_evolve_core_left: "core s = core u \<Longrightarrow> tables_evolve s s' = tables_evolve u s'"
  by (simp add: tables_evolve_def core_eq_iff)

lemma evolvesI: "core s' = core u \<Longrightarrow> tables_evolve s u \<Longrightarrow> trail_step s s' \<Longrightarrow> evolves s s'"
  unfolding evolves_def using tables_evolve_core [of s' u s] by (simp only:)

lemma evolves_recorded: "evolves s s' \<Longrightarrow> evolves s (record_event a b c d p s')"
  by (simp add: evolves_def tables_evolve_def)

text \<open>Edits in place that touch no key and no frozen column.\<close>

lemma tables_evolve_tasks:
  "map t_id ts = map t_id (tasks s) \<Longrightarrow> tables_evolve s (s\<lparr>tasks := ts\<rparr>)"
  by (simp add: tables_evolve_def)

lemma tables_evolve_experts:
  "map e_id es = map e_id (experts s) \<Longrightarrow> tables_evolve s (s\<lparr>experts := es\<rparr>)"
  by (simp add: tables_evolve_def)

lemma tables_evolve_payouts:
  assumes "\<And>p. q p \<Longrightarrow> p_status p \<noteq> Paid" "\<And>p. payout_terms (f p) = payout_terms p"
  shows "tables_evolve s (s\<lparr>payouts := update_where q f (payouts s)\<rparr>)"
proof -
  have "{p \<in> set (payouts s). p_status p = Paid} \<subseteq> set (update_where q f (payouts s))"
  proof
    fix p assume "p \<in> {p \<in> set (payouts s). p_status p = Paid}"
    then have "p \<in> set (payouts s)" "\<not> q p" using assms(1) by auto
    then show "p \<in> set (update_where q f (payouts s))" by (force simp: update_where_set)
  qed
  then show ?thesis using assms(2) by (simp add: tables_evolve_def map_update_where)
qed

lemma payout_terms_edits [simp]:
  "payout_terms (p\<lparr>p_status := x\<rparr>) = payout_terms p"
  "payout_terms (p\<lparr>p_status := x, p_period_id := y, p_paid_at := z\<rparr>) = payout_terms p"
  by (simp_all add: payout_terms_def)

lemma rubric_content_edits [simp]:
  "rubric_content (r\<lparr>r_superseded_at := x, r_superseded_by_id := y\<rparr>) = rubric_content r"
  by (simp add: rubric_content_def)

section \<open>The operations of the services\<close>

lemma create_for_grade_evolves:
  assumes "create_for_grade E g t actor f s = (Inr p, s')"
  shows "evolves s s'"
  using assms by (cases rule: create_for_grade_cases) (auto intro!: evolvesI simp: tables_evolve_def)

lemma update_evolves:
  assumes "update E eid actor s = (Inr r, s')"
  shows "evolves s s'"
  using assms
proof (cases rule: update_cases)
  case (unmoved e rate samples)
  then show ?thesis
    by (auto simp: map_update_row intro!: evolvesI [OF refl] tables_evolve_experts trail_step_same)
next
  case (moved e q samples now c)
  show ?thesis
    by (rule evolvesI [OF moved(7) _ moved(8)]) (simp add: tables_evolve_def map_update_row)
qed

lemma withhold_pending_evolves: "tables_evolve s (withhold_pending eid s)"
  unfolding withhold_pending_def by (rule tables_evolve_payouts) auto

lemma enforce_evolves:
  assumes "enforce E eid s = (Inr b, s')"
  shows "evolves s s'"
  using assms
proof (cases rule: enforce_cases)
  case idle
  then show ?thesis by simp
next
  case (paused e r passed total)
  have "tables_evolve s (modify_expert eid (\<lambda>e. e\<lparr>e_status := Paused\<rparr>) s)"
    by (rule tables_evolve_experts) (simp add: map_update_row)
  then show ?thesis
    by (intro evolvesI [OF paused(7) _ paused(8)] tables_evolve_trans [OF _ withhold_pending_evolves])
qed

lemma evaluate_check_evolves:
  assumes "evaluate_check E t g s = (Inr r, s')"
  shows "evolves s s'"
  using assms by (cases rule: evaluate_check_cases) (auto intro!: evolvesI simp: tables_evolve_def)

lemma aftermath_evolves:
  assumes "aftermath E eid t g s = (Inr u, s')"
  shows "evolves s s'"
  using assms
proof (cases rule: aftermath_cases)
  case regular
  then show ?thesis by simp
next
  case (checked a s1 s2 b c)
  have "evolves s1 s2" using checked(3) enforce_evolves by (auto split: if_splits)
  then show ?thesis
    using evaluate_check_evolves [OF checked(1)] update_evolves [OF checked(4)] evolves_trans by blast
qed

lemma evaluate_evolves:
  assumes "evaluate E tid s = (Inr r, s')"
  shows "evolves s s'"
  using assms by (cases rule: evaluate_cases) (auto intro!: evolvesI simp: tables_evolve_def map_update_row)

lemma submit_evolves:
  assumes "submit E eid tid scores rationale time_spent rubric_id s = (Inr g, s')"
  shows "evolves s s'"
  using assms
proof (cases rule: submit_cases)
  case (1 t r s3 c s4 s5)
  have "evolves s s3"
    by (rule evolvesI [OF 1(11) _ 1(12)]) (simp add: tables_evolve_def map_update_row)
  also have "evolves s3 s4" using 1(13) evaluate_evolves by (auto split: if_splits)
  also have "evolves s4 s5" by (rule evolvesI [OF 1(14) _ 1(15)]) simp
  also have "evolves s5 s'" by (rule aftermath_evolves [OF 1(16)])
  finally show ?thesis .
qed

lemma redeliver_evolves:
  assumes "redeliver tid g actor s = (r, s')"
  shows "evolves s s'"
  using assms by (cases rule: redeliver_cases) (auto intro!: evolvesI simp: tables_evolve_def map_update_row)

lemma settle_status_evolves: "evolves s (settle_status tid t g d actor s)"
proof (rule evolvesI [OF refl _ settle_status_frame(2)])
  show "tables_evolve s (settle_status tid t g d actor s)"
    using settle_status_frame(1,3) by (simp add: tables_evolve_def core_eq_iff)
qed

lemma review_evolves:
  assumes "review_grade E key gid d reason actor s = (Inr (rv, p), s')"
  shows "evolves s s'"
  using assms
proof (cases rule: review_cases)
  case (1 g t s2 s3 s4 s5 s6 c)
  have "evolves s s2" by (rule evolvesI [OF 1(12) _ 1(13)]) (simp add: tables_evolve_def)
  also have "evolves s2 s3" using 1(14) create_for_grade_evolves by (auto split: if_splits)
  also have "evolves s3 s4" unfolding 1(15) by (rule settle_status_evolves)
  also have "evolves s4 s5" using 1(16) redeliver_evolves by (auto split: if_splits)
  also have "evolves s5 s6" by (rule evolvesI [OF 1(17) _ 1(18)]) simp
  also have "evolves s6 s'" by (rule update_evolves [OF 1(19)])
  finally show ?thesis .
qed

lemma settle_grade_evolves:
  assumes "settle_grade E d reason key actor t g acc s = (Inr acc', s')"
  shows "evolves s s'"
proof -
  let ?rv = "\<lparr>rv_id = uuid4 E (uuid_pos s), rv_grade_id = g_id g, rv_reviewer_key_id = key,
     rv_decision = (if g_id g = d then Approve else Reject),
     rv_reason = Some (if g_id g = d then reason else ''outvoted in adjudication''), rv_created_at = tx_now s\<rparr>"
  let ?s2 = "s\<lparr>uuid_pos := Suc (uuid_pos s), reviews := reviews s @ [?rv]\<rparr>"
  obtain s3 c where pay: "(if g_id g = d then and_then (create_for_grade E g t actor 1 ?s2) (\<lambda>p s3. (Inr (Some p, snd acc), s3))
      else and_then (outvoted_payout E g t actor ?s2) (\<lambda>p s3. (Inr (fst acc, snd acc @ [(g, p)]), s3))) = (Inr acc', s3)"
    and cal: "update E (g_expert_id g) actor s3 = (Inr c, s')"
    using assms
    by (auto simp: settle_grade_def new_uuid_def insert_review_def Let_def result_simps simp del: split_paired_Ex)
  have "evolves s ?s2" by (rule evolvesI [OF refl]) (simp_all add: tables_evolve_def trail_step_same)
  also have "evolves ?s2 s3"
  proof (cases "g_id g = d")
    case True
    then show ?thesis using pay by (auto simp: result_simps dest: create_for_grade_evolves)
  next
    case False
    then obtain p where "outvoted_payout E g t actor ?s2 = (Inr p, s3)" using pay by (auto simp: result_simps)
    then show ?thesis
      unfolding outvoted_payout_def
      by (auto simp: result_simps split: outvoted_payout.splits dest!: create_for_grade_evolves)
  qed
  also have "evolves s3 s'" by (rule update_evolves [OF cal])
  finally show ?thesis .
qed

lemma settle_grades_evolves:
  "settle_grades E d reason key actor t gs acc s = (Inr acc', s') \<Longrightarrow> evolves s s'"
proof (induction gs arbitrary: acc s)
  case (Cons g gs)
  then obtain acc1 s1 where "settle_grade E d reason key actor t g acc s = (Inr acc1, s1)"
    "settle_grades E d reason key actor t gs acc1 s1 = (Inr acc', s')"
    unfolding settle_grades.simps and_then_returns by blast
  then show ?case using Cons.IH settle_grade_evolves by (blast intro: evolves_trans)
qed simp

lemma resolve_evolves:
  assumes "resolve E tid d reason key actor s = (Inr r, s')"
  shows "evolves s s'"
  using assms
proof (cases rule: resolve_cases)
  case (1 row g t acc s1 now)
  have s1: "evolves s s1" by (rule settle_grades_evolves [OF 1(7)])
  have "tables_evolve s1 s'"
    unfolding tables_evolve_core [OF 1(11)] by (simp add: tables_evolve_def map_update_row)
  then show ?thesis using s1 1(12) tables_evolve_trans by (auto simp: evolves_def)
qed

lemma swept_evolves: "tables_evolve s (swept E s)"
  unfolding swept_def by (rule tables_evolve_tasks) (simp add: map_update_where reclaimed_def unassigned_def)

lemma served_evolves:
  "tables_evolve s (modify_expert eid (\<lambda>e. e\<lparr>e_served_count := e_served_count e + 1\<rparr>) (modify_task tid (leased E eid now) (swept E s)))"
proof -
  have "tables_evolve (swept E s) (modify_task tid (leased E eid now) (swept E s))"
    by (rule tables_evolve_tasks) (simp add: map_update_row)
  moreover have "tables_evolve u (modify_expert eid (\<lambda>e. e\<lparr>e_served_count := e_served_count e + 1\<rparr>) u)" for u
    by (rule tables_evolve_experts) (simp add: map_update_row)
  ultimately show ?thesis using swept_evolves tables_evolve_trans by blast
qed

lemma claim_next_evolves:
  assumes "claim_next E eid locked s = (Inr r, s')"
  shows "evolves s s'"
  using assms
proof (cases rule: claim_next_cases)
  case (empty e)
  show ?thesis by (rule evolvesI [OF empty(5) swept_evolves empty(6)])
next
  case (served e t now)
  show ?thesis by (rule evolvesI [OF served(6) served_evolves served(7)])
qed

lemma claim_by_id_evolves:
  assumes "claim_by_id E eid tid locked s = (Inr r, s')"
  shows "evolves s s'"
  using assms by (cases rule: claim_by_id_cases) (erule evolvesI [OF _ served_evolves])

lemma release_evolves:
  assumes "release eid tid s = (Inr r, s')"
  shows "evolves s s'"
  using assms
proof (cases rule: release_cases)
  case (1 t)
  show ?thesis by (rule evolvesI [OF 1(5) tables_evolve_tasks 1(6)]) (simp add: map_update_row unassigned_def)
qed

lemma release_withheld_evolves:
  assumes "release_withheld eid actor s = (n, s')"
  shows "evolves s s'"
  by (rule evolvesI [OF release_withheld_core(1) [OF assms] tables_evolve_payouts release_withheld_core(3) [OF assms]]) auto

lemma close_period_evolves:
  assumes "close_period E label actor s = (Inr period, s')"
  shows "evolves s s'"
  using assms
proof (cases rule: close_period_cases)
  case (1 now)
  let ?u = "s\<lparr>payout_periods := payout_periods s @ [period]\<rparr>"
  have "tables_evolve s ?u" by (simp add: tables_evolve_def)
  moreover have "tables_evolve ?u (?u\<lparr>payouts := update_where (\<lambda>p. p_status p = Pending \<and> p_period_id p = None)
          (\<lambda>p. p\<lparr>p_status := Paid, p_period_id := Some (pp_id period), p_paid_at := Some now\<rparr>) (payouts ?u)\<rparr>)"
    by (rule tables_evolve_payouts) auto
  ultimately show ?thesis
    by (intro evolvesI [OF 1(4) _ 1(5)]) (auto elim: tables_evolve_trans)
qed

lemma publish_evolves:
  assumes "publish E previous criteria actor s = (Inr (r, migrated, left), s')"
  shows "evolves s s'"
  using assms
proof (cases rule: publish_cases)
  case (1 latest now)
  show ?thesis
    by (rule evolvesI [OF 1(11) _ 1(12)]) (simp add: tables_evolve_def map_update_row map_update_where)
qed

lemma issue_key_evolves:
  assumes "issue_key E r expert_id label token s = (Inr (k, raw), s')"
  shows "evolves s s'"
  using assms by (cases rule: issue_key_cases) (auto intro!: evolvesI simp: tables_evolve_def)

lemma revoke_key_evolves:
  assumes "revoke_key E p kid s = (Inr u, s')" "distinct (map k_id (api_keys s))"
  shows "evolves s s'"
  using assms(1)
proof (cases rule: revoke_key_cases)
  case (stamped k)
  have k: "k \<in> set (api_keys s)" "k_id k = kid" using row_of_SomeD [OF stamped(1)] by auto
  have "x \<in> set (update_row k_id kid (revoked t) (api_keys s))" if x: "x \<in> set (api_keys s)" "k_revoked_at x \<noteq> None" for x t
  proof -
    have "k_id x \<noteq> kid" using assms(2) k x stamped(2) by (metis distinct_map inj_onD)
    then show ?thesis using x(1) by (force simp: set_update_row)
  qed
  then have "tables_evolve s (s\<lparr>api_keys := update_row k_id kid (revoked t) (api_keys s)\<rparr>)" for t
    by (auto simp: tables_evolve_def map_update_row revoked_def)
  then show ?thesis by (rule evolvesI [OF stamped(3) _ stamped(4)])
next
  case already
  then show ?thesis by simp
qed

lemma export_evolves:
  assumes "export E io actor (s, st) = (Inr d, (s', st'))"
  shows "evolves s s'"
  using assms by (cases rule: export_cases) (auto intro!: evolvesI simp: tables_evolve_def)

end
