(* ===== verification/System.thy ===== *)
theory System
  imports History
begin

text \<open>
  What one committed transaction does. \<open>effect\<close> has one rule per operation that changes the database: the
  handlers of the routers, the pass of the scheduler and the bootstrap of the first key
  (\<open>panelist/cli.py\<close>). A command that returns has the effect of its operation, and every effect keeps the
  history of \<open>History\<close>.
\<close>

section \<open>The command line\<close>

definition bootstrap :: "env \<Rightarrow> string option \<Rightarrow> db \<Rightarrow> string outcome" where
  "bootstrap E raw_key s =
    (let raw = (case raw_key of Some text \<Rightarrow> if text \<noteq> [] then text else bootstrap_admin_key (cfg E)
                              | None \<Rightarrow> bootstrap_admin_key (cfg E))
     in if raw = [] then (Inl (ValueError ''provide --key or set BOOTSTRAP_ADMIN_KEY''), s)
        else if \<exists>k \<in> set (api_keys s). k_key_hash k = hash_key E raw then (Inr raw, s)
        else (let (kid, s1) = new_uuid E s;
                  k = \<lparr>k_id = kid, k_key_hash = hash_key E raw, k_role = AdminRole, k_expert_id = None,
                       k_label = ''bootstrap'', k_created_at = tx_now s1, k_revoked_at = None\<rparr>
              in and_then (insert_api_key k s1) (\<lambda>_ s2. (Inr raw, s2))))"

section \<open>Effects\<close>

inductive effect :: "env \<Rightarrow> 'st storage \<Rightarrow> db \<times> 'st \<Rightarrow> db \<times> 'st \<Rightarrow> bool" for E io where
  expert_created: "create_expert E p b s = (Inr e, s') \<Longrightarrow> effect E io (s, st) (s', st)"
| expert_key_created: "create_expert_key E p eid token s = (Inr kr, s') \<Longrightarrow> effect E io (s, st) (s', st)"
| status_set: "set_status E p eid status s = (Inr e, s') \<Longrightarrow> effect E io (s, st) (s', st)"
| tasks_created: "task_bulk_ok bs \<Longrightarrow> create_tasks E p bs s = (Inr ids, s') \<Longrightarrow> effect E io (s, st) (s', st)"
| next_claimed: "claim_next E eid locked s = (Inr t, s') \<Longrightarrow> effect E io (s, st) (s', st)"
| swept: "reclaim_expired E s = (n, s') \<Longrightarrow> effect E io (s, st) (s', st)"
| claimed: "claim_by_id E eid tid locked s = (Inr t, s') \<Longrightarrow> effect E io (s, st) (s', st)"
| released: "release eid tid s = (Inr t, s') \<Longrightarrow> effect E io (s, st) (s', st)"
| submitted: "grade_create_ok b \<Longrightarrow> submit E eid (gc_task_id b) (gc_scores b) (gc_rationale b) (gc_time_spent_seconds b)
     (gc_rubric_id b) s = (Inr g, s') \<Longrightarrow> effect E io (s, st) (s', st)"
| reviewed: "review_grade E key gid d reason actor s = (Inr rp, s') \<Longrightarrow> effect E io (s, st) (s', st)"
| adjudicated: "resolve E tid gid reason key actor s = (Inr d, s') \<Longrightarrow> effect E io (s, st) (s', st)"
| rubric_created: "create_rubric E p b s = (Inr r, s') \<Longrightarrow> effect E io (s, st) (s', st)"
| version_published: "get_rubric rid s = Some previous \<Longrightarrow> publish E previous cs actor s = (Inr rml, s') \<Longrightarrow>
     effect E io (s, st) (s', st)"
| rates_put: "put_rate_cards p cards s = (Inr u, s') \<Longrightarrow> effect E io (s, st) (s', st)"
| period_closed: "close_period E label actor s = (Inr period, s') \<Longrightarrow> effect E io (s, st) (s', st)"
| exported: "export E io actor (s, st) = (Inr d, (s', st')) \<Longrightarrow> effect E io (s, st) (s', st')"
| key_created: "create_key E p r expert_id label token s = (Inr kr, s') \<Longrightarrow> effect E io (s, st) (s', st)"
| key_revoked: "revoke_key E p kid s = (Inr u, s') \<Longrightarrow> effect E io (s, st) (s', st)"
| ticked: "tick E actor s = (Inr report, s') \<Longrightarrow> effect E io (s, st) (s', st)"
| bootstrapped: "bootstrap E raw s = (Inr k, s') \<Longrightarrow> effect E io (s, st) (s', st)"

lemma with_scopes_returns:
  "with_scopes E needed raw f s = (Inr x, s') \<Longrightarrow> \<exists>p. f p s = (Inr x, s')"
  by (auto simp: with_scopes_def result_simps require_scopes_returns)

lemma as_expert_returns:
  "as_expert E raw f s = (Inr x, s') \<Longrightarrow> \<exists>e. f e s = (Inr x, s')"
  by (auto simp: as_expert_def result_simps current_expert_returns)

lemma checked_returns [result_simps]: "checked ok f s = (Inr x, s') \<longleftrightarrow> ok \<and> f s = (Inr x, s')"
  by (simp add: checked_def)

lemma responds_returns: "responds f r = (Inr x, s') \<Longrightarrow> \<exists>y. r = (Inr y, s')"
  by (auto simp: responds_def result_simps)

lemma show_task_state: "show_task t s = (Inr v, s') \<Longrightarrow> s' = s"
  by (auto simp: show_task_def result_simps)

text \<open>A command that returns has the effect of its operation.\<close>

lemma run_command_effect:
  assumes "run_command E m c raw s = (Inr x, s')" "c \<noteq> ExportDelivery"
  shows "effect E io (s, st) (s', st)"
proof (cases c)
  case (CreateExpert b)
  then show ?thesis using assms(1) by (auto dest!: with_scopes_returns responds_returns simp: result_simps intro: effect.expert_created)
next
  case (CreateExpertKey eid)
  then show ?thesis using assms(1) by (auto dest!: with_scopes_returns responds_returns simp: result_simps intro: effect.expert_key_created)
next
  case (SetStatus eid status)
  then show ?thesis using assms(1) by (auto dest!: with_scopes_returns responds_returns simp: result_simps intro: effect.status_set)
next
  case (CreateTasks bs)
  then show ?thesis using assms(1) by (auto dest!: with_scopes_returns responds_returns simp: result_simps intro: effect.tasks_created)
next
  case NextTask
  then obtain e v where "next_task E e (m_locked m) s = (Inr v, s')"
    using assms(1) by (auto dest!: as_expert_returns responds_returns)
  then obtain t s1 where "claim_next E (e_id e) (m_locked m) s = (Inr t, s1)" "s' = s1"
    by (auto simp: next_task_def result_simps dest!: show_task_state split: option.splits)
  then show ?thesis by (auto intro: effect.next_claimed)
next
  case Reclaim
  then show ?thesis using assms(1)
    by (auto dest!: with_scopes_returns responds_returns simp: reclaim_route_def split: prod.splits intro: effect.swept)
next
  case (ClaimTask tid)
  then obtain e v where "claim_task E e tid (m_locked m) s = (Inr v, s')"
    using assms(1) by (auto dest!: as_expert_returns responds_returns)
  then obtain t where "claim_by_id E (e_id e) tid (m_locked m) s = (Inr t, s')"
    by (auto simp: claim_task_def result_simps dest!: show_task_state)
  then show ?thesis by (rule effect.claimed)
next
  case (ReleaseTask tid)
  then show ?thesis using assms(1)
    by (auto dest!: as_expert_returns responds_returns simp: release_task_def result_simps intro: effect.released)
next
  case (SubmitGrade b)
  then show ?thesis using assms(1)
    by (auto dest!: as_expert_returns responds_returns simp: submit_grade_def result_simps intro: effect.submitted)
next
  case (CreateReview b)
  then show ?thesis using assms(1)
    by (auto dest!: with_scopes_returns responds_returns simp: create_review_def result_simps intro: effect.reviewed)
next
  case (Decide tid b)
  then obtain p d where "resolve E tid (ad_delivered_grade_id b) (ad_reason b) (pr_key_id p) (actor_of p) s = (Inr d, s')"
    using assms(1) by (auto dest!: with_scopes_returns responds_returns simp: decide_def result_simps)
  then show ?thesis by (rule effect.adjudicated)
next
  case (CreateRubric b)
  then show ?thesis using assms(1) by (auto dest!: with_scopes_returns responds_returns simp: result_simps intro: effect.rubric_created)
next
  case (PublishVersion rid cs)
  then obtain p previous rml where "get_rubric rid s = Some previous" "publish E previous cs (actor_of p) s = (Inr rml, s')"
    using assms(1)
    by (auto dest!: with_scopes_returns responds_returns simp: publish_version_def result_simps split: option.splits)
  then show ?thesis by (rule effect.version_published)
next
  case (PutRateCards cards)
  then show ?thesis using assms(1) by (auto dest!: with_scopes_returns responds_returns simp: result_simps intro: effect.rates_put)
next
  case (ClosePeriod label)
  then obtain p period where "close_period E label (actor_of p) s = (Inr period, s')"
    using assms(1) by (auto dest!: with_scopes_returns responds_returns simp: close_period_route_def result_simps)
  then show ?thesis by (rule effect.period_closed)
next
  case ExportDelivery
  then show ?thesis using assms(2) by simp
next
  case (CreateKey b)
  then show ?thesis using assms(1) by (auto dest!: with_scopes_returns responds_returns simp: result_simps intro: effect.key_created)
next
  case (RevokeKey kid)
  then show ?thesis using assms(1) by (auto dest!: with_scopes_returns responds_returns simp: result_simps intro: effect.key_revoked)
qed

lemma perform_effect:
  assumes "perform E io m c raw (s, st) = (Inr x, (s', st'))"
  shows "effect E io (s, st) (s', st')"
proof (cases "c = ExportDelivery")
  case True
  then obtain p d where "export E io (actor_of p) (s, st) = (Inr d, (s', st'))"
    using assms by (auto simp: perform_def result_simps require_scopes_returns split: prod.splits sum.splits)
  then show ?thesis by (rule effect.intros)
next
  case False
  then show ?thesis using assms run_command_effect by (auto simp: perform_def split: prod.splits)
qed

section \<open>Handlers evolve the session\<close>

lemma reclaim_evolves: "reclaim_expired E s = (n, s') \<Longrightarrow> evolves s s'"
  by (rule evolvesI [OF reclaim_expired_core(1) swept_evolves reclaim_expired_core(3)])

lemma create_expert_evolves: "create_expert E p b s = (Inr e, s') \<Longrightarrow> evolves s s'"
  by (auto simp: create_expert_def new_uuid_def insert_expert_def result_simps Let_def
      intro!: evolves_recorded evolvesI [OF refl] trail_step_same) (simp add: tables_evolve_def)

lemma create_expert_key_evolves: "create_expert_key E p eid token s = (Inr (k, raw), s') \<Longrightarrow> evolves s s'"
  by (auto simp: create_expert_key_def result_simps split: option.splits intro!: evolves_recorded dest: issue_key_evolves)

lemma set_status_evolves:
  assumes "set_status E p eid status s = (Inr e, s')"
  shows "evolves s s'"
proof -
  let ?s1 = "modify_expert eid (\<lambda>e. e\<lparr>e_status := status\<rparr>) s"
  have 1: "evolves s ?s1"
    by (rule evolvesI [OF refl tables_evolve_experts trail_step_same]) (simp_all add: map_update_row)
  moreover have "evolves ?s1 (snd (release_withheld eid a ?s1))" for a
    by (rule release_withheld_evolves [of eid a _ "fst (release_withheld eid a ?s1)"]) simp
  ultimately show ?thesis
    using assms evolves_trans [OF 1] by (auto simp: set_status_def Let_def split: option.splits if_splits intro!: evolves_recorded)
qed

lemma insert_tasks_ConsE:
  assumes "insert_tasks E (b # bs) s = (Inr ids, s')"
  obtains t s2 rest where "t = new_task (uuid4 E (uuid_pos s)) (task_seq s) (tx_now s) b"
    "t_id t \<notin> t_id ` set (tasks s)" "t_seq t \<notin> t_seq ` set (tasks s)" "t_rubric_id t \<in> r_id ` set (rubrics s)"
    "s2 = s\<lparr>uuid_pos := Suc (uuid_pos s), task_seq := task_seq s + 1, tasks := tasks s @ [t]\<rparr>"
    "insert_tasks E bs s2 = (Inr rest, s')" "ids = t_id t # rest"
proof -
  let ?t = "new_task (uuid4 E (uuid_pos s)) (task_seq s) (tx_now s) b"
  let ?s2 = "s\<lparr>uuid_pos := Suc (uuid_pos s), task_seq := task_seq s + 1, tasks := tasks s @ [?t]\<rparr>"
  have "t_id ?t \<notin> t_id ` set (tasks s) \<and> t_seq ?t \<notin> t_seq ` set (tasks s) \<and> t_rubric_id ?t \<in> r_id ` set (rubrics s) \<and>
    (\<exists>rest. insert_tasks E bs ?s2 = (Inr rest, s') \<and> ids = t_id ?t # rest)"
    using assms by (auto simp: new_uuid_def insert_task_def Let_def result_simps new_task_def)
  then show thesis using that [OF refl _ _ _ refl] by blast
qed

lemma insert_tasks_evolves: "insert_tasks E bs s = (Inr ids, s') \<Longrightarrow> evolves s s'"
proof (induction bs arbitrary: s ids)
  case (Cons b bs)
  from Cons.prems show ?case
  proof (cases rule: insert_tasks_ConsE)
    case (1 t s2 rest)
    have "evolves s s2" by (rule evolvesI [OF refl]) (simp_all add: 1(5) tables_evolve_def trail_step_same)
    then show ?thesis using Cons.IH [OF 1(6)] by (rule evolves_trans)
  qed
qed simp

lemma create_tasks_evolves: "create_tasks E p bs s = (Inr ids, s') \<Longrightarrow> evolves s s'"
  by (auto simp: create_tasks_def result_simps split: option.splits if_splits intro!: evolves_recorded dest: insert_tasks_evolves)

lemma create_rubric_evolves: "create_rubric E p b s = (Inr r, s') \<Longrightarrow> evolves s s'"
  by (auto simp: create_rubric_def new_uuid_def new_uuids_def insert_rubric_def result_simps Let_def
      intro!: evolves_recorded evolvesI [OF refl] trail_step_same) (simp add: tables_evolve_def)

lemma merge_rate_cards_evolves: "evolves s (fold merge_rate_card cards s)"
proof (induction cards arbitrary: s)
  case (Cons c cs)
  have "evolves s (merge_rate_card c s)"
    by (rule evolvesI [OF refl _ trail_step_same]) (simp_all add: merge_rate_card_def tables_evolve_def)
  also have "evolves \<dots> (fold merge_rate_card cs (merge_rate_card c s))" by (rule Cons.IH)
  finally show ?case by simp
qed simp

lemma put_rate_cards_evolves: "put_rate_cards p cards s = (Inr u, s') \<Longrightarrow> evolves s s'"
  by (auto simp: put_rate_cards_def intro!: evolves_recorded merge_rate_cards_evolves)

lemma create_key_evolves: "create_key E p r expert_id label token s = (Inr (k, raw), s') \<Longrightarrow> evolves s s'"
  by (auto simp: create_key_def result_simps intro!: evolves_recorded dest: issue_key_evolves)

lemma refresh_experts_evolves: "refresh_experts E actor es acc s = (Inr r, s') \<Longrightarrow> evolves s s'"
proof (induction es arbitrary: acc s)
  case (Cons e es)
  obtain moves uncal where "acc = (moves, uncal)" by fastforce
  then obtain change s1 acc1 where "update E (e_id e) actor s = (Inr change, s1)"
    "refresh_experts E actor es acc1 s1 = (Inr r, s')"
    using Cons.prems by (auto simp: result_simps simp del: split_paired_Ex)
  then show ?case using Cons.IH update_evolves by (blast intro: evolves_trans)
qed simp

lemma tick_cases:
  assumes "tick E actor s = (Inr report, s')"
  obtains n s1 es acc s2 where "reclaim_expired E s = (n, s1)" "refresh_experts E actor es ([], 0) s1 = (Inr acc, s2)"
    "core s' = core s2" "trail_step s2 s'"
proof -
  obtain n s1 where s1: "reclaim_expired E s = (n, s1)" by fastforce
  let ?es = "sort_key (\<lambda>e. collate E (e_name e)) (experts s1)"
  obtain moves uncal s2 where s2: "refresh_experts E actor ?es ([], 0) s1 = (Inr (moves, uncal), s2)"
    using assms by (auto simp: tick_def s1 result_simps)
  let ?p = "period_status_of s2"
  let ?r = "record_event actor ''ops.tick'' ''system'' ''tick'' [(''reclaimed'', JInt n), (''tier_changes'', JInt (int (length moves)))] s2"
  obtain age s4 where s4: "days_since E (ps_last_closed_at ?p) ?r = (age, s4)" by fastforce
  obtain remarks s5 where s5: "reminders E uncal ?p (backlog s2) (rejected_twice s2) (undelivered_approved s2) s4 = (remarks, s5)"
    by fastforce
  have s': "s' = s5" using assms by (auto simp: tick_def s1 s2 s4 s5 Let_def)
  show thesis
  proof (rule that [OF s1 s2])
    show "core s' = core s2" "trail_step s2 s'"
      using days_since_core [OF s4] reminders_core [OF s5] unfolding s'
      by (auto intro: trail_step_trans trail_step_record_event trail_step_refl)
  qed
qed

lemma tick_evolves:
  assumes "tick E actor s = (Inr report, s')"
  shows "evolves s s'"
  using assms
proof (cases rule: tick_cases)
  case (1 n s1 es acc s2)
  have "evolves s s2" using reclaim_evolves [OF 1(1)] refresh_experts_evolves [OF 1(2)] by (rule evolves_trans)
  also have "evolves s2 s'" by (rule evolvesI [OF 1(3) tables_evolve_refl 1(4)])
  finally show ?thesis .
qed

lemma bootstrap_evolves: "bootstrap E raw s = (Inr k, s') \<Longrightarrow> evolves s s'"
  by (auto simp: bootstrap_def new_uuid_def insert_api_key_def result_simps Let_def tables_evolve_def
      split: if_splits intro!: evolvesI [OF refl] trail_step_same)

lemma effect_evolves:
  assumes "effect E io \<sigma> \<sigma>'" "distinct (map k_id (api_keys (fst \<sigma>)))"
  shows "evolves (fst \<sigma>) (fst \<sigma>')"
  using assms
proof (induction rule: effect.induct)
  case (expert_key_created p eid token s kr s' st)
  then show ?case using create_expert_key_evolves by (cases kr) auto
next
  case (reviewed key gid d reason actor s rp s' st)
  then show ?case using review_evolves by (cases rp) auto
next
  case (version_published rid s previous cs actor rml s' st)
  then show ?case using publish_evolves by (cases rml) auto
next
  case (key_created p r expert_id label token s kr s' st)
  then show ?case using create_key_evolves by (cases kr) auto
qed (auto intro: create_expert_evolves set_status_evolves create_tasks_evolves claim_next_evolves reclaim_evolves
    claim_by_id_evolves release_evolves submit_evolves resolve_evolves create_rubric_evolves put_rate_cards_evolves
    close_period_evolves export_evolves revoke_key_evolves tick_evolves bootstrap_evolves)

end
