(* ===== verification/Invariants.thy ===== *)
theory Invariants
  imports System
begin

text \<open>
  The invariant of the tables: keys are unique, references point to rows, the payouts are in order.
  Every operation of the services keeps it, so every effect does.
\<close>

section \<open>Keys and references\<close>

definition keys_ok :: "db \<Rightarrow> bool" where
  "keys_ok s \<longleftrightarrow> distinct (map e_id (experts s)) \<and> distinct (map t_id (tasks s)) \<and> distinct (map t_seq (tasks s)) \<and>
     distinct (map g_id (grades s)) \<and> distinct (map (\<lambda>g. (g_task_id g, g_expert_id g)) (grades s)) \<and>
     distinct (map rv_grade_id (reviews s)) \<and> distinct (map co_task_id (consensuses s)) \<and>
     distinct (map k_id (api_keys s)) \<and> distinct (map k_key_hash (api_keys s)) \<and> distinct (map r_id (rubrics s)) \<and>
     distinct (map d_version (deliveries s))"

text \<open>The rubric a task refers to, now and pinned, and the grade a round selected, exist.\<close>

definition task_refs :: "task \<Rightarrow> uuid list" where
  "task_refs t = t_rubric_id t # (case t_pinned_rubric_id t of None \<Rightarrow> [] | Some r \<Rightarrow> [r])"

definition round_pick :: "consensus \<Rightarrow> uuid \<times> uuid option" where
  "round_pick c = (co_task_id c, co_delivered_grade_id c)"

definition pick_ok :: "db \<Rightarrow> uuid \<times> uuid option \<Rightarrow> bool" where
  "pick_ok s x \<longleftrightarrow> fst x \<in> t_id ` set (tasks s) \<and>
     (\<forall>gid. snd x = Some gid \<longrightarrow> (\<exists>g \<in> set (grades s). g_id g = gid \<and> g_task_id g = fst x))"

definition refs_ok :: "db \<Rightarrow> bool" where
  "refs_ok s \<longleftrightarrow>
     (\<forall>g \<in> set (grades s). g_task_id g \<in> t_id ` set (tasks s) \<and> grade_refs_ok s g) \<and>
     (\<forall>r \<in> set (reviews s). rv_grade_id r \<in> g_id ` set (grades s)) \<and>
     (\<forall>x \<in> round_pick ` set (consensuses s). pick_ok s x) \<and>
     (\<forall>rid \<in> \<Union> (set ` task_refs ` set (tasks s)). rid \<in> r_id ` set (rubrics s))"

definition tables_ok :: "db \<Rightarrow> bool" where
  "tables_ok s \<longleftrightarrow> keys_ok s \<and> refs_ok s \<and> payouts_ok s"

text \<open>What the invariant depends on.\<close>

definition skeleton_eq :: "db \<Rightarrow> db \<Rightarrow> bool" where
  "skeleton_eq s s' \<longleftrightarrow> map e_id (experts s') = map e_id (experts s) \<and> map t_id (tasks s') = map t_id (tasks s) \<and>
     map t_seq (tasks s') = map t_seq (tasks s) \<and> map task_refs (tasks s') = map task_refs (tasks s) \<and>
     grades s' = grades s \<and> map rv_grade_id (reviews s') = map rv_grade_id (reviews s) \<and>
     map round_pick (consensuses s') = map round_pick (consensuses s) \<and>
     map k_id (api_keys s') = map k_id (api_keys s) \<and> map k_key_hash (api_keys s') = map k_key_hash (api_keys s) \<and>
     map rubric_content (rubrics s') = map rubric_content (rubrics s) \<and>
     map d_version (deliveries s') = map d_version (deliveries s)"

lemma map_eq_image: "map f xs = map f ys \<Longrightarrow> f ` set xs = f ` set ys"
  by (metis list.set_map)

lemma rubric_content_r [simp]: "r_id (rubric_content r) = r_id r" "r_criteria (rubric_content r) = r_criteria r"
  by (simp_all add: rubric_content_def)

lemma rubric_content_ids: "map r_id (map rubric_content rs) = map r_id rs" "map r_criteria (map rubric_content rs) = map r_criteria rs"
  by simp_all

lemma round_pick_tasks: "map fst (map round_pick cs) = map co_task_id cs"
  by (simp add: round_pick_def comp_def)

lemma skeleton_facts:
  assumes "skeleton_eq s s'"
  shows "map r_id (rubrics s') = map r_id (rubrics s)" "map r_criteria (rubrics s') = map r_criteria (rubrics s)"
    "map co_task_id (consensuses s') = map co_task_id (consensuses s)"
  using assms rubric_content_ids [of "rubrics s"] rubric_content_ids [of "rubrics s'"]
    round_pick_tasks [of "consensuses s"] round_pick_tasks [of "consensuses s'"]
  by (simp_all only: skeleton_eq_def)

lemma grade_refs_ok_cong:
  assumes "map r_id (rubrics s') = map r_id (rubrics s)" "map r_criteria (rubrics s') = map r_criteria (rubrics s)"
    "map e_id (experts s') = map e_id (experts s)"
  shows "grade_refs_ok s' g = grade_refs_ok s g"
proof -
  have "(\<Union>r \<in> set (rubrics s'). set (r_criteria r)) = (\<Union>r \<in> set (rubrics s). set (r_criteria r))"
    using arg_cong [OF map_eq_image [OF assms(2)], of "\<lambda>X. \<Union> (set ` X)"] by (simp add: image_image)
  then show ?thesis
    using map_eq_image [OF assms(1)] map_eq_image [OF assms(3)] by (simp add: grade_refs_ok_def)
qed

lemma keys_ok_skeleton: "skeleton_eq s s' \<Longrightarrow> keys_ok s' = keys_ok s"
  using skeleton_facts [of s s'] unfolding keys_ok_def skeleton_eq_def by (simp only:)

lemma refs_ok_skeleton:
  assumes "skeleton_eq s s'"
  shows "refs_ok s' = refs_ok s"
proof -
  note f = skeleton_facts [OF assms]
  have eqs: "map e_id (experts s') = map e_id (experts s)" "map t_id (tasks s') = map t_id (tasks s)"
    "map task_refs (tasks s') = map task_refs (tasks s)" "grades s' = grades s"
    "map rv_grade_id (reviews s') = map rv_grade_id (reviews s)" "map round_pick (consensuses s') = map round_pick (consensuses s)"
    using assms by (simp_all add: skeleton_eq_def)
  have g: "grade_refs_ok s' x = grade_refs_ok s x" for x by (rule grade_refs_ok_cong [OF f(1,2) eqs(1)])
  have r: "(\<forall>r \<in> set (reviews s'). rv_grade_id r \<in> A) = (\<forall>r \<in> set (reviews s). rv_grade_id r \<in> A)" for A
    using arg_cong [OF map_eq_image [OF eqs(5)], of "\<lambda>X. X \<subseteq> A"] by (simp add: image_subset_iff)
  have p: "pick_ok s' x = pick_ok s x" for x
    unfolding pick_ok_def eqs(4) map_eq_image [OF eqs(2)] ..
  show ?thesis
    unfolding refs_ok_def g r p eqs(4) map_eq_image [OF eqs(2)] map_eq_image [OF eqs(3)] map_eq_image [OF eqs(6)]
      map_eq_image [OF f(1)] ..
qed

lemma payouts_ok_grow:
  assumes "payouts_ok s" "payouts s' = payouts s" "payout_periods s' = payout_periods s"
    "e_id ` set (experts s) \<subseteq> e_id ` set (experts s')" "set (grades s) \<subseteq> set (grades s')"
  shows "payouts_ok s'"
  using assms unfolding payouts_ok_def payout_row_ok_def by (auto 4 3)

lemma tables_ok_skeleton:
  assumes "tables_ok s" "skeleton_eq s s'" "payouts s' = payouts s" "payout_periods s' = payout_periods s"
  shows "tables_ok s'"
  unfolding tables_ok_def keys_ok_skeleton [OF assms(2)] refs_ok_skeleton [OF assms(2)]
proof (intro conjI)
  show "keys_ok s" "refs_ok s" using assms(1) by (simp_all add: tables_ok_def)
  show "payouts_ok s'"
  proof (rule payouts_ok_grow [OF _ assms(3,4)])
    show "payouts_ok s" using assms(1) by (simp add: tables_ok_def)
    show "e_id ` set (experts s) \<subseteq> e_id ` set (experts s')"
      using assms(2) map_eq_image [of e_id "experts s'" "experts s"] by (simp add: skeleton_eq_def)
    show "set (grades s) \<subseteq> set (grades s')" using assms(2) by (simp add: skeleton_eq_def)
  qed
qed

lemma skeleton_eq_core: "core s' = core u \<Longrightarrow> skeleton_eq s s' = skeleton_eq s u"
  by (simp only: skeleton_eq_def core_eq_iff)

lemma tables_ok_core: "core s' = core u \<Longrightarrow> tables_ok s' = tables_ok u"
proof -
  assume c: "core s' = core u"
  then have k: "skeleton_eq u s'" by (simp add: skeleton_eq_def core_eq_iff)
  show ?thesis
    unfolding tables_ok_def keys_ok_skeleton [OF k] refs_ok_skeleton [OF k] payouts_ok_core [OF c] ..
qed

lemma tables_ok_edit:
  assumes "tables_ok s" "core s' = core u" "skeleton_eq s u" "payouts u = payouts s" "payout_periods u = payout_periods s"
  shows "tables_ok s'"
  unfolding tables_ok_core [OF assms(2)] by (rule tables_ok_skeleton [OF assms(1,3-5)])

text \<open>Payouts alone.\<close>

lemma tables_ok_payouts:
  assumes "tables_ok s" "core (s'\<lparr>payouts := payouts s, payout_periods := payout_periods s\<rparr>) = core s" "payouts_ok s'"
  shows "tables_ok s'"
proof -
  have k: "skeleton_eq s s'" using assms(2) by (simp add: skeleton_eq_def core_eq_iff)
  show ?thesis
    unfolding tables_ok_def keys_ok_skeleton [OF k] refs_ok_skeleton [OF k]
    using assms(1,3) by (simp add: tables_ok_def)
qed

section \<open>The services keep the tables in order\<close>

lemma create_for_grade_tables_ok:
  assumes "tables_ok s" "create_for_grade E g t actor f s = (Inr p, s')" "g \<in> set (grades s)" "t_id t = g_task_id g"
  shows "tables_ok s'"
proof (rule tables_ok_payouts [OF assms(1)])
  show "core (s'\<lparr>payouts := payouts s, payout_periods := payout_periods s\<rparr>) = core s"
    using create_for_grade_frame(1) [OF assms(2)] by (simp add: core_eq_iff)
  show "payouts_ok s'"
    using create_for_grade_payouts_ok [OF _ assms(2-4)] assms(1) by (simp add: tables_ok_def)
qed

lemma update_tables_ok:
  assumes "tables_ok s" "update E eid actor s = (Inr r, s')"
  shows "tables_ok s'"
proof (rule tables_ok_skeleton [OF assms(1)])
  note f = update_frame(1,3) [OF assms(2)]
  have "map e_id (experts s') = map e_id (experts s)" using arg_cong [OF f(2), of "map e_id"] by (simp add: comp_def)
  then show "skeleton_eq s s'" using f(1) by (simp add: skeleton_eq_def core_eq_iff)
  show "payouts s' = payouts s" "payout_periods s' = payout_periods s" using f(1) by (simp_all add: core_eq_iff)
qed

lemma enforce_tables_ok:
  assumes "tables_ok s" "enforce E eid s = (Inr b, s')"
  shows "tables_ok s'"
proof -
  note f = enforce_frame(1,3) [OF assms(2)]
  have ids: "map e_id (experts s') = map e_id (experts s)" using arg_cong [OF f(2), of "map e_id"] by (simp add: comp_def)
  then have k: "skeleton_eq s s'" using f(1) by (simp add: skeleton_eq_def core_eq_iff)
  show ?thesis
    unfolding tables_ok_def keys_ok_skeleton [OF k] refs_ok_skeleton [OF k]
    using enforce_payouts_ok [OF _ assms(2)] assms(1) by (simp add: tables_ok_def)
qed

lemma aftermath_tables_ok:
  assumes "tables_ok s" "aftermath E eid t g s = (Inr u, s')"
  shows "tables_ok s'"
  using assms(2)
proof (cases rule: aftermath_cases)
  case regular
  then show ?thesis using assms(1) by simp
next
  case (checked a s1 s2 b c)
  have f: "core (s1\<lparr>attention_results := attention_results s\<rparr>) = core s" by (rule evaluate_check_frame(1) [OF checked(1)])
  have "tables_ok s1"
    by (rule tables_ok_skeleton [OF assms(1)]) (use f in \<open>simp_all add: skeleton_eq_def core_eq_iff\<close>)
  then have "tables_ok s2" using checked(3) enforce_tables_ok by (auto split: if_splits)
  then show ?thesis using checked(4) by (rule update_tables_ok)
qed

text \<open>New rows, and rounds with another pick.\<close>

lemma grade_refs_ok_grow:
  assumes "grade_refs_ok s g" "e_id ` set (experts s) \<subseteq> e_id ` set (experts s')"
    "rubric_content ` set (rubrics s) \<subseteq> rubric_content ` set (rubrics s')"
  shows "grade_refs_ok s' g"
proof -
  have ids: "r_id ` set (rubrics s) \<subseteq> r_id ` set (rubrics s')"
    using image_mono [OF assms(3), of r_id] by (simp add: image_image)
  have "(\<Union>r \<in> set (rubrics s). set (r_criteria r)) \<subseteq> (\<Union>r \<in> set (rubrics s'). set (r_criteria r))"
    using Union_mono [OF image_mono [OF assms(3), of "\<lambda>r. set (r_criteria r)"]] by (simp add: image_image)
  then have crit: "c_id ` (\<Union>r \<in> set (rubrics s). set (r_criteria r)) \<subseteq> c_id ` (\<Union>r \<in> set (rubrics s'). set (r_criteria r))"
    by (rule image_mono)
  show ?thesis
    using subsetD [OF crit] subsetD [OF ids] subsetD [OF assms(2)] assms(1) by (simp add: grade_refs_ok_def)
qed

lemma pick_ok_grow:
  assumes "pick_ok s x" "t_id ` set (tasks s) \<subseteq> t_id ` set (tasks s')" "set (grades s) \<subseteq> set (grades s')"
  shows "pick_ok s' x"
  using assms unfolding pick_ok_def by blast

lemma refs_ok_grow:
  assumes "refs_ok s" "t_id ` set (tasks s) \<subseteq> t_id ` set (tasks s')" "e_id ` set (experts s) \<subseteq> e_id ` set (experts s')"
    "set (grades s) \<subseteq> set (grades s')" "rubric_content ` set (rubrics s) \<subseteq> rubric_content ` set (rubrics s')"
    "\<forall>g \<in> set (grades s') - set (grades s). g_task_id g \<in> t_id ` set (tasks s') \<and> grade_refs_ok s' g"
    "\<forall>r \<in> set (reviews s') - set (reviews s). rv_grade_id r \<in> g_id ` set (grades s')"
    "\<forall>x \<in> round_pick ` set (consensuses s') - round_pick ` set (consensuses s). pick_ok s' x"
    "\<forall>rid \<in> \<Union> (set ` task_refs ` set (tasks s')) - \<Union> (set ` task_refs ` set (tasks s)). rid \<in> r_id ` set (rubrics s')"
  shows "refs_ok s'"
proof -
  have ids: "r_id ` set (rubrics s) \<subseteq> r_id ` set (rubrics s')"
    using image_mono [OF assms(5), of r_id] by (simp add: image_image)
  show ?thesis unfolding refs_ok_def
  proof (intro conjI ballI)
    fix x assume "x \<in> round_pick ` set (consensuses s')"
    then show "pick_ok s' x" using assms(8) pick_ok_grow [OF _ assms(2,4), of x] assms(1) [unfolded refs_ok_def]
      by (cases "x \<in> round_pick ` set (consensuses s)") simp_all
  next
    fix g assume g: "g \<in> set (grades s')"
    have "g_task_id g \<in> t_id ` set (tasks s') \<and> grade_refs_ok s' g"
    proof (cases "g \<in> set (grades s)")
      case True
      then have "g_task_id g \<in> t_id ` set (tasks s)" "grade_refs_ok s g" using assms(1) by (simp_all add: refs_ok_def)
      then show ?thesis using subsetD [OF assms(2)] grade_refs_ok_grow [OF _ assms(3,5)] by simp
    next
      case False
      then show ?thesis using assms(6) g by simp
    qed
    then show "g_task_id g \<in> t_id ` set (tasks s')" "grade_refs_ok s' g" by simp_all
  next
    fix r assume "r \<in> set (reviews s')"
    then show "rv_grade_id r \<in> g_id ` set (grades s')" using assms(7) assms(1) [unfolded refs_ok_def] subsetD [OF image_mono [OF assms(4), of g_id]]
      by (cases "r \<in> set (reviews s)") simp_all
  next
    fix rid assume rid: "rid \<in> \<Union> (set ` task_refs ` set (tasks s'))"
    have old: "\<forall>rid \<in> \<Union> (set ` task_refs ` set (tasks s)). rid \<in> r_id ` set (rubrics s)"
      using assms(1) unfolding refs_ok_def by (elim conjE)
    show "rid \<in> r_id ` set (rubrics s')"
    proof (cases "rid \<in> \<Union> (set ` task_refs ` set (tasks s))")
      case True
      then show ?thesis by (rule subsetD [OF ids bspec [OF old]])
    next
      case False
      then show ?thesis by (rule bspec [OF assms(9) DiffI [OF rid]])
    qed
  qed
qed

text \<open>A new round.\<close>

lemma tables_ok_round:
  assumes "tables_ok s" "core s' = core (s\<lparr>consensuses := consensuses s @ [c]\<rparr>)" "co_task_id c \<notin> co_task_id ` set (consensuses s)"
    "co_task_id c \<in> t_id ` set (tasks s)"
    "\<forall>gid. co_delivered_grade_id c = Some gid \<longrightarrow> (\<exists>g \<in> set (grades s). g_id g = gid \<and> g_task_id g = co_task_id c)"
  shows "tables_ok s'"
proof -
  let ?u = "s\<lparr>consensuses := consensuses s @ [c]\<rparr>"
  have "pick_ok ?u (round_pick c)" using assms(4,5) by (auto simp: pick_ok_def round_pick_def)
  then have "refs_ok ?u" by (rule_tac refs_ok_grow [of s]) (use assms(1) in \<open>auto simp: tables_ok_def\<close>)
  moreover have "keys_ok ?u" using assms(1,3) by (simp add: tables_ok_def keys_ok_def)
  moreover have "payouts_ok ?u"
    by (rule payouts_ok_grow [of s]) (use assms(1) in \<open>simp_all add: tables_ok_def\<close>)
  ultimately show ?thesis unfolding tables_ok_core [OF assms(2)] by (simp add: tables_ok_def)
qed

lemma tables_ok_task_edit:
  assumes "tables_ok s" "core s' = core (modify_task tid f s)"
    "\<And>t. t_id (f t) = t_id t" "\<And>t. t_seq (f t) = t_seq t" "\<And>t. task_refs (f t) = task_refs t"
  shows "tables_ok s'"
  by (rule tables_ok_edit [OF assms(1,2)]) (use assms(3-5) in \<open>simp_all add: skeleton_eq_def map_update_row\<close>)

lemma task_refs_status [simp]: "task_refs (t\<lparr>t_status := x\<rparr>) = task_refs t"
  by (simp add: task_refs_def)

lemma evaluate_tables_ok:
  assumes "tables_ok s" "evaluate E tid s = (Inr r, s')" "tid \<in> t_id ` set (tasks s)"
  shows "tables_ok s'"
  using assms(2)
proof (cases rule: evaluate_cases)
  case few
  then show ?thesis using assms(1) by simp
next
  case (agreed c g)
  have "g \<in> set (unrejected tid s)" using closest_to_mean_SomeD [OF agreed(6)] by blast
  then have g: "g \<in> set (grades s)" "g_task_id g = tid" unfolding set_unrejected by auto
  show ?thesis
    by (rule tables_ok_round [OF assms(1) agreed(9)])
      (use agreed(3,7,8) assms(3) g in \<open>auto simp: consensus_row_of_def\<close>)
next
  case (split c)
  let ?u = "s\<lparr>consensuses := consensuses s @ [c]\<rparr>"
  have "tables_ok ?u"
    by (rule tables_ok_round [OF assms(1) refl]) (use split(3,6,7) assms(3) in \<open>auto simp: consensus_row_of_def\<close>)
  then show ?thesis by (rule tables_ok_task_edit [OF _ split(8)]) simp_all
qed

lemma tables_ok_grade:
  assumes "tables_ok s" "core s' = core (s\<lparr>grades := grades s @ [g]\<rparr>)" "g_id g \<notin> g_id ` set (grades s)"
    "\<forall>g' \<in> set (grades s). \<not> (g_task_id g' = g_task_id g \<and> g_expert_id g' = g_expert_id g)"
    "g_task_id g \<in> t_id ` set (tasks s)" "grade_refs_ok s g"
  shows "tables_ok s'"
proof -
  let ?u = "s\<lparr>grades := grades s @ [g]\<rparr>"
  have "grade_refs_ok ?u g = grade_refs_ok s g" for g by (simp add: grade_refs_ok_def)
  then have "refs_ok ?u"
    by (rule_tac refs_ok_grow [of s]) (use assms(1,5,6) in \<open>auto simp: tables_ok_def\<close>)
  moreover have "keys_ok ?u" using assms(1,3,4) by (auto simp: tables_ok_def keys_ok_def)
  moreover have "payouts_ok ?u"
    by (rule payouts_ok_grow [of s]) (use assms(1) in \<open>auto simp: tables_ok_def\<close>)
  ultimately show ?thesis unfolding tables_ok_core [OF assms(2)] by (simp add: tables_ok_def)
qed

lemma grade_of_refs:
  assumes "r \<in> set (rubrics s)" "check_scores r scores = None" "eid \<in> e_id ` set (experts s)"
  shows "grade_refs_ok s (grade_of E eid tid scores rationale n r s)"
proof -
  have "by_key r k \<noteq> None" if "k \<in> fst ` set scores" for k
  proof -
    have "fst ` set scores \<subseteq> c_key ` set (r_criteria r)"
      using assms(2) unfolding check_scores_None by auto
    then show ?thesis using that by (auto simp: by_key_None)
  qed
  then have "\<forall>gs \<in> set (g_scores (grade_of E eid tid scores rationale n r s)). gs_criterion_id gs \<in> c_id ` set (r_criteria r)"
    by (fastforce simp: grade_of_def dest: by_key_SomeD)
  moreover have "c_id ` set (r_criteria r) \<subseteq> c_id ` (\<Union>r \<in> set (rubrics s). set (r_criteria r))"
    using assms(1) by blast
  ultimately show ?thesis using assms(1,3) unfolding grade_refs_ok_def by auto
qed

lemma task_refs_graded [simp]: "task_refs (graded t) = task_refs t"
  by (simp add: task_refs_def)

lemma submit_tables_ok:
  assumes "tables_ok s" "submit E eid tid scores rationale n rubric_id s = (Inr g, s')"
  shows "tables_ok s'"
  using assms(2)
proof (cases rule: submit_cases)
  case (1 t r s3 c s4 s5)
  have tid: "tid \<in> t_id ` set (tasks s)" using row_of_SomeD [OF 1(1)] by auto
  have r: "r \<in> set (rubrics s)"
    using 1(4) by (auto simp: pinned_rubric_def split: option.splits dest: row_of_SomeD)
  let ?u = "s\<lparr>grades := grades s @ [g]\<rparr>"
  have "tables_ok ?u"
    by (rule tables_ok_grade [OF assms(1) refl])
      (use 1(7-10) tid r grade_of_refs [OF r 1(6) 1(10)] in auto)
  moreover have "core s3 = core (modify_task tid graded ?u)" using 1(11) by (simp add: core_eq_iff)
  ultimately have s3: "tables_ok s3" by (rule tables_ok_task_edit) simp_all
  have "map t_id (tasks s3) = map t_id (tasks s)" using 1(11) by (simp add: core_eq_iff map_update_row)
  then have "tid \<in> t_id ` set (tasks s3)" using tid map_eq_image by metis
  then have "tables_ok s4" using s3 1(13) evaluate_tables_ok by (auto split: if_splits)
  then have "tables_ok s5" unfolding tables_ok_core [OF 1(14)] .
  then show ?thesis by (rule aftermath_tables_ok [OF _ 1(16)])
qed

lemma tables_ok_review:
  assumes "tables_ok s" "core s' = core (s\<lparr>reviews := reviews s @ [rv]\<rparr>)"
    "rv_grade_id rv \<notin> rv_grade_id ` set (reviews s)" "rv_grade_id rv \<in> g_id ` set (grades s)"
  shows "tables_ok s'"
proof -
  let ?u = "s\<lparr>reviews := reviews s @ [rv]\<rparr>"
  have "refs_ok ?u" by (rule refs_ok_grow [of s]) (use assms(1,4) in \<open>auto simp: tables_ok_def\<close>)
  moreover have "keys_ok ?u" using assms(1,3) by (simp add: tables_ok_def keys_ok_def)
  moreover have "payouts_ok ?u"
    by (rule payouts_ok_grow [of s]) (use assms(1) in \<open>simp_all add: tables_ok_def\<close>)
  ultimately show ?thesis unfolding tables_ok_core [OF assms(2)] by (simp add: tables_ok_def)
qed

text \<open>Reviews and the settlement of rounds.\<close>

lemma tables_ok_picks:
  assumes "tables_ok s" "core s' = core (s\<lparr>consensuses := cs\<rparr>)" "map co_task_id cs = map co_task_id (consensuses s)"
    "\<forall>c \<in> set cs. c \<in> set (consensuses s) \<or> pick_ok s (round_pick c)"
  shows "tables_ok s'"
proof -
  let ?u = "s\<lparr>consensuses := cs\<rparr>"
  have p: "pick_ok ?u x = pick_ok s x" for x by (simp add: pick_ok_def)
  have "refs_ok ?u" by (rule refs_ok_grow [of s]) (use assms(1,4) in \<open>auto simp: tables_ok_def p\<close>)
  moreover have "keys_ok ?u" using assms(1,3) by (simp add: tables_ok_def keys_ok_def)
  moreover have "payouts_ok ?u" by (rule payouts_ok_grow [of s]) (use assms(1) in \<open>simp_all add: tables_ok_def\<close>)
  ultimately show ?thesis unfolding tables_ok_core [OF assms(2)] by (simp add: tables_ok_def)
qed

lemma tables_ok_round_edit:
  assumes "tables_ok s" "core s' = core (modify_consensus tid f s)" "\<And>c. co_task_id (f c) = co_task_id c"
    "\<And>c. co_delivered_grade_id (f c) = chosen" "\<forall>gid. chosen = Some gid \<longrightarrow> (\<exists>g \<in> set (grades s). g_id g = gid \<and> g_task_id g = tid)"
  shows "tables_ok s'"
proof (rule tables_ok_picks [OF assms(1,2)])
  show "map co_task_id (update_row co_task_id tid f (consensuses s)) = map co_task_id (consensuses s)"
    by (rule map_update_row) (rule assms(3))
  have rounds: "\<forall>c \<in> set (consensuses s). pick_ok s (round_pick c)" using assms(1) by (simp add: tables_ok_def refs_ok_def)
  show "\<forall>c \<in> set (update_row co_task_id tid f (consensuses s)). c \<in> set (consensuses s) \<or> pick_ok s (round_pick c)"
  proof
    fix c assume "c \<in> set (update_row co_task_id tid f (consensuses s))"
    then consider "c \<in> set (consensuses s)" | c0 where "c0 \<in> set (consensuses s)" "c = f c0" "co_task_id c0 = tid"
      by (auto simp: set_update_row)
    then show "c \<in> set (consensuses s) \<or> pick_ok s (round_pick c)"
      using rounds assms(3-5) by cases (auto simp: pick_ok_def round_pick_def)
  qed
qed

lemma redeliver_tables_ok:
  assumes "tables_ok s" "redeliver tid g actor s = (r, s')"
  shows "tables_ok s'"
  using assms(2)
proof (cases rule: redeliver_cases)
  case kept
  then show ?thesis using assms(1) by simp
next
  case (replaced row pool delivered)
  have pool: "set pool \<subseteq> {g \<in> set (grades s). g_task_id g = tid}" unfolding replaced(5) by auto
  show ?thesis
  proof (rule tables_ok_round_edit [OF assms(1) replaced(7), where chosen = delivered])
    show "\<forall>gid. delivered = Some gid \<longrightarrow> (\<exists>g \<in> set (grades s). g_id g = gid \<and> g_task_id g = tid)"
    proof (intro allI impI)
      fix gid assume "delivered = Some gid"
      then obtain w where w: "w \<in> set pool" "g_id w = gid"
        using replaced(6) by (auto dest!: closest_to_mean_SomeD(1) split: if_splits)
      then show "\<exists>g \<in> set (grades s). g_id g = gid \<and> g_task_id g = tid" using pool by auto
    qed
  qed simp_all
qed

lemma settle_status_tables_ok:
  assumes "tables_ok s"
  shows "tables_ok (settle_status tid t g d actor s)"
proof (rule tables_ok_skeleton [OF assms])
  note f = settle_status_frame [where tid = tid and t = t and g = g and d = d and actor = actor and s = s]
  have "map task_refs (tasks (settle_status tid t g d actor s)) = map task_refs (tasks s)"
    by (simp add: settle_status_def requeue_def Let_def map_update_row task_refs_def)
  then show "skeleton_eq s (settle_status tid t g d actor s)" using f by (simp add: skeleton_eq_def core_eq_iff)
  show "payouts (settle_status tid t g d actor s) = payouts s"
    "payout_periods (settle_status tid t g d actor s) = payout_periods s" using f(1) by (simp_all add: core_eq_iff)
qed

lemma review_tables_ok:
  assumes "tables_ok s" "review_grade E key gid d reason actor s = (Inr (rv, p), s')"
  shows "tables_ok s'"
  using assms(2)
proof (cases rule: review_cases)
  case (1 g t s2 s3 s4 s5 s6 c)
  have g: "g \<in> set (grades s)" "g_id g = gid" "t_id t = g_task_id g"
    using row_of_SomeD [OF 1(1)] row_of_SomeD [OF 1(3)] by auto
  have s2: "tables_ok s2" by (rule tables_ok_review [OF assms(1) 1(12)]) (use 1(5,10) g imageI [OF g(1), of g_id] in simp_all)
  have "g \<in> set (grades s2)" using g(1) 1(12) by (simp add: core_eq_iff)
  then have s3: "tables_ok s3" using 1(14) s2 create_for_grade_tables_ok [OF s2 _ _ g(3)] by (auto split: if_splits)
  have "tables_ok s4" unfolding 1(15) by (rule settle_status_tables_ok [OF s3])
  then have "tables_ok s5" using 1(16) redeliver_tables_ok by (auto split: if_splits)
  then have "tables_ok s6" unfolding tables_ok_core [OF 1(17)] .
  then show ?thesis using 1(19) by (rule update_tables_ok)
qed

lemma settle_grade_tables_ok:
  assumes "settle_grade E d reason key actor t g acc s = (Inr acc', s')" "tables_ok s" "g \<in> set (grades s)" "t_id t = g_task_id g"
  shows "tables_ok s'"
proof -
  let ?rv = "\<lparr>rv_id = uuid4 E (uuid_pos s), rv_grade_id = g_id g, rv_reviewer_key_id = key,
     rv_decision = (if g_id g = d then Approve else Reject),
     rv_reason = Some (if g_id g = d then reason else ''outvoted in adjudication''), rv_created_at = tx_now s\<rparr>"
  let ?s2 = "s\<lparr>uuid_pos := Suc (uuid_pos s), reviews := reviews s @ [?rv]\<rparr>"
  obtain s3 c where new: "g_id g \<notin> rv_grade_id ` set (reviews s)"
    and pay: "(if g_id g = d then and_then (create_for_grade E g t actor 1 ?s2) (\<lambda>p s3. (Inr (Some p, snd acc), s3))
      else and_then (outvoted_payout E g t actor ?s2) (\<lambda>p s3. (Inr (fst acc, snd acc @ [(g, p)]), s3))) = (Inr acc', s3)"
    and cal: "update E (g_expert_id g) actor s3 = (Inr c, s')"
    using assms(1)
    by (auto simp: settle_grade_def new_uuid_def insert_review_def Let_def result_simps simp del: split_paired_Ex)
  have s2: "tables_ok ?s2" by (rule tables_ok_review [OF assms(2), of _ ?rv]) (use new assms(3) in \<open>simp_all add: core_eq_iff\<close>)
  have g: "g \<in> set (grades ?s2)" using assms(3) by simp
  have "tables_ok s3"
  proof (cases "g_id g = d")
    case True
    then obtain p where "create_for_grade E g t actor 1 ?s2 = (Inr p, s3)" using pay by (auto simp: result_simps)
    then show ?thesis by (rule create_for_grade_tables_ok [OF s2 _ g assms(4)])
  next
    case False
    then obtain p where "outvoted_payout E g t actor ?s2 = (Inr p, s3)" using pay by (auto simp: result_simps)
    then show ?thesis
      unfolding outvoted_payout_def
      using s2 create_for_grade_tables_ok [OF s2 _ g assms(4)] by (auto simp: result_simps split: outvoted_payout.splits)
  qed
  then show ?thesis using cal by (rule update_tables_ok)
qed

lemma settle_grades_tables_ok:
  "settle_grades E d reason key actor t gs acc s = (Inr acc', s') \<Longrightarrow> tables_ok s \<Longrightarrow>
   \<forall>g \<in> set gs. g \<in> set (grades s) \<and> t_id t = g_task_id g \<Longrightarrow> tables_ok s'"
proof (induction gs arbitrary: acc s)
  case (Cons g gs)
  then obtain acc1 s1 where step: "settle_grade E d reason key actor t g acc s = (Inr acc1, s1)"
    and rest: "settle_grades E d reason key actor t gs acc1 s1 = (Inr acc', s')"
    unfolding settle_grades.simps and_then_returns by blast
  have "grades s1 = grades s" using settle_grade_step(1) [OF step] by (simp add: settles_def core_eq_iff)
  moreover have "tables_ok s1" by (rule settle_grade_tables_ok [OF step]) (use Cons.prems in simp_all)
  ultimately show ?case using Cons.IH [OF rest] Cons.prems(3) by simp
qed simp

lemma resolve_tables_ok:
  assumes "tables_ok s" "resolve E tid d reason key actor s = (Inr r, s')"
  shows "tables_ok s'"
  using assms(2)
proof (cases rule: resolve_cases)
  case (1 row g t acc s1 now)
  have t: "t_id t = tid" using row_of_SomeD [OF 1(6)] by simp
  have "tables_ok s1" by (rule settle_grades_tables_ok [OF 1(7) assms(1)]) (use t in auto)
  then have "tables_ok (modify_task tid (\<lambda>t. t\<lparr>t_status := Approved\<rparr>) s1)"
    by (rule tables_ok_task_edit [OF _ refl]) simp_all
  moreover have "grades s1 = grades s" using settle_grades_settles [OF 1(7)] by (simp add: settles_def core_eq_iff)
  ultimately show ?thesis
    by (elim tables_ok_round_edit [OF _ 1(11), where chosen = "Some d"]) (use 1(3-5) in auto)
qed

section \<open>The queue, the ledger and the rubrics\<close>

lemma tables_ok_tasks:
  assumes "tables_ok s" "core s' = core (s\<lparr>tasks := ts\<rparr>)" "map t_id ts = map t_id (tasks s)" "map t_seq ts = map t_seq (tasks s)"
    "\<forall>t \<in> set ts. set (task_refs t) \<subseteq> r_id ` set (rubrics s)"
  shows "tables_ok s'"
proof -
  let ?u = "s\<lparr>tasks := ts\<rparr>"
  have "refs_ok ?u"
    by (rule refs_ok_grow [of s]) (use assms(1,5) map_eq_image [OF assms(3)] in \<open>auto simp: tables_ok_def\<close>)
  moreover have "keys_ok ?u" using assms(1,3,4) by (simp add: tables_ok_def keys_ok_def)
  moreover have "payouts_ok ?u" by (rule payouts_ok_grow [of s]) (use assms(1) in \<open>simp_all add: tables_ok_def\<close>)
  ultimately show ?thesis unfolding tables_ok_core [OF assms(2)] by (simp add: tables_ok_def)
qed

lemma tables_ok_rubrics: "tables_ok s \<Longrightarrow> \<forall>t \<in> set (tasks s). set (task_refs t) \<subseteq> r_id ` set (rubrics s)"
  unfolding tables_ok_def refs_ok_def by (elim conjE) (auto simp: subset_iff)

lemma refs_update_where:
  assumes "A \<subseteq> B" "\<forall>t \<in> set ts. set (task_refs t) \<subseteq> A" "\<And>t. set (task_refs (f t)) \<subseteq> B \<union> set (task_refs t)"
  shows "\<forall>t \<in> set (update_where q f ts). set (task_refs t) \<subseteq> B"
proof
  fix t assume "t \<in> set (update_where q f ts)"
  then obtain u where u: "u \<in> set ts" "t = u \<or> t = f u" by (auto simp: update_where_set split: if_splits)
  have "set (task_refs u) \<subseteq> B" using assms(1,2) u(1) by blast
  then show "set (task_refs t) \<subseteq> B" using u(2) assms(3) [of u] by auto
qed

lemma tables_ok_update_tasks:
  assumes "tables_ok s" "\<And>t. t_id (f t) = t_id t" "\<And>t. t_seq (f t) = t_seq t" "\<And>t. set (task_refs (f t)) \<subseteq> set (task_refs t)"
  shows "tables_ok (s\<lparr>tasks := update_where q f (tasks s)\<rparr>)"
proof (rule tables_ok_tasks [OF assms(1) refl])
  have "\<forall>t \<in> set (tasks s). set (task_refs t) \<subseteq> r_id ` set (rubrics s)" by (rule tables_ok_rubrics [OF assms(1)])
  then show "\<forall>t \<in> set (update_where q f (tasks s)). set (task_refs t) \<subseteq> r_id ` set (rubrics s)"
    by (rule refs_update_where [OF subset_refl]) (use assms(4) in blast)
qed (simp_all add: map_update_where assms(2,3))

lemma swept_tables_ok: "tables_ok s \<Longrightarrow> tables_ok (swept E s)"
  unfolding swept_def by (rule tables_ok_update_tasks) (simp_all add: reclaimed_def unassigned_def task_refs_def)

lemma tables_ok_experts:
  assumes "tables_ok s" "map e_id es = map e_id (experts s)"
  shows "tables_ok (s\<lparr>experts := es\<rparr>)"
  by (rule tables_ok_skeleton [OF assms(1)]) (simp_all add: skeleton_eq_def assms(2))

lemma served_tables_ok:
  assumes "tables_ok s"
  shows "tables_ok (modify_expert eid (\<lambda>e. e\<lparr>e_served_count := e_served_count e + 1\<rparr>) (modify_task tid (leased E eid now) s))"
proof (rule tables_ok_experts)
  show "tables_ok (modify_task tid (leased E eid now) s)"
    unfolding update_where_row by (rule tables_ok_update_tasks [OF assms]) (simp_all add: leased_def task_refs_def)
qed (simp add: map_update_row)

lemma claim_next_tables_ok:
  assumes "tables_ok s" "claim_next E eid locked s = (Inr r, s')"
  shows "tables_ok s'"
  using assms(2)
proof (cases rule: claim_next_cases)
  case (empty e)
  show ?thesis unfolding tables_ok_core [OF empty(5)] by (rule swept_tables_ok [OF assms(1)])
next
  case (served e t now)
  show ?thesis unfolding tables_ok_core [OF served(6)] by (rule served_tables_ok [OF swept_tables_ok [OF assms(1)]])
qed

lemma claim_by_id_tables_ok:
  assumes "tables_ok s" "claim_by_id E eid tid locked s = (Inr t, s')"
  shows "tables_ok s'"
  using assms(2)
proof (cases rule: claim_by_id_cases)
  case (1 e t now)
  show ?thesis unfolding tables_ok_core [OF 1(10)] by (rule served_tables_ok [OF swept_tables_ok [OF assms(1)]])
qed

lemma release_tables_ok:
  assumes "tables_ok s" "release eid tid s = (Inr t, s')"
  shows "tables_ok s'"
  using assms(2)
proof (cases rule: release_cases)
  case (1 t)
  show ?thesis
    unfolding tables_ok_core [OF 1(5)] update_where_row
    by (rule tables_ok_update_tasks [OF assms(1)]) (simp_all add: unassigned_def task_refs_def)
qed

lemma reclaim_tables_ok: "tables_ok s \<Longrightarrow> reclaim_expired E s = (n, s') \<Longrightarrow> tables_ok s'"
  using tables_ok_core [OF reclaim_expired_core(1)] swept_tables_ok by blast

lemma release_withheld_tables_ok:
  assumes "tables_ok s" "release_withheld eid actor s = (n, s')"
  shows "tables_ok s'"
proof (rule tables_ok_payouts [OF assms(1)])
  show "payouts_ok s'" using release_withheld_payouts_ok [OF _ assms(2)] assms(1) by (simp add: tables_ok_def)
qed (use release_withheld_core(1) [OF assms(2)] in \<open>simp add: core_eq_iff\<close>)

lemma close_period_tables_ok:
  assumes "tables_ok s" "close_period E label actor s = (Inr period, s')"
  shows "tables_ok s'"
proof (rule tables_ok_payouts [OF assms(1)])
  show "payouts_ok s'" using close_period_payouts_ok [OF _ assms(2)] assms(1) by (simp add: tables_ok_def)
  show "core (s'\<lparr>payouts := payouts s, payout_periods := payout_periods s\<rparr>) = core s"
    using assms(2) by (cases rule: close_period_cases) (simp add: core_eq_iff)
qed

lemma tables_ok_rubric:
  assumes "tables_ok s" "r_id r \<notin> r_id ` set (rubrics s)"
  shows "tables_ok (s\<lparr>rubrics := rubrics s @ [r]\<rparr>)"
proof -
  let ?u = "s\<lparr>rubrics := rubrics s @ [r]\<rparr>"
  have "refs_ok ?u" by (rule refs_ok_grow [of s]) (use assms(1) in \<open>auto simp: tables_ok_def\<close>)
  moreover have "keys_ok ?u" using assms by (simp add: tables_ok_def keys_ok_def)
  moreover have "payouts_ok ?u" by (rule payouts_ok_grow [of s]) (use assms(1) in \<open>simp_all add: tables_ok_def\<close>)
  ultimately show ?thesis by (simp add: tables_ok_def)
qed

lemma publish_tables_ok:
  assumes "tables_ok s" "publish E previous criteria actor s = (Inr (r, migrated, left), s')"
  shows "tables_ok s'"
  using assms(2)
proof (cases rule: publish_cases)
  case (1 latest now)
  let ?w = "s\<lparr>rubrics := rubrics s @ [r]\<rparr>"
  let ?stamp = "\<lambda>q. q\<lparr>r_superseded_at := Some now, r_superseded_by_id := Some (r_id r)\<rparr>"
  let ?u = "?w\<lparr>rubrics := update_row r_id (r_id previous) ?stamp (rubrics ?w)\<rparr>"
  let ?ts = "update_where (untouched_on (r_id previous)) (\<lambda>t. t\<lparr>t_rubric_id := r_id r\<rparr>) (tasks s)"
  have "tables_ok ?w" using assms(1) 1(8) by (rule tables_ok_rubric)
  then have u: "tables_ok ?u"
    by (rule tables_ok_skeleton) (simp_all add: skeleton_eq_def map_update_row)
  have "\<forall>t \<in> set (tasks ?u). set (task_refs t) \<subseteq> r_id ` set (rubrics ?u)" by (rule tables_ok_rubrics [OF u])
  then have old: "\<forall>t \<in> set (tasks s). set (task_refs t) \<subseteq> insert (r_id r) (r_id ` set (rubrics s))" by simp
  have new: "\<forall>t \<in> set ?ts. set (task_refs t) \<subseteq> insert (r_id r) (r_id ` set (rubrics s))"
    by (rule refs_update_where [OF subset_refl old]) (auto simp: task_refs_def)
  show ?thesis
    by (rule tables_ok_tasks [OF u, where ts = ?ts])
      (use 1(11) new in \<open>simp_all add: core_eq_iff map_update_where\<close>)
qed

section \<open>The routers and the scheduler\<close>

lemma tables_ok_recorded: "tables_ok (record_event a b c d p s) = tables_ok s"
  by (rule tables_ok_core) simp

lemma create_expert_tables_ok:
  assumes "tables_ok s" "create_expert E p b s = (Inr e, s')"
  shows "tables_ok s'"
proof -
  have e: "e_id e \<notin> e_id ` set (experts s)" "core s' = core (s\<lparr>experts := experts s @ [e]\<rparr>)"
    using assms(2) by (auto simp: create_expert_def new_uuid_def insert_expert_def result_simps Let_def core_eq_iff)
  let ?u = "s\<lparr>experts := experts s @ [e]\<rparr>"
  have "refs_ok ?u" by (rule refs_ok_grow [of s]) (use assms(1) in \<open>auto simp: tables_ok_def\<close>)
  moreover have "keys_ok ?u" using assms e(1) by (simp add: tables_ok_def keys_ok_def)
  moreover have "payouts_ok ?u" by (rule payouts_ok_grow [of s]) (use assms(1) in \<open>auto simp: tables_ok_def\<close>)
  ultimately show ?thesis unfolding tables_ok_core [OF e(2)] by (simp add: tables_ok_def)
qed

lemma tables_ok_key:
  assumes "tables_ok s" "core s' = core (s\<lparr>api_keys := api_keys s @ [k]\<rparr>)" "k_id k \<notin> k_id ` set (api_keys s)"
    "k_key_hash k \<notin> k_key_hash ` set (api_keys s)"
  shows "tables_ok s'"
proof -
  let ?u = "s\<lparr>api_keys := api_keys s @ [k]\<rparr>"
  have "refs_ok ?u" by (rule refs_ok_grow [of s]) (use assms(1) in \<open>auto simp: tables_ok_def\<close>)
  moreover have "keys_ok ?u" using assms(1,3,4) by (simp add: tables_ok_def keys_ok_def)
  moreover have "payouts_ok ?u" by (rule payouts_ok_grow [of s]) (use assms(1) in \<open>auto simp: tables_ok_def\<close>)
  ultimately show ?thesis unfolding tables_ok_core [OF assms(2)] by (simp add: tables_ok_def)
qed

lemma issue_key_tables_ok:
  assumes "tables_ok s" "issue_key E r expert_id label token s = (Inr (k, raw), s')"
  shows "tables_ok s'"
  using assms(2) by (cases rule: issue_key_cases) (erule (2) tables_ok_key [OF assms(1)])

lemma create_expert_key_tables_ok:
  assumes "tables_ok s" "create_expert_key E p eid token s = (Inr (k, raw), s')"
  shows "tables_ok s'"
  using assms(2) issue_key_tables_ok [OF assms(1)]
  by (auto simp: create_expert_key_def result_simps tables_ok_recorded split: option.splits)

lemma create_key_tables_ok:
  assumes "tables_ok s" "create_key E p r expert_id label token s = (Inr (k, raw), s')"
  shows "tables_ok s'"
  using assms(2)
proof (cases rule: create_key_cases)
  case (1 s1)
  show ?thesis unfolding tables_ok_core [OF 1(2)] by (rule issue_key_tables_ok [OF assms(1) 1(1)])
qed

lemma revoke_key_tables_ok:
  assumes "tables_ok s" "revoke_key E p kid s = (Inr u, s')"
  shows "tables_ok s'"
  using assms(2)
proof (cases rule: revoke_key_cases)
  case (stamped k)
  show ?thesis
    by (rule tables_ok_edit [OF assms(1) stamped(3)]) (simp_all add: skeleton_eq_def map_update_row revoked_def)
next
  case already
  then show ?thesis using assms(1) by simp
qed

lemma bootstrap_tables_ok:
  assumes "tables_ok s" "bootstrap E raw s = (Inr k, s')"
  shows "tables_ok s'"
proof -
  have "s' = s \<or> (\<exists>k. core s' = core (s\<lparr>api_keys := api_keys s @ [k]\<rparr>) \<and> k_id k \<notin> k_id ` set (api_keys s) \<and>
      k_key_hash k \<notin> k_key_hash ` set (api_keys s))"
    using assms(2)
    by (auto simp: bootstrap_def new_uuid_def insert_api_key_def result_simps Let_def core_eq_iff split: if_splits)
  then show ?thesis by (elim disjE exE conjE) (use assms(1) tables_ok_key [OF assms(1)] in simp_all)
qed

lemma set_status_tables_ok:
  assumes "tables_ok s" "set_status E p eid status s = (Inr e, s')"
  shows "tables_ok s'"
proof -
  let ?s1 = "modify_expert eid (\<lambda>e. e\<lparr>e_status := status\<rparr>) s"
  have s1: "tables_ok ?s1" by (rule tables_ok_experts [OF assms(1)]) (simp add: map_update_row)
  moreover have "tables_ok (snd (release_withheld eid a ?s1))" for a
    by (rule release_withheld_tables_ok [OF s1, of _ _ "fst (release_withheld eid a ?s1)"]) simp
  ultimately show ?thesis
    using assms(2) by (auto simp: set_status_def Let_def tables_ok_recorded split: option.splits if_splits)
qed

lemma insert_tasks_tables_ok: "insert_tasks E bs s = (Inr ids, s') \<Longrightarrow> tables_ok s \<Longrightarrow> tables_ok s'"
proof (induction bs arbitrary: s ids)
  case (Cons b bs)
  from Cons.prems(1) show ?case
  proof (cases rule: insert_tasks_ConsE)
    case (1 t s2 rest)
    have rub: "t_rubric_id t \<in> r_id ` set (rubrics s)" "task_refs t = [t_rubric_id t]"
      using 1(4) by (simp_all add: 1(1) task_refs_def new_task_def)
    have "refs_ok s2" by (rule refs_ok_grow [of s]) (use Cons.prems(2) rub in \<open>auto simp: 1(5) tables_ok_def\<close>)
    moreover have "keys_ok s2" using Cons.prems(2) 1(2,3) by (simp add: 1(5) tables_ok_def keys_ok_def)
    moreover have "payouts_ok s2" by (rule payouts_ok_grow [of s]) (use Cons.prems(2) in \<open>auto simp: 1(5) tables_ok_def\<close>)
    ultimately have "tables_ok s2" by (simp add: tables_ok_def)
    then show ?thesis by (rule Cons.IH [OF 1(6)])
  qed
qed simp

lemma create_tasks_tables_ok:
  assumes "tables_ok s" "create_tasks E p bs s = (Inr ids, s')"
  shows "tables_ok s'"
  using assms(2) insert_tasks_tables_ok [OF _ assms(1)]
  by (auto simp: create_tasks_def result_simps tables_ok_recorded split: option.splits if_splits)

lemma create_rubric_tables_ok:
  assumes "tables_ok s" "create_rubric E p b s = (Inr r, s')"
  shows "tables_ok s'"
proof -
  have "core s' = core (s\<lparr>rubrics := rubrics s @ [r]\<rparr>)" "r_id r \<notin> r_id ` set (rubrics s)"
    using assms(2)
    by (auto simp: create_rubric_def new_uuid_def new_uuids_def insert_rubric_def result_simps Let_def core_eq_iff)
  then show ?thesis using tables_ok_core tables_ok_rubric [OF assms(1)] by blast
qed

lemma merge_rate_cards_core: "core ((fold merge_rate_card cards s)\<lparr>rate_cards := rate_cards s\<rparr>) = core s"
proof (induction cards arbitrary: s)
  case (Cons c cs)
  have "core ((merge_rate_card c s)\<lparr>rate_cards := rate_cards s\<rparr>) = core s"
    by (simp add: merge_rate_card_def core_eq_iff)
  then show ?case using Cons.IH [of "merge_rate_card c s"] by (simp add: core_eq_iff)
qed simp

lemma put_rate_cards_tables_ok:
  assumes "tables_ok s" "put_rate_cards p cards s = (Inr u, s')"
  shows "tables_ok s'"
proof (rule tables_ok_skeleton [OF assms(1)])
  have c: "core (s'\<lparr>rate_cards := rate_cards s\<rparr>) = core s"
    using assms(2) merge_rate_cards_core [where cards = cards and s = s] by (auto simp: put_rate_cards_def core_eq_iff)
  then show "skeleton_eq s s'" "payouts s' = payouts s" "payout_periods s' = payout_periods s"
    by (simp_all add: skeleton_eq_def core_eq_iff)
qed

lemma export_tables_ok:
  assumes "tables_ok s" "export E io actor (s, st) = (Inr d, (s', st'))"
  shows "tables_ok s'"
  using assms(2)
proof (cases rule: export_cases)
  case (1 body n)
  let ?u = "s\<lparr>deliveries := deliveries s @ [d]\<rparr>"
  have "d_version d \<notin> d_version ` set (deliveries s)" using next_version_gt [of _ s] unfolding 1(5) by fastforce
  then have "keys_ok ?u" using assms(1) by (simp add: tables_ok_def keys_ok_def)
  moreover have "refs_ok ?u" by (rule refs_ok_grow [of s]) (use assms(1) in \<open>auto simp: tables_ok_def\<close>)
  moreover have "payouts_ok ?u" by (rule payouts_ok_grow [of s]) (use assms(1) in \<open>auto simp: tables_ok_def\<close>)
  ultimately show ?thesis unfolding tables_ok_core [OF 1(7)] by (simp add: tables_ok_def)
qed

lemma refresh_experts_tables_ok: "refresh_experts E actor es acc s = (Inr r, s') \<Longrightarrow> tables_ok s \<Longrightarrow> tables_ok s'"
proof (induction es arbitrary: acc s)
  case (Cons e es)
  obtain moves uncal where "acc = (moves, uncal)" by fastforce
  then obtain change s1 acc1 where step: "update E (e_id e) actor s = (Inr change, s1)"
    and rest: "refresh_experts E actor es acc1 s1 = (Inr r, s')"
    using Cons.prems(1) by (auto simp: result_simps simp del: split_paired_Ex)
  show ?case by (rule Cons.IH [OF rest update_tables_ok [OF Cons.prems(2) step]])
qed simp

lemma tick_tables_ok:
  assumes "tables_ok s" "tick E actor s = (Inr report, s')"
  shows "tables_ok s'"
proof (rule tick_cases [OF assms(2)])
  fix n s1 es acc s2
  assume a: "reclaim_expired E s = (n, s1)" "refresh_experts E actor es ([], 0) s1 = (Inr acc, s2)" "core s' = core s2"
  show ?thesis unfolding tables_ok_core [OF a(3)]
    by (rule refresh_experts_tables_ok [OF a(2) reclaim_tables_ok [OF assms(1) a(1)]])
qed

text \<open>Every effect keeps the tables in order.\<close>

lemma effect_tables_ok:
  assumes "effect E io \<sigma> \<sigma>'" "tables_ok (fst \<sigma>)"
  shows "tables_ok (fst \<sigma>')"
  using assms
proof (induction rule: effect.induct)
  case (expert_key_created p eid token s kr s' st)
  then show ?case using create_expert_key_tables_ok by (cases kr) auto
next
  case (reviewed key gid d reason actor s rp s' st)
  then show ?case using review_tables_ok by (cases rp) auto
next
  case (version_published rid s previous cs actor rml s' st)
  then show ?case using publish_tables_ok by (cases rml) auto
next
  case (key_created p r expert_id label token s kr s' st)
  then show ?case using create_key_tables_ok by (cases kr) auto
qed (auto intro: create_expert_tables_ok set_status_tables_ok create_tasks_tables_ok claim_next_tables_ok reclaim_tables_ok
    claim_by_id_tables_ok release_tables_ok submit_tables_ok resolve_tables_ok create_rubric_tables_ok
    put_rate_cards_tables_ok close_period_tables_ok export_tables_ok revoke_key_tables_ok tick_tables_ok bootstrap_tables_ok)

end
