(* ===== verification/Reachable.thy ===== *)
theory Reachable
  imports Invariants
begin

text \<open>
  The running service from outside: \<open>happens\<close> is one event, a request that commits or is rolled back, a
  query, a pass of the scheduler or the bootstrap of a key, each a transaction of its own; \<open>reachable\<close> is
  every state some sequence of events leads to from empty tables. The properties here span the components.
\<close>

section \<open>Events\<close>

text \<open>A transaction of the command line: it begins at a time, and commits unless it raises.\<close>

definition transact :: "(db \<Rightarrow> 'a outcome) \<Rightarrow> time \<Rightarrow> db \<Rightarrow> db" where
  "transact f now s =
    (case f (s\<lparr>tx_now := now\<rparr>) of (Inl e, s') \<Rightarrow> rolled_back s s' | (Inr x, s') \<Rightarrow> s')"

text \<open>A query commits nothing: its session is closed without a commit.\<close>

definition look :: "env \<Rightarrow> 'st storage \<Rightarrow> (rat \<Rightarrow> rat) \<Rightarrow> query \<Rightarrow> string option \<Rightarrow> time \<Rightarrow> db \<times> 'st \<Rightarrow> db \<times> 'st" where
  "look E io sq q raw now sst = (let (s, st) = sst in (rolled_back s (snd (ask E io sq q raw st (s\<lparr>tx_now := now\<rparr>))), st))"

inductive happens :: "env \<Rightarrow> 'st storage \<Rightarrow> db \<times> 'st \<Rightarrow> db \<times> 'st \<Rightarrow> bool" for E io where
  request: "serve E io m c raw \<sigma> = (r, \<sigma>') \<Longrightarrow> happens E io \<sigma> \<sigma>'"
| question: "happens E io \<sigma> (look E io sq q raw now \<sigma>)"
| scheduled: "happens E io (s, st) (transact (tick E actor) now s, st)"
| first_key: "happens E io (s, st) (transact (bootstrap E raw) now s, st)"

inductive reachable :: "env \<Rightarrow> 'st storage \<Rightarrow> 'st \<Rightarrow> db \<times> 'st \<Rightarrow> bool" for E io st0 where
  start: "reachable E io st0 (empty_db, st0)"
| event: "reachable E io st0 \<sigma> \<Longrightarrow> happens E io \<sigma> \<sigma>' \<Longrightarrow> reachable E io st0 \<sigma>'"

text \<open>
  The interface of an invariant of the running service: it holds at the start, and whatever happens in a
  reachable state keeps it. Then it holds in every reachable state.
\<close>

locale kept =
  fixes E :: env and io :: "'st storage" and st0 :: 'st and holds :: "db \<times> 'st \<Rightarrow> bool"
  assumes first: "holds (empty_db, st0)"
    and keeps: "reachable E io st0 \<sigma> \<Longrightarrow> happens E io \<sigma> \<sigma>' \<Longrightarrow> holds \<sigma> \<Longrightarrow> holds \<sigma>'"
begin

lemma always: "reachable E io st0 \<sigma> \<Longrightarrow> holds \<sigma>"
  by (induction rule: reachable.induct) (auto intro: first keeps)

end

text \<open>An event is an effect after the transaction began, or it leaves the tables as they were.\<close>

definition begun :: "time \<Rightarrow> db \<times> 'st \<Rightarrow> db \<times> 'st" where
  "begun now \<sigma> = ((fst \<sigma>)\<lparr>tx_now := now\<rparr>, snd \<sigma>)"

definition unchanged :: "db \<Rightarrow> db \<Rightarrow> bool" where
  "unchanged s s' \<longleftrightarrow> core (s'\<lparr>task_seq := task_seq s, tx_now := tx_now s\<rparr>) = core s \<and>
     audit_events s' = audit_events s \<and> audit_seq s \<le> audit_seq s'"

lemma unchanged_rolled_back: "unchanged s (rolled_back s s')"
  by (simp add: unchanged_def rolled_back_def core_eq_iff)

text \<open>A refused export may have written its object already, or part of it, under the name of the next version.\<close>

definition stray :: "env \<Rightarrow> 'st storage \<Rightarrow> db \<times> 'st \<Rightarrow> 'st \<Rightarrow> bool" where
  "stray E io \<sigma> st' \<longleftrightarrow> st' = snd \<sigma> \<or>
     (\<exists>body checksum r. store E io body (next_version (fst \<sigma>)) checksum (snd \<sigma>) = (r, st'))"

lemma export_raises: "export E io actor \<sigma> = (Inl e, (s', st')) \<Longrightarrow> stray E io \<sigma> st'"
  by (cases \<sigma>)
    (auto simp: export_def stray_def new_uuid_def insert_delivery_def insert_if_def Let_def split: option.splits prod.splits sum.splits if_splits)

lemma perform_raises: "perform E io m c raw (s, st) = (Inl e, (s', st')) \<Longrightarrow> stray E io (s, st) st'"
  using export_raises [of E io _ "(s, st)" e s' st']
  by (auto simp: perform_def and_then_raises stray_def require_scopes_returns dest!: require_scopes_raises
      split: prod.splits sum.splits if_splits)

lemma happens_cases:
  assumes "happens E io \<sigma> \<sigma>'"
  obtains (commits) now where "effect E io (begun now \<sigma>) \<sigma>'"
  | (aborts) "unchanged (fst \<sigma>) (fst \<sigma>')" "stray E io \<sigma> (snd \<sigma>')"
  using assms
proof (cases rule: happens.cases)
  case (request m c raw r)
  obtain s st where s: "\<sigma> = (s, st)" by fastforce
  obtain x s' st' where p: "perform E io m c raw (s\<lparr>tx_now := m_now m\<rparr>, st) = (x, (s', st'))" by (metis surj_pair)
  show ?thesis
  proof (cases x)
    case (Inl e)
    then have \<sigma>': "\<sigma>' = (rolled_back s s', st')" using request p by (auto simp: serve_def s)
    moreover have "stray E io (s, st) st'"
      using perform_raises [OF p [unfolded Inl]] by (simp add: stray_def next_version_def)
    ultimately show ?thesis using aborts unchanged_rolled_back by (simp add: s)
  next
    case (Inr v)
    then have "\<sigma>' = (s', st')" using request p by (auto simp: serve_def s)
    then show ?thesis using perform_effect p Inr by (intro commits [of "m_now m"]) (simp add: s begun_def)
  qed
next
  case (question sq q raw now)
  then show ?thesis using aborts unchanged_rolled_back by (auto simp: look_def stray_def split: prod.splits)
next
  case (scheduled s st actor now)
  obtain x s' where t: "tick E actor (s\<lparr>tx_now := now\<rparr>) = (x, s')" by fastforce
  show ?thesis
  proof (cases x)
    case (Inl e)
    then show ?thesis using aborts unchanged_rolled_back scheduled t by (simp add: transact_def stray_def)
  next
    case (Inr v)
    then show ?thesis using effect.ticked t scheduled by (intro commits [of now]) (auto simp: begun_def transact_def)
  qed
next
  case (first_key s st raw now)
  obtain x s' where t: "bootstrap E raw (s\<lparr>tx_now := now\<rparr>) = (x, s')" by fastforce
  show ?thesis
  proof (cases x)
    case (Inl e)
    then show ?thesis using aborts unchanged_rolled_back first_key t by (simp add: transact_def stray_def)
  next
    case (Inr v)
    then show ?thesis using effect.bootstrapped t first_key by (intro commits [of now]) (auto simp: begun_def transact_def)
  qed
qed

section \<open>The tables are in order in every reachable state\<close>

lemma tables_ok_unchanged: "unchanged s s' \<Longrightarrow> tables_ok s' = tables_ok s"
proof -
  assume u: "unchanged s s'"
  have k: "skeleton_eq s s'" "payouts s' = payouts s" "payout_periods s' = payout_periods s"
    using u by (simp_all add: unchanged_def skeleton_eq_def core_eq_iff)
  have k': "skeleton_eq s' s" using u by (simp add: unchanged_def skeleton_eq_def core_eq_iff)
  show ?thesis using tables_ok_skeleton [OF _ k] tables_ok_skeleton [OF _ k' k(2,3) [symmetric]] by blast
qed

lemma tables_ok_begun: "tables_ok (s\<lparr>tx_now := now\<rparr>) = tables_ok s"
  by (rule tables_ok_unchanged) (simp add: unchanged_def core_eq_iff)

lemma happens_tables_ok:
  assumes "happens E io \<sigma> \<sigma>'" "tables_ok (fst \<sigma>)"
  shows "tables_ok (fst \<sigma>')"
  using assms(1)
proof (cases rule: happens_cases)
  case (commits now)
  then show ?thesis using effect_tables_ok assms(2) tables_ok_begun by (fastforce simp: begun_def)
next
  case aborts
  then show ?thesis using tables_ok_unchanged assms(2) by blast
qed

lemma empty_tables_ok: "tables_ok empty_db"
  by (simp add: tables_ok_def keys_ok_def refs_ok_def payouts_ok_def empty_db_def)

interpretation order: kept E io st0 "\<lambda>\<sigma>. tables_ok (fst \<sigma>)" for E io st0
  by unfold_locales (auto intro: empty_tables_ok happens_tables_ok)

lemmas reachable_tables_ok = order.always

section \<open>History is append-only\<close>

lemma trail_step_unchanged: "unchanged s s' \<Longrightarrow> trail_step s s'"
  by (auto simp: unchanged_def trail_step_def trail_extends_def trail_ok_def)

lemma evolves_unchanged: "unchanged s s' \<Longrightarrow> evolves s s'"
  using trail_step_unchanged by (auto simp: evolves_def tables_evolve_def unchanged_def core_eq_iff)

lemma happens_evolves:
  assumes "happens E io \<sigma> \<sigma>'" "tables_ok (fst \<sigma>)"
  shows "evolves (fst \<sigma>) (fst \<sigma>')"
  using assms(1)
proof (cases rule: happens_cases)
  case (commits now)
  have "evolves (fst \<sigma>) (fst (begun now \<sigma>))" by (rule evolves_unchanged) (simp add: unchanged_def begun_def core_eq_iff)
  also have "evolves \<dots> (fst \<sigma>')"
    by (rule effect_evolves [OF commits]) (use assms(2) in \<open>simp add: begun_def tables_ok_def keys_ok_def\<close>)
  finally show ?thesis .
next
  case aborts
  then show ?thesis by (simp add: evolves_unchanged)
qed

lemma events_evolve:
  assumes "(happens E io)\<^sup>*\<^sup>* \<sigma> \<sigma>'" "tables_ok (fst \<sigma>)"
  shows "evolves (fst \<sigma>) (fst \<sigma>') \<and> tables_ok (fst \<sigma>')"
  using assms
proof (induction rule: rtranclp_induct)
  case (step y z)
  then show ?case using happens_evolves happens_tables_ok by (blast intro: evolves_trans)
qed simp

interpretation trail: kept E io st0 "\<lambda>\<sigma>. trail_ok (fst \<sigma>)" for E io st0
proof unfold_locales
  show "trail_ok (fst (empty_db, st0))" by (simp add: trail_ok_def empty_db_def)
  show "trail_ok (fst \<sigma>')" if "reachable E io st0 \<sigma>" "happens E io \<sigma> \<sigma>'" "trail_ok (fst \<sigma>)" for \<sigma> \<sigma>'
    using happens_evolves [OF that(2) reachable_tables_ok [OF that(1)]] that(3) by (simp add: evolves_def trail_step_def)
qed

section \<open>Deliveries stay verifiable\<close>

text \<open>What the store leaves alone: writing under one name changes no other, whether the write is done or fails.\<close>

definition store_keeps :: "env \<Rightarrow> 'st storage \<Rightarrow> bool" where
  "store_keeps E io \<longleftrightarrow>
     (\<forall>b k k' x st. k \<noteq> k' \<longrightarrow> get_object io b k' (snd (put_object io b k x st)) = get_object io b k' st) \<and>
     (\<forall>p p' x st. p \<noteq> p' \<longrightarrow> read_bytes io p' (snd (write_bytes io p x st)) = read_bytes io p' st) \<and>
     (\<forall>d. inj (resolve_path io d))"

definition object_name :: "int \<Rightarrow> string \<Rightarrow> string" where
  "object_name version checksum = ''panelist-grades-v'' @ str_int version @ ''-'' @ take 12 checksum @ ''.jsonl''"

definition location_of :: "env \<Rightarrow> 'st storage \<Rightarrow> int \<Rightarrow> string \<Rightarrow> string" where
  "location_of E io version checksum =
    (if delivery_s3_bucket (cfg E) \<noteq> []
     then ''s3://'' @ delivery_s3_bucket (cfg E) @ ''/deliveries/'' @ object_name version checksum
     else resolve_path io (delivery_dir (cfg E)) (object_name version checksum))"

lemma object_name_inject:
  assumes "object_name v c = object_name v' c'" "0 \<le> v" "0 \<le> v'"
  shows "v = v'"
proof -
  have digits: "\<forall>d \<in> set (str_int n). d \<noteq> CHR ''-''" if "0 \<le> n" for n
    using that minus_not_digit [of "nat n"] by (auto simp: str_int_def)
  have cut: "takeWhile (\<lambda>d. d \<noteq> CHR ''-'') (str_int n @ ''-'' @ x) = str_int n" if "0 \<le> n" for n x
    using digits [OF that] by (subst takeWhile_append2) auto
  have "str_int v @ ''-'' @ take 12 c @ ''.jsonl'' = str_int v' @ ''-'' @ take 12 c' @ ''.jsonl''"
    using assms(1) by (simp add: object_name_def)
  then have "str_int v = str_int v'" using cut assms(2,3) by metis
  then show ?thesis by (simp add: str_int_inject)
qed

lemma read_location_of:
  assumes "store_ok E io"
  shows "read_location io (location_of E io v c) st =
    (if delivery_s3_bucket (cfg E) \<noteq> [] then get_object io (delivery_s3_bucket (cfg E)) (''deliveries/'' @ object_name v c) st
     else read_bytes io (resolve_path io (delivery_dir (cfg E)) (object_name v c)) st)"
proof (cases "delivery_s3_bucket (cfg E) = []")
  case True
  have "take 1 (resolve_path io (delivery_dir (cfg E)) (object_name v c)) = ''/''" using assms by (simp add: store_ok_def)
  then have "take 5 (resolve_path io (delivery_dir (cfg E)) (object_name v c)) \<noteq> ''s3://''"
    by (cases "resolve_path io (delivery_dir (cfg E)) (object_name v c)") auto
  then show ?thesis using True by (simp add: location_of_def read_location_def)
next
  case False
  have "\<forall>d \<in> set (delivery_s3_bucket (cfg E)). d \<noteq> CHR ''/''" using assms by (auto simp: store_ok_def)
  then have "takeWhile (\<lambda>d. d \<noteq> CHR ''/'') (delivery_s3_bucket (cfg E) @ ''/deliveries/'' @ object_name v c) = delivery_s3_bucket (cfg E)"
    by (subst takeWhile_append2) auto
  then show ?thesis using False by (simp add: location_of_def read_location_def Let_def)
qed

lemma store_location: "store E io body v c st = (Inr location, st') \<Longrightarrow> location = location_of E io v c"
  by (auto simp: store_def location_of_def object_name_def written_iff Let_def split: if_splits)

lemma store_elsewhere:
  assumes "store E io body v c st = (r, st')" "store_ok E io" "store_keeps E io" "v \<noteq> v'" "0 \<le> v" "0 \<le> v'"
  shows "read_location io (location_of E io v' c') st' = read_location io (location_of E io v' c') st"
proof -
  have n: "object_name v c \<noteq> object_name v' c'" using object_name_inject assms(4-6) by blast
  show ?thesis
  proof (cases "delivery_s3_bucket (cfg E) = []")
    case True
    have "st' = snd (write_bytes io (resolve_path io (delivery_dir (cfg E)) (object_name v c)) body st)"
      using assms(1) True by (simp add: store_def object_name_def written_iff Let_def)
    moreover have "resolve_path io (delivery_dir (cfg E)) (object_name v c) \<noteq> resolve_path io (delivery_dir (cfg E)) (object_name v' c')"
      using n assms(3) by (metis store_keeps_def injD)
    ultimately show ?thesis using True assms(3) unfolding read_location_of [OF assms(2)] by (simp add: store_keeps_def)
  next
    case False
    have "st' = snd (put_object io (delivery_s3_bucket (cfg E)) (''deliveries/'' @ object_name v c) body st)"
      using assms(1) False by (simp add: store_def object_name_def written_iff Let_def)
    then show ?thesis using False n assms(3) unfolding read_location_of [OF assms(2)] by (simp add: store_keeps_def)
  qed
qed

text \<open>The deliveries listed verify.\<close>

definition verifies :: "env \<Rightarrow> 'st storage \<Rightarrow> 'st \<Rightarrow> delivery \<Rightarrow> bool" where
  "verifies E io st d \<longleftrightarrow> (case verify E io d st of None \<Rightarrow> False | Some v \<Rightarrow> vf_match v)"

definition shelf_ok :: "env \<Rightarrow> 'st storage \<Rightarrow> db \<times> 'st \<Rightarrow> bool" where
  "shelf_ok E io \<sigma> \<longleftrightarrow> (\<forall>d \<in> set (deliveries (fst \<sigma>)).
     1 \<le> d_version d \<and> d_location d = location_of E io (d_version d) (d_checksum d) \<and> verifies E io (snd \<sigma>) d)"

lemma next_version_pos: "\<forall>d \<in> set (deliveries s). 1 \<le> d_version d \<Longrightarrow> 1 \<le> next_version s"
proof (cases "deliveries s")
  case (Cons d ds)
  assume "\<forall>d \<in> set (deliveries s). 1 \<le> d_version d"
  then have "1 \<le> d_version d" using Cons by simp
  then show ?thesis using next_version_gt [of d s] Cons by simp
qed (simp add: next_version_def)

lemma stored_elsewhere_verifies:
  assumes "shelf_ok E io \<sigma>" "store E io body (next_version (fst \<sigma>)) c (snd \<sigma>) = (r, st')" "store_ok E io" "store_keeps E io"
    "d \<in> set (deliveries (fst \<sigma>))"
  shows "verifies E io st' d"
proof -
  have v: "1 \<le> d_version d" "d_location d = location_of E io (d_version d) (d_checksum d)" "verifies E io (snd \<sigma>) d"
    using assms(1,5) by (simp_all add: shelf_ok_def)
  have n: "1 \<le> next_version (fst \<sigma>)" by (rule next_version_pos) (use assms(1) in \<open>simp add: shelf_ok_def\<close>)
  have "read_location io (d_location d) st' = read_location io (d_location d) (snd \<sigma>)"
    unfolding v(2)
    by (rule store_elsewhere [OF assms(2-4)]) (use v(1) n next_version_gt [OF assms(5)] in simp_all)
  then show ?thesis using v(3) by (simp add: verifies_def verify_def)
qed

text \<open>Only an export changes the deliveries and the store.\<close>

lemma deliveries_kept:
  "create_expert E p b s = (Inr e, s') \<Longrightarrow> deliveries s' = deliveries s"
  "set_status E p eid status s = (Inr e, s') \<Longrightarrow> deliveries s' = deliveries s"
  "claim_next E eid locked s = (Inr t, s') \<Longrightarrow> deliveries s' = deliveries s"
  "reclaim_expired E s = (n, s') \<Longrightarrow> deliveries s' = deliveries s"
  "claim_by_id E eid tid locked s = (Inr t', s') \<Longrightarrow> deliveries s' = deliveries s"
  "release eid tid s = (Inr t', s') \<Longrightarrow> deliveries s' = deliveries s"
  "submit E eid tid scores rationale time_spent rubric_id s = (Inr g, s') \<Longrightarrow> deliveries s' = deliveries s"
  "review_grade E key gid d reason actor s = (Inr (rv, po), s') \<Longrightarrow> deliveries s' = deliveries s"
  "resolve E tid dg why key actor s = (Inr r, s') \<Longrightarrow> deliveries s' = deliveries s"
  "create_rubric E p rb s = (Inr ru, s') \<Longrightarrow> deliveries s' = deliveries s"
  "publish E previous cs actor s = (Inr (ru, migrated, left), s') \<Longrightarrow> deliveries s' = deliveries s"
  "put_rate_cards p cards s = (Inr u, s') \<Longrightarrow> deliveries s' = deliveries s"
  "close_period E label actor s = (Inr period, s') \<Longrightarrow> deliveries s' = deliveries s"
  "issue_key E role expert_id label token s = (Inr (k, raw), s') \<Longrightarrow> deliveries s' = deliveries s"
  "revoke_key E p kid s = (Inr u, s') \<Longrightarrow> deliveries s' = deliveries s"
  "bootstrap E rk s = (Inr raw, s') \<Longrightarrow> deliveries s' = deliveries s"
proof -
  show "create_expert E p b s = (Inr e, s') \<Longrightarrow> deliveries s' = deliveries s"
    by (auto simp: create_expert_def new_uuid_def insert_expert_def result_simps Let_def)
  show "set_status E p eid status s = (Inr e, s') \<Longrightarrow> deliveries s' = deliveries s"
    by (auto simp: set_status_def release_withheld_def Let_def split: option.splits)
  show "claim_next E eid locked s = (Inr t, s') \<Longrightarrow> deliveries s' = deliveries s"
    by (erule claim_next_cases) (simp_all add: core_eq_iff swept_def)
  show "reclaim_expired E s = (n, s') \<Longrightarrow> deliveries s' = deliveries s"
    by (drule reclaim_expired_core(1)) (simp add: core_eq_iff swept_def)
  show "claim_by_id E eid tid locked s = (Inr t', s') \<Longrightarrow> deliveries s' = deliveries s"
    by (erule claim_by_id_cases) (simp_all add: core_eq_iff swept_def)
  show "release eid tid s = (Inr t', s') \<Longrightarrow> deliveries s' = deliveries s"
    by (erule release_cases) (simp add: core_eq_iff)
  show "submit E eid tid scores rationale time_spent rubric_id s = (Inr g, s') \<Longrightarrow> deliveries s' = deliveries s"
    by (drule submit_frame(1)) (simp add: core_eq_iff)
  show "review_grade E key gid d reason actor s = (Inr (rv, po), s') \<Longrightarrow> deliveries s' = deliveries s"
    by (drule review_frame(1)) (simp add: core_eq_iff)
  show "resolve E tid dg why key actor s = (Inr r, s') \<Longrightarrow> deliveries s' = deliveries s"
    by (erule resolve_cases) (auto simp: core_eq_iff settles_def dest!: settle_grades_settles)
  show "create_rubric E p rb s = (Inr ru, s') \<Longrightarrow> deliveries s' = deliveries s"
    by (auto simp: create_rubric_def new_uuid_def new_uuids_def insert_rubric_def result_simps Let_def)
  show "publish E previous cs actor s = (Inr (ru, migrated, left), s') \<Longrightarrow> deliveries s' = deliveries s"
    by (erule publish_cases) (simp add: core_eq_iff)
  show "put_rate_cards p cards s = (Inr u, s') \<Longrightarrow> deliveries s' = deliveries s"
    using merge_rate_cards_core [where cards = cards and s = s] by (auto simp: put_rate_cards_def core_eq_iff)
  show "close_period E label actor s = (Inr period, s') \<Longrightarrow> deliveries s' = deliveries s"
    by (erule close_period_cases) (simp add: core_eq_iff)
  show "issue_key E role expert_id label token s = (Inr (k, raw), s') \<Longrightarrow> deliveries s' = deliveries s"
    by (erule issue_key_cases) (simp add: core_eq_iff)
  show "revoke_key E p kid s = (Inr u, s') \<Longrightarrow> deliveries s' = deliveries s"
    by (erule revoke_key_cases) (simp_all add: core_eq_iff)
  show "bootstrap E rk s = (Inr raw, s') \<Longrightarrow> deliveries s' = deliveries s"
    by (auto simp: bootstrap_def new_uuid_def insert_api_key_def result_simps Let_def split: if_splits)
qed

lemma insert_tasks_deliveries: "insert_tasks E bs s = (Inr ids, s') \<Longrightarrow> deliveries s' = deliveries s"
proof (induction bs arbitrary: s ids)
  case (Cons b bs)
  from Cons.prems show ?case by (cases rule: insert_tasks_ConsE) (auto dest: Cons.IH)
qed simp

lemma refresh_experts_deliveries: "refresh_experts E actor es acc s = (Inr r, s') \<Longrightarrow> deliveries s' = deliveries s"
proof (induction es arbitrary: acc s)
  case (Cons e es)
  obtain moves uncal where "acc = (moves, uncal)" by fastforce
  then obtain change s1 acc1 where step: "update E (e_id e) actor s = (Inr change, s1)"
    and rest: "refresh_experts E actor es acc1 s1 = (Inr r, s')"
    using Cons.prems by (auto simp: result_simps simp del: split_paired_Ex)
  show ?case using Cons.IH [OF rest] update_frame(1) [OF step] by (simp add: core_eq_iff)
qed simp

lemma tick_deliveries: "tick E actor s = (Inr report, s') \<Longrightarrow> deliveries s' = deliveries s"
  by (erule tick_cases) (auto simp: core_eq_iff swept_def dest!: refresh_experts_deliveries reclaim_expired_core(1))

lemma effect_deliveries:
  assumes "effect E io \<sigma> \<sigma>'"
  shows "(deliveries (fst \<sigma>') = deliveries (fst \<sigma>) \<and> snd \<sigma>' = snd \<sigma>) \<or>
    (\<exists>actor d. export E io actor \<sigma> = (Inr d, \<sigma>'))"
  using assms
proof (induction rule: effect.induct)
  case (expert_key_created p eid token s kr s' st)
  then show ?case using deliveries_kept(14) by (cases kr) (auto simp: create_expert_key_def result_simps split: option.splits)
next
  case (tasks_created bs p s ids s' st)
  then show ?case using insert_tasks_deliveries by (auto simp: create_tasks_def result_simps split: option.splits if_splits)
next
  case (reviewed key gid d reason actor s rp s' st)
  then show ?case using deliveries_kept(8) by (cases rp) auto
next
  case (version_published rid s previous cs actor rml s' st)
  then show ?case using deliveries_kept(11) by (cases rml) auto
next
  case (key_created p r expert_id label token s kr s' st)
  then show ?case using deliveries_kept(14) by (cases kr) (auto simp: create_key_def result_simps)
qed (auto dest: deliveries_kept tick_deliveries)

lemma happens_shelf_ok:
  assumes "happens E io \<sigma> \<sigma>'" "shelf_ok E io \<sigma>" "store_ok E io" "store_keeps E io" "plain_floats E"
  shows "shelf_ok E io \<sigma>'"
  using assms(1)
proof (cases rule: happens_cases)
  case (commits now)
  let ?b = "begun now \<sigma>"
  have b: "shelf_ok E io ?b" using assms(2) by (simp add: shelf_ok_def begun_def)
  show ?thesis
    using effect_deliveries [OF commits]
  proof (elim disjE exE)
    fix actor d assume ex: "export E io actor ?b = (Inr d, \<sigma>')"
    obtain s st s' st' where st: "?b = (s, st)" "\<sigma>' = (s', st')" by (metis surj_pair)
    obtain body n where x: "build_jsonl E s = Some (body, n)" "d_row_count d = n" "d_size_bytes d = int (length body)"
      "d_checksum d = hexdigest (sha256 E body)" "d_version d = next_version s"
      "store E io body (d_version d) (d_checksum d) st = (Inr (d_location d), st')"
      "deliveries s' = deliveries s @ [d]"
      using ex unfolding st by (auto elim!: export_cases simp: core_eq_iff)
    have "verify E io d st' \<noteq> None \<and> vf_match (the (verify E io d st'))"
      using build_jsonl_rows(1) [OF assms(5) x(1)] read_stored [OF assms(3) x(6)] x(2-4) by (simp add: verify_def Let_def)
    then have "verifies E io st' d" by (auto simp: verifies_def)
    moreover have "1 \<le> d_version d"
      unfolding x(5) by (rule next_version_pos) (use b in \<open>simp add: shelf_ok_def st\<close>)
    moreover have "verifies E io st' old" if "old \<in> set (deliveries s)" for old
      by (rule stored_elsewhere_verifies [OF b _ assms(3,4)]) (use x(5,6) that in \<open>simp_all add: st\<close>)
    ultimately show ?thesis using b store_location [OF x(6)] by (auto simp: shelf_ok_def st x(7))
  qed (use b in \<open>simp add: shelf_ok_def\<close>)
next
  case aborts
  have same: "deliveries (fst \<sigma>') = deliveries (fst \<sigma>)" using aborts(1) by (simp add: unchanged_def core_eq_iff)
  show ?thesis
    using aborts(2) unfolding stray_def
  proof (elim disjE exE)
    fix body checksum r
    assume w: "store E io body (next_version (fst \<sigma>)) checksum (snd \<sigma>) = (r, snd \<sigma>')"
    show ?thesis
      using assms(2) stored_elsewhere_verifies [OF assms(2) w assms(3,4)] by (simp add: shelf_ok_def same)
  qed (use assms(2) in \<open>simp add: shelf_ok_def same\<close>)
qed

section \<open>Properties of the service\<close>

text \<open>What a delivery holds does not depend on when its transaction began.\<close>

lemma delivery_row_begun: "delivery_row g t c (s\<lparr>tx_now := now\<rparr>) = delivery_row g t c s"
proof -
  have "get_criterion k (s\<lparr>tx_now := now\<rparr>) = get_criterion k s" for k by (simp add: get_criterion_def)
  then have "scores_json g (s\<lparr>tx_now := now\<rparr>) = scores_json g s" by (simp only: scores_json_def)
  moreover have "get_rubric k (s\<lparr>tx_now := now\<rparr>) = get_rubric k s" "get_expert k (s\<lparr>tx_now := now\<rparr>) = get_expert k s" for k by simp_all
  ultimately show ?thesis by (simp only: delivery_row_def)
qed

lemma delivered_grades_begun: "delivered_grades (s\<lparr>tx_now := now\<rparr>) = delivered_grades s"
proof -
  have "get_consensus k (s\<lparr>tx_now := now\<rparr>) = get_consensus k s" "tasks (s\<lparr>tx_now := now\<rparr>) = tasks s"
      "grades (s\<lparr>tx_now := now\<rparr>) = grades s" "reviews (s\<lparr>tx_now := now\<rparr>) = reviews s" for k by simp_all
  then show ?thesis by (simp only: delivered_grades_def)
qed

lemma build_jsonl_begun: "build_jsonl E (s\<lparr>tx_now := now\<rparr>) = build_jsonl E s" "next_version (s\<lparr>tx_now := now\<rparr>) = next_version s"
  by (simp_all add: build_jsonl_def delivery_rows_def delivered_grades_begun delivery_row_begun next_version_def)

lemma export_served:
  assumes "reachable E io st0 (s, st)" "holds_key E raw k s" "''deliveries:write'' \<in> set (scopes_of (k_role k))"
    "uuid4 E (uuid_pos s) \<notin> d_id ` set (deliveries s)"
  shows "\<exists>body n. build_jsonl E s = Some (body, n) \<and>
    (case store E io body (next_version s) (hexdigest (sha256 E body)) st of
       (Inr location, st') \<Rightarrow> \<exists>d s'. serve E io m ExportDelivery raw (s, st) = (Inr (DeliveryOut d), (s', st')) \<and>
          deliveries s' = deliveries s @ [d] \<and> d_location d = location
     | (Inl e, st') \<Rightarrow> \<exists>s'. serve E io m ExportDelivery raw (s, st) = (Inl e, (s', st')) \<and> http_status e = 500 \<and> unchanged s s')"
proof -
  let ?s = "s\<lparr>tx_now := m_now m\<rparr>"
  have refs: "\<forall>g \<in> set (grades ?s). grade_refs_ok ?s g"
    using reachable_tables_ok [OF assms(1)] tables_ok_begun [where s = s and now = "m_now m"] by (simp add: tables_ok_def refs_ok_def)
  have new: "uuid4 E (uuid_pos ?s) \<notin> d_id ` set (deliveries ?s)" using assms(4) by simp
  obtain body n where b: "build_jsonl E s = Some (body, n)"
    and run: "case store E io body (next_version s) (hexdigest (sha256 E body)) st of
       (Inr location, st') \<Rightarrow> \<exists>d s'. export E io (actor_of (as_principal k)) (?s, st) = (Inr d, (s', st')) \<and> d_location d = location
     | (Inl e, st') \<Rightarrow> export E io (actor_of (as_principal k)) (?s, st) = (Inl e, (?s, st'))"
    using export_run [OF refs new, where io = io and st = st and actor = "actor_of (as_principal k)"]
    unfolding build_jsonl_begun by (elim exE conjE) (rule that)
  have "holds_key E raw k ?s" using assms(2) by (simp add: holds_key_def)
  then have key: "require_scopes E [''deliveries:write''] raw ?s = (Inr (as_principal k), ?s)"
    unfolding require_scopes_returns using assms(3) by auto
  obtain r st' where r: "store E io body (next_version s) (hexdigest (sha256 E body)) st = (r, st')" by fastforce
  show ?thesis
  proof (cases r)
    case (Inl e)
    then have "export E io (actor_of (as_principal k)) (?s, st) = (Inl e, (?s, st'))" using run r by simp
    then have "serve E io m ExportDelivery raw (s, st) = (Inl e, (rolled_back s ?s, st'))"
      using key by (simp add: serve_def perform_def)
    moreover have "e = StorageError ''write''"
      using r Inl by (auto simp: store_def written_iff Let_def split: if_splits)
    ultimately show ?thesis using b r Inl unchanged_rolled_back by (intro exI conjI) auto
  next
    case (Inr location)
    then obtain d s' where ex: "export E io (actor_of (as_principal k)) (?s, st) = (Inr d, (s', st'))" "d_location d = location"
      using run r by auto
    then have "deliveries s' = deliveries s @ [d]" by (auto elim!: export_cases simp: core_eq_iff)
    moreover have "serve E io m ExportDelivery raw (s, st) = (Inr (DeliveryOut d), (s', st'))"
      using ex(1) key by (simp add: serve_def perform_def)
    ultimately show ?thesis using b r Inr ex(2) by auto
  qed
qed

text \<open>A service that has just been given its first key, and the moment a request comes in.\<close>

definition sample_live :: db where
  "sample_live = transact (bootstrap sample_env (Some ''pk'')) 5 empty_db"

definition sample_moment :: moment where
  "sample_moment = \<lparr>m_now = 9, m_locked = [], m_token = ''abc''\<rparr>"

lemma sample_live_key:
  "api_keys sample_live = [\<lparr>k_id = 1000, k_key_hash = hash_key sample_env ''pk'', k_role = AdminRole, k_expert_id = None,
     k_label = ''bootstrap'', k_created_at = 5, k_revoked_at = None\<rparr>]"
  by (simp add: sample_live_def transact_def bootstrap_def new_uuid_def insert_api_key_def insert_if_def sample_settings
      empty_db_def Let_def)

lemma sample_live_tables: "grades sample_live = []" "deliveries sample_live = []" "tasks sample_live = []" "uuid_pos sample_live = 1"
  by (simp_all add: sample_live_def transact_def bootstrap_def new_uuid_def insert_api_key_def insert_if_def sample_settings
      empty_db_def Let_def)

lemma sample_live_reachable: "reachable sample_env io st (sample_live, st)"
  unfolding sample_live_def by (rule reachable.event [OF reachable.start happens.first_key])

lemma sample_store_done: "\<exists>location st'. store sample_env sample_storage body v c st = (Inr location, st')"
  by (simp add: store_def sample_storage_def written_def Let_def)

lemma stored_case:
  assumes "\<And>body v c st. \<exists>location st'. store E io body v c st = (Inr location, st')"
    "\<exists>body n. P body n \<and> (case store E io body v (c body) st of (Inr location, st') \<Rightarrow> Q location st' | (Inl e, st') \<Rightarrow> R e st')"
  obtains location st' where "Q location st'"
  using assms(2) assms(1) [of _ v _ st] by (metis (no_types, lifting) prod.case sum.case(2))

lemma refused_case:
  assumes "\<And>body v c st. \<exists>e st'. store E io body v c st = (Inl e, st')"
    "\<exists>body n. P body n \<and> (case store E io body v (c body) st of (Inr location, st') \<Rightarrow> Q location st' | (Inl e, st') \<Rightarrow> R e st')"
  obtains e st' where "R e st'"
  using assms(2) assms(1) [of _ v _ st] by (metis (no_types, lifting) prod.case sum.case(1))

lemma sample_live_admin: "\<exists>k. holds_key sample_env (Some ''pk'') k sample_live \<and> k_role k = AdminRole"
  by (auto simp: holds_key_def sample_live_key)

lemma sample_storage_keeps: "store_keeps sample_env sample_storage"
  by (auto simp: store_keeps_def sample_storage_def intro: injI)

text \<open>
  C3: the tables are in order in every state the service can reach: keys are unique, among them one grade
  per task and expert, one review per grade, one round per task and one payout per grade; what rows refer
  to exists; a payout is paid exactly when it is in a period; and the audit trail is numbered upwards.
\<close>
theorem reachable_tables_in_order:
  assumes "reachable E io st0 (s, st)"
  shows "tables_ok s \<and> trail_ok s"
  using reachable_tables_ok [OF assms] trail.always [OF assms] by simp

theorem reachable_tables_in_order_witness: "tables_ok sample_live \<and> trail_ok sample_live"
  by (rule reachable_tables_in_order [OF sample_live_reachable [of sample_storage "\<lambda>_. None"]])

text \<open>
  C4: history is append-only. Along any events from a reachable state, grades, reviews, attention results,
  tier changes, periods, deliveries and audit events are only added at the end; no task, expert, rubric
  content, round, key or payout is removed and no payout's amount changes; and neither a payout once paid
  nor a key once revoked is altered again.
\<close>
theorem history_append_only:
  assumes "reachable E io st0 \<sigma>" "(happens E io)\<^sup>*\<^sup>* \<sigma> \<sigma>'"
  shows "evolves (fst \<sigma>) (fst \<sigma>')"
  using events_evolve [OF assms(2) reachable_tables_ok [OF assms(1)]] by (rule conjunct1)

theorem history_append_only_witness: "evolves empty_db sample_live"
proof -
  have "(happens sample_env sample_storage)\<^sup>*\<^sup>* (empty_db, \<lambda>_. None) (sample_live, \<lambda>_. None)"
    unfolding sample_live_def by (rule r_into_rtranclp) (rule happens.first_key)
  from history_append_only [OF reachable.start this] show ?thesis by simp
qed

text \<open>
  C6: a delivery that is listed verifies, now and after whatever the service has done since: reading its
  location finds the checksum, the rows and the size recorded. Assumed of the store: what is written under
  a name is read back under it, and writing under one name leaves every other alone.
\<close>
theorem deliveries_stay_verifiable:
  assumes "reachable E io st0 (s, st)" "store_ok E io" "store_keeps E io" "plain_floats E" "d \<in> set (deliveries s)"
  shows "\<exists>v. verify E io d st = Some v \<and> vf_match v"
proof -
  have "kept E io st0 (shelf_ok E io)"
    by unfold_locales (simp add: shelf_ok_def empty_db_def, rule happens_shelf_ok [OF _ _ assms(2-4)])
  then have "shelf_ok E io (s, st)" using assms(1) by (rule kept.always)
  then have "verifies E io st d" using assms(5) by (simp add: shelf_ok_def)
  then show ?thesis by (auto simp: verifies_def split: option.splits)
qed

theorem deliveries_stay_verifiable_witness:
  "\<exists>d s st. d \<in> set (deliveries s) \<and> reachable sample_env sample_storage (\<lambda>_. None) (s, st) \<and>
     (\<exists>v. verify sample_env sample_storage d st = Some v \<and> vf_match v)"
proof -
  obtain k where k: "holds_key sample_env (Some ''pk'') k sample_live" "k_role k = AdminRole" using sample_live_admin by blast
  have scope: "''deliveries:write'' \<in> set (scopes_of (k_role k))" by (simp add: k(2))
  have new: "uuid4 sample_env (uuid_pos sample_live) \<notin> d_id ` set (deliveries sample_live)" by (simp add: sample_live_tables)
  obtain d s st where run: "serve sample_env sample_storage sample_moment ExportDelivery (Some ''pk'') (sample_live, \<lambda>_. None) =
      (Inr (DeliveryOut d), (s, st))" and d: "deliveries s = deliveries sample_live @ [d]"
    by (rule stored_case [OF sample_store_done export_served [OF sample_live_reachable k(1) scope new]])
      (elim exE conjE, rule that)
  have r: "reachable sample_env sample_storage (\<lambda>_. None) (s, st)"
    by (rule reachable.event [OF sample_live_reachable happens.request [OF run]])
  have "d \<in> set (deliveries s)" using d by simp
  from deliveries_stay_verifiable [OF r sample_storage_ok sample_storage_keeps sample_plain_floats this] r this
  show ?thesis by blast
qed

text \<open>
  C27: what a request for a delivery comes to in every state the service can reach, when a key with the scope for
  deliveries is held and the drawn identifier is not taken. The dataset can be built; if the store takes it, the request
  answers with the delivery it recorded, at the location the store gave; if the write to the store fails, in S3 or on the
  disk, the request is answered with 500 and no delivery, and nothing else, is recorded.
\<close>
theorem export_is_served:
  assumes "reachable E io st0 (s, st)" "holds_key E raw k s" "''deliveries:write'' \<in> set (scopes_of (k_role k))"
    "uuid4 E (uuid_pos s) \<notin> d_id ` set (deliveries s)"
  shows "\<exists>body n. build_jsonl E s = Some (body, n) \<and>
    (case store E io body (next_version s) (hexdigest (sha256 E body)) st of
       (Inr location, st') \<Rightarrow> \<exists>d s'. serve E io m ExportDelivery raw (s, st) = (Inr (DeliveryOut d), (s', st')) \<and>
          deliveries s' = deliveries s @ [d] \<and> d_location d = location
     | (Inl e, st') \<Rightarrow> \<exists>s'. serve E io m ExportDelivery raw (s, st) = (Inl e, (s', st')) \<and> http_status e = 500 \<and> unchanged s s')"
  by (rule export_served [OF assms])

text \<open>A disk that is full.\<close>

definition full_storage :: "(string \<Rightarrow> string option) storage" where
  "full_storage = sample_storage\<lparr>put_object := (\<lambda>b k x st. (False, st)), write_bytes := (\<lambda>p x st. (False, st))\<rparr>"

theorem export_is_served_witness:
  "(\<exists>d s' st'. serve sample_env sample_storage sample_moment ExportDelivery (Some ''pk'') (sample_live, \<lambda>_. None) =
     (Inr (DeliveryOut d), (s', st')) \<and> deliveries s' = [d]) \<and>
   (\<exists>e s' st'. serve sample_env full_storage sample_moment ExportDelivery (Some ''pk'') (sample_live, \<lambda>_. None) =
     (Inl e, (s', st')) \<and> http_status e = 500 \<and> unchanged sample_live s')"
proof -
  obtain k where k: "holds_key sample_env (Some ''pk'') k sample_live" "k_role k = AdminRole" using sample_live_admin by blast
  have scope: "''deliveries:write'' \<in> set (scopes_of (k_role k))" by (simp add: k(2))
  have new: "uuid4 sample_env (uuid_pos sample_live) \<notin> d_id ` set (deliveries sample_live)" by (simp add: sample_live_tables)
  have full: "\<exists>e st'. store sample_env full_storage body v c st = (Inl e, st')" for body v c st
    by (simp add: store_def full_storage_def written_def Let_def)
  show ?thesis
  proof (intro conjI)
    show "\<exists>d s' st'. serve sample_env sample_storage sample_moment ExportDelivery (Some ''pk'') (sample_live, \<lambda>_. None) =
        (Inr (DeliveryOut d), (s', st')) \<and> deliveries s' = [d]"
      by (rule stored_case [OF sample_store_done export_is_served [OF sample_live_reachable k(1) scope new]])
        (unfold sample_live_tables append_Nil, blast)
    show "\<exists>e s' st'. serve sample_env full_storage sample_moment ExportDelivery (Some ''pk'') (sample_live, \<lambda>_. None) =
        (Inl e, (s', st')) \<and> http_status e = 500 \<and> unchanged sample_live s'"
      by (rule refused_case [OF full export_is_served [OF sample_live_reachable k(1) scope new]]) blast
  qed
qed

end
