(* ===== verification/Workflow.thy ===== *)
theory Workflow
  imports Reachable
begin

text \<open>
  The life of a task. \<open>life\<close> says, for each kind of task, which status goes with which grades, reviews and
  consensus round; \<open>next_statuses\<close> is the workflow a task moves along. Every operation keeps the first and
  follows the second, so every reachable state and every event does.
\<close>

section \<open>The life of a task\<close>

definition task_grades :: "uuid \<Rightarrow> db \<Rightarrow> grade list" where
  "task_grades tid s = filter (\<lambda>g. g_task_id g = tid) (grades s)"

text \<open>The decisions on the grades of a task, in the order the grades came in, and the status of its round.\<close>

definition verdicts :: "uuid \<Rightarrow> db \<Rightarrow> review_decision option list" where
  "verdicts tid s = map (\<lambda>g. decided (g_id g) s) (task_grades tid s)"

definition round_status :: "uuid \<Rightarrow> db \<Rightarrow> consensus_status option" where
  "round_status tid s = map_option co_status (get_consensus tid s)"

definition standing :: "review_decision option list \<Rightarrow> review_decision option list" where
  "standing vs = filter (\<lambda>v. v \<noteq> Some Reject) vs"

text \<open>
  A golden task is only ever queued or assigned, without a round. A task for one grader is queued or
  assigned while every grade of it was rejected, submitted while one grade waits for its review, approved
  once that grade is. A task for several graders collects its grades unreviewed; with the last one a round
  opens, it awaits adjudication exactly while the round does, and it is approved exactly when a grade is.
\<close>

definition solo_life :: "task \<Rightarrow> review_decision option list \<Rightarrow> bool" where
  "solo_life t vs \<longleftrightarrow>
     t_status t \<in> {Queued, Assigned} \<and> t_grades_received t = 0 \<and> standing vs = [] \<or>
     t_status t = Submitted \<and> t_grades_received t = 1 \<and> standing vs = [None] \<or>
     t_status t = Approved \<and> t_grades_received t = 1 \<and> standing vs = [Some Approve]"

definition panel_life :: "task \<Rightarrow> review_decision option list \<Rightarrow> consensus_status option \<Rightarrow> bool" where
  "panel_life t vs r \<longleftrightarrow> t_grades_received t = int (length vs) \<and>
     (if t_status t \<in> {Queued, Assigned}
      then t_grades_received t < t_required_grades t \<and> r = None \<and> set vs \<subseteq> {None}
      else t_grades_received t = t_required_grades t \<and> r \<noteq> None \<and>
        (t_status t = Adjudication \<longleftrightarrow> r = Some Adjudicating) \<and>
        (t_status t = Adjudication \<longrightarrow> set vs \<subseteq> {None}) \<and>
        (t_status t = Approved \<longleftrightarrow> Some Approve \<in> set vs))"

definition life :: "task \<Rightarrow> review_decision option list \<Rightarrow> consensus_status option \<Rightarrow> bool" where
  "life t vs r \<longleftrightarrow> lease_ok t \<and> 1 \<le> t_required_grades t \<and> 0 \<le> t_grades_received t \<and>
     (if t_is_attention_check t then t_status t \<in> {Queued, Assigned} \<and> r = None
      else if t_required_grades t = 1 then r = None \<and> solo_life t vs
      else panel_life t vs r)"

definition alive :: "db \<Rightarrow> bool" where
  "alive s \<longleftrightarrow> (\<forall>t \<in> set (tasks s). life t (verdicts (t_id t) s) (round_status (t_id t) s))"

section \<open>The workflow\<close>

fun next_statuses :: "task_status \<Rightarrow> task_status set" where
  "next_statuses Queued = {Queued, Assigned}"
| "next_statuses Assigned = {Assigned, Queued, Submitted, Adjudication}"
| "next_statuses Submitted = {Submitted, Queued, Approved, Rejected}"
| "next_statuses Adjudication = {Adjudication, Approved}"
| "next_statuses Rejected = {Rejected, Approved}"
| "next_statuses Approved = {Approved}"

definition follows :: "task \<Rightarrow> task \<Rightarrow> bool" where
  "follows t t' \<longleftrightarrow> t_id t' = t_id t \<and> t_status t' \<in> next_statuses (t_status t) \<and>
     t_required_grades t' = t_required_grades t \<and> t_is_attention_check t' = t_is_attention_check t"

definition advances :: "db \<Rightarrow> db \<Rightarrow> bool" where
  "advances s s' \<longleftrightarrow> (\<forall>t \<in> set (tasks s). \<exists>t' \<in> set (tasks s'). follows t t')"

definition flow :: "db \<Rightarrow> db \<Rightarrow> bool" where
  "flow s s' \<longleftrightarrow> alive s' \<and> advances s s'"

lemma next_status_refl [simp]: "x \<in> next_statuses x"
  by (cases x) simp_all

lemma follows_refl [simp]: "follows t t"
  by (simp add: follows_def)

lemma advancesI:
  assumes "\<And>t. t \<in> set (tasks s) \<Longrightarrow> f t \<in> set (tasks s') \<and> follows t (f t)"
  shows "advances s s'"
  unfolding advances_def
proof
  fix t assume "t \<in> set (tasks s)"
  then have "f t \<in> set (tasks s')" "follows t (f t)" using assms by simp_all
  then show "\<exists>t' \<in> set (tasks s'). follows t t'" by (rule bexI [rotated])
qed

lemma advances_refl [simp]: "advances s s"
  by (rule advancesI [where f = id]) simp

section \<open>What a task's life depends on\<close>

definition rounds :: "db \<Rightarrow> (uuid \<times> consensus_status) list" where
  "rounds s = map (\<lambda>c. (co_task_id c, co_status c)) (consensuses s)"

lemma round_status_rounds: "round_status tid s = map_of (rounds s) tid"
proof -
  have "map_option co_status (row_of co_task_id tid cs) = map_of (map (\<lambda>c. (co_task_id c, co_status c)) cs) tid" for cs
    by (induction cs) (auto simp: row_of_def)
  then show ?thesis by (simp add: round_status_def rounds_def)
qed

lemma verdicts_cong: "grades s' = grades s \<Longrightarrow> reviews s' = reviews s \<Longrightarrow> verdicts tid s' = verdicts tid s"
  by (simp add: verdicts_def task_grades_def decided_def)

text \<open>Edits of tasks alone.\<close>

lemma flow_tasks:
  assumes "alive s" "grades s' = grades s" "reviews s' = reviews s" "rounds s' = rounds s"
    "tasks s' = map f (tasks s)"
    "\<And>t vs r. t \<in> set (tasks s) \<Longrightarrow> life t vs r \<Longrightarrow> life (f t) vs r \<and> follows t (f t)"
  shows "flow s s'"
proof -
  have v: "verdicts tid s' = verdicts tid s" "round_status tid s' = round_status tid s" for tid
    by (rule verdicts_cong [OF assms(2,3)]) (simp add: round_status_rounds assms(4))
  have step: "life (f t) (verdicts (t_id t) s) (round_status (t_id t) s) \<and> follows t (f t)" if "t \<in> set (tasks s)" for t
    by (rule assms(6) [OF that]) (use assms(1) that in \<open>simp add: alive_def\<close>)
  have "advances s s'"
  proof (rule advancesI)
    fix t assume t: "t \<in> set (tasks s)"
    then show "f t \<in> set (tasks s') \<and> follows t (f t)" unfolding assms(5) set_map by (intro conjI imageI conjunct2 [OF step])
  qed
  moreover have "alive s'"
    unfolding alive_def assms(5) v
  proof
    fix t' assume "t' \<in> set (map f (tasks s))"
    then obtain t where t: "t \<in> set (tasks s)" "t' = f t" by auto
    have "t_id t' = t_id t" using step [OF t(1)] by (simp add: t(2) follows_def)
    then show "life t' (verdicts (t_id t') s) (round_status (t_id t') s)" using step [OF t(1)] by (simp add: t(2))
  qed
  ultimately show ?thesis by (simp add: flow_def)
qed

lemma flow_same:
  assumes "alive s" "tasks s' = tasks s" "grades s' = grades s" "reviews s' = reviews s" "rounds s' = rounds s"
  shows "flow s s'"
  by (rule flow_tasks [OF assms(1,3-5), where f = id]) (simp_all add: assms(2))

lemma life_status:
  assumes "life t vs r" "t_status t \<in> {Queued, Assigned}" "t_status t' \<in> {Queued, Assigned}" "lease_ok t'"
    "t_required_grades t' = t_required_grades t" "t_grades_received t' = t_grades_received t"
    "t_is_attention_check t' = t_is_attention_check t"
  shows "life t' vs r"
  using assms by (auto simp: life_def solo_life_def panel_life_def)

section \<open>The queue\<close>

lemma task_unique:
  assumes "distinct (map t_id (tasks s))" "t \<in> set (tasks s)" "u \<in> set (tasks s)" "t_id u = t_id t"
  shows "u = t"
  using assms by (metis distinct_map inj_onD)

lemma tables_okD: "tables_ok s \<Longrightarrow> distinct (map t_id (tasks s))" "tables_ok s \<Longrightarrow> distinct (map g_id (grades s))"
  "tables_ok s \<Longrightarrow> distinct (map rv_grade_id (reviews s))" "tables_ok s \<Longrightarrow> distinct (map co_task_id (consensuses s))"
  by (simp_all add: tables_ok_def keys_ok_def)

lemma life_unassigned: "life t vs r \<Longrightarrow> t_status t = Assigned \<Longrightarrow> life (unassigned t) vs r \<and> follows t (unassigned t)"
  using life_status [of t vs r "unassigned t"] by (simp add: follows_def)

lemma life_reclaimed: "life t vs r \<Longrightarrow> t_status t = Assigned \<Longrightarrow> life (reclaimed t) vs r \<and> follows t (reclaimed t)"
  using life_status [of t vs r "reclaimed t"] by (simp add: follows_def)

lemma life_leased: "life t vs r \<Longrightarrow> t_status t \<in> {Queued, Assigned} \<Longrightarrow> life (leased E eid now t) vs r \<and> follows t (leased E eid now t)"
  using life_status [of t vs r "leased E eid now t"] by (auto simp: follows_def)

text \<open>The sweep, task by task.\<close>

definition sweep_task :: "time \<Rightarrow> task \<Rightarrow> task" where
  "sweep_task now t = (if lease_expired now t then reclaimed t else t)"

lemma sweep_task_id [simp]: "t_id (sweep_task now t) = t_id t"
  by (simp add: sweep_task_def)

lemma tasks_swept: "tasks (swept E s) = map (sweep_task (clock E (clock_pos s))) (tasks s)"
  by (simp add: swept_def update_where_def sweep_task_def)

lemma life_sweep_task: "life t vs r \<Longrightarrow> life (sweep_task now t) vs r \<and> follows t (sweep_task now t)"
  using life_reclaimed by (simp add: sweep_task_def lease_expired_def)

lemma sweep_task_queued: "t_status (sweep_task now t) = Queued \<Longrightarrow> t_status t \<in> {Queued, Assigned}"
  by (auto simp: sweep_task_def lease_expired_def split: if_splits)

lemma sweep_task_kind [simp]: "t_required_grades (sweep_task now t) = t_required_grades t"
  "t_is_attention_check (sweep_task now t) = t_is_attention_check t"
  by (simp_all add: sweep_task_def)

lemma core_flow_fields:
  assumes "core s' = core u"
  shows "tasks s' = tasks u" "grades s' = grades u" "reviews s' = reviews u" "rounds s' = rounds u"
  using assms by (simp_all add: core_eq_iff rounds_def)

lemma swept_flow:
  assumes "alive s" "core s' = core (swept E s)"
  shows "flow s s'"
proof (rule flow_tasks [OF assms(1), where f = "sweep_task (clock E (clock_pos s))"])
  note c = core_flow_fields [OF assms(2)]
  show "grades s' = grades s" "reviews s' = reviews s" "rounds s' = rounds s"
    unfolding c(2-4) by (simp_all add: swept_def rounds_def)
  show "tasks s' = map (sweep_task (clock E (clock_pos s))) (tasks s)" unfolding c(1) by (rule tasks_swept)
qed (rule life_sweep_task)

text \<open>A claim: the sweep, then the lease of a task that is queued after it.\<close>

lemma served_flow:
  assumes "alive s" "t \<in> set (tasks (swept E s))" "t_status t = Queued" "distinct (map t_id (tasks s))"
    "core s' = core (modify_expert eid h (modify_task (t_id t) (leased E eid now) (swept E s)))"
  shows "flow s s'"
proof -
  let ?sweep = "sweep_task (clock E (clock_pos s))"
  let ?f = "\<lambda>u. if t_id u = t_id t then leased E eid now (?sweep u) else ?sweep u"
  note c = core_flow_fields [OF assms(5)]
  show ?thesis
  proof (rule flow_tasks [OF assms(1), where f = ?f])
    show "grades s' = grades s" "reviews s' = reviews s" "rounds s' = rounds s"
      unfolding c(2-4) by (simp_all add: swept_def rounds_def)
    show "tasks s' = map ?f (tasks s)" unfolding c(1) by (simp add: tasks_swept update_row_def)
    fix u vs r assume u: "u \<in> set (tasks s)" "life u vs r"
    show "life (?f u) vs r \<and> follows u (?f u)"
    proof (cases "t_id u = t_id t")
      case True
      obtain w where w: "w \<in> set (tasks s)" "t = ?sweep w" using assms(2) by (auto simp: tasks_swept)
      have "u = w" by (rule task_unique [OF assms(4) w(1) u(1)]) (simp add: True w(2))
      then have q: "t_status (?sweep u) = Queued" using assms(3) w(2) by simp
      have "life (leased E eid now (?sweep u)) vs r"
        using life_leased [OF conjunct1 [OF life_sweep_task [OF u(2)]]] q by blast
      moreover have "t_status u \<in> {Queued, Assigned}" by (rule sweep_task_queued [OF q])
      ultimately show ?thesis using True by (auto simp: follows_def)
    next
      case False
      then show ?thesis using life_sweep_task [OF u(2)] by simp
    qed
  qed
qed

lemma claim_next_flow:
  assumes "alive s" "tables_ok s" "claim_next E eid locked s = (Inr r, s')"
  shows "flow s s'"
  using assms(3)
proof (cases rule: claim_next_cases)
  case (empty e)
  show ?thesis by (rule swept_flow [OF assms(1) empty(5)])
next
  case (served e t now)
  note t = pick_SomeD(1,2) [OF claim_choice_SomeD(1) [OF served(3)]]
  show ?thesis
    by (rule served_flow [OF assms(1) t(1) _ tables_okD(1) [OF assms(2)] served(6)]) (use t(2) in \<open>simp add: eligibility_def\<close>)
qed

lemma claim_by_id_flow:
  assumes "alive s" "tables_ok s" "claim_by_id E eid tid locked s = (Inr r, s')"
  shows "flow s s'"
  using assms(3)
proof (cases rule: claim_by_id_cases)
  case (1 e t now)
  note t = row_of_SomeD [OF 1(4)]
  have "core s' = core (modify_expert eid (\<lambda>e. e\<lparr>e_served_count := e_served_count e + 1\<rparr>) (modify_task (t_id t) (leased E eid now) (swept E s)))"
    using 1(10) t by simp
  then show ?thesis by (rule served_flow [OF assms(1) conjunct1 [OF t] 1(5) tables_okD(1) [OF assms(2)]])
qed

lemma release_flow:
  assumes "alive s" "tables_ok s" "release eid tid s = (Inr r, s')"
  shows "flow s s'"
  using assms(3)
proof (cases rule: release_cases)
  case (1 t)
  note c = core_flow_fields [OF 1(5)]
  show ?thesis
  proof (rule flow_tasks [OF assms(1), where f = "\<lambda>t. if t_id t = tid then unassigned t else t"])
    show "grades s' = grades s" "reviews s' = reviews s" "rounds s' = rounds s"
      unfolding c(2-4) by (simp_all add: rounds_def)
    show "tasks s' = map (\<lambda>t. if t_id t = tid then unassigned t else t) (tasks s)" unfolding c(1) by (simp add: update_row_def)
    fix u vs r assume u: "u \<in> set (tasks s)" "life u vs r"
    have "u = t" if "t_id u = tid"
      using task_unique [OF tables_okD(1) [OF assms(2)] _ u(1)] row_of_SomeD [OF 1(1)] that by simp
    then show "life (if t_id u = tid then unassigned u else u) vs r \<and> follows u (if t_id u = tid then unassigned u else u)"
      using u(2) 1(2) life_unassigned [OF u(2)] by (cases "t_id u = tid") simp_all
  qed
qed

lemma reclaim_flow: "alive s \<Longrightarrow> reclaim_expired E s = (n, s') \<Longrightarrow> flow s s'"
  by (rule swept_flow [OF _ reclaim_expired_core(1)])

section \<open>Grades, reviews and rounds\<close>

lemma decided_append:
  "decided x (s\<lparr>reviews := reviews s @ revs\<rparr>) =
     (case decided x s of Some d \<Rightarrow> Some d | None \<Rightarrow> map_option rv_decision (row_of rv_grade_id x revs))"
  by (simp add: decided_def row_of_append split: option.split)

text \<open>What an operation on one task does to the lives of the tasks.\<close>

lemma flow_one:
  assumes "alive s" "t \<in> set (tasks s)" "distinct (map t_id (tasks s))"
    "tasks s' = update_row t_id (t_id t) f (tasks s)"
    "\<And>u. u \<noteq> t_id t \<Longrightarrow> verdicts u s' = verdicts u s \<and> round_status u s' = round_status u s"
    "life t (verdicts (t_id t) s) (round_status (t_id t) s) \<Longrightarrow>
       life (f t) (verdicts (t_id t) s') (round_status (t_id t) s') \<and> follows t (f t)"
  shows "flow s s'"
proof -
  let ?f = "\<lambda>u. if t_id u = t_id t then f u else u"
  have rows: "tasks s' = map ?f (tasks s)" by (simp add: assms(4) update_row_def)
  have step: "life (?f u) (verdicts (t_id u) s') (round_status (t_id u) s') \<and> follows u (?f u)" if u: "u \<in> set (tasks s)" for u
  proof (cases "t_id u = t_id t")
    case True
    then have "u = t" by (rule task_unique [OF assms(3,2) u])
    then show ?thesis using assms(1,2,6) by (simp add: alive_def)
  next
    case False
    then show ?thesis using assms(1) u assms(5) [OF False] by (simp add: alive_def)
  qed
  have "advances s s'"
  proof (rule advancesI)
    fix u assume "u \<in> set (tasks s)"
    then show "?f u \<in> set (tasks s') \<and> follows u (?f u)" unfolding rows set_map by (intro conjI imageI conjunct2 [OF step])
  qed
  moreover have "alive s'"
    unfolding alive_def rows
  proof
    fix u' assume "u' \<in> set (map ?f (tasks s))"
    then obtain u where u: "u \<in> set (tasks s)" "u' = ?f u" by auto
    have "t_id u' = t_id u" using step [OF u(1)] by (simp add: u(2) follows_def split: if_splits)
    then show "life u' (verdicts (t_id u') s') (round_status (t_id u') s')" using step [OF u(1)] by (simp add: u(2))
  qed
  ultimately show ?thesis by (simp add: flow_def)
qed

lemma length_unrejected:
  assumes "distinct (map rv_grade_id (reviews s))"
  shows "length (unrejected tid s) = length (standing (verdicts tid s))"
proof -
  have "unrejected tid s = filter (\<lambda>g. decided (g_id g) s \<noteq> Some Reject) (grades_for tid s)"
    unfolding unrejected_def Let_def
    by (rule filter_cong) (auto simp: decided_iff [OF assms] image_iff)
  moreover have "length (filter P (grades_for tid s)) = length (filter P (task_grades tid s))" for P
    unfolding grades_for_def task_grades_def by (rule mset_eq_length) (simp add: filter_filter_mset)
  ultimately show ?thesis by (simp add: standing_def verdicts_def filter_map comp_def)
qed

text \<open>A submission: the grade, then the round when it was the last one.\<close>

lemma life_graded:
  assumes "life t vs r" "t_status t = Assigned" "t_status (graded t) = Queued"
  shows "life (graded t) (vs @ [None]) r \<and> follows t (graded t)"
  using assms by (auto simp: life_def lease_ok_def solo_life_def panel_life_def follows_def split: if_splits)

lemma life_last_grade:
  assumes "life t vs r" "t_status t = Assigned" "t_status (graded t) \<noteq> Queued"
  shows "(t_required_grades t = 1 \<and> standing (vs @ [None]) = [None] \<and> r = None \<and> life (graded t) (vs @ [None]) None) \<or>
    (2 \<le> length (standing (vs @ [None])) \<and> r = None \<and> life (graded t) (vs @ [None]) (Some Agreed) \<and>
     life ((graded t)\<lparr>t_status := Adjudication\<rparr>) (vs @ [None]) (Some Adjudicating))" "follows t (graded t)"
    "follows t ((graded t)\<lparr>t_status := Adjudication\<rparr>)"
proof -
  have t: "\<not> t_is_attention_check t" "t_required_grades t \<le> t_grades_received t + 1" "t_status (graded t) = Submitted"
    using assms(3) by (auto split: if_splits)
  show "follows t (graded t)" "follows t ((graded t)\<lparr>t_status := Adjudication\<rparr>)"
    using assms(2) t(3) by (simp_all add: follows_def)
  show "(t_required_grades t = 1 \<and> standing (vs @ [None]) = [None] \<and> r = None \<and> life (graded t) (vs @ [None]) None) \<or>
    (2 \<le> length (standing (vs @ [None])) \<and> r = None \<and> life (graded t) (vs @ [None]) (Some Agreed) \<and>
     life ((graded t)\<lparr>t_status := Adjudication\<rparr>) (vs @ [None]) (Some Adjudicating))"
  proof (cases "t_required_grades t = 1")
    case True
    then show ?thesis using assms(1,2) t
      by (auto simp: life_def solo_life_def lease_ok_def standing_def)
  next
    case False
    then have p: "panel_life t vs r" "2 \<le> t_required_grades t" using assms(1) t(1) by (auto simp: life_def)
    have n: "set vs \<subseteq> {None}" "r = None" "t_grades_received t = int (length vs)" "t_grades_received t < t_required_grades t"
      using p(1) assms(2) by (auto simp: panel_life_def)
    have "standing (vs @ [None]) = vs @ [None]" using n(1) by (auto simp: standing_def filter_id_conv)
    then show ?thesis using False p(2) n t assms(1)
      by (auto simp: life_def panel_life_def lease_ok_def)
  qed
qed

text \<open>The session after the last grade, before and after its round.\<close>

lemma graded_session:
  assumes "tables_ok s" "core s3 = core (modify_task tid graded (s\<lparr>grades := grades s @ [g]\<rparr>))"
    "g_task_id g = tid" "g_id g \<notin> g_id ` set (grades s)"
  shows "verdicts tid s3 = verdicts tid s @ [None]" "u \<noteq> tid \<Longrightarrow> verdicts u s3 = verdicts u s"
    "rounds s3 = rounds s" "tasks s3 = update_row t_id tid graded (tasks s)" "reviews s3 = reviews s"
proof -
  have c: "grades s3 = grades s @ [g]" "reviews s3 = reviews s" "tasks s3 = update_row t_id tid graded (tasks s)" "rounds s3 = rounds s"
    using assms(2) by (simp_all add: core_eq_iff rounds_def)
  have d: "decided x s3 = decided x s" for x by (simp add: decided_def c(2))
  have "g_id g \<notin> rv_grade_id ` set (reviews s)" using assms(1,4) by (auto simp: tables_ok_def refs_ok_def)
  then have "decided (g_id g) s = None" by (simp add: decided_def row_of_None_iff)
  then show "verdicts tid s3 = verdicts tid s @ [None]" by (simp add: verdicts_def task_grades_def c(1) d assms(3))
  show "u \<noteq> tid \<Longrightarrow> verdicts u s3 = verdicts u s" by (simp add: verdicts_def task_grades_def c(1) d assms(3))
qed (use assms(2) in \<open>simp_all add: core_eq_iff rounds_def\<close>)

lemma map_of_snoc: "map_of (xs @ [(k', v)]) k = (case map_of xs k of None \<Rightarrow> if k = k' then Some v else None | Some x \<Rightarrow> Some x)"
  by (simp add: map_add_def split: option.split)

lemma submit_flow:
  assumes "alive s" "tables_ok s" "submit E eid tid scores rationale n rubric_id s = (Inr g, s')"
  shows "flow s s'"
  using assms(3)
proof (cases rule: submit_cases)
  case (1 t r s3 c s4 s5)
  note t = row_of_SomeD [OF 1(1)]
  have g: "g_task_id g = tid" by (simp add: 1(7))
  note v = graded_session [OF assms(2) 1(11) g 1(8)]
  have tid: "t_id t = tid" "t \<in> set (tasks s)" using t by simp_all
  have life: "life t (verdicts tid s) (round_status tid s)" using assms(1) tid by (auto simp: alive_def)
  have rest: "tasks s' = tasks s4" "grades s' = grades s4" "reviews s' = reviews s4" "rounds s' = rounds s4"
    using aftermath_frame(1) [OF 1(16)] 1(14) by (simp_all add: core_eq_iff rounds_def)
  have final: "verdicts u s' = verdicts u s4" "round_status u s' = round_status u s4" for u
    by (rule verdicts_cong [OF rest(2,3)]) (simp add: round_status_rounds rest(4))
  have r3: "round_status u s3 = round_status u s" for u by (simp add: round_status_rounds v(3))
  note one = flow_one [OF assms(1) tid(2) tables_okD(1) [OF assms(2)], unfolded tid(1)]
  show ?thesis
  proof (cases "t_status (graded t) = Queued")
    case True
    then have s4: "s4 = s3" using 1(13) by simp
    show ?thesis
      by (rule one [where f = graded])
        (use v(1,2,4) r3 rest(1) final life_graded [OF life 1(2) True] in \<open>simp_all add: s4\<close>)
  next
    case False
    then have ev: "evaluate E tid s3 = (Inr c, s4)" using 1(13) by simp
    note last = life_last_grade [OF life 1(2) False]
    have len: "length (unrejected tid s3) = length (standing (verdicts tid s @ [None]))"
      using length_unrejected [of s3 tid] tables_okD(3) [OF assms(2)] by (simp add: v(1,5))
    from ev show ?thesis
    proof (cases rule: evaluate_cases)
      case few
      then have "life (graded t) (verdicts tid s @ [None]) (round_status tid s)" using last(1) len by auto
      then show ?thesis
        by (intro one [where f = graded]) (use few(3) v(1,2,4) r3 rest(1) final last(2) in simp_all)
    next
      case (agreed k w)
      have k: "rounds s4 = rounds s @ [(tid, Agreed)]" "tasks s4 = tasks s3" "verdicts u s4 = verdicts u s3" for u
        using agreed(3,5,9) v(3) by (simp_all add: core_eq_iff rounds_def consensus_row_of_def verdicts_def task_grades_def decided_def)
      have "life (graded t) (verdicts tid s @ [None]) (Some Agreed)" "round_status tid s = None"
        using last(1) agreed(2) len by auto
      then show ?thesis
        by (intro one [where f = graded])
          (use k v(1,2,4) rest(1) final last(2) in \<open>simp_all add: round_status_rounds map_of_snoc del: map_of_append split: option.split\<close>)
    next
      case (split k)
      let ?f = "\<lambda>t. (graded t)\<lparr>t_status := Adjudication\<rparr>"
      have k: "rounds s4 = rounds s @ [(tid, Adjudicating)]" "tasks s4 = update_row t_id tid ?f (tasks s)" "verdicts u s4 = verdicts u s3" for u
        using split(3,5,8) v(3,4)
        by (simp_all add: core_eq_iff rounds_def consensus_row_of_def verdicts_def task_grades_def decided_def update_row_def)
      have "life (?f t) (verdicts tid s @ [None]) (Some Adjudicating)" "round_status tid s = None"
        using last(1) split(2) len by auto
      then show ?thesis
        by (intro one [where f = ?f])
          (use k v(1,2) rest(1) final last(3) in \<open>simp_all add: round_status_rounds map_of_snoc del: map_of_append split: option.split\<close>)
    qed
  qed
qed

text \<open>A review, a new verdict on one grade.\<close>

lemma split_at_grade:
  assumes "g \<in> set (grades s)" "distinct (map g_id (grades s))"
  obtains xs ys where "task_grades (g_task_id g) s = xs @ g # ys" "g_id g \<notin> g_id ` set (xs @ ys)"
proof -
  have "g \<in> set (task_grades (g_task_id g) s)" using assms(1) by (simp add: task_grades_def)
  then obtain xs ys where l: "task_grades (g_task_id g) s = xs @ g # ys" by (meson split_list)
  have "distinct (map g_id (task_grades (g_task_id g) s))"
    unfolding task_grades_def using assms(2) by (rule distinct_map_filter)
  then show thesis using that [OF l] by (auto simp: l)
qed

lemma reviewed_verdicts:
  assumes "g \<in> set (grades s)" "distinct (map g_id (grades s))" "decided (g_id g) s = None"
    "grades s' = grades s" "reviews s' = reviews s @ [rv]" "rv_grade_id rv = g_id g"
  obtains vs ws where "verdicts (g_task_id g) s = vs @ None # ws"
    "verdicts (g_task_id g) s' = vs @ Some (rv_decision rv) # ws" "\<And>u. u \<noteq> g_task_id g \<Longrightarrow> verdicts u s' = verdicts u s"
proof -
  have d: "decided x s' = (if x = g_id g then Some (rv_decision rv) else decided x s)" for x
    using assms(3) by (auto simp: decided_def assms(5,6) row_of_append split: option.split)
  have tg: "task_grades u s' = task_grades u s" for u by (simp add: task_grades_def assms(4))
  obtain xs ys where l: "task_grades (g_task_id g) s = xs @ g # ys" "g_id g \<notin> g_id ` set (xs @ ys)"
    by (rule split_at_grade [OF assms(1,2)])
  have same: "map (\<lambda>h. decided (g_id h) s') zs = map (\<lambda>h. decided (g_id h) s) zs" if "g_id g \<notin> g_id ` set zs" for zs
    using that by (auto simp: d image_iff)
  have other: "verdicts u s' = verdicts u s" if "u \<noteq> g_task_id g" for u
    unfolding verdicts_def tg
  proof (rule same)
    show "g_id g \<notin> g_id ` set (task_grades u s)"
    proof
      assume "g_id g \<in> g_id ` set (task_grades u s)"
      then obtain h where h: "h \<in> set (grades s)" "g_task_id h = u" "g_id h = g_id g" by (auto simp: task_grades_def)
      then have "h = g" using assms(1,2) by (metis distinct_map inj_onD)
      then show False using h(2) that by simp
    qed
  qed
  have n: "g_id g \<notin> g_id ` set xs" "g_id g \<notin> g_id ` set ys" using l(2) by auto
  show thesis
    by (rule that [OF _ _ other, where vs = "map (\<lambda>h. decided (g_id h) s) xs" and ws = "map (\<lambda>h. decided (g_id h) s) ys"])
      (use l(1) same [OF n(1)] same [OF n(2)] in \<open>simp_all add: verdicts_def tg d assms(3)\<close>)
qed

lemma lease_ok_status: "lease_ok t \<Longrightarrow> t_status t \<noteq> Assigned \<Longrightarrow> x \<noteq> Assigned \<Longrightarrow> lease_ok (t\<lparr>t_status := x\<rparr>)"
  by (auto simp: lease_ok_def)

lemma lease_ok_requeued: "lease_ok t \<Longrightarrow> t_status t \<noteq> Assigned \<Longrightarrow> lease_ok (requeued t)"
  by (auto simp: lease_ok_def)

lemma life_settled:
  assumes "life t (vs @ None # ws) r" "reject_if_consensus_pending t = None"
  shows "life (settled_task g d t) (vs @ Some d # ws) r \<and> follows t (settled_task g d t)"
proof -
  have l: "lease_ok t" "1 \<le> t_required_grades t" "0 \<le> t_grades_received t" using assms(1) by (simp_all add: life_def)
  consider "t_is_attention_check t" | "\<not> t_is_attention_check t" "t_required_grades t = 1" |
    "\<not> t_is_attention_check t" "2 \<le> t_required_grades t" using l(2) by linarith
  then show ?thesis
  proof cases
    case 1
    then show ?thesis using assms(1) by (simp add: settled_task_def life_def)
  next
    case 2
    have s: "solo_life t (vs @ None # ws)" "r = None" using assms(1) 2 by (simp_all add: life_def)
    then have sub: "t_status t = Submitted" "t_grades_received t = 1" "standing vs = []" "standing ws = []"
      by (auto simp: solo_life_def standing_def append_eq_Cons_conv Cons_eq_append_conv)
    show ?thesis
    proof (cases d)
      case Approve
      then show ?thesis
        using 2 s(2) sub l lease_ok_status [OF l(1), of Approved]
        by (simp add: settled_task_def life_def solo_life_def follows_def) (simp add: standing_def)
    next
      case Reject
      then show ?thesis
        using 2 s(2) sub l lease_ok_requeued [OF l(1)]
        by (simp add: settled_task_def life_def solo_life_def follows_def) (simp add: standing_def)
    qed
  next
    case 3
    have p: "panel_life t (vs @ None # ws) r" using assms(1) 3 by (simp add: life_def)
    have full: "t_required_grades t \<le> t_grades_received t" "t_status t \<noteq> Adjudication"
      using assms(2) 3 by (auto simp: reject_if_consensus_pending_def split: if_splits)
    then have q: "t_status t \<notin> {Queued, Assigned}" "t_grades_received t = t_required_grades t" "r \<noteq> None" "r \<noteq> Some Adjudicating"
      "t_status t = Approved \<longleftrightarrow> Some Approve \<in> set (vs @ None # ws)"
      using p by (auto simp: panel_life_def split: if_splits)
    have st: "t_status t = Submitted \<or> t_status t = Rejected \<or> t_status t = Approved"
      using q(1) full(2) by (cases "t_status t") auto
    have n: "t_grades_received t = int (length (vs @ None # ws))" using p by (simp add: panel_life_def)
    note ok = lease_ok_status [OF l(1)]
    show ?thesis
    proof (cases d)
      case Approve
      then show ?thesis
        using 3 l n q st ok [of Approved]
        by (auto simp: settled_task_def life_def panel_life_def follows_def)
    next
      case Reject
      then show ?thesis
        using 3 l n q st ok [of Rejected]
        by (auto simp: settled_task_def life_def panel_life_def follows_def)
    qed
  qed
qed

lemma redeliver_rounds: "redeliver tid g actor s = (r, s') \<Longrightarrow> rounds s' = rounds s"
  by (erule redeliver_cases) (simp_all add: rounds_def core_eq_iff map_update_row)

lemma review_flow:
  assumes "alive s" "tables_ok s" "review_grade E key gid d reason actor s = (Inr (rv, p), s')"
  shows "flow s s'"
  using assms(3)
proof (cases rule: review_cases)
  case (1 g t s2 s3 s4 s5 s6 c)
  have t: "t \<in> set (tasks s)" "t_id t = g_task_id g" using row_of_SomeD [OF 1(3)] by simp_all
  have g: "g_id g = gid" "g \<in> set (grades s)" using row_of_SomeD [OF 1(1)] by simp_all
  have P: "core (s3\<lparr>payouts := payouts s2\<rparr>) = core s2"
    using 1(14) by (auto simp: create_for_grade_frame split: if_splits)
  note S = settle_status_frame(1) [where tid = "t_id t" and t = t and g = g and d = d and actor = actor and s = s3, folded 1(15)]
  have R: "core (s5\<lparr>consensuses := consensuses s4\<rparr>) = core s4" "rounds s5 = rounds s4"
    using 1(16) by (auto dest: redeliver_frame redeliver_rounds split: if_splits)
  note U = update_frame(1) [OF 1(19)]
  have c: "tasks s3 = tasks s" "reviews s' = reviews s @ [rv]" "tasks s' = tasks s4" "grades s' = grades s"
    using 1(12,17) P S R(1) U by (simp_all add: core_eq_iff)
  have "rounds s' = rounds s5" "rounds s4 = rounds s" using 1(12,17) P S U by (simp_all add: core_eq_iff rounds_def)
  then have r: "rounds s' = rounds s" using R(2) by simp
  have rows: "tasks s' = update_row t_id (t_id t) (settled_task g d) (tasks s)"
    unfolding c(3) 1(15) using settle_status_tasks [of s3 t] tables_okD(1) [OF assms(2)] t(1) by (simp add: c(1))
  have new: "decided (g_id g) s = None" using 1(2) g(1) by (simp add: decided_def)
  have own: "rv_grade_id rv = g_id g" using 1(5) g(1) by simp
  obtain vs ws where v: "verdicts (g_task_id g) s = vs @ None # ws" "verdicts (g_task_id g) s' = vs @ Some (rv_decision rv) # ws"
    "\<And>u. u \<noteq> g_task_id g \<Longrightarrow> verdicts u s' = verdicts u s"
    by (rule reviewed_verdicts [OF g(2) tables_okD(2) [OF assms(2)] new c(4,2) own]) (rule that)
  have rs: "round_status u s' = round_status u s" for u by (simp add: round_status_rounds r)
  show ?thesis
    by (rule flow_one [OF assms(1) t(1) tables_okD(1) [OF assms(2)] rows])
      (use v rs t(2) life_settled [OF _ 1(4), of vs ws] 1(6) in simp_all)
qed

lemma map_of_closed:
  assumes "map_of xs k = Some x"
  shows "map_of (map (\<lambda>(k', v). (k', if k' = k then y else v)) xs) u = (if u = k then Some y else map_of xs u)"
proof -
  have "u \<noteq> k \<Longrightarrow> map_of (map (\<lambda>(k', v). (k', if k' = k then y else v)) xs) u = map_of xs u" by (induction xs) auto
  moreover have "map_of (map (\<lambda>(k', v). (k', if k' = k then y else v)) xs) k = Some y"
    using assms by (induction xs) (auto split: if_splits)
  ultimately show ?thesis by simp
qed

text \<open>An adjudication: a verdict on every grade of the task, one of them an approval.\<close>

lemma resolve_flow:
  assumes "alive s" "tables_ok s" "resolve E tid dg reason key actor s = (Inr r, s')"
  shows "flow s s'"
  using assms(3)
proof (cases rule: resolve_cases)
  case (1 row g t acc s1 now)
  have t: "t \<in> set (tasks s)" "t_id t = tid" using row_of_SomeD [OF 1(6)] by simp_all
  have rs: "round_status tid s = Some Adjudicating" using 1(1,2) by (simp add: round_status_def)
  have life: "life t (verdicts tid s) (Some Adjudicating)" using assms(1) t rs by (auto simp: alive_def)
  obtain revs where revs: "reviews s1 = reviews s @ revs"
    "map (\<lambda>r. (rv_grade_id r, rv_decision r, rv_reviewer_key_id r)) revs =
     map (\<lambda>g. (g_id g, if g_id g = dg then Approve else Reject, key)) (grades_for tid s)"
    and frame: "core (s1\<lparr>reviews := reviews s, payouts := payouts s, experts := experts s, tier_changes := tier_changes s\<rparr>) = core s"
    using settle_grades_settles [OF 1(7)] unfolding settles_def by blast
  have c: "grades s' = grades s" "reviews s' = reviews s @ revs" "tasks s' = update_row t_id tid (\<lambda>t. t\<lparr>t_status := Approved\<rparr>) (tasks s)"
    using 1(11) frame revs(1) by (simp_all add: core_eq_iff)
  have rounds: "rounds s' = map (\<lambda>(k, v). (k, if k = tid then Adjudicated else v)) (rounds s)"
    using 1(11) frame by (auto simp: core_eq_iff rounds_def update_row_def)
  have round: "round_status u s' = (if u = tid then Some Adjudicated else round_status u s)" for u
    using rs unfolding round_status_rounds rounds by (rule map_of_closed)
  have ids: "rv_grade_id ` set revs = g_id ` set (grades_for tid s)"
    using arg_cong [OF revs(2), of "\<lambda>xs. fst ` set xs"] by (simp add: image_image)
  have other: "verdicts u s' = verdicts u s" if u: "u \<noteq> tid" for u
  proof -
    have "decided (g_id h) s' = decided (g_id h) s" if h: "h \<in> set (task_grades u s)" for h
    proof -
      have "g_id h \<notin> rv_grade_id ` set revs"
        using h u tables_okD(2) [OF assms(2)] unfolding ids by (auto simp: task_grades_def) (metis distinct_map inj_onD)
      then have "row_of rv_grade_id (g_id h) revs = None" by (simp add: row_of_None_iff)
      then show ?thesis by (simp add: decided_def c(2) row_of_append split: option.split)
    qed
    then show ?thesis by (simp add: verdicts_def task_grades_def c(1))
  qed
  have "Some Approve \<in> set (verdicts tid s')"
  proof -
    have g: "g \<in> set (grades_for tid s)" "g \<in> set (task_grades tid s)" using 1(3,4) by (simp_all add: task_grades_def)
    have "panel_life t (verdicts tid s) (Some Adjudicating)"
      using life by (auto simp: life_def solo_life_def split: if_splits)
    then have "set (verdicts tid s) \<subseteq> {None}" by (auto simp: panel_life_def split: if_splits)
    then have none: "decided (g_id g) s = None" using g(2) by (auto simp: verdicts_def)
    have "dg \<in> rv_grade_id ` set revs" unfolding ids using g(1) 1(5) by blast
    then obtain rv where rv: "row_of rv_grade_id dg revs = Some rv" by (metis not_None_eq row_of_None_iff)
    have "(rv_grade_id rv, rv_decision rv, rv_reviewer_key_id rv) \<in>
        set (map (\<lambda>g. (g_id g, if g_id g = dg then Approve else Reject, key)) (grades_for tid s))"
      unfolding revs(2) [symmetric] using row_of_SomeD [OF rv] by auto
    then have "rv_decision rv = Approve" using row_of_SomeD [OF rv] by auto
    then have "decided (g_id g) s' = Some Approve"
      using none rv by (simp add: decided_def c(2) row_of_append 1(5))
    then show ?thesis using g(2) by (force simp: verdicts_def task_grades_def c(1))
  qed
  moreover have "length (verdicts tid s') = length (verdicts tid s)" by (simp add: verdicts_def task_grades_def c(1))
  ultimately have "life (t\<lparr>t_status := Approved\<rparr>) (verdicts tid s') (Some Adjudicated) \<and> follows t (t\<lparr>t_status := Approved\<rparr>)"
    using life lease_ok_status [of t Approved]
    by (auto simp: life_def panel_life_def solo_life_def follows_def split: if_splits)
  then show ?thesis
    by (intro flow_one [OF assms(1) t(1) tables_okD(1) [OF assms(2)], where f = "\<lambda>t. t\<lparr>t_status := Approved\<rparr>"])
      (use c(3) other round t(2) in simp_all)
qed

section \<open>The other operations\<close>

lemma flow_core:
  assumes "alive s" "core (s'\<lparr>experts := experts s, tier_changes := tier_changes s, rate_cards := rate_cards s, payout_periods := payout_periods s,
    payouts := payouts s, attention_results := attention_results s, api_keys := api_keys s, deliveries := deliveries s,
    rubrics := rubrics s\<rparr>) = core s"
  shows "flow s s'"
  by (rule flow_same [OF assms(1)]) (use assms(2) in \<open>simp_all add: core_eq_iff rounds_def\<close>)

lemma life_rubric: "life (t\<lparr>t_rubric_id := rid\<rparr>) vs x = life t vs x"
  by (simp add: life_def lease_ok_def solo_life_def panel_life_def)

lemma publish_flow:
  assumes "alive s" "publish E previous cs actor s = (Inr (r, migrated, left), s')"
  shows "flow s s'"
  using assms(2)
proof (cases rule: publish_cases)
  case (1 latest now)
  show ?thesis
  proof (rule flow_tasks [OF assms(1), where f = "\<lambda>t. if untouched_on (r_id previous) t then t\<lparr>t_rubric_id := r_id r\<rparr> else t"])
    fix t vs x assume "t \<in> set (tasks s)" "life t vs x"
    then show "life (if untouched_on (r_id previous) t then t\<lparr>t_rubric_id := r_id r\<rparr> else t) vs x \<and>
        follows t (if untouched_on (r_id previous) t then t\<lparr>t_rubric_id := r_id r\<rparr> else t)"
      using life_rubric [where t = t and rid = "r_id r" and vs = vs and x = x] by (simp add: follows_def)
  qed (use 1(11) in \<open>simp_all add: core_eq_iff rounds_def update_where_def\<close>)
qed

lemma life_new_task: "1 \<le> kt_required_grades b \<Longrightarrow> life (new_task tid n now b) [] None"
  by (simp add: life_def lease_ok_def solo_life_def panel_life_def standing_def new_task_def)

lemma new_task_flow:
  assumes "alive s" "tables_ok s" "t_id t \<notin> t_id ` set (tasks s)" "life t [] None" "tasks s' = tasks s @ [t]"
    "grades s' = grades s" "reviews s' = reviews s" "rounds s' = rounds s"
  shows "flow s s'"
proof -
  have refs: "refs_ok s" using assms(2) by (simp add: tables_ok_def)
  then have "\<forall>g \<in> set (grades s). g_task_id g \<in> t_id ` set (tasks s)" by (simp add: refs_ok_def)
  then have "\<forall>g \<in> set (grades s). g_task_id g \<noteq> t_id t" using assms(3) by metis
  then have "verdicts (t_id t) s = []" by (auto simp: verdicts_def task_grades_def filter_empty_conv)
  moreover have "round_status (t_id t) s = None"
  proof -
    have "\<forall>c \<in> set (consensuses s). co_task_id c \<in> t_id ` set (tasks s)"
      using refs by (auto simp: refs_ok_def pick_ok_def round_pick_def)
    then have "t_id t \<notin> co_task_id ` set (consensuses s)" using assms(3) by (metis imageE)
    then show ?thesis by (simp add: round_status_def row_of_None_iff)
  qed
  moreover have "verdicts u s' = verdicts u s" "round_status u s' = round_status u s" for u
    by (rule verdicts_cong [OF assms(6,7)]) (simp add: round_status_rounds assms(8))
  ultimately have "alive s'" using assms(1,4) by (simp add: alive_def assms(5))
  moreover have "advances s s'" by (rule advancesI [where f = id]) (simp add: assms(5))
  ultimately show ?thesis by (simp add: flow_def)
qed

lemma insert_tasks_flow:
  "insert_tasks E bs s = (Inr ids, s') \<Longrightarrow> alive s \<Longrightarrow> tables_ok s \<Longrightarrow> list_all task_create_ok bs \<Longrightarrow>
   alive s' \<and> set (tasks s) \<subseteq> set (tasks s')"
proof (induction bs arbitrary: s ids)
  case (Cons b bs)
  from Cons.prems(1) show ?case
  proof (cases rule: insert_tasks_ConsE)
    case (1 t s2 rest)
    have one: "insert_tasks E [b] s = (Inr [t_id t], s2)"
      using 1(2-4) by (simp add: 1(1,5) new_uuid_def insert_task_def insert_if_def Let_def new_task_def)
    have "flow s s2"
      by (rule new_task_flow [OF Cons.prems(2,3) 1(2)])
        (use Cons.prems(4) life_new_task in \<open>simp_all add: 1(1,5) rounds_def task_create_ok_def\<close>)
    then have "alive s2" by (simp add: flow_def)
    moreover have "tables_ok s2" by (rule insert_tasks_tables_ok [OF one Cons.prems(3)])
    moreover have "set (tasks s) \<subseteq> set (tasks s2)" by (auto simp: 1(5))
    ultimately show ?thesis using Cons.IH [OF 1(6)] Cons.prems(4) by auto
  qed
qed simp

lemma alive_recorded: "alive (record_event a b c d p s) = alive s"
proof -
  have "verdicts u (record_event a b c d p s) = verdicts u s" "round_status u (record_event a b c d p s) = round_status u s" for u
    by (simp_all add: verdicts_def task_grades_def decided_def round_status_def)
  then show ?thesis by (simp add: alive_def)
qed

lemma create_tasks_flow:
  assumes "alive s" "tables_ok s" "task_bulk_ok bs" "create_tasks E p bs s = (Inr ids, s')"
  shows "flow s s'"
proof -
  obtain s1 where s1: "insert_tasks E bs s = (Inr ids, s1)"
    and s': "s' = record_event (actor_of p) ''tasks.created'' ''task'' ''bulk'' [(''count'', JInt (int (length ids)))] s1"
    using assms(4) by (auto simp: create_tasks_def result_simps split: option.splits if_splits)
  have "alive s1" "set (tasks s) \<subseteq> set (tasks s1)"
    using insert_tasks_flow [OF s1 assms(1,2)] assms(3) by (simp_all add: task_bulk_ok_def)
  then show ?thesis unfolding s' flow_def alive_recorded by (auto intro!: advancesI [where f = id])
qed

lemma tick_flow:
  assumes "alive s" "tick E actor s = (Inr report, s')"
  shows "flow s s'"
  using assms(2)
proof (cases rule: tick_cases)
  case (1 n s1 es acc s2)
  have keep: "refresh_experts E actor es acc s = (Inr r, s') \<Longrightarrow>
      core (s'\<lparr>experts := experts s, tier_changes := tier_changes s\<rparr>) = core s" for es acc s r s'
  proof (induction es arbitrary: acc s)
    case (Cons e es)
    obtain moves uncal where "acc = (moves, uncal)" by fastforce
    then obtain change s1 acc1 where step: "update E (e_id e) actor s = (Inr change, s1)"
      and rest: "refresh_experts E actor es acc1 s1 = (Inr r, s')"
      using Cons.prems by (auto simp: result_simps simp del: split_paired_Ex)
    show ?case using Cons.IH [OF rest] update_frame(1) [OF step] by (simp add: core_eq_iff)
  qed simp
  have same: "tasks s' = tasks s1" "grades s' = grades s1" "reviews s' = reviews s1" "rounds s' = rounds s1"
    using keep [OF 1(2)] 1(3) by (simp_all add: core_eq_iff rounds_def)
  have "flow s s1" by (rule reclaim_flow [OF assms(1) 1(1)])
  moreover have "verdicts u s' = verdicts u s1" "round_status u s' = round_status u s1" for u
    by (rule verdicts_cong [OF same(2,3)]) (simp add: round_status_rounds same(4))
  ultimately show ?thesis by (simp add: flow_def alive_def advances_def same(1))
qed

section \<open>Every event\<close>

lemma alive_unchanged: "unchanged s s' \<Longrightarrow> flow s s' \<longleftrightarrow> alive s"
proof -
  assume u: "unchanged s s'"
  have f: "tasks s' = tasks s" "grades s' = grades s" "reviews s' = reviews s" "rounds s' = rounds s"
    using u by (simp_all add: unchanged_def core_eq_iff rounds_def)
  have "verdicts u s' = verdicts u s" "round_status u s' = round_status u s" for u
    by (rule verdicts_cong [OF f(2,3)]) (simp add: round_status_rounds f(4))
  then show ?thesis using flow_same [OF _ f] by (auto simp: flow_def alive_def f(1))
qed

lemma quiet_flow:
  assumes "alive s"
  shows "create_expert E p xb s = (Inr e, s') \<Longrightarrow> flow s s'"
    "set_status E p eid status s = (Inr e, s') \<Longrightarrow> flow s s'"
    "create_rubric E p rb s = (Inr ru, s') \<Longrightarrow> flow s s'"
    "put_rate_cards p cards s = (Inr u, s') \<Longrightarrow> flow s s'"
    "close_period E label actor s = (Inr period, s') \<Longrightarrow> flow s s'"
    "export E io actor (s, st) = (Inr d, (s', st')) \<Longrightarrow> flow s s'"
    "issue_key E role expert_id label token s = (Inr (k, raw), s') \<Longrightarrow> flow s s'"
    "revoke_key E p kid s = (Inr u, s') \<Longrightarrow> flow s s'"
    "bootstrap E rk s = (Inr raw, s') \<Longrightarrow> flow s s'"
proof -
  show "create_expert E p xb s = (Inr e, s') \<Longrightarrow> flow s s'"
    by (rule flow_core [OF assms]) (auto simp: create_expert_def new_uuid_def insert_expert_def result_simps Let_def core_eq_iff)
  show "set_status E p eid status s = (Inr e, s') \<Longrightarrow> flow s s'"
    by (rule flow_core [OF assms]) (auto simp: set_status_def release_withheld_def Let_def core_eq_iff split: option.splits)
  show "create_rubric E p rb s = (Inr ru, s') \<Longrightarrow> flow s s'"
    by (rule flow_core [OF assms])
      (auto simp: create_rubric_def new_uuid_def new_uuids_def insert_rubric_def result_simps Let_def core_eq_iff)
  show "put_rate_cards p cards s = (Inr u, s') \<Longrightarrow> flow s s'"
    by (rule flow_core [OF assms]) (use merge_rate_cards_core [where cards = cards and s = s] in \<open>auto simp: put_rate_cards_def core_eq_iff\<close>)
  show "close_period E label actor s = (Inr period, s') \<Longrightarrow> flow s s'"
    by (rule flow_core [OF assms], erule close_period_cases) (simp add: core_eq_iff)
  show "export E io actor (s, st) = (Inr d, (s', st')) \<Longrightarrow> flow s s'"
    by (rule flow_core [OF assms], erule export_cases) (simp add: core_eq_iff)
  show "issue_key E role expert_id label token s = (Inr (k, raw), s') \<Longrightarrow> flow s s'"
    by (rule flow_core [OF assms], erule issue_key_cases) (simp add: core_eq_iff)
  show "revoke_key E p kid s = (Inr u, s') \<Longrightarrow> flow s s'"
    by (rule flow_core [OF assms], erule revoke_key_cases) (simp_all add: core_eq_iff)
  show "bootstrap E rk s = (Inr raw, s') \<Longrightarrow> flow s s'"
    by (rule flow_core [OF assms]) (auto simp: bootstrap_def new_uuid_def insert_api_key_def result_simps Let_def core_eq_iff split: if_splits)
qed

lemma flow_then_recorded: "flow s s1 \<Longrightarrow> flow s (record_event a b c d p s1)"
  by (simp add: flow_def alive_recorded advances_def)

lemma effect_flow:
  assumes "effect E io \<sigma> \<sigma>'" "alive (fst \<sigma>)" "tables_ok (fst \<sigma>)"
  shows "flow (fst \<sigma>) (fst \<sigma>')"
  using assms
proof (induction rule: effect.induct)
  case (expert_key_created p eid token s kr s' st)
  then show ?case using quiet_flow(7)
    by (cases kr) (auto simp: create_expert_key_def result_simps intro!: flow_then_recorded split: option.splits)
next
  case (reviewed key gid d reason actor s rp s' st)
  then show ?case using review_flow by (cases rp) auto
next
  case (version_published rid s previous cs actor rml s' st)
  then show ?case using publish_flow by (cases rml) auto
next
  case (key_created p r expert_id label token s kr s' st)
  then show ?case using quiet_flow(7) by (cases kr) (auto simp: create_key_def result_simps intro!: flow_then_recorded)
qed (auto dest: quiet_flow create_tasks_flow claim_next_flow reclaim_flow claim_by_id_flow release_flow submit_flow
    resolve_flow tick_flow)

lemma happens_flow:
  assumes "happens E io \<sigma> \<sigma>'" "alive (fst \<sigma>)" "tables_ok (fst \<sigma>)"
  shows "flow (fst \<sigma>) (fst \<sigma>')"
  using assms(1)
proof (cases rule: happens_cases)
  case (commits now)
  have u: "unchanged (fst \<sigma>) (fst (begun now \<sigma>))" by (simp add: unchanged_def begun_def core_eq_iff)
  then have a: "alive (fst (begun now \<sigma>))" using alive_unchanged assms(2) by (auto simp: flow_def)
  have "tables_ok (fst (begun now \<sigma>))" using tables_ok_unchanged [OF u] assms(3) by simp
  then have "flow (fst (begun now \<sigma>)) (fst \<sigma>')" by (rule effect_flow [OF commits a])
  then show ?thesis by (simp add: flow_def advances_def begun_def)
next
  case aborts
  then show ?thesis using alive_unchanged assms(2) by blast
qed

interpretation lives: kept E io st0 "\<lambda>\<sigma>. alive (fst \<sigma>)" for E io st0
proof unfold_locales
  show "alive (fst (empty_db, st0))" by (simp add: alive_def empty_db_def)
  show "alive (fst \<sigma>')" if "reachable E io st0 \<sigma>" "happens E io \<sigma> \<sigma>'" "alive (fst \<sigma>)" for \<sigma> \<sigma>'
    using happens_flow [OF that(2,3) reachable_tables_ok [OF that(1)]] by (simp add: flow_def)
qed

lemmas reachable_alive = lives.always

section \<open>Properties\<close>

text \<open>A service in which an admin has created a rubric and a task for one grader.\<close>

definition sample_rubric_body :: rubric_create where
  "sample_rubric_body = \<lparr>bc_name = ''review'', bc_version = 1, bc_criteria = sample_criteria\<rparr>"

definition sample_task_body :: "uuid \<Rightarrow> task_create" where
  "sample_task_body rid = \<lparr>kt_prompt = ''Explain'', kt_responses = [JStr ''text''], kt_required_tags = [''python''],
     kt_task_type = ''single'', kt_min_tier = Junior, kt_rubric_id = rid, kt_priority = 0, kt_deadline = None,
     kt_required_grades = 1, kt_is_attention_check = False, kt_expected_scores = None, kt_external_ref = None\<rparr>"

definition sample_ruled :: db where
  "sample_ruled = fst (snd (serve sample_env sample_storage sample_moment (CreateRubric sample_rubric_body) (Some ''pk'')
     (sample_live, \<lambda>_. None)))"

definition sample_busy :: db where
  "sample_busy = fst (snd (serve sample_env sample_storage sample_moment (CreateTasks [sample_task_body 1001]) (Some ''pk'')
     (sample_ruled, \<lambda>_. None)))"

lemma sample_live_scopes:
  assumes "api_keys s = api_keys sample_live" "set needed \<subseteq> set (scopes_of AdminRole)"
  shows "\<exists>p. require_scopes sample_env needed (Some ''pk'') s = (Inr p, s)"
proof -
  obtain k where k: "holds_key sample_env (Some ''pk'') k s" "k_role k = AdminRole"
    using sample_live_admin assms(1) by (auto simp: holds_key_def)
  have "set needed \<subseteq> set (scopes_of (k_role k))" unfolding k(2) by (rule assms(2))
  then show ?thesis using k(1) unfolding require_scopes_returns by blast
qed

lemma sample_ruled_served:
  "\<exists>x. serve sample_env sample_storage sample_moment (CreateRubric sample_rubric_body) (Some ''pk'') (sample_live, \<lambda>_. None) =
     (Inr x, (sample_ruled, \<lambda>_. None))"
  "map r_id (rubrics sample_ruled) = [1001]" "map r_superseded_at (rubrics sample_ruled) = [None]"
  "api_keys sample_ruled = api_keys sample_live" "tasks sample_ruled = []"
proof -
  let ?s = "sample_live\<lparr>tx_now := 9\<rparr>"
  obtain p where p: "require_scopes sample_env [''rubrics:write''] (Some ''pk'') ?s = (Inr p, ?s)"
    using sample_live_scopes [of ?s "[''rubrics:write'']"] by auto
  have none: "rubrics sample_live = []" "tasks sample_live = []"
    by (simp_all add: sample_live_def transact_def bootstrap_def new_uuid_def insert_api_key_def insert_if_def sample_settings
        empty_db_def Let_def)
  have "\<exists>x s. serve sample_env sample_storage sample_moment (CreateRubric sample_rubric_body) (Some ''pk'') (sample_live, \<lambda>_. None) =
     (Inr x, (s, \<lambda>_. None)) \<and> map r_id (rubrics s) = [1001] \<and> map r_superseded_at (rubrics s) = [None] \<and>
     api_keys s = api_keys sample_live \<and> tasks s = []"
    using p by (simp add: serve_def perform_def sample_moment_def with_scopes_def checked_def responds_def create_rubric_def
        rubric_create_ok_def criterion_in_ok_def sized_def sample_rubric_body_def sample_criteria_def new_uuid_def new_uuids_def
        insert_rubric_def insert_if_def Let_def criteria_rows_def criterion_row_def none sample_live_tables sample_settings)
  then show "\<exists>x. serve sample_env sample_storage sample_moment (CreateRubric sample_rubric_body) (Some ''pk'') (sample_live, \<lambda>_. None) =
     (Inr x, (sample_ruled, \<lambda>_. None))"
    "map r_id (rubrics sample_ruled) = [1001]" "map r_superseded_at (rubrics sample_ruled) = [None]"
    "api_keys sample_ruled = api_keys sample_live" "tasks sample_ruled = []"
    unfolding sample_ruled_def by auto
qed

lemma sample_busy_served:
  "\<exists>x. serve sample_env sample_storage sample_moment (CreateTasks [sample_task_body 1001]) (Some ''pk'') (sample_ruled, \<lambda>_. None) =
     (Inr x, (sample_busy, \<lambda>_. None))"
  "\<exists>tid n. tasks sample_busy = [new_task tid n 9 (sample_task_body 1001)]"
proof -
  let ?s = "sample_ruled\<lparr>tx_now := 9\<rparr>"
  obtain p where p: "require_scopes sample_env [''tasks:write''] (Some ''pk'') ?s = (Inr p, ?s)"
    using sample_live_scopes [of ?s "[''tasks:write'']"] sample_ruled_served(4) by auto
  obtain r where r: "rubrics sample_ruled = [r]" "r_id r = 1001" "r_superseded_at r = None"
    using sample_ruled_served(2,3) by (auto simp: map_eq_Cons_conv)
  have "\<exists>x s tid n. serve sample_env sample_storage sample_moment (CreateTasks [sample_task_body 1001]) (Some ''pk'')
      (sample_ruled, \<lambda>_. None) = (Inr x, (s, \<lambda>_. None)) \<and> tasks s = [new_task tid n 9 (sample_task_body 1001)]"
    using p r sample_ruled_served(5)
    by (simp add: serve_def perform_def sample_moment_def with_scopes_def checked_def responds_def create_tasks_def
        superseded_among_def task_bulk_ok_def task_create_ok_def sized_def new_uuid_def insert_task_def insert_if_def Let_def)
      (simp add: sample_task_body_def new_task_def)
  then obtain x s tid n where run: "serve sample_env sample_storage sample_moment (CreateTasks [sample_task_body 1001]) (Some ''pk'')
      (sample_ruled, \<lambda>_. None) = (Inr x, (s, \<lambda>_. None))" "tasks s = [new_task tid n 9 (sample_task_body 1001)]"
    by (elim exE conjE) (rule that)
  then have s: "sample_busy = s" by (simp add: sample_busy_def)
  show "\<exists>x. serve sample_env sample_storage sample_moment (CreateTasks [sample_task_body 1001]) (Some ''pk'') (sample_ruled, \<lambda>_. None) =
     (Inr x, (sample_busy, \<lambda>_. None))"
    "\<exists>tid n. tasks sample_busy = [new_task tid n 9 (sample_task_body 1001)]"
    unfolding s using run by blast+
qed

lemma sample_busy_reachable: "reachable sample_env sample_storage (\<lambda>_. None) (sample_busy, \<lambda>_. None)"
proof -
  obtain x y where run: "serve sample_env sample_storage sample_moment (CreateRubric sample_rubric_body) (Some ''pk'') (sample_live, \<lambda>_. None) =
      (Inr x, (sample_ruled, \<lambda>_. None))"
    "serve sample_env sample_storage sample_moment (CreateTasks [sample_task_body 1001]) (Some ''pk'') (sample_ruled, \<lambda>_. None) =
      (Inr y, (sample_busy, \<lambda>_. None))"
    using sample_ruled_served(1) sample_busy_served(1) by blast
  show ?thesis
    by (rule reachable.event [OF reachable.event [OF sample_live_reachable happens.request [OF run(1)]] happens.request [OF run(2)]])
qed

text \<open>
  C1: the life of a task, in every state the service can reach. An assigned task, and only one, has an
  assignee and a lease. A golden task is queued or assigned and has no round. A task for one grader is
  queued or assigned exactly while every grade of it was rejected, submitted while exactly one waits for
  review, approved once exactly one is approved. A task for several graders collects unreviewed grades up
  to the number required; then it has a round, awaits adjudication exactly while the round does, and is
  approved exactly when one of its grades is.
\<close>
theorem tasks_live_their_life:
  assumes "reachable E io st0 (s, st)" "t \<in> set (tasks s)"
  shows "life t (verdicts (t_id t) s) (round_status (t_id t) s)"
  using reachable_alive [OF assms(1)] assms(2) by (simp add: alive_def)

theorem tasks_live_their_life_witness:
  "\<exists>t. tasks sample_busy = [t] \<and> life t (verdicts (t_id t) sample_busy) (round_status (t_id t) sample_busy)"
proof -
  obtain t where "tasks sample_busy = [t]" using sample_busy_served(2) by blast
  then show ?thesis using tasks_live_their_life [OF sample_busy_reachable, of t] by simp
qed

text \<open>
  C2: the service refines the workflow of tasks. Whatever event happens in a reachable state, every task is
  still there and is where it was or one step further: queued to assigned; assigned back to queued or on
  to submitted or adjudication; submitted to queued, approved or rejected; adjudication or rejected to
  approved. Approved is final, and neither the number of graders nor being a golden task changes.
\<close>
theorem events_follow_the_workflow:
  assumes "reachable E io st0 \<sigma>" "happens E io \<sigma> \<sigma>'" "t \<in> set (tasks (fst \<sigma>))"
  shows "\<exists>t' \<in> set (tasks (fst \<sigma>')). t_id t' = t_id t \<and> t_status t' \<in> next_statuses (t_status t) \<and>
    t_required_grades t' = t_required_grades t \<and> t_is_attention_check t' = t_is_attention_check t"
  using happens_flow [OF assms(2) reachable_alive [OF assms(1)] reachable_tables_ok [OF assms(1)]] assms(3)
  by (simp add: flow_def advances_def follows_def)

theorem events_follow_the_workflow_witness:
  "\<exists>t. tasks sample_busy = [t] \<and>
     (\<exists>t' \<in> set (tasks (transact (tick sample_env ''system:tick'') 20 sample_busy)). t_id t' = t_id t \<and> t_status t' \<in> {Queued, Assigned})"
proof -
  obtain tid n where t: "tasks sample_busy = [new_task tid n 9 (sample_task_body 1001)]" using sample_busy_served(2) by blast
  have "happens sample_env sample_storage (sample_busy, \<lambda>_. None) (transact (tick sample_env ''system:tick'') 20 sample_busy, \<lambda>_. None)"
    by (rule happens.scheduled)
  from events_follow_the_workflow [OF sample_busy_reachable this, of "new_task tid n 9 (sample_task_body 1001)"] t
  show ?thesis by (auto simp: new_task_def)
qed

end
