(* ===== verification/Accounts.thy ===== *)
theory Accounts
  imports Workflow
begin

text \<open>
  What the reports of different components say of each other: the rows of a delivery, the tasks the
  report of a tick counts as undelivered, and the approved tasks.
\<close>

section \<open>The rows of a delivery, grade by grade\<close>

lemma concat_by_key:
  assumes "distinct (map key rows)"
  shows "concat (map (\<lambda>r. if key r = k then f r else []) rows) = (case row_of key k rows of None \<Rightarrow> [] | Some r \<Rightarrow> f r)"
  using assms
proof (induction rows)
  case (Cons r rows)
  show ?case
  proof (cases "key r = k")
    case True
    then have "\<forall>r' \<in> set rows. key r' \<noteq> k" using Cons.prems by (auto simp: image_iff)
    then have "concat (map (\<lambda>r. if key r = k then f r else []) rows) = []" by simp
    then show ?thesis using True by simp
  qed (use Cons in simp)
qed simp

text \<open>The row of a grade, if it has one.\<close>

definition row_task :: "grade \<Rightarrow> db \<Rightarrow> (grade \<times> task \<times> consensus option) list" where
  "row_task g s =
    (case get_review (g_id g) s of None \<Rightarrow> []
     | Some r \<Rightarrow> (case get_task (g_task_id g) s of None \<Rightarrow> []
        | Some t \<Rightarrow> if rv_decision r = Approve \<and> \<not> t_is_attention_check t
            then (case get_consensus (t_id t) s of None \<Rightarrow> [(g, t, None)]
                  | Some c \<Rightarrow> if co_delivered_grade_id c = Some (g_id g) then [(g, t, Some c)] else [])
            else []))"

lemma delivered_grades_rows:
  assumes "distinct (map rv_grade_id (reviews s))" "distinct (map t_id (tasks s))"
  shows "mset (delivered_grades s) = mset (concat (map (\<lambda>g. row_task g s) (grades s)))"
proof -
  have "concat (map (\<lambda>r. concat (map (\<lambda>t.
       if rv_grade_id r = g_id g \<and> t_id t = g_task_id g \<and> rv_decision r = Approve \<and> \<not> t_is_attention_check t
       then (case get_consensus (t_id t) s of None \<Rightarrow> [(g, t, None)]
               | Some c \<Rightarrow> if co_delivered_grade_id c = Some (g_id g) then [(g, t, Some c)] else [])
       else []) (tasks s))) (reviews s)) = row_task g s" for g
  proof -
    let ?row = "\<lambda>r t. if rv_decision r = Approve \<and> \<not> t_is_attention_check t
       then (case get_consensus (t_id t) s of None \<Rightarrow> [(g, t, None)]
               | Some c \<Rightarrow> if co_delivered_grade_id c = Some (g_id g) then [(g, t, Some c)] else []) else []"
    have inner: "concat (map (\<lambda>t. if rv_grade_id r = g_id g \<and> t_id t = g_task_id g \<and> rv_decision r = Approve \<and> \<not> t_is_attention_check t
       then (case get_consensus (t_id t) s of None \<Rightarrow> [(g, t, None)]
               | Some c \<Rightarrow> if co_delivered_grade_id c = Some (g_id g) then [(g, t, Some c)] else [])
       else []) (tasks s)) =
      (if rv_grade_id r = g_id g then concat (map (\<lambda>t. if t_id t = g_task_id g then ?row r t else []) (tasks s)) else [])" for r
      by (auto intro!: arg_cong [where f = concat] map_cong)
    show ?thesis
      unfolding inner concat_by_key [OF assms(2)] concat_by_key [OF assms(1)] row_task_def ..
  qed
  then show ?thesis by (simp add: delivered_grades_def)
qed

definition shipped :: "db \<Rightarrow> grade \<Rightarrow> bool" where
  "shipped s g \<longleftrightarrow> row_task g s \<noteq> []"

lemma row_task_single: "row_task g s = [] \<or> (\<exists>t c. row_task g s = [(g, t, c)])"
  by (auto simp: row_task_def split: option.split)

lemma length_delivered_grades:
  assumes "distinct (map rv_grade_id (reviews s))" "distinct (map t_id (tasks s))"
  shows "length (delivered_grades s) = length (filter (shipped s) (grades s))"
proof -
  have "length (concat (map (\<lambda>g. row_task g s) gs)) = length (filter (shipped s) gs)" for gs
  proof (induction gs)
    case (Cons g gs)
    then show ?case using row_task_single [of g s] by (auto simp: shipped_def)
  qed simp
  then show ?thesis using mset_eq_length [OF delivered_grades_rows [OF assms]] by simp
qed

text \<open>A shipped grade is approved, and the pick of its round if there is one.\<close>

lemma shipped_iff:
  assumes "distinct (map t_id (tasks s))"
  shows "shipped s g \<longleftrightarrow> decided (g_id g) s = Some Approve \<and>
    (\<exists>t \<in> set (tasks s). t_id t = g_task_id g \<and> \<not> t_is_attention_check t \<and>
       (\<forall>c. get_consensus (g_task_id g) s = Some c \<longrightarrow> co_delivered_grade_id c = Some (g_id g)))"
proof -
  have task: "get_task (g_task_id g) s = Some t \<longleftrightarrow> t \<in> set (tasks s) \<and> t_id t = g_task_id g" for t
    by (rule row_of_Some_iff [OF assms])
  show ?thesis
  proof (cases "get_task (g_task_id g) s")
    case None
    then show ?thesis using task by (auto simp: shipped_def row_task_def split: option.split)
  next
    case (Some t)
    then have t: "t \<in> set (tasks s)" "t_id t = g_task_id g" using task by auto
    have ex: "(\<exists>u \<in> set (tasks s). t_id u = g_task_id g \<and> Q u) = Q t" for Q
    proof
      assume "\<exists>u \<in> set (tasks s). t_id u = g_task_id g \<and> Q u"
      then obtain u where "u \<in> set (tasks s)" "t_id u = g_task_id g" "Q u" by blast
      then show "Q t" using iffD2 [OF task, of u] Some by simp
    qed (use t in blast)
    show ?thesis
      unfolding ex by (auto simp: shipped_def row_task_def decided_def Some t(2) split: option.split)
  qed
qed

section \<open>The approved tasks\<close>

lemma length_filter_product:
  "length (filter P (List.product xs ys)) = sum_list (map (\<lambda>x. length (filter (\<lambda>y. P (x, y)) ys)) xs)"
  by (induction xs) (simp_all add: filter_map comp_def)

lemma sum_list_bool: "(\<And>x. x \<in> set xs \<Longrightarrow> f x = (if P x then 1 else 0)) \<Longrightarrow> sum_list (map f xs) = length (filter P xs)" for f :: "'a \<Rightarrow> nat"
  by (induction xs) auto

definition unshipped :: "db \<Rightarrow> task \<Rightarrow> bool" where
  "unshipped s t \<longleftrightarrow> t_status t = Approved \<and> \<not> t_is_attention_check t \<and>
     (\<exists>c. get_consensus (t_id t) s = Some c \<and>
        \<not> (\<exists>r \<in> set (reviews s). co_delivered_grade_id c = Some (rv_grade_id r) \<and> rv_decision r = Approve))"

lemma undelivered_approved_tasks:
  assumes "distinct (map co_task_id (consensuses s))"
  shows "undelivered_approved s = int (length (filter (unshipped s) (tasks s)))"
proof -
  let ?open = "\<lambda>c. \<not> (\<exists>r \<in> set (reviews s). co_delivered_grade_id c = Some (rv_grade_id r) \<and> rv_decision r = Approve)"
  have "length (filter (\<lambda>c. co_task_id c = t_id t \<and> t_status t = Approved \<and> \<not> t_is_attention_check t \<and> ?open c) (consensuses s)) =
      (if unshipped s t then 1 else 0)" for t
  proof (cases "get_consensus (t_id t) s")
    case None
    then have "t_id t \<notin> co_task_id ` set (consensuses s)" by (simp add: row_of_None_iff)
    then show ?thesis using None by (auto simp: unshipped_def filter_empty_conv image_iff)
  next
    case (Some c)
    then have c: "c \<in> set (consensuses s)" "co_task_id c = t_id t" using row_of_SomeD by fast+
    have "filter (\<lambda>c. co_task_id c = t_id t) (consensuses s) = [c]"
      using filter_key_singleton [OF assms c(1)] c(2) by simp
    then have "filter (\<lambda>c. co_task_id c = t_id t \<and> P c) (consensuses s) = (if P c then [c] else [])" for P
      by (simp flip: filter_filter)
    then show ?thesis using Some by (simp add: unshipped_def)
  qed
  then show ?thesis
    unfolding undelivered_approved_def row_count_def length_filter_product
    by (simp add: sum_list_bool [where P = "unshipped s"])
qed

text \<open>In a state where every task lives its life, the approved tasks are those shipped and those not.\<close>

lemma verdict_of:
  "g \<in> set (grades s) \<Longrightarrow> g_task_id g = tid \<Longrightarrow> decided (g_id g) s \<in> set (verdicts tid s)"
  by (simp add: verdicts_def task_grades_def)

lemma shipped_task:
  assumes "alive s" "t \<in> set (tasks s)" "g \<in> set (grades s)" "shipped s g" "g_task_id g = t_id t" "tables_ok s"
  shows "t_status t = Approved \<and> \<not> unshipped s t"
proof -
  obtain u where u: "decided (g_id g) s = Some Approve" "u \<in> set (tasks s)" "t_id u = g_task_id g" "\<not> t_is_attention_check u"
    "\<forall>c. get_consensus (g_task_id g) s = Some c \<longrightarrow> co_delivered_grade_id c = Some (g_id g)"
    using assms(4) unfolding shipped_iff [OF tables_okD(1) [OF assms(6)]] by blast
  have "u = t" by (rule task_unique [OF tables_okD(1) [OF assms(6)] assms(2) u(2)]) (simp add: u(3) assms(5))
  then have gold: "\<not> t_is_attention_check t" using u(4) by simp
  have yes: "Some Approve \<in> set (verdicts (t_id t) s)" using verdict_of [OF assms(3,5)] u(1) by simp
  have life: "life t (verdicts (t_id t) s) (round_status (t_id t) s)" using assms(1,2) by (simp add: alive_def)
  have "t_status t = Approved"
  proof (cases "t_required_grades t = 1")
    case True
    then have "solo_life t (verdicts (t_id t) s)" using life gold by (simp add: life_def)
    moreover have "Some Approve \<in> set (standing (verdicts (t_id t) s))" using yes by (simp add: standing_def)
    ultimately show ?thesis by (auto simp: solo_life_def)
  next
    case False
    then have "panel_life t (verdicts (t_id t) s) (round_status (t_id t) s)" using life gold by (simp add: life_def)
    then show ?thesis using yes by (auto simp: panel_life_def split: if_splits)
  qed
  moreover have "\<not> unshipped s t"
  proof
    assume "unshipped s t"
    then obtain c where c: "get_consensus (t_id t) s = Some c"
      "\<not> (\<exists>r \<in> set (reviews s). co_delivered_grade_id c = Some (rv_grade_id r) \<and> rv_decision r = Approve)"
      by (auto simp: unshipped_def)
    have "co_delivered_grade_id c = Some (g_id g)" using u(5) c(1) assms(5) by simp
    moreover obtain r where "r \<in> set (reviews s)" "rv_grade_id r = g_id g" "rv_decision r = Approve"
      using decided_Some [OF u(1)] by blast
    ultimately show False using c(2) by auto
  qed
  ultimately show ?thesis by simp
qed

lemma approved_shipped:
  assumes "alive s" "t \<in> set (tasks s)" "t_status t = Approved" "\<not> unshipped s t" "tables_ok s"
  shows "\<exists>g \<in> set (grades s). shipped s g \<and> g_task_id g = t_id t"
proof -
  have life: "life t (verdicts (t_id t) s) (round_status (t_id t) s)" using assms(1,2) by (simp add: alive_def)
  have gold: "\<not> t_is_attention_check t" using life assms(3) by (auto simp: life_def split: if_splits)
  have pick: "\<exists>g \<in> set (grades s). shipped s g \<and> g_task_id g = t_id t"
    if "g \<in> set (grades s)" "g_task_id g = t_id t" "decided (g_id g) s = Some Approve"
      "\<And>c. get_consensus (t_id t) s = Some c \<Longrightarrow> co_delivered_grade_id c = Some (g_id g)" for g
    using that assms(2) gold unfolding shipped_iff [OF tables_okD(1) [OF assms(5)]]
    by (intro bexI [of _ g]) auto
  show ?thesis
  proof (cases "get_consensus (t_id t) s")
    case None
    then have "round_status (t_id t) s = None" by (simp add: round_status_def)
    then have "solo_life t (verdicts (t_id t) s)" using life gold assms(3) by (auto simp: life_def panel_life_def split: if_splits)
    then have "standing (verdicts (t_id t) s) = [Some Approve]" using assms(3) by (auto simp: solo_life_def)
    then have "Some Approve \<in> set (verdicts (t_id t) s)" by (auto simp: standing_def filter_eq_Cons_iff)
    then obtain g where "g \<in> set (grades s)" "g_task_id g = t_id t" "decided (g_id g) s = Some Approve"
      by (auto simp: verdicts_def task_grades_def)
    then show ?thesis by (rule pick) (simp add: None)
  next
    case (Some c)
    then obtain r where r: "r \<in> set (reviews s)" "co_delivered_grade_id c = Some (rv_grade_id r)" "rv_decision r = Approve"
      using assms(3,4) gold by (auto simp: unshipped_def)
    have c: "c \<in> set (consensuses s)" "co_task_id c = t_id t" using row_of_SomeD [OF Some] by simp_all
    have "pick_ok s (round_pick c)" using assms(5) c(1) by (auto simp: tables_ok_def refs_ok_def)
    then obtain g where g: "g \<in> set (grades s)" "g_id g = rv_grade_id r" "g_task_id g = t_id t"
      using r(2) c(2) by (auto simp: pick_ok_def round_pick_def)
    have "decided (g_id g) s = Some Approve"
      unfolding decided_iff [OF tables_okD(3) [OF assms(5)]] using r g(2) by auto
    then show ?thesis by (rule pick [OF g(1,3)]) (use Some r(2) g(2) in simp)
  qed
qed

text \<open>No task has two grades shipped.\<close>

lemma shipped_unique:
  assumes "alive s" "tables_ok s" "g \<in> set (grades s)" "h \<in> set (grades s)" "shipped s g" "shipped s h" "g_task_id g = g_task_id h"
  shows "g = h"
proof -
  note iff = shipped_iff [OF tables_okD(1) [OF assms(2)]]
  have ids: "x = y" if "x \<in> set (grades s)" "y \<in> set (grades s)" "g_id x = g_id y" for x y
    using tables_okD(2) [OF assms(2)] that by (metis distinct_map inj_onD)
  obtain t where t: "t \<in> set (tasks s)" "t_id t = g_task_id g" "\<not> t_is_attention_check t" using assms(5) unfolding iff by blast
  have life: "life t (verdicts (t_id t) s) (round_status (t_id t) s)" using assms(1) t(1) by (simp add: alive_def)
  show ?thesis
  proof (cases "get_consensus (g_task_id g) s")
    case None
    then have r: "round_status (t_id t) s = None" by (simp add: round_status_def t(2))
    have yes: "decided (g_id g) s = Some Approve" "decided (g_id h) s = Some Approve" using assms(5,6) unfolding iff by auto
    have "Some Approve \<in> set (verdicts (t_id t) s)" using verdict_of [OF assms(3) t(2) [symmetric]] yes(1) by simp
    then have "solo_life t (verdicts (t_id t) s)"
      using life t(3) r by (auto simp: life_def panel_life_def split: if_splits)
    moreover have "Some Approve \<in> set (standing (verdicts (t_id t) s))"
      using verdict_of [OF assms(3) t(2) [symmetric]] yes(1) by (simp add: standing_def)
    ultimately have "standing (verdicts (t_id t) s) = [Some Approve]" by (auto simp: solo_life_def)
    then have "length (filter (\<lambda>x. decided (g_id x) s \<noteq> Some Reject) (task_grades (t_id t) s)) = 1"
      by (simp add: standing_def verdicts_def filter_map comp_def) (metis One_nat_def length_Cons length_map list.size(3))
    then obtain x where x: "filter (\<lambda>x. decided (g_id x) s \<noteq> Some Reject) (task_grades (t_id t) s) = [x]"
      by (auto simp: length_Suc_conv)
    have "g \<in> set (filter (\<lambda>x. decided (g_id x) s \<noteq> Some Reject) (task_grades (t_id t) s))"
      "h \<in> set (filter (\<lambda>x. decided (g_id x) s \<noteq> Some Reject) (task_grades (t_id t) s))"
      using assms(3,4,7) t(2) yes by (simp_all add: task_grades_def)
    then show ?thesis unfolding x by simp
  next
    case (Some c)
    then have "co_delivered_grade_id c = Some (g_id g)" "co_delivered_grade_id c = Some (g_id h)"
      using assms(5-7) unfolding iff by auto
    then show ?thesis using ids assms(3,4) by simp
  qed
qed

lemma shipped_tasks_distinct:
  assumes "alive s" "tables_ok s"
  shows "distinct (map g_task_id (filter (shipped s) (grades s)))"
  unfolding distinct_map
proof
  show "distinct (filter (shipped s) (grades s))"
    using tables_okD(2) [OF assms(2)] by (simp add: distinct_map)
  show "inj_on g_task_id (set (filter (shipped s) (grades s)))"
    by (rule inj_onI) (use shipped_unique [OF assms] in simp)
qed

lemma count_shipped:
  assumes "alive s" "tables_ok s"
  shows "length (filter (shipped s) (grades s)) = length (filter (\<lambda>t. t_status t = Approved \<and> \<not> unshipped s t) (tasks s))"
proof -
  let ?gs = "filter (shipped s) (grades s)" and ?ts = "filter (\<lambda>t. t_status t = Approved \<and> \<not> unshipped s t) (tasks s)"
  have tasks: "g_task_id g \<in> t_id ` set (tasks s)" if "g \<in> set (grades s)" for g
    using assms(2) that by (simp add: tables_ok_def refs_ok_def)
  have "g_task_id ` set ?gs = t_id ` set ?ts"
  proof (intro equalityI subsetI)
    fix k assume "k \<in> g_task_id ` set ?gs"
    then obtain g where g: "g \<in> set (grades s)" "shipped s g" "k = g_task_id g" by auto
    then obtain t where t: "t \<in> set (tasks s)" "g_task_id g = t_id t" using tasks by blast
    have "t_status t = Approved \<and> \<not> unshipped s t" by (rule shipped_task [OF assms(1) t(1) g(1,2) t(2) assms(2)])
    then show "k \<in> t_id ` set ?ts" using t g(3) by auto
  next
    fix k assume "k \<in> t_id ` set ?ts"
    then obtain t where t: "t \<in> set (tasks s)" "t_status t = Approved" "\<not> unshipped s t" "k = t_id t" by auto
    then show "k \<in> g_task_id ` set ?gs" using approved_shipped [OF assms(1) t(1-3) assms(2)] by force
  qed
  then have "card (set (map g_task_id ?gs)) = card (set (map t_id ?ts))" by simp
  moreover have "distinct (map t_id ?ts)" using tables_okD(1) [OF assms(2)] by (rule distinct_map_filter)
  ultimately show ?thesis
    using distinct_card [OF shipped_tasks_distinct [OF assms]] distinct_card [of "map t_id ?ts"] by (simp only: length_map)
qed

lemma delivered_tasks:
  assumes "alive s" "tables_ok s"
  shows "distinct (map (\<lambda>(g, t, c). t_id t) (delivered_grades s))"
proof -
  let ?f = "\<lambda>(g, t, c :: consensus option). t_id t"
  have row: "map ?f (row_task g s) = (if shipped s g then [g_task_id g] else [])" for g
    by (auto simp: shipped_def row_task_def split: option.split dest: row_of_SomeD)
  have "map ?f (concat (map (\<lambda>g. row_task g s) gs)) = map g_task_id (filter (shipped s) gs)" for gs
    by (induction gs) (simp_all add: row)
  then have "mset (map ?f (delivered_grades s)) = mset (map g_task_id (filter (shipped s) (grades s)))"
    using arg_cong [OF delivered_grades_rows [OF tables_okD(3,1) [OF assms(2)]], of "image_mset ?f"] by (simp only: mset_map [symmetric])
  then show ?thesis using shipped_tasks_distinct [OF assms] mset_eq_imp_distinct_iff by blast
qed

section \<open>Properties\<close>

text \<open>
  C5: every approved task is accounted for. In every state the service can reach, the approved tasks are
  as many as the rows of a delivery plus the tasks a tick reports as approved but undelivered, and no
  task has two rows.
\<close>
theorem approved_tasks_accounted_for:
  assumes "reachable E io st0 (s, st)"
  shows "row_count (\<lambda>t. t_status t = Approved) (tasks s) = int (length (delivered_grades s)) + undelivered_approved s \<and>
    distinct (map (\<lambda>(g, t, c). t_id t) (delivered_grades s))"
proof -
  have ok: "alive s" "tables_ok s" using reachable_alive [OF assms] reachable_tables_ok [OF assms] by simp_all
  have "length (filter (\<lambda>t. t_status t = Approved) ts) =
      length (filter (\<lambda>t. t_status t = Approved \<and> \<not> unshipped s t) ts) + length (filter (unshipped s) ts)" for ts
    by (induction ts) (auto simp: unshipped_def)
  then have "row_count (\<lambda>t. t_status t = Approved) (tasks s) =
      int (length (filter (shipped s) (grades s))) + int (length (filter (unshipped s) (tasks s)))"
    by (simp add: row_count_def count_shipped [OF ok])
  then show ?thesis
    using delivered_tasks [OF ok] length_delivered_grades [OF tables_okD(3,1) [OF ok(2)]]
      undelivered_approved_tasks [OF tables_okD(4) [OF ok(2)]] by simp
qed

theorem approved_tasks_accounted_for_witness:
  "row_count (\<lambda>t. t_status t = Approved) (tasks sample_busy) = int (length (delivered_grades sample_busy)) + undelivered_approved sample_busy"
  by (rule conjunct1 [OF approved_tasks_accounted_for [OF sample_busy_reachable]])

end
