(* ===== verification/Catalog.thy ===== *)
theory Catalog
  imports Prelude
begin

text \<open>
  The schema of a database and the statements a migration issues. A column, a constraint, an index and a
  table are what \<open>CREATE TABLE\<close> declares; the catalogue holds the tables and the enum types; the contents are
  the rows of every table, a row giving each column a text or \<open>NULL\<close>. \<open>exec\<close> is the effect of one statement,
  \<open>None\<close> where the database refuses it: a name that is taken or missing, a table or a type something else
  depends on, a row that violates a new constraint or does not fit a new type.
\<close>

named_theorems ddl_simps \<open>running the statements of a migration\<close>

section \<open>Schemas\<close>

datatype sql_type =
    Uuid_T | Integer_T | Big_Integer_T | Float_T | Boolean_T | Text_T | Json_T | Jsonb_T | Timestamp_T
  | String_T nat | Array_T sql_type | Enum_T string

datatype generation = Supplied | Autoincrement | Identity

record column =
  cn_name :: string
  cn_type :: sql_type
  cn_nullable :: bool
  cn_default :: "string option"
  cn_generated :: generation

record foreign_key =
  fk_name :: "string option"
  fk_columns :: "string list"
  fk_table :: string
  fk_referred :: "string list"
  fk_ondelete :: "string option"

record unique_key =
  uk_name :: "string option"
  uk_columns :: "string list"

record index =
  ix_name :: string
  ix_columns :: "string list"
  ix_using :: "string option"

record table =
  tb_name :: string
  tb_columns :: "column list"
  tb_primary_key :: "string list"
  tb_unique_keys :: "unique_key list"
  tb_foreign_keys :: "foreign_key list"
  tb_indexes :: "index list"

type_synonym enum_types = "string \<rightharpoonup> string list"

record catalogue =
  ct_tables :: "table list"
  ct_types :: enum_types

abbreviation table_of :: "string \<Rightarrow> catalogue \<Rightarrow> table option" where
  "table_of n c \<equiv> row_of tb_name n (ct_tables c)"

definition col :: "string \<Rightarrow> sql_type \<Rightarrow> bool \<Rightarrow> column" where
  "col n ty nullable = \<lparr>cn_name = n, cn_type = ty, cn_nullable = nullable, cn_default = None, cn_generated = Supplied\<rparr>"

definition defaulting :: "string \<Rightarrow> column \<Rightarrow> column" where
  "defaulting d c = c\<lparr>cn_default := Some d\<rparr>"

definition generated :: "generation \<Rightarrow> column \<Rightarrow> column" where
  "generated g c = c\<lparr>cn_generated := g\<rparr>"

definition references :: "string list \<Rightarrow> string \<Rightarrow> string list \<Rightarrow> foreign_key" where
  "references cs t rs = \<lparr>fk_name = None, fk_columns = cs, fk_table = t, fk_referred = rs, fk_ondelete = None\<rparr>"

definition cascading :: "foreign_key \<Rightarrow> foreign_key" where
  "cascading k = k\<lparr>fk_ondelete := Some ''CASCADE''\<rparr>"

definition unique :: "string list \<Rightarrow> unique_key" where
  "unique cs = \<lparr>uk_name = None, uk_columns = cs\<rparr>"

definition unique_as :: "string \<Rightarrow> string list \<Rightarrow> unique_key" where
  "unique_as n cs = \<lparr>uk_name = Some n, uk_columns = cs\<rparr>"

section \<open>Contents\<close>

type_synonym sql_row = "string \<rightharpoonup> string"
type_synonym contents = "string \<Rightarrow> sql_row list"
type_synonym database = "catalogue \<times> contents"

definition empty_database :: database where
  "empty_database = (\<lparr>ct_tables = [], ct_types = (\<lambda>_. None)\<rparr>, \<lambda>_. [])"

text \<open>A value fits an enum type when it is \<open>NULL\<close> or one of its labels.\<close>

definition fits :: "string list \<Rightarrow> string option \<Rightarrow> bool" where
  "fits labels v = (case v of None \<Rightarrow> True | Some x \<Rightarrow> x \<in> set labels)"

definition column_fits :: "enum_types \<Rightarrow> sql_row list \<Rightarrow> column \<Rightarrow> bool" where
  "column_fits types rows c = (case cn_type c of
     Enum_T ty \<Rightarrow> list_all (\<lambda>r. case types ty of None \<Rightarrow> False | Some labels \<Rightarrow> fits labels (r (cn_name c))) rows
   | _ \<Rightarrow> True)"

text \<open>A row satisfies a foreign key when one of its columns is \<open>NULL\<close> or the referred table has a row with these values.\<close>

definition refers :: "contents \<Rightarrow> foreign_key \<Rightarrow> sql_row \<Rightarrow> bool" where
  "refers d k r \<longleftrightarrow> None \<in> set (map r (fk_columns k)) \<or>
     list_ex (\<lambda>r'. map r' (fk_referred k) = map r (fk_columns k)) (d (fk_table k))"

section \<open>Statements\<close>

datatype ddl =
    Create_Table "(string \<times> string list) list" table
  | Drop_Table string
  | Create_Index string index
  | Drop_Index string string
  | Add_Column string column
  | Drop_Column string string
  | Create_Foreign_Key string foreign_key
  | Drop_Foreign_Key string string
  | Add_Value_If_Not_Exists string string string
  | Create_Type string "string list"
  | Rename_Type string string
  | Drop_Type string
  | Drop_Type_If_Exists string
  | Alter_Column_Type string string string
  | Update_To_Value string string string string string
  | Update_To_Column string string string string string

text \<open>
  \<open>Create_Table\<close> first creates the enum types its columns name and the catalogue does not have.
  \<open>Add_Value_If_Not_Exists ty v w\<close> adds the label \<open>v\<close> after \<open>w\<close>. \<open>Alter_Column_Type t c ty\<close> casts the column
  through its text. \<open>Update_To_Value t c v w x\<close> is \<open>UPDATE t SET c = 'v' WHERE w = 'x'\<close>, \<open>Update_To_Column\<close> the
  same with the column \<open>v\<close> in place of the literal.
\<close>

definition add_types :: "(string \<times> string list) list \<Rightarrow> enum_types \<Rightarrow> enum_types" where
  "add_types enums types = fold (\<lambda>(n, labels) m. if m n = None then m(n \<mapsto> labels) else m) enums types"

fun enum_of :: "sql_type \<Rightarrow> string list" where
  "enum_of (Enum_T n) = [n]"
| "enum_of (Array_T ty) = enum_of ty"
| "enum_of _ = []"

definition column_names :: "table \<Rightarrow> string list" where
  "column_names t = map cn_name (tb_columns t)"

definition known_types :: "enum_types \<Rightarrow> column \<Rightarrow> bool" where
  "known_types types c \<longleftrightarrow> list_all (\<lambda>n. types n \<noteq> None) (enum_of (cn_type c))"

definition has_columns :: "table \<Rightarrow> string list \<Rightarrow> bool" where
  "has_columns t cs \<longleftrightarrow> list_all (\<lambda>c. c \<in> set (column_names t)) cs"

definition target_ok :: "table list \<Rightarrow> foreign_key \<Rightarrow> bool" where
  "target_ok ts k = (case row_of tb_name (fk_table k) ts of None \<Rightarrow> False | Some t \<Rightarrow> has_columns t (fk_referred k))"

definition table_ok :: "catalogue \<Rightarrow> enum_types \<Rightarrow> table \<Rightarrow> bool" where
  "table_ok c types t \<longleftrightarrow> distinct (column_names t) \<and> list_all (known_types types) (tb_columns t) \<and>
     has_columns t (tb_primary_key t) \<and> list_all (\<lambda>u. has_columns t (uk_columns u)) (tb_unique_keys t) \<and>
     list_all (\<lambda>k. has_columns t (fk_columns k) \<and> target_ok (t # ct_tables c) k) (tb_foreign_keys t)"

definition index_names :: "catalogue \<Rightarrow> string list" where
  "index_names c = concat (map (\<lambda>t. map ix_name (tb_indexes t)) (ct_tables c))"

text \<open>Nothing but the table itself refers to it; nothing uses a type.\<close>

definition unreferenced :: "string \<Rightarrow> catalogue \<Rightarrow> bool" where
  "unreferenced n c \<longleftrightarrow>
     list_all (\<lambda>t. tb_name t = n \<or> list_all (\<lambda>k. fk_table k \<noteq> n) (tb_foreign_keys t)) (ct_tables c)"

definition column_unreferenced :: "string \<Rightarrow> string \<Rightarrow> catalogue \<Rightarrow> bool" where
  "column_unreferenced n cn c \<longleftrightarrow>
     list_all (\<lambda>t. list_all (\<lambda>k. fk_table k \<noteq> n \<or> cn \<notin> set (fk_referred k)) (tb_foreign_keys t)) (ct_tables c)"

definition type_unused :: "string \<Rightarrow> catalogue \<Rightarrow> bool" where
  "type_unused ty c \<longleftrightarrow>
     list_all (\<lambda>t. list_all (\<lambda>cn. ty \<notin> set (enum_of (cn_type cn))) (tb_columns t)) (ct_tables c)"

fun renamed :: "string \<Rightarrow> string \<Rightarrow> sql_type \<Rightarrow> sql_type" where
  "renamed old new (Enum_T n) = Enum_T (if n = old then new else n)"
| "renamed old new (Array_T ty) = Array_T (renamed old new ty)"
| "renamed old new ty = ty"

fun insert_after :: "'a \<Rightarrow> 'a \<Rightarrow> 'a list \<Rightarrow> 'a list" where
  "insert_after w v [] = [v]"
| "insert_after w v (x # xs) = (if x = w then x # v # xs else x # insert_after w v xs)"

definition change_table :: "string \<Rightarrow> (table \<Rightarrow> table) \<Rightarrow> catalogue \<Rightarrow> catalogue" where
  "change_table n f c = c\<lparr>ct_tables := update_row tb_name n f (ct_tables c)\<rparr>"

definition change_rows :: "string \<Rightarrow> (sql_row \<Rightarrow> sql_row) \<Rightarrow> contents \<Rightarrow> contents" where
  "change_rows n f d = d(n := map f (d n))"

definition drop_index :: "string \<Rightarrow> table \<Rightarrow> table" where
  "drop_index i t = t\<lparr>tb_indexes := filter (\<lambda>ix. ix_name ix \<noteq> i) (tb_indexes t)\<rparr>"

definition drop_column :: "string \<Rightarrow> table \<Rightarrow> table" where
  "drop_column cn t = t\<lparr>tb_columns := filter (\<lambda>c. cn_name c \<noteq> cn) (tb_columns t),
     tb_unique_keys := filter (\<lambda>u. cn \<notin> set (uk_columns u)) (tb_unique_keys t),
     tb_foreign_keys := filter (\<lambda>k. cn \<notin> set (fk_columns k)) (tb_foreign_keys t),
     tb_indexes := filter (\<lambda>ix. cn \<notin> set (ix_columns ix)) (tb_indexes t)\<rparr>"

definition drop_foreign_key :: "string \<Rightarrow> table \<Rightarrow> table" where
  "drop_foreign_key n t = t\<lparr>tb_foreign_keys := filter (\<lambda>k. fk_name k \<noteq> Some n) (tb_foreign_keys t)\<rparr>"

definition retype :: "string \<Rightarrow> sql_type \<Rightarrow> table \<Rightarrow> table" where
  "retype cn ty t = t\<lparr>tb_columns := update_row cn_name cn (\<lambda>c. c\<lparr>cn_type := ty\<rparr>) (tb_columns t)\<rparr>"

definition rename_types :: "string \<Rightarrow> string \<Rightarrow> table \<Rightarrow> table" where
  "rename_types old new t = t\<lparr>tb_columns := map (\<lambda>c. c\<lparr>cn_type := renamed old new (cn_type c)\<rparr>) (tb_columns t)\<rparr>"

text \<open>What the database checks of a table after an update of one of its columns.\<close>

definition column_holds :: "catalogue \<Rightarrow> contents \<Rightarrow> string \<Rightarrow> string \<Rightarrow> bool" where
  "column_holds c d n cn = (case table_of n c of None \<Rightarrow> False | Some t \<Rightarrow>
     list_all (\<lambda>x. cn_name x = cn \<longrightarrow> column_fits (ct_types c) (d n) x) (tb_columns t) \<and>
     list_all (\<lambda>k. cn \<in> set (fk_columns k) \<longrightarrow> list_all (refers d k) (d n)) (tb_foreign_keys t))"

definition check :: "bool \<Rightarrow> 'a \<Rightarrow> 'a option" where
  "check b x = (if b then Some x else None)"

section \<open>The effect of a statement\<close>

text \<open>What a statement makes of the catalogue.\<close>

definition in_table :: "string \<Rightarrow> (table \<Rightarrow> bool) \<Rightarrow> catalogue \<Rightarrow> bool" where
  "in_table n p c = (case table_of n c of None \<Rightarrow> False | Some t \<Rightarrow> p t)"

fun reshape :: "ddl \<Rightarrow> catalogue \<Rightarrow> catalogue option" where
  "reshape (Create_Table enums t) c = (let types = add_types enums (ct_types c) in
     check (table_of (tb_name t) c = None \<and> table_ok c types t)
       (c\<lparr>ct_tables := ct_tables c @ [t], ct_types := types\<rparr>))"
| "reshape (Drop_Table n) c =
     check (table_of n c \<noteq> None \<and> unreferenced n c) (c\<lparr>ct_tables := filter (\<lambda>t. tb_name t \<noteq> n) (ct_tables c)\<rparr>)"
| "reshape (Create_Index n ix) c =
     check (ix_name ix \<notin> set (index_names c) \<and> in_table n (\<lambda>t. has_columns t (ix_columns ix)) c)
       (change_table n (\<lambda>t. t\<lparr>tb_indexes := tb_indexes t @ [ix]\<rparr>) c)"
| "reshape (Drop_Index n i) c =
     check (in_table n (\<lambda>t. i \<in> ix_name ` set (tb_indexes t)) c) (change_table n (drop_index i) c)"
| "reshape (Add_Column n x) c =
     check (in_table n (\<lambda>t. cn_name x \<notin> set (column_names t)) c \<and> known_types (ct_types c) x)
       (change_table n (\<lambda>t. t\<lparr>tb_columns := tb_columns t @ [x]\<rparr>) c)"
| "reshape (Drop_Column n cn) c =
     check (in_table n (\<lambda>t. cn \<in> set (column_names t)) c \<and> column_unreferenced n cn c) (change_table n (drop_column cn) c)"
| "reshape (Create_Foreign_Key n k) c =
     check (in_table n (\<lambda>t. has_columns t (fk_columns k)) c \<and> target_ok (ct_tables c) k)
       (change_table n (\<lambda>t. t\<lparr>tb_foreign_keys := tb_foreign_keys t @ [k]\<rparr>) c)"
| "reshape (Drop_Foreign_Key n k) c =
     check (in_table n (\<lambda>t. Some k \<in> fk_name ` set (tb_foreign_keys t)) c) (change_table n (drop_foreign_key k) c)"
| "reshape (Add_Value_If_Not_Exists ty v w) c = (case ct_types c ty of
     None \<Rightarrow> None
   | Some labels \<Rightarrow> if v \<in> set labels then Some c
       else check (w \<in> set labels) (c\<lparr>ct_types := (ct_types c)(ty \<mapsto> insert_after w v labels)\<rparr>))"
| "reshape (Create_Type ty labels) c = check (ct_types c ty = None) (c\<lparr>ct_types := (ct_types c)(ty \<mapsto> labels)\<rparr>)"
| "reshape (Rename_Type old new) c =
     check (ct_types c old \<noteq> None \<and> ct_types c new = None)
       \<lparr>ct_tables = map (rename_types old new) (ct_tables c), ct_types = (ct_types c)(new := ct_types c old, old := None)\<rparr>"
| "reshape (Drop_Type ty) c =
     check (ct_types c ty \<noteq> None \<and> type_unused ty c) (c\<lparr>ct_types := (ct_types c)(ty := None)\<rparr>)"
| "reshape (Drop_Type_If_Exists ty) c =
     check (ct_types c ty = None \<or> type_unused ty c) (c\<lparr>ct_types := (ct_types c)(ty := None)\<rparr>)"
| "reshape (Alter_Column_Type n cn ty) c =
     check (in_table n (\<lambda>t. cn \<in> set (column_names t)) c \<and> ct_types c ty \<noteq> None) (change_table n (retype cn (Enum_T ty)) c)"
| "reshape (Update_To_Value n cn v w x) c = check (in_table n (\<lambda>t. has_columns t [cn, w]) c) c"
| "reshape (Update_To_Column n cn v w x) c = check (in_table n (\<lambda>t. has_columns t [cn, v, w]) c) c"

text \<open>What it makes of the rows.\<close>

fun rewrite :: "ddl \<Rightarrow> contents \<Rightarrow> contents" where
  "rewrite (Create_Table enums t) d = d(tb_name t := [])"
| "rewrite (Drop_Table n) d = d(n := [])"
| "rewrite (Add_Column n x) d = change_rows n (\<lambda>r. r(cn_name x := cn_default x)) d"
| "rewrite (Drop_Column n cn) d = change_rows n (\<lambda>r. r(cn := None)) d"
| "rewrite (Update_To_Value n cn v w x) d = change_rows n (\<lambda>r. if r w = Some x then r(cn \<mapsto> v) else r) d"
| "rewrite (Update_To_Column n cn v w x) d = change_rows n (\<lambda>r. if r w = Some x then r(cn := r v) else r) d"
| "rewrite _ d = d"

text \<open>
  What it asks of the rows: a new column that may not be \<open>NULL\<close> needs a default unless the table is empty, a
  new foreign key holds of every row, a cast finds every label, an update keeps its column well typed and
  its foreign keys satisfied.
\<close>

fun accepts :: "ddl \<Rightarrow> catalogue \<Rightarrow> contents \<Rightarrow> bool" where
  "accepts (Add_Column n x) c d \<longleftrightarrow> cn_nullable x \<or> cn_default x \<noteq> None \<or> d n = []"
| "accepts (Create_Foreign_Key n k) c d \<longleftrightarrow> list_all (refers d k) (d n)"
| "accepts (Alter_Column_Type n cn ty) c d \<longleftrightarrow> list_all (\<lambda>r. fits (the (ct_types c ty)) (r cn)) (d n)"
| "accepts (Update_To_Value n cn v w x) c d \<longleftrightarrow> column_holds c (rewrite (Update_To_Value n cn v w x) d) n cn"
| "accepts (Update_To_Column n cn v w x) c d \<longleftrightarrow> column_holds c (rewrite (Update_To_Column n cn v w x) d) n cn"
| "accepts _ c d \<longleftrightarrow> True"

definition exec :: "ddl \<Rightarrow> database \<Rightarrow> database option" where
  "exec op db = (case db of (c, d) \<Rightarrow>
     (case reshape op c of None \<Rightarrow> None | Some c' \<Rightarrow> check (accepts op c d) (c', rewrite op d)))"

text \<open>A migration runs in one transaction: it stops at the first statement that is refused.\<close>

fun run :: "ddl list \<Rightarrow> database \<Rightarrow> database option" where
  "run [] db = Some db"
| "run (op # ops) db = (case exec op db of None \<Rightarrow> None | Some db' \<Rightarrow> run ops db')"

lemma run_append: "run (ops @ ops') db = (case run ops db of None \<Rightarrow> None | Some db' \<Rightarrow> run ops' db')"
  by (induction ops arbitrary: db) (auto split: option.splits)

lemma run_trans: "run ops db = Some db1 \<Longrightarrow> run (ops @ ops') db = run ops' db1"
  by (simp add: run_append)

section \<open>The catalogue apart from the rows\<close>

text \<open>
  Most statements are refused for the state of the catalogue only. The run of a list of those is a run over
  the catalogue, which can be evaluated, whatever the rows are.
\<close>

fun reshapes :: "ddl list \<Rightarrow> catalogue \<Rightarrow> catalogue option" where
  "reshapes [] c = Some c"
| "reshapes (op # ops) c = (case reshape op c of None \<Rightarrow> None | Some c' \<Rightarrow> reshapes ops c')"

fun quiet :: "ddl \<Rightarrow> bool" where
  "quiet (Add_Column n x) \<longleftrightarrow> cn_nullable x \<or> cn_default x \<noteq> None"
| "quiet (Create_Foreign_Key n k) \<longleftrightarrow> False"
| "quiet (Alter_Column_Type n cn ty) \<longleftrightarrow> False"
| "quiet (Update_To_Value n cn v w x) \<longleftrightarrow> False"
| "quiet (Update_To_Column n cn v w x) \<longleftrightarrow> False"
| "quiet _ \<longleftrightarrow> True"

lemma quiet_accepts: "quiet op \<Longrightarrow> accepts op c d"
  by (cases op) auto

lemma exec_eq: "reshape op c = Some c' \<Longrightarrow> accepts op c d \<Longrightarrow> exec op (c, d) = Some (c', rewrite op d)"
  by (simp add: exec_def check_def)

lemma run_step: "reshape op c = Some c' \<Longrightarrow> accepts op c d \<Longrightarrow> run (op # ops) (c, d) = run ops (c', rewrite op d)"
  by (simp add: exec_eq)

lemma run_quiet:
  "list_all quiet ops \<Longrightarrow> reshapes ops c = Some c' \<Longrightarrow> run ops (c, d) = Some (c', fold rewrite ops d)"
proof (induction ops arbitrary: c d)
  case (Cons op ops)
  then obtain c1 where "reshape op c = Some c1" "reshapes ops c1 = Some c'" by (auto split: option.splits)
  with Cons show ?case by (simp add: exec_eq quiet_accepts)
qed simp

lemma reshapes_append:
  "reshapes (ops @ ops') c = (case reshapes ops c of None \<Rightarrow> None | Some c' \<Rightarrow> reshapes ops' c')"
  by (induction ops arbitrary: c) (auto split: option.splits)

text \<open>What the rows have to satisfy along a run.\<close>

fun accepted :: "ddl list \<Rightarrow> catalogue \<Rightarrow> contents \<Rightarrow> bool" where
  "accepted [] c d \<longleftrightarrow> True"
| "accepted (op # ops) c d \<longleftrightarrow> accepts op c d \<and> accepted ops (the (reshape op c)) (rewrite op d)"

lemma run_accepted:
  "reshapes ops c = Some c' \<Longrightarrow> accepted ops c d \<Longrightarrow> run ops (c, d) = Some (c', fold rewrite ops d)"
proof (induction ops arbitrary: c d)
  case (Cons op ops)
  then obtain c1 where "reshape op c = Some c1" "reshapes ops c1 = Some c'" by (auto split: option.splits)
  with Cons show ?case by (simp add: exec_eq)
qed simp

lemma accepted_quiet: "list_all quiet ops \<Longrightarrow> accepted ops c d"
  by (induction ops arbitrary: c d) (simp_all add: quiet_accepts)

lemma accepted_append:
  "reshapes ops c = Some c1 \<Longrightarrow> accepted ops c d \<Longrightarrow> accepted ops' c1 (fold rewrite ops d) \<Longrightarrow> accepted (ops @ ops') c d"
  by (induction ops arbitrary: c d) (auto split: option.splits)

lemma rewrite_empty: "(\<And>n. d n = []) \<Longrightarrow> rewrite op d n = []"
  by (cases op) (simp_all add: change_rows_def)

lemma column_holds_empty: "in_table n p c \<Longrightarrow> d n = [] \<Longrightarrow> column_holds c d n cn"
  by (cases "table_of n c") (simp_all add: in_table_def column_holds_def column_fits_def list_all_iff split: sql_type.split)

lemma accepts_empty:
  assumes "reshape op c = Some c'" "\<And>n. d n = []"
  shows "accepts op c d"
proof (cases op)
  case (Update_To_Value n cn v w x)
  then have "in_table n (\<lambda>t. has_columns t [cn, w]) c" using assms(1) by (simp add: check_def split: if_splits)
  then show ?thesis unfolding Update_To_Value accepts.simps
    by (rule column_holds_empty) (rule rewrite_empty, rule assms(2))
next
  case (Update_To_Column n cn v w x)
  then have "in_table n (\<lambda>t. has_columns t [cn, v, w]) c" using assms(1) by (simp add: check_def split: if_splits)
  then show ?thesis unfolding Update_To_Column accepts.simps
    by (rule column_holds_empty) (rule rewrite_empty, rule assms(2))
qed (simp_all add: assms(2))

lemma accepted_empty: "reshapes ops c = Some c' \<Longrightarrow> (\<And>n. d n = []) \<Longrightarrow> accepted ops c d \<and> (\<forall>n. fold rewrite ops d n = [])"
proof (induction ops arbitrary: c d)
  case (Cons op ops)
  then obtain c1 where r: "reshape op c = Some c1" "reshapes ops c1 = Some c'" by (auto split: option.splits)
  have "accepted ops c1 (rewrite op d) \<and> (\<forall>n. fold rewrite ops (rewrite op d) n = [])"
    by (rule Cons.IH [OF r(2)]) (rule rewrite_empty, rule Cons.prems(2))
  with r show ?case using accepts_empty [OF r(1) Cons.prems(2)] by simp
qed simp

text \<open>A statement knows only the enum types it names.\<close>

fun types_named :: "ddl \<Rightarrow> string list" where
  "types_named (Create_Table enums t) = map fst enums"
| "types_named (Add_Value_If_Not_Exists ty v w) = [ty]"
| "types_named (Create_Type ty labels) = [ty]"
| "types_named (Rename_Type old new) = [new]"
| "types_named _ = []"

lemma add_types_other: "ty \<notin> fst ` set enums \<Longrightarrow> add_types enums types ty = types ty"
  unfolding add_types_def by (induction enums arbitrary: types) auto

lemma reshape_types:
  assumes "reshape op c = Some c'" "ct_types c' ty \<noteq> None"
  shows "ct_types c ty \<noteq> None \<or> ty \<in> set (types_named op)"
  using assms add_types_other [of ty]
  by (cases op) (auto simp: check_def Let_def change_table_def split: if_splits option.splits)

lemma reshapes_types:
  "reshapes ops c = Some c' \<Longrightarrow> ct_types c' ty \<noteq> None \<Longrightarrow>
     ct_types c ty \<noteq> None \<or> ty \<in> set (concat (map types_named ops))"
proof (induction ops arbitrary: c)
  case (Cons op ops)
  then obtain c1 where "reshape op c = Some c1" "reshapes ops c1 = Some c'" by (auto split: option.splits)
  with Cons.IH [of c1] Cons.prems(2) reshape_types [of op c c1 ty] show ?case by auto
qed simp

section \<open>Rows that fit the catalogue\<close>

definition typed :: "database \<Rightarrow> bool" where
  "typed db = (case db of (c, d) \<Rightarrow>
     list_all (\<lambda>t. list_all (column_fits (ct_types c) (d (tb_name t))) (tb_columns t)) (ct_tables c))"

definition linked :: "database \<Rightarrow> bool" where
  "linked db = (case db of (c, d) \<Rightarrow>
     list_all (\<lambda>t. list_all (\<lambda>k. list_all (refers d k) (d (tb_name t))) (tb_foreign_keys t)) (ct_tables c))"

definition confined :: "database \<Rightarrow> bool" where
  "confined db = (case db of (c, d) \<Rightarrow> \<forall>n. table_of n c = None \<longrightarrow> d n = [])"

text \<open>A column of an enum type, and of no foreign key.\<close>

definition label_column :: "string \<Rightarrow> string \<Rightarrow> string \<Rightarrow> table \<Rightarrow> bool" where
  "label_column cn ty n t \<longleftrightarrow>
     list_all (\<lambda>x. cn_name x = cn \<longrightarrow> cn_type x = Enum_T ty) (tb_columns t) \<and> cn \<in> set (column_names t) \<and>
     list_all (\<lambda>k. cn \<notin> set (fk_columns k)) (tb_foreign_keys t)"

lemma typed_column:
  assumes "typed (c, d)" "in_table n (label_column cn ty n) c" "ct_types c ty = Some labels" "r \<in> set (d n)"
  shows "fits labels (r cn)"
proof -
  obtain t where t: "table_of n c = Some t" "label_column cn ty n t"
    using assms(2) by (auto simp: in_table_def split: option.splits)
  then obtain x where x: "x \<in> set (tb_columns t)" "cn_name x = cn" "cn_type x = Enum_T ty"
    by (auto simp: label_column_def list_all_iff column_names_def)
  have "t \<in> set (ct_tables c)" "tb_name t = n" using row_of_SomeD [OF t(1)] by simp_all
  then have "column_fits (ct_types c) (d n) x" using assms(1) x(1) by (auto simp: typed_def list_all_iff)
  then show ?thesis using x assms(3,4) by (simp add: column_fits_def list_all_iff)
qed

lemma column_holds_label:
  assumes "in_table n (label_column cn ty n) c" "ct_types c ty = Some labels" "\<And>r. r \<in> set (d n) \<Longrightarrow> fits labels (r cn)"
  shows "column_holds c d n cn"
proof -
  obtain t where "table_of n c = Some t" "label_column cn ty n t"
    using assms(1) by (auto simp: in_table_def split: option.splits)
  then show ?thesis using assms(2,3)
    by (auto simp: column_holds_def label_column_def list_all_iff column_fits_def)
qed

end
