(* ===== verification/Metadata.thy ===== *)
theory Metadata
  imports Catalog Models
begin

text \<open>
  The schema the models declare: for every class of \<open>panelist/models.py\<close> its table, with the columns, keys
  and indexes of the class body, and the labels of every enum type. \<open>Models\<close> has the rows of these tables.
  \<open>matches_models\<close> is the comparison of a catalogue with this schema that \<open>alembic/env.py\<close> sets up.
\<close>

definition orm_experts :: table where
  "orm_experts =
    \<lparr>tb_name = ''experts'',
     tb_columns =
      [col ''id'' Uuid_T False,
       col ''name'' (String_T 200) False,
       col ''tags'' (Array_T (String_T 64)) False,
       col ''tier'' (Enum_T ''tier'') False,
       col ''task_rate_cents'' Integer_T True,
       col ''status'' (Enum_T ''expert_status'') False,
       col ''served_count'' Integer_T False,
       col ''calibration_score'' Float_T True,
       defaulting ''0'' (col ''calibration_samples'' Integer_T False),
       col ''tier_updated_at'' Timestamp_T True,
       defaulting ''now()'' (col ''created_at'' Timestamp_T False)],
     tb_primary_key = [''id''],
     tb_unique_keys = [],
     tb_foreign_keys = [],
     tb_indexes = [\<lparr>ix_name = ''ix_experts_tags'', ix_columns = [''tags''], ix_using = Some ''gin''\<rparr>]\<rparr>"

definition orm_tier_changes :: table where
  "orm_tier_changes =
    \<lparr>tb_name = ''tier_changes'',
     tb_columns =
      [col ''id'' Uuid_T False,
       col ''expert_id'' Uuid_T False,
       col ''from_tier'' (Enum_T ''tier'') False,
       col ''to_tier'' (Enum_T ''tier'') False,
       col ''score'' Float_T False,
       col ''samples'' Integer_T False,
       defaulting ''now()'' (col ''created_at'' Timestamp_T False)],
     tb_primary_key = [''id''],
     tb_unique_keys = [],
     tb_foreign_keys = [references [''expert_id''] ''experts'' [''id'']],
     tb_indexes = [\<lparr>ix_name = ''ix_tier_changes_expert_created'', ix_columns = [''expert_id'', ''created_at''], ix_using = None\<rparr>]\<rparr>"

definition orm_rubrics :: table where
  "orm_rubrics =
    \<lparr>tb_name = ''rubrics'',
     tb_columns =
      [col ''id'' Uuid_T False,
       col ''name'' (String_T 200) False,
       col ''version'' Integer_T False,
       defaulting ''now()'' (col ''created_at'' Timestamp_T False),
       col ''superseded_at'' Timestamp_T True,
       col ''superseded_by_id'' Uuid_T True],
     tb_primary_key = [''id''],
     tb_unique_keys = [unique_as ''uq_rubric_name_version'' [''name'', ''version'']],
     tb_foreign_keys = [references [''superseded_by_id''] ''rubrics'' [''id'']],
     tb_indexes = []\<rparr>"

definition orm_rubric_criteria :: table where
  "orm_rubric_criteria =
    \<lparr>tb_name = ''rubric_criteria'',
     tb_columns =
      [col ''id'' Uuid_T False,
       col ''rubric_id'' Uuid_T False,
       col ''key'' (String_T 64) False,
       col ''label'' (String_T 200) False,
       col ''weight'' Float_T False,
       col ''scale_min'' Integer_T False,
       col ''scale_max'' Integer_T False,
       col ''position'' Integer_T False],
     tb_primary_key = [''id''],
     tb_unique_keys = [unique_as ''uq_criterion_key'' [''rubric_id'', ''key'']],
     tb_foreign_keys = [cascading (references [''rubric_id''] ''rubrics'' [''id''])],
     tb_indexes = []\<rparr>"

definition orm_rate_cards :: table where
  "orm_rate_cards =
    \<lparr>tb_name = ''rate_cards'',
     tb_columns =
      [col ''tier'' (Enum_T ''tier'') False,
       col ''task_type'' (String_T 64) False,
       col ''rate_cents'' Integer_T False],
     tb_primary_key = [''tier'', ''task_type''],
     tb_unique_keys = [],
     tb_foreign_keys = [],
     tb_indexes = []\<rparr>"

definition orm_tasks :: table where
  "orm_tasks =
    \<lparr>tb_name = ''tasks'',
     tb_columns =
      [col ''id'' Uuid_T False,
       generated Identity (col ''seq'' Big_Integer_T False),
       col ''external_ref'' (String_T 128) True,
       col ''prompt'' Text_T False,
       col ''responses'' Jsonb_T False,
       col ''required_tags'' (Array_T (String_T 64)) False,
       col ''task_type'' (String_T 64) False,
       col ''min_tier'' (Enum_T ''tier'') False,
       col ''rubric_id'' Uuid_T False,
       col ''pinned_rubric_id'' Uuid_T True,
       col ''priority'' Integer_T False,
       col ''deadline'' Timestamp_T True,
       col ''status'' (Enum_T ''task_status'') False,
       col ''required_grades'' Integer_T False,
       col ''grades_received'' Integer_T False,
       col ''is_attention_check'' Boolean_T False,
       col ''expected_scores'' Jsonb_T True,
       col ''assigned_expert_id'' Uuid_T True,
       col ''assigned_at'' Timestamp_T True,
       col ''lease_expires_at'' Timestamp_T True,
       col ''reclaim_count'' Integer_T False,
       defaulting ''now()'' (col ''created_at'' Timestamp_T False)],
     tb_primary_key = [''id''],
     tb_unique_keys = [unique [''seq'']],
     tb_foreign_keys = [references [''rubric_id''] ''rubrics'' [''id''],
       references [''pinned_rubric_id''] ''rubrics'' [''id''],
       references [''assigned_expert_id''] ''experts'' [''id'']],
     tb_indexes = [\<lparr>ix_name = ''ix_tasks_required_tags'', ix_columns = [''required_tags''], ix_using = Some ''gin''\<rparr>, \<lparr>ix_name = ''ix_tasks_queue'', ix_columns = [''status'', ''priority'', ''deadline'', ''seq''], ix_using = None\<rparr>, \<lparr>ix_name = ''ix_tasks_lease'', ix_columns = [''status'', ''lease_expires_at''], ix_using = None\<rparr>]\<rparr>"

definition orm_grades :: table where
  "orm_grades =
    \<lparr>tb_name = ''grades'',
     tb_columns =
      [col ''id'' Uuid_T False,
       col ''task_id'' Uuid_T False,
       col ''expert_id'' Uuid_T False,
       col ''rubric_id'' Uuid_T False,
       col ''scores_snapshot'' Jsonb_T False,
       col ''rationale'' Text_T False,
       col ''time_spent_seconds'' Integer_T False,
       col ''weighted_score'' Float_T False,
       defaulting ''now()'' (col ''submitted_at'' Timestamp_T False)],
     tb_primary_key = [''id''],
     tb_unique_keys = [unique_as ''uq_grade_task_expert'' [''task_id'', ''expert_id'']],
     tb_foreign_keys = [references [''task_id''] ''tasks'' [''id''],
       references [''expert_id''] ''experts'' [''id''],
       references [''rubric_id''] ''rubrics'' [''id'']],
     tb_indexes = []\<rparr>"

definition orm_grade_scores :: table where
  "orm_grade_scores =
    \<lparr>tb_name = ''grade_scores'',
     tb_columns =
      [col ''grade_id'' Uuid_T False,
       col ''criterion_id'' Uuid_T False,
       col ''score'' Float_T False],
     tb_primary_key = [''grade_id'', ''criterion_id''],
     tb_unique_keys = [],
     tb_foreign_keys = [cascading (references [''grade_id''] ''grades'' [''id'']),
       references [''criterion_id''] ''rubric_criteria'' [''id'']],
     tb_indexes = []\<rparr>"

definition orm_reviews :: table where
  "orm_reviews =
    \<lparr>tb_name = ''reviews'',
     tb_columns =
      [col ''id'' Uuid_T False,
       col ''grade_id'' Uuid_T False,
       col ''reviewer_key_id'' Uuid_T False,
       col ''decision'' (Enum_T ''review_decision'') False,
       col ''reason'' Text_T True,
       defaulting ''now()'' (col ''created_at'' Timestamp_T False)],
     tb_primary_key = [''id''],
     tb_unique_keys = [unique [''grade_id'']],
     tb_foreign_keys = [references [''grade_id''] ''grades'' [''id''],
       references [''reviewer_key_id''] ''api_keys'' [''id'']],
     tb_indexes = []\<rparr>"

definition orm_consensus :: table where
  "orm_consensus =
    \<lparr>tb_name = ''consensus'',
     tb_columns =
      [col ''id'' Uuid_T False,
       col ''task_id'' Uuid_T False,
       col ''status'' (Enum_T ''consensus_status'') False,
       col ''grade_count'' Integer_T False,
       col ''spread'' Float_T False,
       col ''tolerance'' Float_T False,
       col ''delivered_grade_id'' Uuid_T True,
       col ''adjudicator_key_id'' Uuid_T True,
       col ''reason'' Text_T True,
       defaulting ''now()'' (col ''created_at'' Timestamp_T False),
       col ''resolved_at'' Timestamp_T True],
     tb_primary_key = [''id''],
     tb_unique_keys = [unique [''task_id'']],
     tb_foreign_keys = [references [''task_id''] ''tasks'' [''id''],
       references [''delivered_grade_id''] ''grades'' [''id''],
       references [''adjudicator_key_id''] ''api_keys'' [''id'']],
     tb_indexes = [\<lparr>ix_name = ''ix_consensus_status_created'', ix_columns = [''status'', ''created_at''], ix_using = None\<rparr>]\<rparr>"

definition orm_payout_periods :: table where
  "orm_payout_periods =
    \<lparr>tb_name = ''payout_periods'',
     tb_columns =
      [col ''id'' Uuid_T False,
       col ''label'' (String_T 64) False,
       defaulting ''now()'' (col ''closed_at'' Timestamp_T False)],
     tb_primary_key = [''id''],
     tb_unique_keys = [unique [''label'']],
     tb_foreign_keys = [],
     tb_indexes = []\<rparr>"

definition orm_payouts :: table where
  "orm_payouts =
    \<lparr>tb_name = ''payouts'',
     tb_columns =
      [col ''id'' Uuid_T False,
       col ''expert_id'' Uuid_T False,
       col ''task_id'' Uuid_T False,
       col ''grade_id'' Uuid_T False,
       col ''tier'' (Enum_T ''tier'') False,
       col ''task_type'' (String_T 64) False,
       col ''amount_cents'' Integer_T False,
       col ''status'' (Enum_T ''payout_status'') False,
       col ''period_id'' Uuid_T True,
       defaulting ''now()'' (col ''created_at'' Timestamp_T False),
       col ''paid_at'' Timestamp_T True],
     tb_primary_key = [''id''],
     tb_unique_keys = [unique [''grade_id''], unique_as ''uq_payout_task_expert'' [''task_id'', ''expert_id'']],
     tb_foreign_keys = [references [''expert_id''] ''experts'' [''id''],
       references [''task_id''] ''tasks'' [''id''],
       references [''grade_id''] ''grades'' [''id''],
       references [''period_id''] ''payout_periods'' [''id'']],
     tb_indexes = [\<lparr>ix_name = ''ix_payouts_expert_status'', ix_columns = [''expert_id'', ''status''], ix_using = None\<rparr>]\<rparr>"

definition orm_attention_results :: table where
  "orm_attention_results =
    \<lparr>tb_name = ''attention_results'',
     tb_columns =
      [col ''id'' Uuid_T False,
       col ''task_id'' Uuid_T False,
       col ''expert_id'' Uuid_T False,
       col ''grade_id'' Uuid_T False,
       col ''passed'' Boolean_T False,
       col ''max_deviation'' Float_T False,
       defaulting ''now()'' (col ''created_at'' Timestamp_T False)],
     tb_primary_key = [''id''],
     tb_unique_keys = [],
     tb_foreign_keys = [references [''task_id''] ''tasks'' [''id''],
       references [''expert_id''] ''experts'' [''id''],
       references [''grade_id''] ''grades'' [''id'']],
     tb_indexes = [\<lparr>ix_name = ''ix_attention_expert_created'', ix_columns = [''expert_id'', ''created_at''], ix_using = None\<rparr>]\<rparr>"

definition orm_audit_events :: table where
  "orm_audit_events =
    \<lparr>tb_name = ''audit_events'',
     tb_columns =
      [generated Autoincrement (col ''id'' Integer_T False),
       col ''actor'' (String_T 128) False,
       col ''action'' (String_T 64) False,
       col ''entity_type'' (String_T 64) False,
       col ''entity_id'' (String_T 64) False,
       col ''payload'' Json_T False,
       defaulting ''now()'' (col ''created_at'' Timestamp_T False)],
     tb_primary_key = [''id''],
     tb_unique_keys = [],
     tb_foreign_keys = [],
     tb_indexes = []\<rparr>"

definition orm_api_keys :: table where
  "orm_api_keys =
    \<lparr>tb_name = ''api_keys'',
     tb_columns =
      [col ''id'' Uuid_T False,
       col ''key_hash'' (String_T 64) False,
       col ''role'' (Enum_T ''role'') False,
       col ''expert_id'' Uuid_T True,
       col ''label'' (String_T 128) False,
       defaulting ''now()'' (col ''created_at'' Timestamp_T False),
       col ''revoked_at'' Timestamp_T True],
     tb_primary_key = [''id''],
     tb_unique_keys = [unique [''key_hash'']],
     tb_foreign_keys = [references [''expert_id''] ''experts'' [''id'']],
     tb_indexes = []\<rparr>"

definition orm_deliveries :: table where
  "orm_deliveries =
    \<lparr>tb_name = ''deliveries'',
     tb_columns =
      [col ''id'' Uuid_T False,
       col ''version'' Integer_T False,
       col ''checksum'' (String_T 64) False,
       col ''location'' (String_T 512) False,
       col ''row_count'' Integer_T False,
       col ''size_bytes'' Integer_T False,
       defaulting ''now()'' (col ''created_at'' Timestamp_T False)],
     tb_primary_key = [''id''],
     tb_unique_keys = [unique [''version'']],
     tb_foreign_keys = [],
     tb_indexes = []\<rparr>"

definition orm_tables :: "table list" where
  "orm_tables = [orm_experts, orm_tier_changes, orm_rubrics, orm_rubric_criteria, orm_rate_cards, orm_tasks, orm_grades, orm_grade_scores,
     orm_reviews, orm_consensus, orm_payout_periods, orm_payouts, orm_attention_results, orm_audit_events, orm_api_keys, orm_deliveries]"

text \<open>An enum type has a label per member of its class.\<close>

definition orm_types :: "(string \<times> string list) list" where
  "orm_types =
    [(''tier'', map tier_value [Junior, Senior, Lead]),
     (''expert_status'', map expert_status_value [Active, Paused, Inactive]),
     (''task_status'', map task_status_value [Queued, Assigned, Submitted, Adjudication, Approved, Rejected]),
     (''consensus_status'', map consensus_status_value [Agreed, Adjudicating, Adjudicated]),
     (''review_decision'', map review_decision_value [Approve, Reject]),
     (''payout_status'', map payout_status_value [Pending, Withheld, Paid]),
     (''role'', map role_value [ExpertRole, ReviewerRole, SeniorReviewerRole, AdminRole])]"

section \<open>Comparing a catalogue with the models\<close>

definition retired_columns :: "(string \<times> string) list" where
  "retired_columns = [(''experts'', ''hourly_rate_cents'')]"

definition include_object :: "string \<Rightarrow> string \<Rightarrow> bool \<Rightarrow> string \<Rightarrow> bool" where
  "include_object table_name kind reflected name \<longleftrightarrow>
     \<not> (kind = ''column'' \<and> reflected \<and> (table_name, name) \<in> set retired_columns)"

text \<open>The order of columns, constraints and indexes does not matter, nor the name of a foreign key.\<close>

definition same_items :: "'a list \<Rightarrow> 'a list \<Rightarrow> bool" where
  "same_items xs ys \<longleftrightarrow> list_all (\<lambda>x. x \<in> set ys) xs \<and> list_all (\<lambda>y. y \<in> set xs) ys \<and> length xs = length ys"

definition same_table :: "table \<Rightarrow> table \<Rightarrow> bool" where
  "same_table declared found \<longleftrightarrow>
     same_items (tb_columns declared)
       (filter (\<lambda>c. include_object (tb_name found) ''column'' True (cn_name c)) (tb_columns found)) \<and>
     tb_primary_key declared = tb_primary_key found \<and>
     same_items (tb_unique_keys declared) (tb_unique_keys found) \<and>
     same_items (map (\<lambda>k. k\<lparr>fk_name := None\<rparr>) (tb_foreign_keys declared))
       (map (\<lambda>k. k\<lparr>fk_name := None\<rparr>) (tb_foreign_keys found)) \<and>
     same_items (tb_indexes declared) (tb_indexes found)"

definition matches_models :: "catalogue \<Rightarrow> bool" where
  "matches_models c \<longleftrightarrow>
     same_items (map tb_name orm_tables) (map tb_name (ct_tables c)) \<and>
     list_all (\<lambda>u. case table_of (tb_name u) c of None \<Rightarrow> False | Some t \<Rightarrow> same_table u t) orm_tables \<and>
     list_all (\<lambda>(n, labels). ct_types c n = Some labels) orm_types"

end
