(* ===== verification/Migrations.thy ===== *)
theory Migrations
  imports Metadata
begin

text \<open>
  The revisions under \<open>alembic/versions/\<close>: the statements each \<open>upgrade\<close> and \<open>downgrade\<close> issues, in order, and
  the chain they form.
\<close>

definition initial_audit_events :: ddl where
  "initial_audit_events = Create_Table []
    \<lparr>tb_name = ''audit_events'',
     tb_columns =
      [generated Autoincrement (col ''id'' Integer_T False),
       col ''actor'' (String_T 128) False,
       col ''action'' (String_T 64) False,
       col ''entity_type'' (String_T 64) False,
       col ''entity_id'' (String_T 64) False,
       col ''payload'' Json_T False,
       defaulting ''now()'' (col ''created_at'' Timestamp_T False)],
     tb_primary_key = [''id''],
     tb_unique_keys = [],
     tb_foreign_keys = [],
     tb_indexes = []\<rparr>"

definition initial_deliveries :: ddl where
  "initial_deliveries = Create_Table []
    \<lparr>tb_name = ''deliveries'',
     tb_columns =
      [col ''id'' Uuid_T False,
       col ''version'' Integer_T False,
       col ''checksum'' (String_T 64) False,
       col ''location'' (String_T 512) False,
       col ''row_count'' Integer_T False,
       col ''size_bytes'' Integer_T False,
       defaulting ''now()'' (col ''created_at'' Timestamp_T False)],
     tb_primary_key = [''id''],
     tb_unique_keys = [unique [''version'']],
     tb_foreign_keys = [],
     tb_indexes = []\<rparr>"

definition initial_experts :: ddl where
  "initial_experts = Create_Table [(''tier'', [''junior'', ''senior'', ''lead'']), (''expert_status'', [''active'', ''paused'', ''inactive''])]
    \<lparr>tb_name = ''experts'',
     tb_columns =
      [col ''id'' Uuid_T False,
       col ''name'' (String_T 200) False,
       col ''tags'' (Array_T (String_T 64)) False,
       col ''tier'' (Enum_T ''tier'') False,
       col ''task_rate_cents'' Integer_T True,
       col ''hourly_rate_cents'' Integer_T True,
       col ''status'' (Enum_T ''expert_status'') False,
       col ''served_count'' Integer_T False,
       defaulting ''now()'' (col ''created_at'' Timestamp_T False)],
     tb_primary_key = [''id''],
     tb_unique_keys = [],
     tb_foreign_keys = [],
     tb_indexes = []\<rparr>"

definition initial_payout_periods :: ddl where
  "initial_payout_periods = Create_Table []
    \<lparr>tb_name = ''payout_periods'',
     tb_columns =
      [col ''id'' Uuid_T False,
       col ''label'' (String_T 64) False,
       defaulting ''now()'' (col ''closed_at'' Timestamp_T False)],
     tb_primary_key = [''id''],
     tb_unique_keys = [unique [''label'']],
     tb_foreign_keys = [],
     tb_indexes = []\<rparr>"

definition initial_rate_cards :: ddl where
  "initial_rate_cards = Create_Table [(''tier'', [''junior'', ''senior'', ''lead''])]
    \<lparr>tb_name = ''rate_cards'',
     tb_columns =
      [col ''tier'' (Enum_T ''tier'') False,
       col ''task_type'' (String_T 64) False,
       col ''rate_cents'' Integer_T False],
     tb_primary_key = [''tier'', ''task_type''],
     tb_unique_keys = [],
     tb_foreign_keys = [],
     tb_indexes = []\<rparr>"

definition initial_rubrics :: ddl where
  "initial_rubrics = Create_Table []
    \<lparr>tb_name = ''rubrics'',
     tb_columns =
      [col ''id'' Uuid_T False,
       col ''name'' (String_T 200) False,
       col ''version'' Integer_T False,
       defaulting ''now()'' (col ''created_at'' Timestamp_T False)],
     tb_primary_key = [''id''],
     tb_unique_keys = [unique_as ''uq_rubric_name_version'' [''name'', ''version'']],
     tb_foreign_keys = [],
     tb_indexes = []\<rparr>"

definition initial_api_keys :: ddl where
  "initial_api_keys = Create_Table [(''role'', [''expert'', ''reviewer'', ''admin''])]
    \<lparr>tb_name = ''api_keys'',
     tb_columns =
      [col ''id'' Uuid_T False,
       col ''key_hash'' (String_T 64) False,
       col ''role'' (Enum_T ''role'') False,
       col ''expert_id'' Uuid_T True,
       col ''label'' (String_T 128) False,
       defaulting ''now()'' (col ''created_at'' Timestamp_T False),
       col ''revoked_at'' Timestamp_T True],
     tb_primary_key = [''id''],
     tb_unique_keys = [unique [''key_hash'']],
     tb_foreign_keys = [references [''expert_id''] ''experts'' [''id'']],
     tb_indexes = []\<rparr>"

definition initial_rubric_criteria :: ddl where
  "initial_rubric_criteria = Create_Table []
    \<lparr>tb_name = ''rubric_criteria'',
     tb_columns =
      [col ''id'' Uuid_T False,
       col ''rubric_id'' Uuid_T False,
       col ''key'' (String_T 64) False,
       col ''label'' (String_T 200) False,
       col ''weight'' Float_T False,
       col ''scale_min'' Integer_T False,
       col ''scale_max'' Integer_T False,
       col ''position'' Integer_T False],
     tb_primary_key = [''id''],
     tb_unique_keys = [unique_as ''uq_criterion_key'' [''rubric_id'', ''key'']],
     tb_foreign_keys = [cascading (references [''rubric_id''] ''rubrics'' [''id''])],
     tb_indexes = []\<rparr>"

definition initial_tasks :: ddl where
  "initial_tasks = Create_Table [(''tier'', [''junior'', ''senior'', ''lead'']), (''task_status'', [''queued'', ''assigned'', ''submitted'', ''approved'', ''rejected''])]
    \<lparr>tb_name = ''tasks'',
     tb_columns =
      [col ''id'' Uuid_T False,
       generated Identity (col ''seq'' Big_Integer_T False),
       col ''external_ref'' (String_T 128) True,
       col ''prompt'' Text_T False,
       col ''responses'' Jsonb_T False,
       col ''required_tags'' (Array_T (String_T 64)) False,
       col ''task_type'' (String_T 64) False,
       col ''min_tier'' (Enum_T ''tier'') False,
       col ''rubric_id'' Uuid_T False,
       col ''priority'' Integer_T False,
       col ''deadline'' Timestamp_T True,
       col ''status'' (Enum_T ''task_status'') False,
       col ''required_grades'' Integer_T False,
       col ''grades_received'' Integer_T False,
       col ''is_attention_check'' Boolean_T False,
       col ''expected_scores'' Jsonb_T True,
       col ''assigned_expert_id'' Uuid_T True,
       col ''assigned_at'' Timestamp_T True,
       col ''lease_expires_at'' Timestamp_T True,
       col ''reclaim_count'' Integer_T False,
       defaulting ''now()'' (col ''created_at'' Timestamp_T False)],
     tb_primary_key = [''id''],
     tb_unique_keys = [unique [''seq'']],
     tb_foreign_keys = [references [''assigned_expert_id''] ''experts'' [''id''],
       references [''rubric_id''] ''rubrics'' [''id'']],
     tb_indexes = []\<rparr>"

definition initial_grades :: ddl where
  "initial_grades = Create_Table []
    \<lparr>tb_name = ''grades'',
     tb_columns =
      [col ''id'' Uuid_T False,
       col ''task_id'' Uuid_T False,
       col ''expert_id'' Uuid_T False,
       col ''rubric_id'' Uuid_T False,
       col ''scores_snapshot'' Jsonb_T False,
       col ''rationale'' Text_T False,
       col ''time_spent_seconds'' Integer_T False,
       col ''weighted_score'' Float_T False,
       defaulting ''now()'' (col ''submitted_at'' Timestamp_T False)],
     tb_primary_key = [''id''],
     tb_unique_keys = [unique_as ''uq_grade_task_expert'' [''task_id'', ''expert_id'']],
     tb_foreign_keys = [references [''expert_id''] ''experts'' [''id''],
       references [''rubric_id''] ''rubrics'' [''id''],
       references [''task_id''] ''tasks'' [''id'']],
     tb_indexes = []\<rparr>"

definition initial_attention_results :: ddl where
  "initial_attention_results = Create_Table []
    \<lparr>tb_name = ''attention_results'',
     tb_columns =
      [col ''id'' Uuid_T False,
       col ''task_id'' Uuid_T False,
       col ''expert_id'' Uuid_T False,
       col ''grade_id'' Uuid_T False,
       col ''passed'' Boolean_T False,
       col ''max_deviation'' Float_T False,
       defaulting ''now()'' (col ''created_at'' Timestamp_T False)],
     tb_primary_key = [''id''],
     tb_unique_keys = [],
     tb_foreign_keys = [references [''expert_id''] ''experts'' [''id''],
       references [''grade_id''] ''grades'' [''id''],
       references [''task_id''] ''tasks'' [''id'']],
     tb_indexes = []\<rparr>"

definition initial_grade_scores :: ddl where
  "initial_grade_scores = Create_Table []
    \<lparr>tb_name = ''grade_scores'',
     tb_columns =
      [col ''grade_id'' Uuid_T False,
       col ''criterion_id'' Uuid_T False,
       col ''score'' Float_T False],
     tb_primary_key = [''grade_id'', ''criterion_id''],
     tb_unique_keys = [],
     tb_foreign_keys = [references [''criterion_id''] ''rubric_criteria'' [''id''],
       cascading (references [''grade_id''] ''grades'' [''id''])],
     tb_indexes = []\<rparr>"

definition initial_payouts :: ddl where
  "initial_payouts = Create_Table [(''tier'', [''junior'', ''senior'', ''lead'']), (''payout_status'', [''pending'', ''withheld'', ''paid''])]
    \<lparr>tb_name = ''payouts'',
     tb_columns =
      [col ''id'' Uuid_T False,
       col ''expert_id'' Uuid_T False,
       col ''task_id'' Uuid_T False,
       col ''grade_id'' Uuid_T False,
       col ''tier'' (Enum_T ''tier'') False,
       col ''task_type'' (String_T 64) False,
       col ''amount_cents'' Integer_T False,
       col ''status'' (Enum_T ''payout_status'') False,
       col ''period_id'' Uuid_T True,
       defaulting ''now()'' (col ''created_at'' Timestamp_T False),
       col ''paid_at'' Timestamp_T True],
     tb_primary_key = [''id''],
     tb_unique_keys = [unique [''grade_id''], unique_as ''uq_payout_task_expert'' [''task_id'', ''expert_id'']],
     tb_foreign_keys = [references [''expert_id''] ''experts'' [''id''],
       references [''grade_id''] ''grades'' [''id''],
       references [''period_id''] ''payout_periods'' [''id''],
       references [''task_id''] ''tasks'' [''id'']],
     tb_indexes = []\<rparr>"

definition initial_reviews :: ddl where
  "initial_reviews = Create_Table [(''review_decision'', [''approve'', ''reject''])]
    \<lparr>tb_name = ''reviews'',
     tb_columns =
      [col ''id'' Uuid_T False,
       col ''grade_id'' Uuid_T False,
       col ''reviewer_key_id'' Uuid_T False,
       col ''decision'' (Enum_T ''review_decision'') False,
       col ''reason'' Text_T True,
       defaulting ''now()'' (col ''created_at'' Timestamp_T False)],
     tb_primary_key = [''id''],
     tb_unique_keys = [unique [''grade_id'']],
     tb_foreign_keys = [references [''grade_id''] ''grades'' [''id''],
       references [''reviewer_key_id''] ''api_keys'' [''id'']],
     tb_indexes = []\<rparr>"

definition upgrade_initial :: "ddl list" where
  "upgrade_initial =
    [initial_audit_events,
     initial_deliveries,
     initial_experts,
     Create_Index ''experts'' \<lparr>ix_name = ''ix_experts_tags'', ix_columns = [''tags''], ix_using = Some ''gin''\<rparr>,
     initial_payout_periods,
     initial_rate_cards,
     initial_rubrics,
     initial_api_keys,
     initial_rubric_criteria,
     initial_tasks,
     Create_Index ''tasks'' \<lparr>ix_name = ''ix_tasks_lease'', ix_columns = [''status'', ''lease_expires_at''], ix_using = None\<rparr>,
     Create_Index ''tasks'' \<lparr>ix_name = ''ix_tasks_queue'', ix_columns = [''status'', ''priority'', ''deadline'', ''seq''], ix_using = None\<rparr>,
     Create_Index ''tasks'' \<lparr>ix_name = ''ix_tasks_required_tags'', ix_columns = [''required_tags''], ix_using = Some ''gin''\<rparr>,
     initial_grades,
     initial_attention_results,
     Create_Index ''attention_results'' \<lparr>ix_name = ''ix_attention_expert_created'', ix_columns = [''expert_id'', ''created_at''], ix_using = None\<rparr>,
     initial_grade_scores,
     initial_payouts,
     Create_Index ''payouts'' \<lparr>ix_name = ''ix_payouts_expert_status'', ix_columns = [''expert_id'', ''status''], ix_using = None\<rparr>,
     initial_reviews]"

definition downgrade_initial :: "ddl list" where
  "downgrade_initial =
    [Drop_Table ''reviews'',
     Drop_Index ''payouts'' ''ix_payouts_expert_status'',
     Drop_Table ''payouts'',
     Drop_Table ''grade_scores'',
     Drop_Index ''attention_results'' ''ix_attention_expert_created'',
     Drop_Table ''attention_results'',
     Drop_Table ''grades'',
     Drop_Index ''tasks'' ''ix_tasks_required_tags'',
     Drop_Index ''tasks'' ''ix_tasks_queue'',
     Drop_Index ''tasks'' ''ix_tasks_lease'',
     Drop_Table ''tasks'',
     Drop_Table ''rubric_criteria'',
     Drop_Table ''api_keys'',
     Drop_Table ''rubrics'',
     Drop_Table ''rate_cards'',
     Drop_Table ''payout_periods'',
     Drop_Index ''experts'' ''ix_experts_tags'',
     Drop_Table ''experts'',
     Drop_Table ''deliveries'',
     Drop_Table ''audit_events''] @
    map Drop_Type_If_Exists [''tier'', ''expert_status'', ''task_status'', ''review_decision'', ''payout_status'', ''role'']"

definition upgrade_rubric_versions :: "ddl list" where
  "upgrade_rubric_versions =
    [Add_Column ''rubrics'' (col ''superseded_at'' Timestamp_T True),
     Add_Column ''rubrics'' (col ''superseded_by_id'' Uuid_T True),
     Create_Foreign_Key ''rubrics'' ((references [''superseded_by_id''] ''rubrics'' [''id''])\<lparr>fk_name := Some ''fk_rubrics_superseded_by''\<rparr>),
     Add_Column ''tasks'' (col ''pinned_rubric_id'' Uuid_T True),
     Create_Foreign_Key ''tasks'' ((references [''pinned_rubric_id''] ''rubrics'' [''id''])\<lparr>fk_name := Some ''fk_tasks_pinned_rubric''\<rparr>),
     Update_To_Column ''tasks'' ''pinned_rubric_id'' ''rubric_id'' ''status'' ''assigned'']"

definition downgrade_rubric_versions :: "ddl list" where
  "downgrade_rubric_versions =
    [Drop_Foreign_Key ''tasks'' ''fk_tasks_pinned_rubric'',
     Drop_Column ''tasks'' ''pinned_rubric_id'',
     Drop_Foreign_Key ''rubrics'' ''fk_rubrics_superseded_by'',
     Drop_Column ''rubrics'' ''superseded_by_id'',
     Drop_Column ''rubrics'' ''superseded_at'']"

definition calibration_tier_changes :: ddl where
  "calibration_tier_changes = Create_Table []
    \<lparr>tb_name = ''tier_changes'',
     tb_columns =
      [col ''id'' Uuid_T False,
       col ''expert_id'' Uuid_T False,
       col ''from_tier'' (Enum_T ''tier'') False,
       col ''to_tier'' (Enum_T ''tier'') False,
       col ''score'' Float_T False,
       col ''samples'' Integer_T False,
       defaulting ''now()'' (col ''created_at'' Timestamp_T False)],
     tb_primary_key = [''id''],
     tb_unique_keys = [],
     tb_foreign_keys = [references [''expert_id''] ''experts'' [''id'']],
     tb_indexes = []\<rparr>"

definition upgrade_calibration :: "ddl list" where
  "upgrade_calibration =
    [calibration_tier_changes,
     Create_Index ''tier_changes'' \<lparr>ix_name = ''ix_tier_changes_expert_created'', ix_columns = [''expert_id'', ''created_at''], ix_using = None\<rparr>,
     Add_Column ''experts'' (col ''calibration_score'' Float_T True),
     Add_Column ''experts'' (defaulting ''0'' (col ''calibration_samples'' Integer_T False)),
     Add_Column ''experts'' (col ''tier_updated_at'' Timestamp_T True)]"

definition downgrade_calibration :: "ddl list" where
  "downgrade_calibration =
    [Drop_Column ''experts'' ''tier_updated_at'',
     Drop_Column ''experts'' ''calibration_samples'',
     Drop_Column ''experts'' ''calibration_score'',
     Drop_Index ''tier_changes'' ''ix_tier_changes_expert_created'',
     Drop_Table ''tier_changes'']"

definition consensus_table :: ddl where
  "consensus_table = Create_Table [(''consensus_status'', [''agreed'', ''adjudicating'', ''adjudicated''])]
    \<lparr>tb_name = ''consensus'',
     tb_columns =
      [col ''id'' Uuid_T False,
       col ''task_id'' Uuid_T False,
       col ''status'' (Enum_T ''consensus_status'') False,
       col ''grade_count'' Integer_T False,
       col ''spread'' Float_T False,
       col ''tolerance'' Float_T False,
       col ''delivered_grade_id'' Uuid_T True,
       col ''adjudicator_key_id'' Uuid_T True,
       col ''reason'' Text_T True,
       defaulting ''now()'' (col ''created_at'' Timestamp_T False),
       col ''resolved_at'' Timestamp_T True],
     tb_primary_key = [''id''],
     tb_unique_keys = [unique [''task_id'']],
     tb_foreign_keys = [references [''task_id''] ''tasks'' [''id''],
       references [''delivered_grade_id''] ''grades'' [''id''],
       references [''adjudicator_key_id''] ''api_keys'' [''id'']],
     tb_indexes = []\<rparr>"

definition upgrade_consensus :: "ddl list" where
  "upgrade_consensus =
    [Add_Value_If_Not_Exists ''task_status'' ''adjudication'' ''submitted'',
     Add_Value_If_Not_Exists ''role'' ''senior_reviewer'' ''reviewer'',
     consensus_table,
     Create_Index ''consensus'' \<lparr>ix_name = ''ix_consensus_status_created'', ix_columns = [''status'', ''created_at''], ix_using = None\<rparr>]"

definition task_status_before :: "string list" where
  "task_status_before = [''queued'', ''assigned'', ''submitted'', ''approved'', ''rejected'']"

definition role_before :: "string list" where
  "role_before = [''expert'', ''reviewer'', ''admin'']"

definition shrink_enum :: "string \<Rightarrow> string list \<Rightarrow> string \<Rightarrow> string \<Rightarrow> ddl list" where
  "shrink_enum name vs t cn =
    [Rename_Type name (name @ ''_old''), Create_Type name vs, Alter_Column_Type t cn name, Drop_Type (name @ ''_old'')]"

definition downgrade_consensus :: "ddl list" where
  "downgrade_consensus =
    [Drop_Index ''consensus'' ''ix_consensus_status_created'',
     Drop_Table ''consensus'',
     Drop_Type_If_Exists ''consensus_status'',
     Update_To_Value ''tasks'' ''status'' ''submitted'' ''status'' ''adjudication''] @
    shrink_enum ''task_status'' task_status_before ''tasks'' ''status'' @
    [Update_To_Value ''api_keys'' ''role'' ''reviewer'' ''role'' ''senior_reviewer''] @
    shrink_enum ''role'' role_before ''api_keys'' ''role''"

definition upgrade_retire_hourly_rate :: "ddl list" where
  "upgrade_retire_hourly_rate =
    []"

definition downgrade_retire_hourly_rate :: "ddl list" where
  "downgrade_retire_hourly_rate =
    []"

section \<open>The chain of revisions\<close>

record revision =
  rev_id :: string
  rev_down :: "string option"
  rev_upgrade :: "ddl list"
  rev_downgrade :: "ddl list"

definition initial :: revision where
  "initial = \<lparr>rev_id = ''3dfe09ab9cdc'', rev_down = None, rev_upgrade = upgrade_initial, rev_downgrade = downgrade_initial\<rparr>"

definition rubric_versions :: revision where
  "rubric_versions = \<lparr>rev_id = ''5e18ef22c95d'', rev_down = Some ''3dfe09ab9cdc'',
     rev_upgrade = upgrade_rubric_versions, rev_downgrade = downgrade_rubric_versions\<rparr>"

definition calibration :: revision where
  "calibration = \<lparr>rev_id = ''3d8dba8d69dd'', rev_down = Some ''5e18ef22c95d'',
     rev_upgrade = upgrade_calibration, rev_downgrade = downgrade_calibration\<rparr>"

definition consensus_rounds :: revision where
  "consensus_rounds = \<lparr>rev_id = ''7c41a0b52e63'', rev_down = Some ''3d8dba8d69dd'',
     rev_upgrade = upgrade_consensus, rev_downgrade = downgrade_consensus\<rparr>"

definition retire_hourly_rate :: revision where
  "retire_hourly_rate = \<lparr>rev_id = ''9b2e4d7c1a05'', rev_down = Some ''7c41a0b52e63'',
     rev_upgrade = upgrade_retire_hourly_rate, rev_downgrade = downgrade_retire_hourly_rate\<rparr>"

definition revisions :: "revision list" where
  "revisions = [initial, rubric_versions, calibration, consensus_rounds, retire_hourly_rate]"

text \<open>Each revision names its predecessor, the first none.\<close>

definition linear :: "revision list \<Rightarrow> bool" where
  "linear rs \<longleftrightarrow> distinct (map rev_id rs) \<and> map rev_down rs = None # map (\<lambda>r. Some (rev_id r)) (butlast rs)"

definition upgrade :: "revision list \<Rightarrow> database \<Rightarrow> database option" where
  "upgrade rs = run (concat (map rev_upgrade rs))"

definition downgrade :: "revision list \<Rightarrow> database \<Rightarrow> database option" where
  "downgrade rs = run (concat (map rev_downgrade (rev rs)))"

text \<open>The catalogue after the first \<open>n\<close> revisions, from an empty database.\<close>

definition schema_at :: "nat \<Rightarrow> catalogue" where
  "schema_at n = the (reshapes (concat (map rev_upgrade (take n revisions))) (fst empty_database))"

end
