(* ===== verification/Upgrades.thy ===== *)
theory Upgrades
  imports Migrations
begin

text \<open>
  What the migrations of \<open>alembic/versions/\<close> do to a database: the schema they lead to is the one of the
  models, an upgrade keeps every value, a downgrade never fails on rows that fit the schema.
\<close>

lemma chain_reshapes: "reshapes (concat (map rev_upgrade revisions)) (fst empty_database) \<noteq> None"
  by code_simp

lemma schema_reached: "reshapes (concat (map rev_upgrade (take n revisions))) (fst empty_database) = Some (schema_at n)"
proof -
  have "concat (map rev_upgrade revisions) =
      concat (map rev_upgrade (take n revisions)) @ concat (map rev_upgrade (drop n revisions))"
    by (metis append_take_drop_id concat_append map_append)
  then have "reshapes (concat (map rev_upgrade (take n revisions))) (fst empty_database) \<noteq> None"
    using chain_reshapes by (auto simp: reshapes_append split: option.splits)
  then show ?thesis by (auto simp: schema_at_def)
qed

lemma schema_at_5: "schema_at 5 = schema_at 4"
  by (simp add: schema_at_def revisions_def retire_hourly_rate_def upgrade_retire_hourly_rate_def)

lemma schema_step:
  assumes "n < length revisions"
  shows "reshapes (rev_upgrade (revisions ! n)) (schema_at n) = Some (schema_at (Suc n))"
  using schema_reached [of "Suc n"] schema_reached [of n] by (simp add: take_Suc_conv_app_nth [OF assms] reshapes_append)

lemma schema_walk:
  assumes "n \<le> m"
  shows "reshapes (concat (map rev_upgrade (drop n (take m revisions)))) (schema_at n) = Some (schema_at m)"
proof -
  have "take n (take m revisions) @ drop n (take m revisions) = take m revisions" by (rule append_take_drop_id)
  then have "concat (map rev_upgrade (take m revisions)) =
      concat (map rev_upgrade (take n revisions)) @ concat (map rev_upgrade (drop n (take m revisions)))"
    using assms by (metis concat_append map_append min.absorb1 take_take)
  then show ?thesis using schema_reached [of m] schema_reached [of n] by (simp add: reshapes_append)
qed

section \<open>The schema at head\<close>

definition checked :: "catalogue option \<Rightarrow> (catalogue \<Rightarrow> bool) \<Rightarrow> bool" where
  "checked r p = (case r of None \<Rightarrow> False | Some c \<Rightarrow> p c)"

lemma checked_Some [simp]: "checked (Some c) p = p c"
  by (simp add: checked_def)

lemma checkedD: "checked r p \<Longrightarrow> \<exists>c. r = Some c \<and> p c"
  by (cases r) (simp_all add: checked_def)

lemma head_checked:
  "checked (reshapes (concat (map rev_upgrade (take 5 revisions))) (fst empty_database)) (\<lambda>c.
     matches_models c \<and> in_table ''experts'' (\<lambda>t. has_columns t [''hourly_rate_cents'']) c \<and>
     in_table ''tasks'' (label_column ''status'' ''task_status'' ''tasks'') c \<and>
     in_table ''api_keys'' (label_column ''role'' ''role'' ''api_keys'') c)"
  by code_simp

lemma head_facts:
  "matches_models (schema_at 5)" "in_table ''experts'' (\<lambda>t. has_columns t [''hourly_rate_cents'']) (schema_at 5)"
  "in_table ''tasks'' (label_column ''status'' ''task_status'' ''tasks'') (schema_at 5)"
  "in_table ''api_keys'' (label_column ''role'' ''role'' ''api_keys'') (schema_at 5)"
  using head_checked by (simp_all add: schema_reached)

section \<open>Taking the consensus revision back\<close>

text \<open>The statements of its downgrade around the two updates and the two casts.\<close>

definition drop_rounds :: "ddl list" where
  "drop_rounds = [Drop_Index ''consensus'' ''ix_consensus_status_created'', Drop_Table ''consensus'',
     Drop_Type_If_Exists ''consensus_status'']"

lemma downgrade_consensus_eq:
  "downgrade_consensus = drop_rounds @ [Update_To_Value ''tasks'' ''status'' ''submitted'' ''status'' ''adjudication''] @
     [Rename_Type ''task_status'' ''task_status_old'', Create_Type ''task_status'' task_status_before] @
     [Alter_Column_Type ''tasks'' ''status'' ''task_status''] @ [Drop_Type ''task_status_old''] @
     [Update_To_Value ''api_keys'' ''role'' ''reviewer'' ''role'' ''senior_reviewer''] @
     [Rename_Type ''role'' ''role_old'', Create_Type ''role'' role_before] @
     [Alter_Column_Type ''api_keys'' ''role'' ''role''] @ [Drop_Type ''role_old'']"
  by (simp add: downgrade_consensus_def drop_rounds_def shrink_enum_def)

definition type_names :: "string list" where
  "type_names = map fst orm_types @ [''task_status_old'', ''role_old'']"

lemma consensus_checked:
  "checked (reshapes (concat (map rev_upgrade (take 3 revisions))) (fst empty_database)) (\<lambda>c3.
   checked (reshapes upgrade_consensus c3) (\<lambda>c4.
   checked (reshapes drop_rounds c4) (\<lambda>c.
     in_table ''tasks'' (label_column ''status'' ''task_status'' ''tasks'') c \<and>
     ct_types c ''task_status'' = Some [''queued'', ''assigned'', ''submitted'', ''adjudication'', ''approved'', ''rejected''] \<and>
   checked (reshapes [Update_To_Value ''tasks'' ''status'' ''submitted'' ''status'' ''adjudication'',
       Rename_Type ''task_status'' ''task_status_old'', Create_Type ''task_status'' task_status_before] c) (\<lambda>c.
     ct_types c ''task_status'' = Some task_status_before \<and>
   checked (reshapes [Alter_Column_Type ''tasks'' ''status'' ''task_status'', Drop_Type ''task_status_old''] c) (\<lambda>c.
     in_table ''api_keys'' (label_column ''role'' ''role'' ''api_keys'') c \<and>
     ct_types c ''role'' = Some [''expert'', ''reviewer'', ''senior_reviewer'', ''admin''] \<and>
   checked (reshapes [Update_To_Value ''api_keys'' ''role'' ''reviewer'' ''role'' ''senior_reviewer'',
       Rename_Type ''role'' ''role_old'', Create_Type ''role'' role_before] c) (\<lambda>c.
     ct_types c ''role'' = Some role_before \<and>
   checked (reshapes [Alter_Column_Type ''api_keys'' ''role'' ''role'', Drop_Type ''role_old''] c) (\<lambda>c.
     ct_tables c = ct_tables c3 \<and> list_all (\<lambda>ty. ct_types c ty = ct_types c3 ty) type_names)))))))"
  by code_simp

lemma base_checked:
  "checked (reshapes (concat (map rev_upgrade (take 3 revisions))) (fst empty_database)) (\<lambda>c3.
   checked (reshapes (concat (map rev_downgrade (rev (take 3 revisions)))) c3) (\<lambda>c.
     ct_tables c = [] \<and> list_all (\<lambda>ty. ct_types c ty = None) type_names))"
  by code_simp

lemma named_checked:
  "list_all (\<lambda>ty. ty \<in> set type_names) (concat (map types_named (concat (map rev_upgrade revisions))))"
  "list_all (\<lambda>ty. ty \<in> set type_names) (concat (map types_named downgrade_consensus))"
  "list_all (\<lambda>ty. ty \<in> set type_names) (concat (map types_named (concat (map rev_downgrade (rev (take 3 revisions))))))"
  by code_simp+

lemma schema_types:
  assumes "ct_types (schema_at n) ty \<noteq> None"
  shows "ty \<in> set type_names"
proof -
  have "ty \<in> set (concat (map types_named (concat (map rev_upgrade (take n revisions)))))"
    using reshapes_types [OF schema_reached assms] by (simp add: empty_database_def)
  then have "ty \<in> set (concat (map types_named (concat (map rev_upgrade revisions))))"
    by (auto dest: in_set_takeD)
  then show ?thesis using named_checked(1) by (simp only: list_all_iff)
qed

lemma same_catalogue:
  fixes c c' :: catalogue
  assumes "ct_tables c = ct_tables c'" "list_all (\<lambda>ty. ct_types c ty = ct_types c' ty) type_names"
    "\<And>ty. ct_types c ty \<noteq> None \<Longrightarrow> ty \<in> set type_names" "\<And>ty. ct_types c' ty \<noteq> None \<Longrightarrow> ty \<in> set type_names"
  shows "c = c'"
proof -
  have "ct_types c ty = ct_types c' ty" for ty
    using assms(2-4) by (cases "ty \<in> set type_names") (force simp: list_all_iff)+
  then have "ct_types c = ct_types c'" by (rule ext)
  with assms(1) show ?thesis by (cases c, cases c') simp
qed

definition reopened :: "sql_row \<Rightarrow> sql_row" where
  "reopened r = (if r ''status'' = Some ''adjudication'' then r(''status'' \<mapsto> ''submitted'') else r)"

definition demoted :: "sql_row \<Rightarrow> sql_row" where
  "demoted r = (if r ''role'' = Some ''senior_reviewer'' then r(''role'' \<mapsto> ''reviewer'') else r)"

lemma fits_mono: "fits labels v \<Longrightarrow> set labels \<subseteq> set labels' \<Longrightarrow> fits labels' v"
  by (auto simp: fits_def split: option.splits)

lemma accepted_cast:
  assumes "ct_types c ty = Some labels" "\<And>r. r \<in> set (d n) \<Longrightarrow> fits labels (r cn)" "list_all quiet ops"
  shows "accepted (Alter_Column_Type n cn ty # ops) c d"
  using assms accepted_quiet by (simp add: list_all_iff)

lemma accepted_update:
  assumes "column_holds c (change_rows n (\<lambda>r. if r w = Some x then r(cn \<mapsto> v) else r) d) n cn" "list_all quiet ops"
  shows "accepted (Update_To_Value n cn v w x # ops) c d"
  using assms accepted_quiet by simp

lemma consensus_downgrade_run:
  assumes "\<And>r. r \<in> set (d ''tasks'') \<Longrightarrow> fits [''queued'', ''assigned'', ''submitted'', ''adjudication'', ''approved'', ''rejected''] (r ''status'')"
    "\<And>r. r \<in> set (d ''api_keys'') \<Longrightarrow> fits [''expert'', ''reviewer'', ''senior_reviewer'', ''admin''] (r ''role'')"
  shows "run downgrade_consensus (schema_at 4, d) = Some (schema_at 3,
    d(''consensus'' := [], ''tasks'' := map reopened (d ''tasks''), ''api_keys'' := map demoted (d ''api_keys'')))"
proof -
  have step: "reshapes upgrade_consensus (schema_at 3) = Some (schema_at 4)"
    using schema_step [of 3] by (simp add: revisions_def consensus_rounds_def)
  let ?U1 = "Update_To_Value ''tasks'' ''status'' ''submitted'' ''status'' ''adjudication''"
  let ?U2 = "Update_To_Value ''api_keys'' ''role'' ''reviewer'' ''role'' ''senior_reviewer''"
  let ?R1 = "[?U1, Rename_Type ''task_status'' ''task_status_old'', Create_Type ''task_status'' task_status_before]"
  let ?R2 = "[?U2, Rename_Type ''role'' ''role_old'', Create_Type ''role'' role_before]"
  let ?A1 = "[Alter_Column_Type ''tasks'' ''status'' ''task_status'', Drop_Type ''task_status_old'']"
  let ?A2 = "[Alter_Column_Type ''api_keys'' ''role'' ''role'', Drop_Type ''role_old'']"
  obtain ca cb cc cd ce where
    a: "reshapes drop_rounds (schema_at 4) = Some ca" "in_table ''tasks'' (label_column ''status'' ''task_status'' ''tasks'') ca"
      "ct_types ca ''task_status'' = Some [''queued'', ''assigned'', ''submitted'', ''adjudication'', ''approved'', ''rejected'']" and
    b: "reshapes ?R1 ca = Some cb" "ct_types cb ''task_status'' = Some task_status_before" and
    c: "reshapes ?A1 cb = Some cc" "in_table ''api_keys'' (label_column ''role'' ''role'' ''api_keys'') cc"
      "ct_types cc ''role'' = Some [''expert'', ''reviewer'', ''senior_reviewer'', ''admin'']" and
    d: "reshapes ?R2 cc = Some cd" "ct_types cd ''role'' = Some role_before" and
    e: "reshapes ?A2 cd = Some ce" "ct_tables ce = ct_tables (schema_at 3)"
      "list_all (\<lambda>ty. ct_types ce ty = ct_types (schema_at 3) ty) type_names"
    using consensus_checked unfolding schema_reached checked_Some step
    by (elim checkedD [elim_format] exE conjE) blast
  have ops: "downgrade_consensus = drop_rounds @ ?R1 @ ?A1 @ ?R2 @ ?A2" by (simp add: downgrade_consensus_eq)
  have "reshapes downgrade_consensus (schema_at 4) = Some ce"
    unfolding ops by (simp only: reshapes_append a b c d e option.case)
  moreover have "ce = schema_at 3"
  proof (rule same_catalogue [OF e(2,3) _ schema_types])
    fix ty assume "ct_types ce ty \<noteq> None"
    then show "ty \<in> set type_names"
      using reshapes_types [OF calculation] schema_types [of 4 ty] named_checked(2) by (auto simp only: list_all_iff)
  qed
  moreover have "accepted downgrade_consensus (schema_at 4) d"
  proof -
    let ?d1 = "d(''consensus'' := [])" and ?d2 = "d(''consensus'' := [], ''tasks'' := map reopened (d ''tasks''))"
    let ?d3 = "?d2(''api_keys'' := map demoted (d ''api_keys''))"
    have r: "fold rewrite drop_rounds d = ?d1" "fold rewrite ?R1 ?d1 = ?d2" "fold rewrite ?A1 ?d2 = ?d2" "fold rewrite ?R2 ?d2 = ?d3"
      by (simp_all add: drop_rounds_def change_rows_def reopened_def [abs_def] demoted_def [abs_def])
    have fit: "fits task_status_before (reopened x ''status'')" if "x \<in> set (d ''tasks'')" for x
      using assms(1) [OF that] by (auto simp: fits_def reopened_def task_status_before_def split: option.splits)
    have fit': "fits role_before (demoted x ''role'')" if "x \<in> set (d ''api_keys'')" for x
      using assms(2) [OF that] by (auto simp: fits_def demoted_def role_before_def split: option.splits)
    have 1: "accepted drop_rounds (schema_at 4) d" by (rule accepted_quiet) (simp add: drop_rounds_def)
    have 2: "accepted ?R1 ca ?d1"
    proof (rule accepted_update [OF column_holds_label [OF a(2,3)]])
      fix x assume "x \<in> set (change_rows ''tasks'' (\<lambda>r. if r ''status'' = Some ''adjudication'' then r(''status'' \<mapsto> ''submitted'') else r) ?d1 ''tasks'')"
      then obtain y where "y \<in> set (d ''tasks'')" "x = reopened y" by (auto simp: change_rows_def reopened_def)
      then show "fits [''queued'', ''assigned'', ''submitted'', ''adjudication'', ''approved'', ''rejected''] (x ''status'')"
        using fits_mono [OF fit] by (simp add: task_status_before_def)
    qed simp
    have 3: "accepted ?A1 cb ?d2" by (rule accepted_cast [OF b(2)]) (auto simp: fit)
    have 4: "accepted ?R2 cc ?d2"
    proof (rule accepted_update [OF column_holds_label [OF c(2,3)]])
      fix x assume "x \<in> set (change_rows ''api_keys'' (\<lambda>r. if r ''role'' = Some ''senior_reviewer'' then r(''role'' \<mapsto> ''reviewer'') else r) ?d2 ''api_keys'')"
      then obtain y where "y \<in> set (d ''api_keys'')" "x = demoted y" by (auto simp: change_rows_def demoted_def)
      then show "fits [''expert'', ''reviewer'', ''senior_reviewer'', ''admin''] (x ''role'')"
        using fits_mono [OF fit'] by (simp add: role_before_def)
    qed simp
    have 5: "accepted ?A2 cd ?d3" by (rule accepted_cast [OF d(2)]) (auto simp: fit')
    show ?thesis unfolding ops
      by (rule accepted_append [OF a(1) 1], unfold r, rule accepted_append [OF b(1) 2], unfold r,
          rule accepted_append [OF c(1) 3], unfold r, rule accepted_append [OF d(1) 4], unfold r, rule 5)
  qed
  moreover have "fold rewrite downgrade_consensus d =
      d(''consensus'' := [], ''tasks'' := map reopened (d ''tasks''), ''api_keys'' := map demoted (d ''api_keys''))"
    by (simp add: ops drop_rounds_def change_rows_def reopened_def [abs_def] demoted_def [abs_def] fun_upd_twist)
  ultimately show ?thesis by (simp add: run_accepted)
qed

lemma head_labels: "ct_types (schema_at 5) ''task_status'' = Some [''queued'', ''assigned'', ''submitted'', ''adjudication'', ''approved'', ''rejected'']"
  "ct_types (schema_at 5) ''role'' = Some [''expert'', ''reviewer'', ''senior_reviewer'', ''admin'']"
  using head_facts(1) by (simp_all add: matches_models_def orm_types_def)

lemma consensus_downgrade_typed:
  assumes "typed (schema_at 4, d)"
  shows "run downgrade_consensus (schema_at 4, d) = Some (schema_at 3,
    d(''consensus'' := [], ''tasks'' := map reopened (d ''tasks''), ''api_keys'' := map demoted (d ''api_keys'')))"
proof (rule consensus_downgrade_run)
  show "r \<in> set (d ''tasks'') \<Longrightarrow> fits [''queued'', ''assigned'', ''submitted'', ''adjudication'', ''approved'', ''rejected''] (r ''status'')" for r
    by (rule typed_column [OF assms head_facts(3) [unfolded schema_at_5] head_labels(1) [unfolded schema_at_5]])
  show "r \<in> set (d ''api_keys'') \<Longrightarrow> fits [''expert'', ''reviewer'', ''senior_reviewer'', ''admin''] (r ''role'')" for r
    by (rule typed_column [OF assms head_facts(4) [unfolded schema_at_5] head_labels(2) [unfolded schema_at_5]])
qed

section \<open>Down to the base\<close>

lemma rewrite_keeps_empty: "d n = [] \<Longrightarrow> rewrite op d n = []"
  by (cases op) (auto simp: change_rows_def)

lemma rewrites_keep_empty: "d n = [] \<Longrightarrow> fold rewrite ops d n = []"
  by (induction ops arbitrary: d) (simp_all add: rewrite_keeps_empty)

lemma dropped_empty: "Drop_Table n \<in> set ops \<Longrightarrow> fold rewrite ops d n = []"
proof (induction ops arbitrary: d)
  case (Cons op ops)
  then show ?case by (cases "op = Drop_Table n") (simp_all add: rewrites_keep_empty)
qed simp

lemma drops_checked:
  "list_all (\<lambda>t. Drop_Table (tb_name t) \<in> set (concat (map rev_downgrade (rev (take 3 revisions)))) \<or> tb_name t = ''consensus'') orm_tables"
  "list_all quiet (concat (map rev_downgrade (rev (take 3 revisions))))"
  by code_simp+

lemma head_tables: "table_of n (schema_at 5) \<noteq> None \<Longrightarrow> n \<in> tb_name ` set orm_tables"
  using head_facts(1) by (auto simp: matches_models_def same_items_def list_all_iff row_of_None_iff)

text \<open>
  C36: the schema the revisions lead to is the schema of the models. The five revisions form one chain; run in
  order on an empty database none of their statements is refused; the tables, columns, types, defaults, keys,
  foreign keys, indexes and enum labels they leave are those \<open>models.py\<close> declares, but for
  \<open>experts.hourly_rate_cents\<close>, which is kept for the previous release.
\<close>
theorem head_matches_models:
  "linear revisions \<and> (\<exists>c d. upgrade revisions empty_database = Some (c, d) \<and> matches_models c \<and>
     in_table ''experts'' (\<lambda>t. has_columns t [''hourly_rate_cents'']) c \<and> (\<forall>n. d n = []))"
proof -
  let ?ops = "concat (map rev_upgrade revisions)"
  have r: "reshapes ?ops (fst empty_database) = Some (schema_at 5)"
    using schema_reached [of 5] by (simp add: revisions_def)
  have "accepted ?ops (fst empty_database) (\<lambda>_. []) \<and> (\<forall>n. fold rewrite ?ops (\<lambda>_. []) n = [])"
    by (rule accepted_empty [OF r refl])
  then have "upgrade revisions empty_database = Some (schema_at 5, fold rewrite ?ops (\<lambda>_. []))"
    "\<forall>n. fold rewrite ?ops (\<lambda>_. []) n = []"
    using run_accepted [OF r] by (simp_all add: upgrade_def empty_database_def)
  moreover have "linear revisions" by code_simp
  ultimately show ?thesis using head_facts by blast
qed

text \<open>
  Taking back the consensus revision keeps the work. Whatever rows the database holds, as long as they fit
  the schema, no statement is refused; the schema is the one before the revision again; a task waiting for
  adjudication is submitted again, a senior reviewer a reviewer, the rounds are gone and no other value changes.
\<close>
theorem consensus_downgrade_keeps_work:
  assumes "typed (schema_at 4, d)"
  shows "run (rev_downgrade consensus_rounds) (schema_at 4, d) = Some (schema_at 3,
    d(''consensus'' := [],
      ''tasks'' := map (\<lambda>r. if r ''status'' = Some ''adjudication'' then r(''status'' \<mapsto> ''submitted'') else r) (d ''tasks''),
      ''api_keys'' := map (\<lambda>r. if r ''role'' = Some ''senior_reviewer'' then r(''role'' \<mapsto> ''reviewer'') else r) (d ''api_keys'')))"
  using consensus_downgrade_typed [OF assms]
  by (simp add: consensus_rounds_def reopened_def [abs_def] demoted_def [abs_def])

text \<open>
  C35: a database at head can always be taken down to the base, whatever rows it holds: no statement of the five
  downgrades is refused, and nothing is left, no table, no row and no enum type.
\<close>
theorem downgrade_leaves_nothing:
  assumes "typed (schema_at 5, d)" "confined (schema_at 5, d)"
  shows "downgrade revisions (schema_at 5, d) = Some empty_database"
proof -
  let ?base = "concat (map rev_downgrade (rev (take 3 revisions)))"
  let ?d = "d(''consensus'' := [], ''tasks'' := map reopened (d ''tasks''), ''api_keys'' := map demoted (d ''api_keys''))"
  have ops: "concat (map rev_downgrade (rev revisions)) = downgrade_consensus @ ?base"
    by (simp add: revisions_def retire_hourly_rate_def downgrade_retire_hourly_rate_def consensus_rounds_def)
  obtain c where c: "reshapes ?base (schema_at 3) = Some c" "ct_tables c = []" "list_all (\<lambda>ty. ct_types c ty = None) type_names"
    using checkedD [OF base_checked [unfolded schema_reached checked_Some]] by blast
  have "c = fst empty_database"
  proof (rule same_catalogue)
    show "ct_types c ty \<noteq> None \<Longrightarrow> ty \<in> set type_names" for ty
      using reshapes_types [OF c(1)] schema_types [of 3 ty] named_checked(3) by (auto simp only: list_all_iff)
  qed (use c in \<open>simp_all add: empty_database_def\<close>)
  moreover have "fold rewrite ?base ?d = (\<lambda>_. [])"
  proof
    fix n
    show "fold rewrite ?base ?d n = []"
    proof (cases "n \<in> tb_name ` set orm_tables")
      case True
      then have "Drop_Table n \<in> set ?base \<or> n = ''consensus''" using drops_checked(1) by (auto simp only: list_all_iff)
      then show ?thesis
      proof
        assume "Drop_Table n \<in> set ?base"
        then show ?thesis by (rule dropped_empty)
      next
        assume "n = ''consensus''"
        then have "?d n = []" by simp
        then show ?thesis by (rule rewrites_keep_empty)
      qed
    next
      case False
      then have "d n = []" using assms(2) head_tables by (auto simp: confined_def)
      then have "?d n = []" by auto
      then show ?thesis by (rule rewrites_keep_empty)
    qed
  qed
  ultimately have "run ?base (schema_at 3, ?d) = Some empty_database"
    using run_quiet [OF drops_checked(2) c(1)] by (simp add: empty_database_def)
  then show ?thesis
    using run_trans [OF consensus_downgrade_typed [OF assms(1) [unfolded schema_at_5]]]
    by (simp add: downgrade_def ops schema_at_5)
qed

section \<open>Up to head\<close>

text \<open>A statement that leaves the column of a table as it is.\<close>

fun spares :: "ddl \<Rightarrow> string \<Rightarrow> string \<Rightarrow> bool" where
  "spares (Create_Table enums t) n cn \<longleftrightarrow> tb_name t \<noteq> n"
| "spares (Drop_Table m) n cn \<longleftrightarrow> m \<noteq> n"
| "spares (Add_Column m x) n cn \<longleftrightarrow> \<not> (m = n \<and> cn_name x = cn)"
| "spares (Drop_Column m x) n cn \<longleftrightarrow> \<not> (m = n \<and> x = cn)"
| "spares (Update_To_Value m x v w y) n cn \<longleftrightarrow> \<not> (m = n \<and> x = cn)"
| "spares (Update_To_Column m x v w y) n cn \<longleftrightarrow> \<not> (m = n \<and> x = cn)"
| "spares _ n cn \<longleftrightarrow> True"

lemma spares_rewrite: "spares op n cn \<Longrightarrow> map (\<lambda>r. r cn) (rewrite op d n) = map (\<lambda>r. r cn) (d n)"
  by (cases op) (auto simp: change_rows_def)

lemma spares_rewrites:
  "list_all (\<lambda>op. spares op n cn) ops \<Longrightarrow> map (\<lambda>r. r cn) (fold rewrite ops d n) = map (\<lambda>r. r cn) (d n)"
  by (induction ops arbitrary: d) (simp_all add: spares_rewrite)

definition every_column :: "(string \<Rightarrow> string \<Rightarrow> bool) \<Rightarrow> catalogue \<Rightarrow> bool" where
  "every_column p c \<longleftrightarrow> list_all (\<lambda>t. list_all (p (tb_name t)) (column_names t)) (ct_tables c)"

definition keeps_columns :: "ddl list \<Rightarrow> catalogue \<Rightarrow> catalogue \<Rightarrow> bool" where
  "keeps_columns ops c c' \<longleftrightarrow> every_column (\<lambda>n cn. list_all (\<lambda>op. spares op n cn) ops \<and> in_table n (\<lambda>t. cn \<in> set (column_names t)) c') c"

definition foreign_key_of :: "string \<Rightarrow> string \<Rightarrow> string \<Rightarrow> catalogue \<Rightarrow> bool" where
  "foreign_key_of n cn m = in_table n (\<lambda>t. references [cn] m [''id''] \<in> set (tb_foreign_keys t))"

lemma upgrades_checked:
  "checked (reshapes (concat (map rev_upgrade (take 1 revisions))) (fst empty_database)) (\<lambda>c1.
     foreign_key_of ''tasks'' ''rubric_id'' ''rubrics'' c1 \<and>
   checked (reshapes upgrade_rubric_versions c1) (\<lambda>c2. keeps_columns upgrade_rubric_versions c1 c2 \<and>
   checked (reshapes upgrade_calibration c2) (\<lambda>c3. keeps_columns upgrade_calibration c2 c3 \<and>
   checked (reshapes upgrade_consensus c3) (\<lambda>c4. keeps_columns upgrade_consensus c3 c4))))"
  by code_simp

lemma pin_checked:
  "checked (reshapes (concat (map rev_upgrade (take 1 revisions))) (fst empty_database)) (\<lambda>c1.
   checked (reshapes (butlast upgrade_rubric_versions) c1) (\<lambda>c2.
     in_table ''tasks'' (\<lambda>t. list_all (\<lambda>x. cn_name x = ''pinned_rubric_id'' \<longrightarrow> cn_type x = Uuid_T) (tb_columns t) \<and>
       list_all (\<lambda>k. ''pinned_rubric_id'' \<in> set (fk_columns k) \<longrightarrow>
         k = (references [''pinned_rubric_id''] ''rubrics'' [''id''])\<lparr>fk_name := Some ''fk_tasks_pinned_rubric''\<rparr>) (tb_foreign_keys t)) c2))"
  by code_simp

lemma upgrade_steps:
  "reshapes upgrade_rubric_versions (schema_at 1) = Some (schema_at 2)"
  "reshapes upgrade_calibration (schema_at 2) = Some (schema_at 3)"
  "reshapes upgrade_consensus (schema_at 3) = Some (schema_at 4)"
  using schema_step [of 1] schema_step [of 2] schema_step [of 3]
  by (simp_all add: revisions_def rubric_versions_def calibration_def consensus_rounds_def numeral_2_eq_2 [symmetric])

lemma every_column_mono: "every_column p c \<Longrightarrow> (\<And>n cn. p n cn \<Longrightarrow> q n cn) \<Longrightarrow> every_column q c"
  by (auto simp: every_column_def list_all_iff)

lemma every_columnD: "every_column p c \<Longrightarrow> in_table n (\<lambda>t. cn \<in> set (column_names t)) c \<Longrightarrow> p n cn"
  by (auto simp: every_column_def list_all_iff in_table_def split: option.splits dest!: row_of_SomeD)

lemma keeps_columns_trans:
  assumes "keeps_columns ops c c1" "keeps_columns ops' c1 c'"
  shows "keeps_columns (ops @ ops') c c'"
  unfolding keeps_columns_def
  by (rule every_column_mono [OF assms(1) [unfolded keeps_columns_def]])
    (auto dest: every_columnD [OF assms(2) [unfolded keeps_columns_def]])

lemma keeps_columns_values:
  "keeps_columns ops c c' \<Longrightarrow> every_column (\<lambda>n cn. map (\<lambda>r. r cn) (fold rewrite ops d n) = map (\<lambda>r. r cn) (d n)) c"
  unfolding keeps_columns_def by (erule every_column_mono) (simp add: spares_rewrites)

lemma upgrade_keeps:
  "keeps_columns upgrade_rubric_versions (schema_at 1) (schema_at 2)"
  "keeps_columns upgrade_calibration (schema_at 2) (schema_at 3)"
  "keeps_columns upgrade_consensus (schema_at 3) (schema_at 4)"
  "foreign_key_of ''tasks'' ''rubric_id'' ''rubrics'' (schema_at 1)"
  using upgrades_checked by (simp_all add: schema_reached upgrade_steps del: One_nat_def)

lemma linked_rubric:
  assumes "linked (schema_at 1, d)" "r \<in> set (d ''tasks'')"
  shows "r ''rubric_id'' = None \<or> (\<exists>r' \<in> set (d ''rubrics''). r' ''id'' = r ''rubric_id'')"
proof -
  obtain t where t: "table_of ''tasks'' (schema_at 1) = Some t" "references [''rubric_id''] ''rubrics'' [''id''] \<in> set (tb_foreign_keys t)"
    using upgrade_keeps(4) by (auto simp: foreign_key_of_def in_table_def split: option.splits)
  then have "t \<in> set (ct_tables (schema_at 1))" "tb_name t = ''tasks''" by (auto dest: row_of_SomeD)
  then have "refers d (references [''rubric_id''] ''rubrics'' [''id'']) r"
    using assms t(2) by (auto simp: linked_def list_all_iff)
  then show ?thesis by (auto simp: refers_def references_def list_ex_iff)
qed

lemma pins_accepted:
  assumes "linked (schema_at 1, d)"
  shows "accepted upgrade_rubric_versions (schema_at 1) d"
proof -
  let ?B = "butlast upgrade_rubric_versions" and ?U = "Update_To_Column ''tasks'' ''pinned_rubric_id'' ''rubric_id'' ''status'' ''assigned''"
  let ?k = "(references [''pinned_rubric_id''] ''rubrics'' [''id''])\<lparr>fk_name := Some ''fk_tasks_pinned_rubric''\<rparr>"
  let ?d = "rewrite ?U (fold rewrite ?B d)"
  have ops: "upgrade_rubric_versions = ?B @ [?U]" by (simp add: upgrade_rubric_versions_def)
  obtain c t where c: "reshapes ?B (schema_at 1) = Some c" "table_of ''tasks'' c = Some t"
      "\<forall>x \<in> set (tb_columns t). cn_name x = ''pinned_rubric_id'' \<longrightarrow> cn_type x = Uuid_T"
      "\<forall>k \<in> set (tb_foreign_keys t). ''pinned_rubric_id'' \<in> set (fk_columns k) \<longrightarrow> k = ?k"
    using pin_checked unfolding schema_reached checked_Some
    by (elim checkedD [elim_format] exE conjE) (auto simp: in_table_def list_all_iff split: option.splits)
  have 1: "accepted ?B (schema_at 1) d"
    by (simp add: upgrade_rubric_versions_def col_def refers_def references_def change_rows_def list_all_iff)
  obtain D where D: "D = ?d" by simp
  have d: "D ''tasks'' = map (\<lambda>r. if r ''status'' = Some ''assigned'' then r(''pinned_rubric_id'' := r ''rubric_id'')
      else r(''pinned_rubric_id'' := None)) (d ''tasks'')" "map (\<lambda>r. r ''id'') (D ''rubrics'') = map (\<lambda>r. r ''id'') (d ''rubrics'')"
    by (simp_all add: D upgrade_rubric_versions_def col_def change_rows_def)
  have "refers D ?k r" if "r \<in> set (D ''tasks'')" for r
  proof -
    have "r \<in> (\<lambda>r. if r ''status'' = Some ''assigned'' then r(''pinned_rubric_id'' := r ''rubric_id'')
        else r(''pinned_rubric_id'' := None)) ` set (d ''tasks'')" using that unfolding d(1) set_map .
    then obtain r0 where r0: "r0 \<in> set (d ''tasks'')" "r = (if r0 ''status'' = Some ''assigned''
        then r0(''pinned_rubric_id'' := r0 ''rubric_id'') else r0(''pinned_rubric_id'' := None))"
      by (rule imageE)
    then have "r ''pinned_rubric_id'' = None \<or> r ''pinned_rubric_id'' = r0 ''rubric_id''" by simp
    moreover have "r0 ''rubric_id'' = None \<or> r0 ''rubric_id'' \<in> set (map (\<lambda>r. r ''id'') (d ''rubrics''))"
      using linked_rubric [OF assms r0(1)] by (auto simp: rev_image_eqI)
    ultimately have "r ''pinned_rubric_id'' = None \<or> r ''pinned_rubric_id'' \<in> set (map (\<lambda>r. r ''id'') (D ''rubrics''))"
      unfolding d(2) by auto
    then show ?thesis by (auto simp: refers_def references_def list_ex_iff)
  qed
  then have "column_holds c ?d ''tasks'' ''pinned_rubric_id''" unfolding D [symmetric]
    using c(2-4) by (auto simp: column_holds_def list_all_iff column_fits_def)
  then have "accepted [?U] c (fold rewrite ?B d)" by simp
  then show ?thesis by (subst ops) (rule accepted_append [OF c(1) 1])
qed

text \<open>
  The rubric version revision pins exactly the tasks in flight. On rows whose tasks refer to rubrics, none of
  its statements is refused; an assigned task is pinned to the rubric it had, every other task to none, no rubric
  is superseded, and nothing else changes.
\<close>
theorem rubric_versions_pin_assigned:
  assumes "linked (schema_at 1, d)"
  shows "run (rev_upgrade rubric_versions) (schema_at 1, d) = Some (schema_at 2,
    d(''rubrics'' := map (\<lambda>r. r(''superseded_at'' := None, ''superseded_by_id'' := None)) (d ''rubrics''),
      ''tasks'' := map (\<lambda>r. r(''pinned_rubric_id'' := if r ''status'' = Some ''assigned'' then r ''rubric_id'' else None)) (d ''tasks'')))"
  using run_accepted [OF upgrade_steps(1) pins_accepted [OF assms]]
  by (simp add: rubric_versions_def upgrade_rubric_versions_def col_def change_rows_def comp_def fun_upd_twist if_distrib [of "\<lambda>v. _(_ := v)"] cong: if_cong)

lemma upgrade_ops:
  "concat (map rev_upgrade (drop 1 revisions)) = upgrade_rubric_versions @ upgrade_calibration @ upgrade_consensus"
  "concat (map rev_upgrade (drop 2 revisions)) = upgrade_calibration @ upgrade_consensus"
  "concat (map rev_upgrade (drop 3 revisions)) = upgrade_consensus"
  "concat (map rev_upgrade (drop 4 revisions)) = []" "concat (map rev_upgrade (drop 5 revisions)) = []"
  by (simp_all add: revisions_def rubric_versions_def calibration_def consensus_rounds_def retire_hourly_rate_def
      upgrade_retire_hourly_rate_def numeral_eq_Suc)

lemma upgrade_quiet: "list_all quiet upgrade_calibration" "list_all quiet upgrade_consensus"
  by code_simp+

lemma upgrade_accepted:
  assumes "1 \<le> n" "n \<le> 5" "linked (schema_at n, d)"
  shows "accepted (concat (map rev_upgrade (drop n revisions))) (schema_at n) d"
proof -
  have q: "accepted (upgrade_calibration @ upgrade_consensus) c d" "accepted upgrade_consensus c d" for c d
    by (simp_all add: accepted_quiet upgrade_quiet)
  consider "n = 1" | "n = 2" | "n = 3" | "n = 4 \<or> n = 5" using assms(1,2) by linarith
  then show ?thesis
  proof cases
    case 1
    then show ?thesis using accepted_append [OF upgrade_steps(1) pins_accepted q(1)] assms(3) by (simp only: upgrade_ops)
  next
    case 4
    then show ?thesis by (auto simp: upgrade_ops)
  qed (simp_all only: upgrade_ops q)
qed

lemma upgrade_values:
  assumes "1 \<le> n" "n \<le> 5"
  shows "every_column (\<lambda>t cn. map (\<lambda>r. r cn) (fold rewrite (concat (map rev_upgrade (drop n revisions))) d t) = map (\<lambda>r. r cn) (d t)) (schema_at n)"
proof -
  note k = upgrade_keeps(1-3) keeps_columns_trans [OF upgrade_keeps(2,3)]
  consider "n = 1" | "n = 2" | "n = 3" | "n = 4 \<or> n = 5" using assms by linarith
  then show ?thesis
  proof cases
    case 1
    show ?thesis unfolding 1 upgrade_ops by (rule keeps_columns_values [OF keeps_columns_trans [OF k(1,4)]])
  next
    case 2
    show ?thesis unfolding 2 upgrade_ops by (rule keeps_columns_values [OF k(4)])
  next
    case 3
    show ?thesis unfolding 3 upgrade_ops by (rule keeps_columns_values [OF k(3)])
  next
    case 4
    then show ?thesis by (auto simp: upgrade_ops every_column_def list_all_iff)
  qed
qed

text \<open>
  C34: an upgrade loses nothing. A database at any of the revisions, whatever its rows, as long as references
  resolve, is taken to head without a refused statement, and every column it had has the values it had.
\<close>
theorem upgrade_loses_nothing:
  assumes "1 \<le> n" "n \<le> 5" "linked (schema_at n, d)"
  shows "\<exists>d'. upgrade (drop n revisions) (schema_at n, d) = Some (schema_at 5, d') \<and>
    every_column (\<lambda>t cn. map (\<lambda>r. r cn) (d' t) = map (\<lambda>r. r cn) (d t)) (schema_at n)"
proof -
  have "reshapes (concat (map rev_upgrade (drop n revisions))) (schema_at n) = Some (schema_at 5)"
    using schema_walk [of n 5] assms(2) by (simp add: revisions_def)
  then show ?thesis
    using run_accepted upgrade_accepted [OF assms] upgrade_values [OF assms(1,2)] unfolding upgrade_def by blast
qed

section \<open>Witnesses\<close>

definition sample_contents :: contents where
  "sample_contents = (\<lambda>_. [])(
     ''tasks'' := [[''id'' \<mapsto> ''1'', ''status'' \<mapsto> ''adjudication'', ''rubric_id'' \<mapsto> ''9''],
                   [''id'' \<mapsto> ''2'', ''status'' \<mapsto> ''assigned'', ''rubric_id'' \<mapsto> ''9'']],
     ''rubrics'' := [[''id'' \<mapsto> ''9'']],
     ''api_keys'' := [[''id'' \<mapsto> ''3'', ''role'' \<mapsto> ''senior_reviewer'']])"

lemma sample_checked:
  "checked (reshapes (concat (map rev_upgrade (take 1 revisions))) (fst empty_database)) (\<lambda>c1.
     linked (c1, sample_contents) \<and>
   checked (reshapes (concat (map rev_upgrade [rubric_versions, calibration, consensus_rounds])) c1) (\<lambda>c4.
     typed (c4, sample_contents) \<and> in_table ''rubrics'' (\<lambda>t. True) c4))"
  by code_simp


lemma sample_facts:
  "linked (schema_at 1, sample_contents)" "typed (schema_at 4, sample_contents)" "confined (schema_at 5, sample_contents)"
proof -
  have "reshapes (concat (map rev_upgrade [rubric_versions, calibration, consensus_rounds])) (schema_at 1) = Some (schema_at 4)"
    using schema_walk [of 1 4] by (simp add: revisions_def numeral_eq_Suc)
  then have "linked (schema_at 1, sample_contents)" "typed (schema_at 4, sample_contents)"
      and known: "in_table ''rubrics'' (\<lambda>t. True) (schema_at 4)"
    using sample_checked by (simp_all add: schema_reached del: One_nat_def)
  then show "linked (schema_at 1, sample_contents)" "typed (schema_at 4, sample_contents)" by simp_all
  have "table_of n (schema_at 5) \<noteq> None" if "sample_contents n \<noteq> []" for n
    using that head_facts(3,4) known unfolding schema_at_5
    by (auto simp: sample_contents_def in_table_def split: if_splits option.splits)
  then show "confined (schema_at 5, sample_contents)" unfolding confined_def split by blast
qed

theorem consensus_downgrade_keeps_work_witness:
  "\<exists>d. run (rev_downgrade consensus_rounds) (schema_at 4, sample_contents) = Some (schema_at 3, d) \<and>
     map (\<lambda>r. r ''status'') (d ''tasks'') = [Some ''submitted'', Some ''assigned''] \<and>
     map (\<lambda>r. r ''role'') (d ''api_keys'') = [Some ''reviewer'']"
  using consensus_downgrade_keeps_work [OF sample_facts(2)] by (simp add: sample_contents_def)

theorem downgrade_leaves_nothing_witness:
  "downgrade revisions (schema_at 5, sample_contents) = Some empty_database"
  by (rule downgrade_leaves_nothing [OF sample_facts(2) [folded schema_at_5] sample_facts(3)])

theorem rubric_versions_pin_assigned_witness:
  "\<exists>d. run (rev_upgrade rubric_versions) (schema_at 1, sample_contents) = Some (schema_at 2, d) \<and>
     map (\<lambda>r. r ''pinned_rubric_id'') (d ''tasks'') = [None, Some ''9'']"
  using rubric_versions_pin_assigned [OF sample_facts(1)] by (simp add: sample_contents_def)

theorem upgrade_loses_nothing_witness:
  "\<exists>d. upgrade (drop 1 revisions) (schema_at 1, sample_contents) = Some (schema_at 5, d)"
  using upgrade_loses_nothing [of 1, OF _ _ sample_facts(1)] by auto

end
