(* ===== verification/Application.thy ===== *)
theory Application
  imports Reachable
begin

text \<open>
  The process around the requests: the engine and the session factory \<open>panelist/db.py\<close> keeps in module variables, the two
  routes of \<open>panelist/main.py\<close> that need no key, and the command line \<open>panelist/cli.py\<close>. Opening connections, rendering the
  metrics and parsing the arguments are the libraries'.
\<close>

section \<open>The engine\<close>

text \<open>Engines are numbered as they are created; a factory is named by the engine it is bound to.\<close>

record connections =
  cn_engine :: "nat option"
  cn_factory :: "nat option"
  cn_created :: nat
  cn_disposed :: "nat list"

definition no_connections :: connections where
  "no_connections = \<lparr>cn_engine = None, cn_factory = None, cn_created = 0, cn_disposed = []\<rparr>"

definition get_engine :: "connections \<Rightarrow> nat \<times> connections" where
  "get_engine c =
    (case cn_engine c of
       Some e \<Rightarrow> (e, c)
     | None \<Rightarrow> (cn_created c, c\<lparr>cn_engine := Some (cn_created c), cn_factory := Some (cn_created c),
                  cn_created := cn_created c + 1\<rparr>))"

text \<open>\<open>None\<close> is the failing \<open>assert\<close>.\<close>

definition session_factory :: "connections \<Rightarrow> nat option \<times> connections" where
  "session_factory c = (let (_, c) = get_engine c in (cn_factory c, c))"

definition reset_engine :: "connections \<Rightarrow> connections" where
  "reset_engine c = c\<lparr>cn_disposed := (case cn_engine c of None \<Rightarrow> cn_disposed c | Some e \<Rightarrow> e # cn_disposed c),
     cn_engine := None, cn_factory := None\<rparr>"

datatype connection_call = GetEngine | SessionFactory | ResetEngine

fun connect :: "connection_call \<Rightarrow> connections \<Rightarrow> connections" where
  "connect GetEngine c = snd (get_engine c)"
| "connect SessionFactory c = snd (session_factory c)"
| "connect ResetEngine c = reset_engine c"

text \<open>The module variables agree, and neither names an engine that was disposed of.\<close>

definition connections_ok :: "connections \<Rightarrow> bool" where
  "connections_ok c \<longleftrightarrow> cn_factory c = cn_engine c \<and> (\<forall>e \<in> set (cn_disposed c). e < cn_created c) \<and>
     (\<forall>e. cn_engine c = Some e \<longrightarrow> e < cn_created c \<and> e \<notin> set (cn_disposed c))"

lemma connect_ok: "connections_ok c \<Longrightarrow> connections_ok (connect x c)"
  by (cases x) (auto simp: connections_ok_def get_engine_def session_factory_def reset_engine_def less_Suc_eq split: option.splits)

lemma fold_connect_ok: "connections_ok c \<Longrightarrow> connections_ok (fold connect xs c)"
  by (induction xs arbitrary: c) (auto simp: connect_ok)

text \<open>
  Whatever calls the module got since it was loaded, asking for sessions passes the assertion, and the factory is bound
  to the current engine, never to one that was disposed of; asking again gives the same one.
\<close>

theorem session_factory_is_live:
  "\<exists>e c. session_factory (fold connect xs no_connections) = (Some e, c) \<and> cn_engine c = Some e \<and>
     e \<notin> set (cn_disposed c) \<and> session_factory c = (Some e, c)"
proof -
  have "connections_ok (fold connect xs no_connections)"
    by (rule fold_connect_ok) (simp add: connections_ok_def no_connections_def)
  then show ?thesis
    by (cases "cn_engine (fold connect xs no_connections)")
      (auto simp: connections_ok_def session_factory_def get_engine_def)
qed

section \<open>Routes without a key\<close>

definition app_version :: string where
  "app_version = ''6.0.1''"

definition healthz :: "(error + unit) \<Rightarrow> error + json" where
  "healthz select_one = (case select_one of Inl e \<Rightarrow> Inl e
     | Inr _ \<Rightarrow> Inr (JObj [(''status'', JStr ''ok''), (''version'', JStr app_version)]))"

text \<open>\<open>/metrics\<close> reads the tables into the gauges and renders all metrics.\<close>

definition metrics_route :: "(gauges \<Rightarrow> metric list \<Rightarrow> string) \<Rightarrow> db \<Rightarrow> gauges \<Rightarrow> string \<times> gauges" where
  "metrics_route generate_latest s g = (let g = refresh_gauges s g in (generate_latest g (metrics s), g))"

section \<open>The command line\<close>

datatype arguments = BootstrapCmd "string option" | TickCmd

definition transaction :: "(db \<Rightarrow> 'a outcome) \<Rightarrow> time \<Rightarrow> db \<Rightarrow> 'a outcome" where
  "transaction f now s =
    (case f (s\<lparr>tx_now := now\<rparr>) of (Inl e, s') \<Rightarrow> (Inl e, rolled_back s s') | (Inr x, s') \<Rightarrow> (Inr x, s'))"

lemma snd_transaction: "snd (transaction f now s) = transact f now s"
  by (simp add: transaction_def transact_def split: prod.splits sum.splits)

definition tick_json :: "tick_report \<Rightarrow> json" where
  "tick_json r = JObj
    [(''reclaimed'', JInt (tk_reclaimed r)), (''experts_scored'', JInt (tk_experts_scored r)),
     (''tier_changes'', JList (map (\<lambda>(name, old, new). JObj [(''expert'', JStr name), (''from_tier'', JStr (tier_value old)),
        (''to_tier'', JStr (tier_value new))]) (tk_tier_changes r))),
     (''uncalibrated_experts'', JInt (int (tk_uncalibrated_experts r))),
     (''adjudication_backlog'', JInt (tk_adjudication_backlog r)), (''unbilled_payouts'', JInt (tk_unbilled_payouts r)),
     (''unbilled_cents'', JInt (tk_unbilled_cents r)),
     (''days_since_period_close'', case tk_days_since_period_close r of None \<Rightarrow> JNull | Some x \<Rightarrow> JFloat x),
     (''rejected_twice'', JInt (tk_rejected_twice r)), (''undelivered_approved'', JInt (tk_undelivered_approved r)),
     (''reminders'', JList (map JStr (tk_reminders r)))]"

text \<open>A command writes a line to the standard output or to the standard error; the status is 0 unless it raises.\<close>

record printed =
  pt_out :: "string list"
  pt_err :: "string list"
  pt_status :: int

definition cli_main :: "env \<Rightarrow> time \<Rightarrow> arguments \<Rightarrow> db \<Rightarrow> printed outcome" where
  "cli_main E now args s =
    (case args of
       BootstrapCmd key \<Rightarrow> and_then (transaction (bootstrap E key) now s) (\<lambda>_ s.
         (Inr \<lparr>pt_out = [], pt_err = [''admin key ready''], pt_status = 0\<rparr>, s))
     | TickCmd \<Rightarrow> and_then (transaction (tick E ''system:tick'') now s) (\<lambda>r s.
         (Inr \<lparr>pt_out = [spaced_dumps (float_repr E) (tick_json r)], pt_err = [], pt_status = 0\<rparr>, s)))"

text \<open>A command is one event of the service.\<close>

lemma cli_main_happens: "happens E io (s, st) (snd (cli_main E now args s), st)"
proof -
  have keeps: "snd (and_then m (\<lambda>x s. (Inr (f x), s))) = snd m" for m :: "'b outcome" and f :: "'b \<Rightarrow> printed"
    by (simp add: and_then_def split: prod.splits sum.splits)
  show ?thesis
    by (cases args) (simp_all add: cli_main_def keeps snd_transaction happens.scheduled happens.first_key)
qed

end
