(* ===== verification/World.thy ===== *)
theory World
  imports Api "HOL-Library.State_Monad"
begin

text \<open>
  \<open>sim/world.py\<close>: the seeded experts, tasks and grades the demonstration and the benchmark send through the
  service. A generator of Python's \<open>random\<close> is a state that is threaded through the code; a record of functions
  says what a draw returns, and \<open>random_ok\<close> what the library documents of them.
\<close>

section \<open>Drawing\<close>

record 'g random =
  of_seed :: "int \<Rightarrow> 'g"
  of_text :: "string \<Rightarrow> 'g"
  below :: "nat \<Rightarrow> 'g \<Rightarrow> nat \<times> 'g"
  sampled :: "nat \<Rightarrow> nat \<Rightarrow> 'g \<Rightarrow> nat list \<times> 'g"
  shuffled :: "nat \<Rightarrow> 'g \<Rightarrow> nat list \<times> 'g"

text \<open>
  \<open>below n\<close> draws an index below \<open>n\<close>, \<open>sampled n k\<close> a list of \<open>k\<close> different ones, \<open>shuffled n\<close> a permutation.
\<close>

definition random_ok :: "'g random \<Rightarrow> bool" where
  "random_ok R \<longleftrightarrow> (\<forall>n g. 0 < n \<longrightarrow> fst (below R n g) < n) \<and>
     (\<forall>n k g. k \<le> n \<longrightarrow> distinct (fst (sampled R n k g)) \<and> length (fst (sampled R n k g)) = k \<and>
        set (fst (sampled R n k g)) \<subseteq> {..<n}) \<and>
     (\<forall>n g. mset (fst (shuffled R n g)) = mset [0..<n])"

definition choice :: "'g random \<Rightarrow> 'a list \<Rightarrow> ('g, 'a) state" where
  "choice R xs = do { i \<leftarrow> State (below R (length xs)); State_Monad.return (xs ! i) }"

definition randint :: "'g random \<Rightarrow> int \<Rightarrow> int \<Rightarrow> ('g, int) state" where
  "randint R a b = do { i \<leftarrow> State (below R (nat (b - a + 1))); State_Monad.return (a + int i) }"

definition sample :: "'g random \<Rightarrow> 'a list \<Rightarrow> nat \<Rightarrow> ('g, 'a list) state" where
  "sample R xs k = do { ids \<leftarrow> State (sampled R (length xs) k); State_Monad.return (map ((!) xs) ids) }"

definition shuffle :: "'g random \<Rightarrow> 'a list \<Rightarrow> ('g, 'a list) state" where
  "shuffle R xs = do { ids \<leftarrow> State (shuffled R (length xs)); State_Monad.return (map ((!) xs) ids) }"

section \<open>The fixed part of the world\<close>

definition TAGS :: "string list" where
  "TAGS = [''python'', ''law'', ''medicine'', ''finance'', ''math'', ''writing'', ''security'', ''biology'']"

definition TIERS :: "tier list" where
  "TIERS = [Junior, Junior, Junior, Senior, Senior, Lead]"

definition TASK_TYPES :: "string list" where
  "TASK_TYPES = [''single'', ''single'', ''single'', ''pairwise'']"

definition MODELS :: "string list" where
  "MODELS = [''model-a'', ''model-b'', ''model-c'']"

text \<open>The criteria give no scale, so the request body takes the default of its model.\<close>

definition plain_criterion :: "string \<Rightarrow> string \<Rightarrow> rat \<Rightarrow> criterion_in" where
  "plain_criterion key label w = \<lparr>ci_key = key, ci_label = label, ci_weight = w, ci_scale_min = 1, ci_scale_max = 5\<rparr>"

definition RUBRIC :: rubric_create where
  "RUBRIC = \<lparr>bc_name = ''response-quality'', bc_version = 1, bc_criteria =
     [plain_criterion ''accuracy'' ''Factual accuracy'' 2, plain_criterion ''completeness'' ''Completeness'' (3 / 2),
      plain_criterion ''clarity'' ''Clarity'' 1, plain_criterion ''safety'' ''Safety and policy'' 1]\<rparr>"

definition CRITERIA :: "string list" where
  "CRITERIA = map ci_key (bc_criteria RUBRIC)"

definition WEIGHTS :: "(string \<times> rat) list" where
  "WEIGHTS = map (\<lambda>c. (ci_key c, ci_weight c)) (bc_criteria RUBRIC)"

definition RATES :: "rate_card list" where
  "RATES = map (\<lambda>(tr, ty, cents). \<lparr>rc_tier = tr, rc_task_type = ty, rc_rate_cents = cents\<rparr>)
     [(Junior, ''default'', 300), (Senior, ''default'', 500), (Lead, ''default'', 800),
      (Junior, ''pairwise'', 450), (Senior, ''pairwise'', 700), (Lead, ''pairwise'', 1000)]"

definition PROMPTS :: "(string \<times> string) list" where
  "PROMPTS =
    [(''python'', ''Explain why this list comprehension leaks memory and rewrite it as a generator.''),
     (''law'', ''Summarize the enforceability of a restrictive covenant in this employment contract.''),
     (''medicine'', ''Review the dosage guidance in this response for an adult with renal impairment.''),
     (''finance'', ''Assess whether this explanation of bond convexity is correct and complete.''),
     (''math'', ''Check the proof that the sum of the first n odd numbers is n squared.''),
     (''writing'', ''Edit this paragraph for clarity while preserving the author'' @ [CHR 0x27] @ ''s argument.''),
     (''security'', ''Evaluate this description of how to rotate leaked credentials safely.''),
     (''biology'', ''Verify this explanation of how CRISPR-Cas9 introduces double-strand breaks.'')]"

definition RATIONALES :: "string list" where
  "RATIONALES =
    [''Accurate on the core claim; missed one edge case that a careful reader would expect.'',
     ''Clear structure and correct reasoning. Minor omission in the final recommendation.'',
     ''The answer is mostly right but overstates certainty on a contested point.'',
     ''Complete and well organised; safety guidance is appropriate for the audience.'',
     ''Reasoning is sound. Terminology is loose in places, which hurts clarity.'',
     ''Correct conclusion with a thin justification; would not satisfy a specialist.'']"

section \<open>Experts and tasks\<close>

record sim_expert =
  se_name :: string
  se_tags :: "string list"
  se_tier :: tier
  se_careless :: bool
  se_abandons_first :: bool
  se_id :: uuid
  se_key :: string
  se_served :: nat
  se_graded :: nat
  se_paused :: bool

text \<open>The payload of a task is the body of its creation without the rubric, which \<open>seed\<close> adds.\<close>

record payload =
  pl_external_ref :: string
  pl_prompt :: string
  pl_responses :: "json list"
  pl_required_tags :: "string list"
  pl_task_type :: string
  pl_min_tier :: tier
  pl_priority :: int
  pl_deadline :: time
  pl_required_grades :: int
  pl_is_attention_check :: bool
  pl_expected_scores :: "(string \<times> rat) list option"

record sim_task =
  st_payload :: payload
  st_true_scores :: "(string \<times> rat) list"
  st_id :: uuid

record world =
  w_seed :: int
  w_experts :: "sim_expert list"
  w_tasks :: "sim_task list"

text \<open>\<open>dict(t.payload, rubric_id=...)\<close>, the body \<open>seed\<close> of \<open>sim/demo.py\<close> posts.\<close>

definition with_rubric :: "uuid \<Rightarrow> payload \<Rightarrow> task_create" where
  "with_rubric rid p = \<lparr>kt_prompt = pl_prompt p, kt_responses = pl_responses p, kt_required_tags = pl_required_tags p,
     kt_task_type = pl_task_type p, kt_min_tier = pl_min_tier p, kt_rubric_id = rid, kt_priority = pl_priority p,
     kt_deadline = Some (pl_deadline p), kt_required_grades = pl_required_grades p,
     kt_is_attention_check = pl_is_attention_check p, kt_expected_scores = pl_expected_scores p,
     kt_external_ref = Some (pl_external_ref p)\<rparr>"

definition by_id :: "world \<Rightarrow> uuid \<Rightarrow> sim_task option" where
  "by_id w = map_of (map (\<lambda>t. (st_id t, t)) (rev (w_tasks w)))"

definition zero_padded :: "nat \<Rightarrow> nat \<Rightarrow> string" where
  "zero_padded width n = (let digits = nat_digits n in replicate (width - length digits) (CHR ''0'') @ digits)"

definition make_expert :: "'g random \<Rightarrow> nat \<Rightarrow> ('g, sim_expert) state" where
  "make_expert R i = do {
     k \<leftarrow> choice R [1, 2, 2, 3];
     tags \<leftarrow> sample R TAGS k;
     tr \<leftarrow> choice R TIERS;
     State_Monad.return \<lparr>se_name = ''expert-'' @ zero_padded 2 (i + 1), se_tags = tags, se_tier = tr, se_careless = False,
       se_abandons_first = False, se_id = 0, se_key = [], se_served = 0, se_graded = 0, se_paused = False\<rparr> }"

definition make_response :: "'g random \<Rightarrow> nat \<Rightarrow> nat \<Rightarrow> ('g, json) state" where
  "make_response R i j = do {
     m \<leftarrow> choice R MODELS;
     State_Monad.return (JObj [(''model'', JStr m),
       (''text'', JStr (''Response '' @ nat_digits (j + 1) @ '' to task '' @ nat_digits (i + 1)))]) }"

definition make_task :: "'g random \<Rightarrow> time \<Rightarrow> nat \<Rightarrow> nat \<Rightarrow> ('g, sim_task) state" where
  "make_task R now n_attention i = do {
     let is_attention = (i < n_attention);
     k \<leftarrow> choice R [1, 1, 2];
     tags \<leftarrow> sample R TAGS k;
     task_type \<leftarrow> choice R TASK_TYPES;
     true_scores \<leftarrow> State_Monad.traverse_list (\<lambda>c. do {
       v \<leftarrow> choice R [2, 3, 3, 4, 4, 4, 5, 5]; State_Monad.return (c, v) }) CRITERIA;
     responses \<leftarrow> State_Monad.traverse_list (make_response R i) [0..<if task_type = ''pairwise'' then 2 else 1];
     min_tier \<leftarrow> choice R (replicate 5 Junior @ [Senior]);
     priority \<leftarrow> choice R [0, 0, 1, 2, 3];
     deadline \<leftarrow> randint R 6 168;
     required \<leftarrow> (if is_attention then State_Monad.return 1 else choice R (replicate 5 1 @ [2]));
     State_Monad.return \<lparr>st_payload = \<lparr>pl_external_ref = ''sim-'' @ zero_padded 4 (i + 1),
         pl_prompt = the (map_of PROMPTS (hd tags)), pl_responses = responses, pl_required_tags = tags,
         pl_task_type = task_type, pl_min_tier = min_tier, pl_priority = priority,
         pl_deadline = now + seconds (3600 * deadline), pl_required_grades = required,
         pl_is_attention_check = is_attention, pl_expected_scores = (if is_attention then Some true_scores else None)\<rparr>,
       st_true_scores = true_scores, st_id = 0\<rparr> }"

text \<open>
  \<open>build_world\<close> fails on an index out of range with fewer than 30 experts; \<open>range\<close> of a negative count is
  empty, and so is the golden part when \<open>golden_share\<close> is negative.
\<close>

definition mark_experts :: "sim_expert list \<Rightarrow> sim_expert list option" where
  "mark_experts es =
    (if length es \<le> 29 then None
     else Some (let es = es[3 := (es ! 3)\<lparr>se_careless := True\<rparr>];
                    es = es[17 := (es ! 17)\<lparr>se_careless := True\<rparr>];
                    es = es[7 := (es ! 7)\<lparr>se_abandons_first := True\<rparr>]
                in es[29 := (es ! 29)\<lparr>se_abandons_first := True\<rparr>]))"

definition build_world :: "'g random \<Rightarrow> time \<Rightarrow> int \<Rightarrow> int \<Rightarrow> int \<Rightarrow> rat \<Rightarrow> world option" where
  "build_world R now sd n_experts n_tasks golden_share =
    (let (es, g) = run_state (State_Monad.traverse_list (make_expert R) [0..<nat n_experts]) (of_seed R sd)
     in case mark_experts es of
          None \<Rightarrow> None
        | Some es \<Rightarrow>
           let n_attention = nat (py_round (of_int n_tasks * golden_share));
               (ts, _) = run_state (do {
                 ts \<leftarrow> State_Monad.traverse_list (make_task R now n_attention) [0..<nat n_tasks];
                 shuffle R ts }) g
           in Some \<lparr>w_seed = sd, w_experts = es, w_tasks = ts\<rparr>)"

section \<open>Grading behaviour\<close>

record sim_grade =
  sg_scores :: "(string \<times> rat) list"
  sg_rationale :: string
  sg_time_spent_seconds :: int

definition grade_for :: "'g random \<Rightarrow> sim_expert \<Rightarrow> sim_task \<Rightarrow> ('g, sim_grade) state" where
  "grade_for R e t =
    (if se_careless e
     then do {
       scores \<leftarrow> State_Monad.traverse_list (\<lambda>c. do { v \<leftarrow> randint R 1 5; State_Monad.return (c, of_int v) }) CRITERIA;
       time_spent \<leftarrow> randint R 8 25;
       State_Monad.return \<lparr>sg_scores = scores, sg_rationale = ''Looks fine.'', sg_time_spent_seconds = time_spent\<rparr> }
     else do {
       scores \<leftarrow> State_Monad.traverse_list (\<lambda>(c, truth). do {
         noise \<leftarrow> choice R [0, 0, 0, 0, 1, - 1];
         State_Monad.return (c, max 1 (min 5 (truth + noise))) }) (st_true_scores t);
       rationale \<leftarrow> choice R RATIONALES;
       time_spent \<leftarrow> randint R 120 600;
       State_Monad.return \<lparr>sg_scores = scores, sg_rationale = rationale, sg_time_spent_seconds = time_spent\<rparr> })"

text \<open>A score that is missing is a \<open>KeyError\<close>.\<close>

definition weighted :: "(string \<times> rat) list \<Rightarrow> rat option" where
  "weighted scores = map_option (\<lambda>xs. fl (py_sum xs / py_sum (map snd WEIGHTS)))
     (those (map (\<lambda>c. case (map_of scores c, map_of WEIGHTS c) of
        (Some x, Some w) \<Rightarrow> Some (fl (x * w)) | _ \<Rightarrow> None) CRITERIA))"

end
