(* ===== verification/Demo.thy ===== *)
theory Demo
  imports World Reachable "HOL-Library.Multiset" "HOL-Library.AList"
begin

text \<open>
  The clients of \<open>sim/demo.py\<close> and \<open>sim/bench.py\<close>: what they ask of the running service and what they do with the
  answers. A client sees a status and a body. The state of a run is the number of requests made so far, the
  database and the store of deliveries; what surrounds the n-th request is a parameter of the server. Starting
  the server, connections, measured times and printing are not modelled.
\<close>

section \<open>A client of the service\<close>

record 'st server =
  sv_env :: env
  sv_io :: "'st storage"
  sv_sqrt :: "rat \<Rightarrow> rat"
  sv_moment :: "nat \<Rightarrow> moment"

type_synonym 'st wire = "nat \<times> db \<times> 'st"

text \<open>
  How a client fails: \<open>raise_for_status\<close> on a status that is not a success, a key missing in a body, a body that is
  not JSON or not of the expected shape, the least of no values, lists of different lengths, an exception of a tick run
  in the process of the client.
\<close>

datatype failure = StatusError nat | MissingKey string | BadBody | NothingToChoose | LengthMismatch | TickRaised error

definition post :: "'st server \<Rightarrow> string \<Rightarrow> command \<Rightarrow> 'st wire \<Rightarrow> (error, response, 'st wire) result" where
  "post S key c w = (let (n, \<sigma>) = w; (r, \<sigma>') = serve (sv_env S) (sv_io S) (sv_moment S n) c (Some key) \<sigma> in (r, (Suc n, \<sigma>')))"

definition fetch :: "'st server \<Rightarrow> string \<Rightarrow> query \<Rightarrow> 'st wire \<Rightarrow> (error, answer, 'st wire) result" where
  "fetch S key q w =
    (let (n, s, st) = w; now = m_now (sv_moment S n)
     in (fst (ask (sv_env S) (sv_io S) (sv_sqrt S) q (Some key) st (s\<lparr>tx_now := now\<rparr>)),
         (Suc n, look (sv_env S) (sv_io S) (sv_sqrt S) q (Some key) now (s, st))))"

definition raise_for_status :: "(error, 'a, 'w) result \<Rightarrow> (failure, 'a, 'w) result" where
  "raise_for_status r = (case r of (Inl e, w) \<Rightarrow> (Inl (StatusError (http_status e)), w) | (Inr x, w) \<Rightarrow> (Inr x, w))"

text \<open>The body of an error is \<open>{"detail": ...}\<close>, so the key the client reads is missing; a crash of the handler is
  answered with plain text.\<close>

definition crashed :: "error \<Rightarrow> bool" where
  "crashed e \<longleftrightarrow> (case e of ServiceError _ _ \<Rightarrow> False | HTTPException _ _ \<Rightarrow> False | _ \<Rightarrow> True)"

definition json_field :: "string \<Rightarrow> (error, 'a, 'w) result \<Rightarrow> (failure, 'a, 'w) result" where
  "json_field key r =
    (case r of
       (Inr x, w) \<Rightarrow> (Inr x, w)
     | (Inl e, w) \<Rightarrow> (Inl (if crashed e then BadBody else MissingKey key), w))"

text \<open>\<open>while True\<close>: a turn of the body either leaves the loop, by \<open>return\<close> or an exception, or goes on.\<close>

partial_function (option) repeating ::
  "('c \<Rightarrow> 'w \<Rightarrow> (('e + 'c) + 'c) \<times> 'w) \<Rightarrow> 'c \<Rightarrow> 'w \<Rightarrow> ('e, 'c, 'w) result option" where
  "repeating turn c w = (case turn c w of (Inl r, w') \<Rightarrow> Some (r, w') | (Inr c', w') \<Rightarrow> repeating turn c' w')"

declare repeating.simps [code]

section \<open>The fingerprint of a world\<close>

text \<open>The scores of a world are integers.\<close>

definition scores_object :: "(string \<times> rat) list \<Rightarrow> json" where
  "scores_object sc = JObj (map (\<lambda>(c, v). (c, JInt \<lfloor>v\<rfloor>)) sc)"

definition fixed_expert :: "sim_expert \<Rightarrow> json" where
  "fixed_expert e = JObj [(''name'', JStr (se_name e)), (''tags'', JList (map JStr (se_tags e))),
     (''tier'', JStr (tier_value (se_tier e))), (''careless'', JBool (se_careless e)),
     (''abandons_first'', JBool (se_abandons_first e))]"

definition fixed_task :: "sim_task \<Rightarrow> json" where
  "fixed_task t = (let p = st_payload t in JObj
     [(''external_ref'', JStr (pl_external_ref p)), (''prompt'', JStr (pl_prompt p)),
      (''responses'', JList (pl_responses p)), (''required_tags'', JList (map JStr (pl_required_tags p))),
      (''task_type'', JStr (pl_task_type p)), (''min_tier'', JStr (tier_value (pl_min_tier p))),
      (''priority'', JInt (pl_priority p)), (''required_grades'', JInt (pl_required_grades p)),
      (''is_attention_check'', JBool (pl_is_attention_check p)),
      (''expected_scores'', case pl_expected_scores p of None \<Rightarrow> JNull | Some sc \<Rightarrow> scores_object sc),
      (''true_scores'', scores_object (st_true_scores t))])"

definition world_fingerprint :: "env \<Rightarrow> world \<Rightarrow> string" where
  "world_fingerprint E w = hexdigest (sha256 E (spaced_dumps (float_repr E) (JObj
     [(''experts'', JList (map fixed_expert (w_experts w))), (''tasks'', JList (map fixed_task (w_tasks w)))])))"

text \<open>\<open>check_artifact\<close> rebuilds the world of a recorded run and compares the fingerprints; \<open>None\<close> is the exception
  of \<open>build_world\<close>, otherwise the exit code.\<close>

definition check_artifact :: "env \<Rightarrow> 'g random \<Rightarrow> time \<Rightarrow> int \<Rightarrow> int \<Rightarrow> int \<Rightarrow> rat \<Rightarrow> string \<Rightarrow> int option" where
  "check_artifact E R now sd n_experts n_tasks golden_share recorded =
     map_option (\<lambda>w. if world_fingerprint E w = recorded then 0 else 1) (build_world R now sd n_experts n_tasks golden_share)"

section \<open>Seeding\<close>

fun seed_experts :: "'st server \<Rightarrow> string \<Rightarrow> sim_expert list \<Rightarrow> 'st wire \<Rightarrow> (failure, sim_expert list, 'st wire) result" where
  "seed_experts S admin [] w = (Inr [], w)"
| "seed_experts S admin (e # es) w =
    and_then (json_field ''id'' (post S admin (CreateExpert \<lparr>xc_name = se_name e, xc_tags = se_tags e, xc_tier = se_tier e,
        xc_task_rate_cents = None\<rparr>) w)) (\<lambda>created w.
      case created of
        ExpertOut x \<Rightarrow>
          and_then (json_field ''key'' (post S admin (CreateExpertKey (xo_id x)) w)) (\<lambda>issued w.
            case issued of
              ApiKeyOut k \<Rightarrow>
                and_then (seed_experts S admin es w) (\<lambda>es w. (Inr (e\<lparr>se_id := xo_id x, se_key := ko_key k\<rparr> # es), w))
            | _ \<Rightarrow> (Inl BadBody, w))
      | _ \<Rightarrow> (Inl BadBody, w))"

definition issued_key :: "'st server \<Rightarrow> string \<Rightarrow> role \<Rightarrow> string \<Rightarrow> 'st wire \<Rightarrow> (failure, string, 'st wire) result" where
  "issued_key S admin r label w =
    and_then (json_field ''key'' (post S admin (CreateKey \<lparr>kc_role = r, kc_expert_id = None, kc_label = label\<rparr>) w)) (\<lambda>a w.
      case a of ApiKeyOut k \<Rightarrow> (Inr (ko_key k), w) | _ \<Rightarrow> (Inl BadBody, w))"

text \<open>The answer of \<open>POST /rubrics\<close> is not checked when it comes; its identifier is read when the tasks are posted.
  \<open>seed\<close> returns the world with its identifiers, and the keys of the reviewer and of the senior reviewer.\<close>

definition seed :: "'st server \<Rightarrow> world \<Rightarrow> string \<Rightarrow> 'st wire \<Rightarrow> (failure, world \<times> uuid \<times> string \<times> string, 'st wire) result" where
  "seed S wd admin w =
    (let (rubric, w) = post S admin (CreateRubric RUBRIC) w in
     if (case rubric of Inl e \<Rightarrow> crashed e | Inr _ \<Rightarrow> False) then (Inl BadBody, w)
     else
     and_then (raise_for_status (post S admin (PutRateCards RATES) w)) (\<lambda>_ w.
     and_then (seed_experts S admin (w_experts wd) w) (\<lambda>es w.
     and_then (json_field ''id'' (rubric, w)) (\<lambda>rubric w.
     case rubric of
       RubricOut r \<Rightarrow>
         and_then (json_field ''ids'' (post S admin (CreateTasks (map (\<lambda>t. with_rubric (uo_id r) (st_payload t)) (w_tasks wd))) w)) (\<lambda>a w.
         case a of
           IdsOut ids \<Rightarrow>
             if length ids \<noteq> length (w_tasks wd) then (Inl LengthMismatch, w)
             else let wd' = wd\<lparr>w_experts := es, w_tasks := map2 (\<lambda>t i. t\<lparr>st_id := i\<rparr>) (w_tasks wd) ids\<rparr> in
               and_then (issued_key S admin ReviewerRole ''sim'' w) (\<lambda>reviewer w.
               and_then (issued_key S admin SeniorReviewerRole ''sim-senior'' w) (\<lambda>senior w.
               (Inr (wd', uo_id r, reviewer, senior), w)))
         | _ \<Rightarrow> (Inl BadBody, w))
     | _ \<Rightarrow> (Inl BadBody, w)))))"


section \<open>Claiming and grading\<close>

text \<open>The counters of \<open>Stats\<close>; a \<open>Counter\<close> is a multiset. Latencies are measured times.\<close>

record stats =
  sx_routed_by_tag :: "string multiset"
  sx_mismatches :: nat
  sx_double_blocked :: nat
  sx_double_attempts :: nat
  sx_claims :: nat
  sx_empty :: nat
  sx_paused :: "string list"

definition no_stats :: stats where
  "no_stats = \<lparr>sx_routed_by_tag = {#}, sx_mismatches = 0, sx_double_blocked = 0, sx_double_attempts = 0,
     sx_claims = 0, sx_empty = 0, sx_paused = []\<rparr>"

text \<open>
  A thread of the pool runs \<open>run_expert\<close>; it is about to claim, about to post a grade, or done. Between two
  requests of a thread any thread may run, so a step is one request.
\<close>

datatype place = Claiming | Grading grade_create | Returned | Raised failure

record 'g thread =
  th_expert :: sim_expert
  th_rng :: 'g
  th_place :: place

definition started :: "'g random \<Rightarrow> int \<Rightarrow> sim_expert \<Rightarrow> 'g thread" where
  "started R sd e = \<lparr>th_expert = e, th_rng = of_text R (str_int sd @ '':'' @ se_name e), th_place = Claiming\<rparr>"

definition served_task :: "'g random \<Rightarrow> (uuid \<Rightarrow> sim_task option) \<Rightarrow> task_expert_view \<Rightarrow> 'g thread \<Rightarrow> stats \<Rightarrow> 'g thread \<times> stats" where
  "served_task R tasks_by_id v th x =
    (case tasks_by_id (ev_id v) of
       None \<Rightarrow> (th\<lparr>th_place := Raised (MissingKey (str_uuid (ev_id v)))\<rparr>, x)
     | Some t \<Rightarrow>
        let e = (th_expert th)\<lparr>se_served := se_served (th_expert th) + 1\<rparr>;
            shared = remdups (filter (\<lambda>tag. tag \<in> set (se_tags e)) (pl_required_tags (st_payload t)));
            x = x\<lparr>sx_claims := sx_claims x + 1, sx_routed_by_tag := sx_routed_by_tag x + mset shared\<rparr>;
            x = (if shared = [] then x\<lparr>sx_mismatches := sx_mismatches x + 1\<rparr> else x);
            (g, rng) = run_state (grade_for R e t) (th_rng th)
        in (\<lparr>th_expert = e, th_rng = rng, th_place = Grading \<lparr>gc_task_id = ev_id v, gc_rubric_id = None,
              gc_scores = sg_scores g, gc_rationale = sg_rationale g, gc_time_spent_seconds = sg_time_spent_seconds g\<rparr>\<rparr>, x))"

definition run_expert :: "'st server \<Rightarrow> 'g random \<Rightarrow> (uuid \<Rightarrow> sim_task option) \<Rightarrow> 'g thread \<Rightarrow> stats \<Rightarrow> 'st wire \<Rightarrow>
    'g thread \<times> stats \<times> 'st wire" where
  "run_expert S R tasks_by_id th x w =
    (let e = th_expert th in
     case th_place th of
       Claiming \<Rightarrow>
         (case post S (se_key e) NextTask w of
            (Inl err, w) \<Rightarrow>
              if http_status err = 423
              then (th\<lparr>th_expert := e\<lparr>se_paused := True\<rparr>, th_place := Returned\<rparr>, x\<lparr>sx_paused := sx_paused x @ [se_name e]\<rparr>, w)
              else (th\<lparr>th_place := Raised (StatusError (http_status err))\<rparr>, x, w)
          | (Inr NoContent, w) \<Rightarrow> (th\<lparr>th_place := Returned\<rparr>, x\<lparr>sx_empty := sx_empty x + 1\<rparr>, w)
          | (Inr (TaskOut v), w) \<Rightarrow> (case served_task R tasks_by_id v th x of (th, x) \<Rightarrow> (th, x, w))
          | (Inr _, w) \<Rightarrow> (th\<lparr>th_place := Raised BadBody\<rparr>, x, w))
     | Grading b \<Rightarrow>
         (case post S (se_key e) (SubmitGrade b) w of
            (Inl err, w) \<Rightarrow>
              (th\<lparr>th_place := (if http_status err = 409 then Claiming else Raised (StatusError (http_status err)))\<rparr>, x, w)
          | (Inr _, w) \<Rightarrow> (th\<lparr>th_expert := e\<lparr>se_graded := se_graded e + 1\<rparr>, th_place := Claiming\<rparr>, x, w))
     | _ \<Rightarrow> (th, x, w))"

text \<open>
  A pool of threads under a schedule, the order in which the threads take their steps. A pool refuses to have no workers;
  the worlds \<open>build_world\<close> returns have at least 30 experts.
\<close>

fun pool :: "'st server \<Rightarrow> 'g random \<Rightarrow> (uuid \<Rightarrow> sim_task option) \<Rightarrow> nat list \<Rightarrow> 'g thread list \<Rightarrow> stats \<Rightarrow> 'st wire \<Rightarrow>
    'g thread list \<times> stats \<times> 'st wire" where
  "pool S R tasks_by_id [] ths x w = (ths, x, w)"
| "pool S R tasks_by_id (i # schedule) ths x w =
    (if i < length ths
     then (case run_expert S R tasks_by_id (ths ! i) x w of (th, x, w) \<Rightarrow> pool S R tasks_by_id schedule (ths[i := th]) x w)
     else pool S R tasks_by_id schedule ths x w)"

section \<open>The contention round\<close>

text \<open>
  Every expert claims, then tries to take a task someone else holds; the pool runs the requests in some order.
  \<open>holders\<close> is the dict of the held tasks, later experts overwriting earlier ones in place.
\<close>

definition first_claim :: "'st server \<Rightarrow> sim_expert \<Rightarrow> 'st wire \<Rightarrow> uuid option \<times> 'st wire" where
  "first_claim S e w = (case post S (se_key e) NextTask w of (Inr (TaskOut v), w) \<Rightarrow> (Some (ev_id v), w) | (_, w) \<Rightarrow> (None, w))"

fun first_claims :: "'st server \<Rightarrow> sim_expert list \<Rightarrow> nat list \<Rightarrow> uuid option list \<Rightarrow> 'st wire \<Rightarrow> uuid option list \<times> 'st wire" where
  "first_claims S es [] held w = (held, w)"
| "first_claims S es (i # order) held w =
    (case first_claim S (es ! i) w of (tid, w) \<Rightarrow> first_claims S es order (held[i := tid]) w)"

definition holders :: "uuid option list \<Rightarrow> (uuid \<times> nat) list" where
  "holders held = fold (\<lambda>(i, tid) hs. case tid of None \<Rightarrow> hs | Some t \<Rightarrow> AList.update t i hs) (List.enumerate 0 held) []"

definition steal :: "'st server \<Rightarrow> sim_expert list \<Rightarrow> (uuid \<times> nat) list \<Rightarrow> nat \<Rightarrow> 'st wire \<Rightarrow> (nat \<times> nat) \<times> 'st wire" where
  "steal S es hs i w =
    (case find (\<lambda>(tid, holder). holder \<noteq> i) hs of
       None \<Rightarrow> ((0, 0), w)
     | Some (target, _) \<Rightarrow>
         (case post S (se_key (es ! i)) (ClaimTask target) w of
            (Inl e, w) \<Rightarrow> ((1, if http_status e = 409 then 1 else 0), w)
          | (Inr _, w) \<Rightarrow> ((1, 0), w)))"

fun steals :: "'st server \<Rightarrow> sim_expert list \<Rightarrow> (uuid \<times> nat) list \<Rightarrow> nat list \<Rightarrow> 'st wire \<Rightarrow> (nat \<times> nat) \<times> 'st wire" where
  "steals S es hs [] w = ((0, 0), w)"
| "steals S es hs (i # order) w =
    (case steal S es hs i w of ((a, b), w) \<Rightarrow> case steals S es hs order w of ((a', b'), w) \<Rightarrow> ((a + a', b + b'), w))"

fun releases :: "'st server \<Rightarrow> (sim_expert \<times> uuid option) list \<Rightarrow> 'st wire \<Rightarrow> 'st wire" where
  "releases S [] w = w"
| "releases S ((e, tid) # held) w =
    (case tid of
       Some t \<Rightarrow> if se_abandons_first e then releases S held w else releases S held (snd (post S (se_key e) (ReleaseTask t) w))
     | None \<Rightarrow> releases S held w)"

definition contention_round :: "'st server \<Rightarrow> world \<Rightarrow> nat list \<Rightarrow> nat list \<Rightarrow> stats \<Rightarrow> 'st wire \<Rightarrow> (nat \<times> nat) \<times> stats \<times> 'st wire" where
  "contention_round S wd order1 order2 x w =
    (let es = w_experts wd;
         (held, w) = first_claims S es order1 (replicate (length es) None) w;
         task_ids = concat (map (\<lambda>tid. case tid of None \<Rightarrow> [] | Some t \<Rightarrow> [t]) held);
         ((attempts, blocked), w) = steals S es (holders held) order2 w;
         x = x\<lparr>sx_double_attempts := sx_double_attempts x + attempts, sx_double_blocked := sx_double_blocked x + blocked\<rparr>;
         w = releases S (zip es held) w
     in ((length task_ids, card (set task_ids)), x, w))"

text \<open>The exit code of the demonstration.\<close>

definition exit_code :: "stats \<Rightarrow> int" where
  "exit_code x = (if sx_mismatches x = 0 \<and> sx_double_blocked x = sx_double_attempts x then 0 else 1)"

section \<open>Reviewing and adjudicating\<close>

definition spot_check :: "grade_out \<Rightarrow> rat \<Rightarrow> review_create" where
  "spot_check g truth =
    (if float_distance (go_weighted_score g) truth > 3 / 2
     then \<lparr>rb_grade_id = go_id g, rb_decision = Reject, rb_reason = Some ''spot check failed''\<rparr>
     else \<lparr>rb_grade_id = go_id g, rb_decision = Approve, rb_reason = None\<rparr>)"

definition truth_of :: "(uuid \<Rightarrow> sim_task option) \<Rightarrow> uuid \<Rightarrow> 'w \<Rightarrow> (failure, rat, 'w) result" where
  "truth_of tasks_by_id tid w =
    (case tasks_by_id tid of
       None \<Rightarrow> (Inl (MissingKey (str_uuid tid)), w)
     | Some t \<Rightarrow> (case weighted (st_true_scores t) of None \<Rightarrow> (Inl (MissingKey ''score''), w) | Some x \<Rightarrow> (Inr x, w)))"

fun review_batch :: "'st server \<Rightarrow> string \<Rightarrow> (uuid \<Rightarrow> sim_task option) \<Rightarrow> grade_out list \<Rightarrow> nat \<times> nat \<Rightarrow> 'st wire \<Rightarrow>
    (failure, nat \<times> nat, 'st wire) result" where
  "review_batch S reviewer tasks_by_id [] c w = (Inr c, w)"
| "review_batch S reviewer tasks_by_id (g # gs) c w =
    and_then (truth_of tasks_by_id (go_task_id g) w) (\<lambda>truth w.
      let b = spot_check g truth in
      and_then (raise_for_status (post S reviewer (CreateReview b) w)) (\<lambda>_ w.
        review_batch S reviewer tasks_by_id gs
          (if rb_decision b = Reject then (fst c, snd c + 1) else (fst c + 1, snd c)) w))"

text \<open>A turn of the loop: an empty batch returns the counts. Iterating over the body of an error fails.\<close>

definition review_turn :: "'st server \<Rightarrow> string \<Rightarrow> (uuid \<Rightarrow> sim_task option) \<Rightarrow> nat \<times> nat \<Rightarrow> 'st wire \<Rightarrow>
    ((failure + nat \<times> nat) + nat \<times> nat) \<times> 'st wire" where
  "review_turn S reviewer tasks_by_id c w =
    (case fetch S reviewer (ListUnreviewed 1000) w of
       (Inr (GradesAnswer batch), w) \<Rightarrow>
         if batch = [] then (Inl (Inr c), w)
         else (case review_batch S reviewer tasks_by_id batch c w of
                 (Inl e, w) \<Rightarrow> (Inl (Inl e), w)
               | (Inr c, w) \<Rightarrow> (Inr c, w))
     | (_, w) \<Rightarrow> (Inl (Inl BadBody), w))"

definition review_all :: "'st server \<Rightarrow> string \<Rightarrow> (uuid \<Rightarrow> sim_task option) \<Rightarrow> 'st wire \<Rightarrow>
    (failure, nat \<times> nat, 'st wire) result option" where
  "review_all S reviewer tasks_by_id = repeating (review_turn S reviewer tasks_by_id) (0, 0)"

fun adjudicate_batch :: "'st server \<Rightarrow> string \<Rightarrow> (uuid \<Rightarrow> sim_task option) \<Rightarrow> adjudication_view list \<Rightarrow> nat \<times> nat \<Rightarrow> 'st wire \<Rightarrow>
    (failure, nat \<times> nat, 'st wire) result" where
  "adjudicate_batch S senior tasks_by_id [] c w = (Inr c, w)"
| "adjudicate_batch S senior tasks_by_id (entry # queue) c w =
    and_then (truth_of tasks_by_id (jv_task_id entry) w) (\<lambda>truth w.
      case min_by (\<lambda>g. float_distance (cg_weighted_score g) truth) (jv_grades entry) of
        None \<Rightarrow> (Inl NothingToChoose, w)
      | Some best \<Rightarrow>
          and_then (raise_for_status (post S senior (Decide (jv_task_id entry)
              \<lparr>ad_delivered_grade_id = cg_grade_id best, ad_reason = ''closest to the reference answer''\<rparr>) w)) (\<lambda>r w.
            case r of
              AdjudicationResult d \<Rightarrow>
                adjudicate_batch S senior tasks_by_id queue (fst c + 1, snd c + length (aj_outvoted d)) w
            | _ \<Rightarrow> (Inl BadBody, w)))"

definition adjudicate_turn :: "'st server \<Rightarrow> string \<Rightarrow> (uuid \<Rightarrow> sim_task option) \<Rightarrow> nat \<times> nat \<Rightarrow> 'st wire \<Rightarrow>
    ((failure + nat \<times> nat) + nat \<times> nat) \<times> 'st wire" where
  "adjudicate_turn S senior tasks_by_id c w =
    (case fetch S senior (AdjudicationQueue 1000) w of
       (Inr (AdjudicationsAnswer queue), w) \<Rightarrow>
         if queue = [] then (Inl (Inr c), w)
         else (case adjudicate_batch S senior tasks_by_id queue c w of
                 (Inl e, w) \<Rightarrow> (Inl (Inl e), w)
               | (Inr c, w) \<Rightarrow> (Inr c, w))
     | (_, w) \<Rightarrow> (Inl (Inl BadBody), w))"

definition adjudicate_all :: "'st server \<Rightarrow> string \<Rightarrow> (uuid \<Rightarrow> sim_task option) \<Rightarrow> 'st wire \<Rightarrow>
    (failure, nat \<times> nat, 'st wire) result option" where
  "adjudicate_all S senior tasks_by_id = repeating (adjudicate_turn S senior tasks_by_id) (0, 0)"

fun tier_moves :: "'st server \<Rightarrow> string \<Rightarrow> sim_expert list \<Rightarrow> 'st wire \<Rightarrow> (failure, tier_change_out list, 'st wire) result" where
  "tier_moves S admin [] w = (Inr [], w)"
| "tier_moves S admin (e # es) w =
    and_then (json_field ''changes'' (fetch S admin (CalibrationOf (se_id e)) w)) (\<lambda>a w.
      case a of
        CalibrationAnswer v \<Rightarrow> and_then (tier_moves S admin es w) (\<lambda>moves w. (Inr (cv_changes v @ moves), w))
      | _ \<Rightarrow> (Inl BadBody, w))"

section \<open>The run\<close>

text \<open>
  \<open>main\<close> up to the last adjudication. Each pool needs a schedule; \<open>None\<close> means that a schedule ends before all threads
  of its pool have. A thread that raised makes \<open>pool.map\<close> raise.
\<close>

definition joined :: "'g thread list \<Rightarrow> (failure + sim_expert list) option" where
  "joined ths =
    (if list_all (\<lambda>th. case th_place th of Returned \<Rightarrow> True | Raised _ \<Rightarrow> True | _ \<Rightarrow> False) ths
     then Some (case concat (map (\<lambda>th. case th_place th of Raised f \<Rightarrow> [f] | _ \<Rightarrow> []) ths) of
                  [] \<Rightarrow> Inr (map th_expert ths) | f # _ \<Rightarrow> Inl f)
     else None)"

text \<open>The experts are objects the threads change in place.\<close>

fun written_back :: "(sim_expert \<Rightarrow> bool) \<Rightarrow> sim_expert list \<Rightarrow> sim_expert list \<Rightarrow> sim_expert list" where
  "written_back p (e # es) (u # us) = (if p e then u # written_back p es us else e # written_back p es (u # us))"
| "written_back p es [] = es"
| "written_back p [] us = []"

definition run_pool :: "'st server \<Rightarrow> 'g random \<Rightarrow> (sim_expert \<Rightarrow> bool) \<Rightarrow> nat list \<Rightarrow> world \<Rightarrow> stats \<Rightarrow> 'st wire \<Rightarrow>
    (failure, world \<times> stats, 'st wire) result option" where
  "run_pool S R chosen schedule wd x w =
    (case pool S R (by_id wd) schedule (map (started R (w_seed wd)) (filter chosen (w_experts wd))) x w of
       (ths, x, w) \<Rightarrow> (case joined ths of
          None \<Rightarrow> None
        | Some (Inl f) \<Rightarrow> Some (Inl f, w)
        | Some (Inr es) \<Rightarrow> Some (Inr (wd\<lparr>w_experts := written_back chosen (w_experts wd) es\<rparr>, x), w)))"

definition proceed :: "('e, 'a, 'w) result option \<Rightarrow> ('a \<Rightarrow> 'w \<Rightarrow> ('e, 'b, 'w) result option) \<Rightarrow> ('e, 'b, 'w) result option" where
  "proceed r f = (case r of None \<Rightarrow> None | Some (Inl e, w) \<Rightarrow> Some (Inl e, w) | Some (Inr a, w) \<Rightarrow> f a w)"

text \<open>Rejected tasks are graded again, in at most as many rounds as there are schedules.\<close>

fun regrade :: "'st server \<Rightarrow> 'g random \<Rightarrow> string \<Rightarrow> nat list list \<Rightarrow> world \<Rightarrow> stats \<Rightarrow> nat \<times> nat \<times> nat \<Rightarrow> 'st wire \<Rightarrow>
    (failure, world \<times> stats \<times> nat \<times> nat \<times> nat, 'st wire) result option" where
  "regrade S R reviewer [] wd x c w = Some (Inr (wd, x, c), w)"
| "regrade S R reviewer (schedule # rest) wd x c w =
    proceed (run_pool S R (\<lambda>e. \<not> se_paused e) schedule wd x w) (\<lambda>(wd, x) w.
    proceed (review_all S reviewer (by_id wd) w) (\<lambda>(a, r) w.
      let c = (case c of (approved, rejected, regraded) \<Rightarrow> (approved + a, rejected + r, regraded + a + r))
      in if r = 0 then Some (Inr (wd, x, c), w) else regrade S R reviewer rest wd x c w))"

record schedules =
  sc_claims :: "nat list"
  sc_steals :: "nat list"
  sc_first :: "nat list"
  sc_second :: "nat list"
  sc_regrade :: "nat \<Rightarrow> nat list"

definition demo_work :: "'st server \<Rightarrow> 'g random \<Rightarrow> schedules \<Rightarrow> world \<Rightarrow> string \<Rightarrow> 'st wire \<Rightarrow>
    (failure, world \<times> stats \<times> (nat \<times> nat \<times> nat) \<times> (nat \<times> nat), 'st wire) result option" where
  "demo_work S R sc wd admin w =
    proceed (Some (seed S wd admin w)) (\<lambda>(wd, rubric, reviewer, senior) w.
    case contention_round S wd (sc_claims sc) (sc_steals sc) no_stats w of (_, x, w) \<Rightarrow>
    proceed (run_pool S R (\<lambda>_. True) (sc_first sc) wd x w) (\<lambda>(wd, x) w.
    proceed (Some (json_field ''reclaimed'' (post S admin Reclaim w))) (\<lambda>_ w.
    proceed (run_pool S R (\<lambda>e. \<not> se_paused e) (sc_second sc) wd x w) (\<lambda>(wd, x) w.
    proceed (review_all S reviewer (by_id wd) w) (\<lambda>(approved, rejected) w.
    proceed (regrade S R reviewer (map (sc_regrade sc) [0..<3]) wd x (approved, rejected, 0) w) (\<lambda>(wd, x, counts) w.
    proceed (adjudicate_all S senior (by_id wd) w) (\<lambda>settled w. Some (Inr (wd, x, counts, settled), w))))))))"

section \<open>Closing the books\<close>

text \<open>
  \<open>main\<close> after the last adjudication: the period is closed, the dataset exported and the tick run, and the numbers of
  the summary are read from the answers. A body is kept until a key of it is read; what is only printed is not modelled.
  \<open>/metrics\<close> changes no table.
\<close>

definition json_body :: "(error, 'a, 'w) result \<Rightarrow> (failure, error + 'a, 'w) result" where
  "json_body r = (case r of (Inl e, w) \<Rightarrow> if crashed e then (Inl BadBody, w) else (Inr (Inl e), w) | (Inr x, w) \<Rightarrow> (Inr (Inr x), w))"

definition read_key :: "string \<Rightarrow> error + 'a \<Rightarrow> 'w \<Rightarrow> (failure, 'a, 'w) result" where
  "read_key key b w = (case b of Inl e \<Rightarrow> Inl (MissingKey key) | Inr x \<Rightarrow> Inr x, w)"

definition run_tick :: "'st server \<Rightarrow> 'st wire \<Rightarrow> (failure, tick_report, 'st wire) result" where
  "run_tick S w =
    (let (n, s, st) = w in
     case tick (sv_env S) ''system:tick'' (s\<lparr>tx_now := m_now (sv_moment S n)\<rparr>) of
       (Inl e, s') \<Rightarrow> (Inl (TickRaised e), (Suc n, rolled_back s s', st))
     | (Inr r, s') \<Rightarrow> (Inr r, (Suc n, s', st)))"

fun attentions :: "'st server \<Rightarrow> string \<Rightarrow> sim_expert list \<Rightarrow> 'st wire \<Rightarrow> (failure, (error + answer) list, 'st wire) result" where
  "attentions S admin [] w = (Inr [], w)"
| "attentions S admin (e # es) w =
    and_then (json_body (fetch S admin (AttentionOf (se_id e)) w)) (\<lambda>a w.
    and_then (attentions S admin es w) (\<lambda>rest w. (Inr (a # rest), w)))"

fun read_attentions :: "(error + answer) list \<Rightarrow> 'w \<Rightarrow> (failure, attention_view list, 'w) result" where
  "read_attentions [] w = (Inr [], w)"
| "read_attentions (b # bs) w =
    and_then (read_key ''checks_total'' b w) (\<lambda>a w.
      case a of
        AttentionAnswer v \<Rightarrow> and_then (read_attentions bs w) (\<lambda>vs w. (Inr (v # vs), w))
      | _ \<Rightarrow> (Inl BadBody, w))"

definition tier_ups :: "tier_change_out list \<Rightarrow> nat" where
  "tier_ups moves = length (filter (\<lambda>m. tier_rank (zo_from_tier m) < tier_rank (zo_to_tier m)) moves)"

record summary =
  sm_reclaims :: int
  sm_checks_served :: nat
  sm_checks_failed :: int
  sm_paused :: "string list"
  sm_moves :: nat
  sm_ups :: nat
  sm_payouts_created :: int
  sm_statement :: period_summary
  sm_ledger :: ledger_view
  sm_delivery :: delivery
  sm_tick :: tick_report

definition summarise :: "db \<Rightarrow> sim_expert list \<Rightarrow> attention_view list \<Rightarrow> tier_change_out list \<Rightarrow> period_summary \<Rightarrow> ledger_view \<Rightarrow>
    delivery \<Rightarrow> tick_report \<Rightarrow> summary" where
  "summarise s es attention moves period led d tk =
    (let served = sum_list (map av_checks_total attention) in
     \<lparr>sm_reclaims = sum_list (map t_reclaim_count (tasks s)), sm_checks_served = served,
      sm_checks_failed = int served - int (sum_list (map av_checks_passed attention)),
      sm_paused = map (se_name \<circ> fst) (filter (av_paused \<circ> snd) (zip es attention)),
      sm_moves = length moves, sm_ups = tier_ups moves,
      sm_payouts_created = sum_list (map lr_payout_count (lv_rows led)),
      sm_statement = period, sm_ledger = led, sm_delivery = d, sm_tick = tk\<rparr>)"

definition wrap_up :: "'st server \<Rightarrow> string \<Rightarrow> world \<Rightarrow> error + response \<Rightarrow> error + answer \<Rightarrow> 'st wire \<Rightarrow> (failure, summary, 'st wire) result" where
  "wrap_up S admin wd period led w =
    and_then (json_body (fetch S admin AgreementGlobal w)) (\<lambda>_ w.
    and_then (json_body (fetch S admin (Criteria None) w)) (\<lambda>_ w.
    and_then (json_body (post S admin ExportDelivery w)) (\<lambda>delivery w.
    and_then (run_tick S w) (\<lambda>tk w.
    and_then (tier_moves S admin (w_experts wd) w) (\<lambda>moves w.
    and_then (json_body (fetch S admin QueueSummary w)) (\<lambda>_ w.
    and_then (json_body (fetch S admin Overview (Suc (fst w), snd w))) (\<lambda>_ w.
    and_then (attentions S admin (w_experts wd) w) (\<lambda>bodies w.
    and_then (read_attentions bodies w) (\<lambda>attention w.
    and_then (read_key ''totals_by_status'' led w) (\<lambda>led w.
    and_then (read_key ''label'' period w) (\<lambda>period w.
    and_then (read_key ''version'' delivery w) (\<lambda>delivery w.
    case led of
      LedgerAnswer l \<Rightarrow>
        (case period of
           PeriodOut ps \<Rightarrow>
             (case delivery of
                DeliveryOut d \<Rightarrow> (Inr (summarise (fst (snd w)) (w_experts wd) attention moves ps l d tk), w)
              | _ \<Rightarrow> (Inl BadBody, w))
         | _ \<Rightarrow> (Inl BadBody, w))
    | _ \<Rightarrow> (Inl BadBody, w)))))))))))))"

definition closing :: "'st server \<Rightarrow> string \<Rightarrow> world \<Rightarrow> 'st wire \<Rightarrow> (failure, summary, 'st wire) result" where
  "closing S admin wd w =
    and_then (json_body (post S admin (ClosePeriod ''2026-09-A'') w)) (\<lambda>period w.
    and_then (json_body (fetch S admin Ledger w)) (\<lambda>led w. wrap_up S admin wd period led w))"

definition demo_main :: "'st server \<Rightarrow> 'g random \<Rightarrow> schedules \<Rightarrow> world \<Rightarrow> string \<Rightarrow> 'st wire \<Rightarrow>
    (failure, int \<times> summary, 'st wire) result option" where
  "demo_main S R sc wd admin w =
    proceed (demo_work S R sc wd admin w) (\<lambda>(wd, x, _) w.
    proceed (Some (closing S admin wd w)) (\<lambda>sm w. Some (Inr (exit_code x, sm), w)))"

end
