(* ===== verification/DemoFacts.thy ===== *)
theory DemoFacts
  imports Demo Accounts
begin

text \<open>
  The loops of \<open>sim/demo.py\<close> that work a queue of the service off: reviewing and adjudicating. Each turn asks for a
  batch and decides all of it, so each turn leaves less to do; the loops return, and leave nothing behind.
\<close>

section \<open>Loops that drain\<close>

text \<open>
  The interface of a loop over the service: a turn that goes on leaves less to do. Such a loop returns, and what
  every turn keeps holds at the turn that leaves it.
\<close>

locale draining =
  fixes turn :: "'c \<Rightarrow> 'w \<Rightarrow> (('e + 'c) + 'c) \<times> 'w" and left :: "'w \<Rightarrow> nat"
  assumes drains: "turn c w = (Inr c', w') \<Longrightarrow> left w' < left w"
begin

lemma returns:
  assumes "P c w" "\<And>c w c' w'. P c w \<Longrightarrow> turn c w = (Inr c', w') \<Longrightarrow> P c' w'"
  shows "\<exists>r w' c1 w1. repeating turn c w = Some (r, w') \<and> P c1 w1 \<and> turn c1 w1 = (Inl r, w')"
  using assms(1)
proof (induction "left w" arbitrary: c w rule: less_induct)
  case less
  obtain x w1 where x: "turn c w = (x, w1)" by (meson surj_pair)
  show ?case
  proof (cases x)
    case (Inl r)
    then show ?thesis using less.prems x by (subst repeating.simps) auto
  next
    case (Inr c1)
    have "left w1 < left w" by (rule drains) (use x Inr in simp)
    moreover have "P c1 w1" by (rule assms(2) [OF less.prems]) (use x Inr in simp)
    ultimately obtain r w' c2 w2 where "repeating turn c1 w1 = Some (r, w')" "P c2 w2" "turn c2 w2 = (Inl r, w')"
      using less.hyps by blast
    then show ?thesis using x Inr by (subst repeating.simps) auto
  qed
qed

end

section \<open>Requests of the clients\<close>

lemma post_cases:
  assumes "post S key c (n, s, st) = (r, w)"
  obtains s' st' where "w = (Suc n, s', st')" "serve (sv_env S) (sv_io S) (sv_moment S n) c (Some key) (s, st) = (r, (s', st'))"
  using assms by (auto simp: post_def split: prod.splits)

lemma post_returns:
  assumes "post S key c (n, s, st) = (Inr r, (n', s', st'))" "c \<noteq> ExportDelivery"
  shows "run_command (sv_env S) (sv_moment S n) c (Some key) (s\<lparr>tx_now := m_now (sv_moment S n)\<rparr>) = (Inr r, s')" "st' = st" "n' = Suc n"
  using assms by (auto simp: post_def serve_def perform_def Let_def split: prod.splits sum.splits)

lemma post_raises:
  assumes "post S key c (n, s, st) = (Inl e, (n', s', st'))" "c \<noteq> ExportDelivery"
  obtains s1 where "run_command (sv_env S) (sv_moment S n) c (Some key) (s\<lparr>tx_now := m_now (sv_moment S n)\<rparr>) = (Inl e, s1)"
    "s' = rolled_back s s1" "st' = st" "n' = Suc n"
  using assms by (auto simp: post_def serve_def perform_def Let_def split: prod.splits sum.splits)

lemma rolled_back_tables [simp]:
  "grades (rolled_back s s') = grades s" "reviews (rolled_back s s') = reviews s" "consensuses (rolled_back s s') = consensuses s"
  "tasks (rolled_back s s') = tasks s" "experts (rolled_back s s') = experts s" "api_keys (rolled_back s s') = api_keys s"
  "rubrics (rolled_back s s') = rubrics s"
  by (simp_all add: rolled_back_def)

lemma fetch_state:
  assumes "fetch S key q (n, s, st) = (r, (n', s', st'))"
  shows "\<exists>s1. s' = rolled_back s s1" "st' = st" "n' = Suc n"
  using assms by (auto simp: fetch_def look_def Let_def)

lemma raise_for_status_Inr [result_simps]: "raise_for_status r = (Inr x, w) \<longleftrightarrow> r = (Inr x, w)"
  by (auto simp: raise_for_status_def split: prod.splits sum.splits)

lemma json_field_Inr [result_simps]: "json_field key r = (Inr x, w) \<longleftrightarrow> r = (Inr x, w)"
  by (auto simp: json_field_def split: prod.splits sum.splits)

text \<open>
  The requests of one key, all of them answered, lead from one state to another; the failure of a request ends such a path
  and is the failure of the client. A client that cannot find the reference scores of a task fails without a request.
\<close>

inductive answered :: "'st server \<Rightarrow> string \<Rightarrow> 'st wire \<Rightarrow> 'st wire \<Rightarrow> bool" for S key where
  start: "answered S key w w"
| asked: "answered S key w w1 \<Longrightarrow> fetch S key q w1 = (Inr a, w2) \<Longrightarrow> answered S key w w2"
| posted: "answered S key w w1 \<Longrightarrow> post S key c w1 = (Inr x, w2) \<Longrightarrow> answered S key w w2"

lemma answered_trans: "answered S key w1 w2 \<Longrightarrow> answered S key w w1 \<Longrightarrow> answered S key w w2"
  by (induction rule: answered.induct) (auto intro: answered.intros)

definition request_failed :: "'st server \<Rightarrow> string \<Rightarrow> 'st wire \<Rightarrow> failure \<Rightarrow> 'st wire \<Rightarrow> bool" where
  "request_failed S key w f w' \<longleftrightarrow> (\<exists>w1. answered S key w w1 \<and>
     ((\<exists>q e. fetch S key q w1 = (Inl e, w') \<and> f = BadBody) \<or>
      (\<exists>c e. post S key c w1 = (Inl e, w') \<and> f = StatusError (http_status e))))"

lemma post_failed: "post S key c w = (Inl e, w') \<Longrightarrow> request_failed S key w (StatusError (http_status e)) w'"
  unfolding request_failed_def using answered.start by blast

lemma fetch_failed: "fetch S key q w = (Inl e, w') \<Longrightarrow> request_failed S key w BadBody w'"
  unfolding request_failed_def using answered.start by blast

lemma request_failed_later: "answered S key w w1 \<Longrightarrow> request_failed S key w1 f w' \<Longrightarrow> request_failed S key w f w'"
  unfolding request_failed_def using answered_trans by blast

definition no_truth :: "(uuid \<Rightarrow> sim_task option) \<Rightarrow> uuid \<Rightarrow> failure \<Rightarrow> bool" where
  "no_truth sims tid f \<longleftrightarrow> (case sims tid of
     None \<Rightarrow> f = MissingKey (str_uuid tid)
   | Some t \<Rightarrow> weighted (st_true_scores t) = None \<and> f = MissingKey ''score'')"

lemma truth_of_Inr [result_simps]:
  "truth_of sims tid w = (Inr x, w') \<longleftrightarrow> w' = w \<and> (\<exists>t. sims tid = Some t \<and> weighted (st_true_scores t) = Some x)"
  by (auto simp: truth_of_def split: option.splits)

lemma truth_of_cases:
  obtains (unknown) f where "truth_of sims tid w = (Inl f, w)" "no_truth sims tid f"
  | (known) x where "truth_of sims tid w = (Inr x, w)"
  by (cases "sims tid"; cases "weighted (st_true_scores (the (sims tid)))") (auto simp: truth_of_def no_truth_def)

text \<open>A task the queue hands out was claimed by the expert of the key.\<close>

lemma next_task_claims:
  assumes "post S key NextTask (n, s, st) = (Inr (TaskOut v), (n', s', st'))"
  obtains k eid e t where "holds_key (sv_env S) (Some key) k s" "k_expert_id k = Some eid" "get_expert eid s = Some e"
    "claim_next (sv_env S) eid (m_locked (sv_moment S n)) (s\<lparr>tx_now := m_now (sv_moment S n)\<rparr>) = (Inr (Some t), s')"
    "ev_id v = t_id t"
proof -
  let ?s = "s\<lparr>tx_now := m_now (sv_moment S n)\<rparr>"
  have "run_command (sv_env S) (sv_moment S n) NextTask (Some key) ?s = (Inr (TaskOut v), s')"
    by (rule post_returns(1) [OF assms]) simp
  then obtain e where e: "current_expert (sv_env S) (Some key) ?s = (Inr e, ?s)"
    and run: "responds (\<lambda>v. case v of None \<Rightarrow> NoContent | Some v \<Rightarrow> TaskOut v)
      (next_task (sv_env S) e (m_locked (sv_moment S n)) ?s) = (Inr (TaskOut v), s')"
    by (auto simp: as_expert_def result_simps current_expert_returns)
  have "next_task (sv_env S) e (m_locked (sv_moment S n)) ?s = (Inr (Some v), s')"
    using run by (auto simp: responds_def result_simps split: option.splits)
  then obtain t s1 where t: "claim_next (sv_env S) (e_id e) (m_locked (sv_moment S n)) ?s = (Inr (Some t), s1)"
      and v: "show_task t s1 = (Inr v, s')"
    by (auto simp: next_task_def result_simps split: option.splits)
  obtain k eid where k: "holds_key (sv_env S) (Some key) k s" "k_expert_id k = Some eid" "get_expert eid s = Some e"
    using e by (auto simp: current_expert_returns holds_key_def)
  show thesis
    using that [OF k, of t] t v show_task_state [OF v] row_of_SomeD [OF k(3)]
    by (auto simp: show_task_def result_simps task_expert_view_of_def)
qed

definition wire_db :: "'st wire \<Rightarrow> db" where
  "wire_db w = fst (snd w)"

section \<open>Reviewing\<close>

definition open_grades :: "db \<Rightarrow> grade list" where
  "open_grades s = filter (\<lambda>g. get_review (g_id g) s = None) (grades s)"

definition unreviewed :: "db \<Rightarrow> nat" where
  "unreviewed s = length (open_grades s)"

lemma post_review:
  assumes "post S key (CreateReview b) (n, s, st) = (Inr r, (n', s', st'))"
  shows "unreviewed s' < unreviewed s" "length (reviews s') = Suc (length (reviews s))" "set (open_grades s') \<subseteq> set (open_grades s)"
proof -
  let ?s = "s\<lparr>tx_now := m_now (sv_moment S n)\<rparr>"
  have "run_command (sv_env S) (sv_moment S n) (CreateReview b) (Some key) ?s = (Inr r, s')"
    by (rule post_returns [OF assms]) simp
  then obtain p r' where "create_review (sv_env S) p b ?s = (Inr r', s')"
    by (auto simp: result_simps dest!: with_scopes_returns responds_returns)
  then obtain rv q where run: "review_grade (sv_env S) (pr_key_id p) (rb_grade_id b) (rb_decision b) (rb_reason b) (actor_of p) ?s
      = (Inr (rv, q), s')"
    by (auto simp: create_review_def result_simps)
  have new: "get_review (rb_grade_id b) s = None" "get_grade (rb_grade_id b) s \<noteq> None" "rv_grade_id rv = rb_grade_id b"
    using run by (cases rule: review_cases; simp)+
  note fr = review_frame [OF run]
  have gr: "grades s' = grades s" using fr(1) by (simp add: core_eq_iff)
  have rvs: "reviews s' = reviews s @ [rv]" using fr(3) by simp
  show "length (reviews s') = Suc (length (reviews s))" by (simp add: rvs)
  have after: "get_review x s' = None \<longleftrightarrow> get_review x s = None \<and> x \<noteq> rb_grade_id b" for x
    by (auto simp: row_of_None_iff rvs new(3))
  obtain g where g: "g \<in> set (grades s)" "g_id g = rb_grade_id b" using new(2) by (auto dest: row_of_SomeD)
  have left: "open_grades s' = filter (\<lambda>g. g_id g \<noteq> rb_grade_id b) (open_grades s)"
    by (simp add: open_grades_def gr after conj_commute)
  then show "set (open_grades s') \<subseteq> set (open_grades s)" by auto
  have "g \<in> set (open_grades s)" using g new(1) by (simp add: open_grades_def)
  then show "unreviewed s' < unreviewed s"
    unfolding unreviewed_def left by (rule length_filter_less) (simp add: g(2))
qed

text \<open>What a stretch of the loop from \<open>w\<close> to \<open>w'\<close> keeps, with the counts it started and ended with.\<close>

definition reviewed_on :: "'st server \<Rightarrow> string \<Rightarrow> nat \<times> nat \<Rightarrow> 'st wire \<Rightarrow> nat \<times> nat \<Rightarrow> 'st wire \<Rightarrow> bool" where
  "reviewed_on S key c w c' w' \<longleftrightarrow> answered S key w w' \<and> set (open_grades (wire_db w')) \<subseteq> set (open_grades (wire_db w)) \<and>
     length (reviews (wire_db w')) + (fst c + snd c) = length (reviews (wire_db w)) + (fst c' + snd c')"

lemma reviewed_on_trans: "reviewed_on S key c w c1 w1 \<Longrightarrow> reviewed_on S key c1 w1 c' w' \<Longrightarrow> reviewed_on S key c w c' w'"
  unfolding reviewed_on_def using answered_trans by fastforce

lemma review_batch_run:
  "review_batch S key sims gs c w = (r, w') \<Longrightarrow> case r of
     Inr c' \<Rightarrow> reviewed_on S key c w c' w' \<and> unreviewed (wire_db w') + length gs \<le> unreviewed (wire_db w)
   | Inl f \<Rightarrow> request_failed S key w f w' \<or> (\<exists>g \<in> set gs. no_truth sims (go_task_id g) f)"
proof (induction gs arbitrary: c w)
  case Nil
  then show ?case by (auto simp: reviewed_on_def intro: answered.start)
next
  case (Cons g gs)
  show ?case
  proof (cases rule: truth_of_cases [of sims "go_task_id g" w])
    case (unknown f)
    then show ?thesis using Cons.prems by (auto simp: and_then_def)
  next
    case (known truth)
    let ?c = "if rb_decision (spot_check g truth) = Reject then (fst c, snd c + 1) else (fst c + 1, snd c)"
    obtain x w1 where p: "post S key (CreateReview (spot_check g truth)) w = (x, w1)" by (meson surj_pair)
    show ?thesis
    proof (cases x)
      case (Inl e)
      then have "r = Inl (StatusError (http_status e))" "w' = w1"
        using Cons.prems known p by (simp_all add: and_then_def raise_for_status_def Let_def)
      then show ?thesis using p Inl by (simp add: post_failed)
    next
      case (Inr y)
      have rest: "review_batch S key sims gs ?c w1 = (r, w')"
        using Cons.prems known p Inr by (simp add: and_then_def raise_for_status_def Let_def)
      obtain n s st n1 s1 st1 where w: "w = (n, s, st)" "w1 = (n1, s1, st1)" by (metis prod_cases3)
      note pr = post_review [OF p [unfolded w Inr]]
      have a: "answered S key w w1" using answered.posted [OF answered.start] p Inr by blast
      have "reviewed_on S key c w ?c w1" using a pr(2,3) by (auto simp: reviewed_on_def wire_db_def w)
      moreover have "unreviewed (wire_db w1) < unreviewed (wire_db w)" using pr(1) by (simp add: wire_db_def w)
      ultimately show ?thesis using Cons.IH [OF rest] request_failed_later [OF a, where w' = w']
        by (cases r) (auto intro: reviewed_on_trans)
    qed
  qed
qed

lemma fetch_unreviewed:
  assumes "fetch S key (ListUnreviewed limit) (n, s, st) = (Inr a, w)"
  shows "a = GradesAnswer (map grade_out_of (list_unreviewed limit s))"
proof -
  let ?s = "s\<lparr>tx_now := m_now (sv_moment S n)\<rparr>"
  obtain s1 where "unreviewed_route (sv_env S) limit (Some key) ?s = (Inr a, s1)"
    using assms by (auto simp: fetch_def Let_def prod_eq_iff)
  then obtain p where "limited limit (\<lambda>s. (Inr (GradesAnswer (map grade_out_of (list_unreviewed limit s))), s)) ?s = (Inr a, s1)"
    unfolding unreviewed_route_def by (blast dest: with_scopes_returns)
  moreover have "list_unreviewed limit ?s = list_unreviewed limit s" by (simp add: list_unreviewed_def)
  ultimately show ?thesis by (auto simp: limited_def split: if_splits)
qed

lemma list_unreviewed_open: "set (list_unreviewed limit s) \<subseteq> set (open_grades s)"
  by (auto simp: list_unreviewed_def open_grades_def dest!: in_set_takeD)

lemma review_turn_cases:
  assumes "review_turn S key sims c w = (x, w')"
  obtains (finished) "x = Inl (Inr c)" "list_unreviewed 1000 (wire_db w') = []" "reviewed_on S key c w c w'"
  | (failed) f where "x = Inl (Inl f)" "request_failed S key w f w'"
  | (unknown) f g where "x = Inl (Inl f)" "g \<in> set (open_grades (wire_db w))" "no_truth sims (g_task_id g) f"
  | (going) c' where "x = Inr c'" "unreviewed (wire_db w') < unreviewed (wire_db w)" "reviewed_on S key c w c' w'"
proof -
  obtain n s st where w: "w = (n, s, st)" by (metis prod_cases3)
  obtain r w1 where f: "fetch S key (ListUnreviewed 1000) w = (r, w1)" by (meson surj_pair)
  obtain n1 s1 st1 where w1: "w1 = (n1, s1, st1)" by (metis prod_cases3)
  obtain s2 where s1: "s1 = rolled_back s s2" using fetch_state [OF f [unfolded w w1]] by blast
  show thesis
  proof (cases r)
    case (Inl e)
    then have "x = Inl (Inl BadBody)" "w' = w1" using assms f by (simp_all add: review_turn_def)
    then show thesis using f Inl by (intro failed [of BadBody]) (simp_all add: fetch_failed)
  next
    case r: (Inr a)
    have a: "a = GradesAnswer (map grade_out_of (list_unreviewed 1000 s))" by (rule fetch_unreviewed [OF f [unfolded w r]])
    have step: "answered S key w w1" using answered.asked [OF answered.start] f r by blast
    have same: "list_unreviewed 1000 s1 = list_unreviewed 1000 s" "open_grades s1 = open_grades s"
      by (simp_all add: list_unreviewed_def open_grades_def s1)
    have on: "reviewed_on S key c w c w1" using step same by (simp add: reviewed_on_def wire_db_def w w1 s1)
    show thesis
    proof (cases "list_unreviewed 1000 s = []")
      case True
      then have "x = Inl (Inr c)" "w' = w1" using assms f r a by (simp_all add: review_turn_def)
      then show thesis using True same on by (intro finished) (simp_all add: wire_db_def w1)
    next
      case False
      obtain y w2 where b: "review_batch S key sims (map grade_out_of (list_unreviewed 1000 s)) c w1 = (y, w2)" by (meson surj_pair)
      have x: "(x, w') = (case y of Inl e \<Rightarrow> Inl (Inl e) | Inr c \<Rightarrow> Inr c, w2)"
        using assms f r a b False by (auto simp: review_turn_def split: sum.splits)
      note run = review_batch_run [OF b]
      show thesis
      proof (cases y)
        case (Inl e)
        then have "request_failed S key w1 e w2 \<or> (\<exists>g \<in> set (list_unreviewed 1000 s). no_truth sims (g_task_id g) e)"
          using run by (auto simp: grade_out_of_def)
        then show thesis
        proof
          assume "request_failed S key w1 e w2"
          then show thesis using x Inl request_failed_later [OF step] by (intro failed [of e]) auto
        next
          assume "\<exists>g \<in> set (list_unreviewed 1000 s). no_truth sims (g_task_id g) e"
          then obtain g where g: "g \<in> set (list_unreviewed 1000 s)" "no_truth sims (g_task_id g) e" by blast
          then have "g \<in> set (open_grades (wire_db w))" using list_unreviewed_open by (auto simp: wire_db_def w)
          then show thesis using x Inl g(2) by (intro unknown [of e g]) auto
        qed
      next
        case (Inr c')
        have len: "0 < length (list_unreviewed 1000 s)" using False by simp
        have "unreviewed (wire_db w2) + length (list_unreviewed 1000 s) \<le> unreviewed (wire_db w1)"
          and on': "reviewed_on S key c w1 c' w2" using run Inr by simp_all
        moreover have "unreviewed (wire_db w1) = unreviewed (wire_db w)" by (simp add: unreviewed_def wire_db_def w w1 same)
        ultimately have "unreviewed (wire_db w2) < unreviewed (wire_db w)" using len by linarith
        then show thesis using x Inr reviewed_on_trans [OF on on'] by (intro going [of c']) auto
      qed
    qed
  qed
qed

interpretation reviewing: draining "review_turn S key sims" "\<lambda>w. unreviewed (wire_db w)" for S key sims
  by unfold_locales (auto elim: review_turn_cases)


section \<open>Adjudicating\<close>

definition disputes :: "db \<Rightarrow> consensus list" where
  "disputes s = filter (\<lambda>c. co_status c = Adjudicating) (consensuses s)"

definition disputed :: "db \<Rightarrow> nat" where
  "disputed s = length (disputes s)"

lemma closed_disputes:
  "(\<And>c. co_status (f c) = Adjudicated) \<Longrightarrow> filter (\<lambda>c. co_status c = Adjudicating) (update_row co_task_id tid f rows) =
     filter (\<lambda>c. co_task_id c \<noteq> tid) (filter (\<lambda>c. co_status c = Adjudicating) rows)"
  by (induction rows) (auto simp: update_row_def)

lemma post_decide:
  assumes "post S key (Decide tid b) (n, s, st) = (Inr r, (n', s', st'))"
  shows "disputed s' < disputed s" "set (disputes s') \<subseteq> set (disputes s)" "grades s' = grades s" "\<exists>d. r = AdjudicationResult d"
proof -
  let ?s = "s\<lparr>tx_now := m_now (sv_moment S n)\<rparr>"
  have "run_command (sv_env S) (sv_moment S n) (Decide tid b) (Some key) ?s = (Inr r, s')"
    by (rule post_returns [OF assms]) simp
  then obtain p r' where decide: "decide (sv_env S) p tid b ?s = (Inr r', s')" and r: "r = AdjudicationResult r'"
    by (auto simp: result_simps responds_def dest!: with_scopes_returns)
  then obtain d where run: "resolve (sv_env S) tid (ad_delivered_grade_id b) (ad_reason b) (pr_key_id p) (actor_of p) ?s = (Inr d, s')"
    by (auto simp: decide_def result_simps)
  show "\<exists>d. r = AdjudicationResult d" using r by blast
  have "disputed s' < disputed s \<and> set (disputes s') \<subseteq> set (disputes s) \<and> grades s' = grades s"
    using run
  proof (cases rule: resolve_cases)
    case (1 row g t acc s1 now)
    have s1: "consensuses s1 = consensuses s" "grades s1 = grades s"
      using settle_grades_settles [OF 1(7)] by (simp_all add: settles_def core_eq_iff)
    then have c: "consensuses s' = update_row co_task_id tid (\<lambda>c. c\<lparr>co_status := Adjudicated, co_delivered_grade_id := Some (ad_delivered_grade_id b),
          co_adjudicator_key_id := Some (pr_key_id p), co_reason := Some (ad_reason b), co_resolved_at := Some now\<rparr>) (consensuses s)"
        and gs: "grades s' = grades s"
      using 1(11) by (simp_all add: core_eq_iff)
    have left: "disputes s' = filter (\<lambda>c. co_task_id c \<noteq> tid) (disputes s)"
      unfolding disputes_def c by (rule closed_disputes) simp
    have "row \<in> set (disputes s)" "co_task_id row = tid"
      using 1(1,2) by (auto simp: disputes_def dest: row_of_SomeD)
    then have "disputed s' < disputed s"
      unfolding disputed_def left by (intro length_filter_less) auto
    then show ?thesis using left gs by auto
  qed
  then show "disputed s' < disputed s" "set (disputes s') \<subseteq> set (disputes s)" "grades s' = grades s" by blast+
qed

text \<open>What keeps the client from deciding a round without a request: no reference scores, or nothing to choose from.\<close>

definition undecidable :: "(uuid \<Rightarrow> sim_task option) \<Rightarrow> db \<Rightarrow> consensus \<Rightarrow> failure \<Rightarrow> bool" where
  "undecidable sims s c f \<longleftrightarrow> no_truth sims (co_task_id c) f \<or> grades_for (co_task_id c) s = [] \<and> f = NothingToChoose"

definition decided_on :: "'st server \<Rightarrow> string \<Rightarrow> nat \<times> nat \<Rightarrow> 'st wire \<Rightarrow> nat \<times> nat \<Rightarrow> 'st wire \<Rightarrow> bool" where
  "decided_on S key c w c' w' \<longleftrightarrow> answered S key w w' \<and> set (disputes (wire_db w')) \<subseteq> set (disputes (wire_db w)) \<and>
     grades (wire_db w') = grades (wire_db w) \<and> fst c' + disputed (wire_db w') \<le> fst c + disputed (wire_db w)"

lemma decided_on_trans: "decided_on S key c w c1 w1 \<Longrightarrow> decided_on S key c1 w1 c' w' \<Longrightarrow> decided_on S key c w c' w'"
  unfolding decided_on_def using answered_trans by fastforce

lemma adjudicate_batch_run:
  "adjudicate_batch S key sims js c w = (r, w') \<Longrightarrow> case r of
     Inr c' \<Rightarrow> decided_on S key c w c' w' \<and> disputed (wire_db w') + length js \<le> disputed (wire_db w)
   | Inl f \<Rightarrow> request_failed S key w f w' \<or> (\<exists>j \<in> set js. no_truth sims (jv_task_id j) f \<or> jv_grades j = [] \<and> f = NothingToChoose)"
proof (induction js arbitrary: c w)
  case Nil
  then show ?case by (auto simp: decided_on_def intro: answered.start)
next
  case (Cons j js)
  show ?case
  proof (cases rule: truth_of_cases [of sims "jv_task_id j" w])
    case (unknown f)
    then show ?thesis using Cons.prems by (auto simp: and_then_def)
  next
    case (known truth)
    show ?thesis
    proof (cases "min_by (\<lambda>g. float_distance (cg_weighted_score g) truth) (jv_grades j)")
      case None
      then have "jv_grades j = []" by simp
      then show ?thesis using Cons.prems known by (auto simp: and_then_def min_by_def)
    next
      case (Some best)
      let ?b = "\<lparr>ad_delivered_grade_id = cg_grade_id best, ad_reason = ''closest to the reference answer''\<rparr>"
      obtain x w1 where p: "post S key (Decide (jv_task_id j) ?b) w = (x, w1)" by (meson surj_pair)
      show ?thesis
      proof (cases x)
        case (Inl e)
        then have "r = Inl (StatusError (http_status e))" "w' = w1"
          using Cons.prems known Some p by (simp_all add: and_then_def raise_for_status_def)
        then show ?thesis using p Inl by (simp add: post_failed)
      next
        case (Inr y)
        obtain n s st n1 s1 st1 where w: "w = (n, s, st)" "w1 = (n1, s1, st1)" by (metis prod_cases3)
        note pd = post_decide [OF p [unfolded w Inr]]
        obtain d where d: "y = AdjudicationResult d" using pd(4) by blast
        have rest: "adjudicate_batch S key sims js (fst c + 1, snd c + length (aj_outvoted d)) w1 = (r, w')"
          using Cons.prems known Some p Inr d by (simp add: and_then_def raise_for_status_def)
        have a: "answered S key w w1" using answered.posted [OF answered.start] p Inr by blast
        have on: "decided_on S key c w (fst c + 1, snd c + length (aj_outvoted d)) w1"
          using a pd(1-3) by (auto simp: decided_on_def wire_db_def w)
        have "disputed (wire_db w1) < disputed (wire_db w)" using pd(1) by (simp add: wire_db_def w)
        then show ?thesis using Cons.IH [OF rest] request_failed_later [OF a, where w' = w'] decided_on_trans [OF on, where w' = w']
          by (cases r) auto
      qed
    qed
  qed
qed

lemma fetch_adjudications:
  assumes "fetch S key (AdjudicationQueue limit) (n, s, st) = (Inr a, w)"
  obtains q where "a = AdjudicationsAnswer q"
    "list_all2 (\<lambda>c j. adjudication_view_of s c = Some j) (pending (nat (min limit 1000)) s) q"
proof -
  let ?s = "s\<lparr>tx_now := m_now (sv_moment S n)\<rparr>"
  obtain s1 where "adjudications_route (sv_env S) limit (Some key) ?s = (Inr a, s1)"
    using assms by (auto simp: fetch_def Let_def prod_eq_iff)
  then obtain p where "limited limit (\<lambda>s. and_then (adjudication_queue limit s) (\<lambda>v s. (Inr (AdjudicationsAnswer v), s))) ?s = (Inr a, s1)"
    unfolding adjudications_route_def by (blast dest: with_scopes_returns)
  then obtain q where q: "adjudication_queue limit ?s = (Inr q, s1)" "a = AdjudicationsAnswer q"
    by (auto simp: limited_def result_simps split: if_splits)
  have view: "adjudication_view_of ?s = adjudication_view_of s"
    by (rule ext) (simp add: adjudication_view_of_def consensus_grade_of_def[abs_def] grades_for_def)
  have "those (map (adjudication_view_of s) (pending (nat (min limit 1000)) s)) = Some q"
    using q(1) by (auto simp: adjudication_queue_def result_simps view pending_def)
  then show thesis using q(2) by (intro that) (simp_all add: those_list_all2 list_all2_map1)
qed

lemma pending_disputes: "set (pending n s) \<subseteq> set (disputes s)"
  by (auto simp: pending_def disputes_def dest!: in_set_takeD)

lemma pending_Nil: "pending 1000 s = [] \<longleftrightarrow> disputed s = 0"
proof -
  have "sort_key f xs = [] \<longleftrightarrow> xs = []" for f :: "consensus \<Rightarrow> time \<times> uuid" and xs
    using length_sort [of f xs] by (cases xs) auto
  then show ?thesis by (simp only: pending_def disputed_def disputes_def take_eq_Nil length_0_conv) simp
qed

lemma viewed_undecidable:
  assumes "adjudication_view_of s c = Some j" "no_truth sims (jv_task_id j) f \<or> jv_grades j = [] \<and> f = NothingToChoose"
  shows "undecidable sims s c f"
proof -
  obtain gs where gs: "those (map (consensus_grade_of s) (grades_for (co_task_id c) s)) = Some gs"
      and j: "jv_task_id j = co_task_id c" "jv_grades j = gs"
    using assms(1) by (auto simp: adjudication_view_of_def split: option.splits)
  have "gs = [] \<Longrightarrow> grades_for (co_task_id c) s = []" using those_Some_length [OF gs] by simp
  then show ?thesis using assms(2) j by (auto simp: undecidable_def)
qed

lemma adjudicate_turn_cases:
  assumes "adjudicate_turn S key sims c w = (x, w')"
  obtains (finished) "x = Inl (Inr c)" "disputed (wire_db w') = 0" "decided_on S key c w c w'"
  | (failed) f where "x = Inl (Inl f)" "request_failed S key w f w'"
  | (unknown) f row where "x = Inl (Inl f)" "row \<in> set (disputes (wire_db w))" "undecidable sims (wire_db w) row f"
  | (going) c' where "x = Inr c'" "disputed (wire_db w') < disputed (wire_db w)" "decided_on S key c w c' w'"
proof -
  obtain n s st where w: "w = (n, s, st)" by (metis prod_cases3)
  obtain r w1 where f: "fetch S key (AdjudicationQueue 1000) w = (r, w1)" by (meson surj_pair)
  obtain n1 s1 st1 where w1: "w1 = (n1, s1, st1)" by (metis prod_cases3)
  obtain s2 where s1: "s1 = rolled_back s s2" using fetch_state [OF f [unfolded w w1]] by blast
  show thesis
  proof (cases r)
    case (Inl e)
    then have "x = Inl (Inl BadBody)" "w' = w1" using assms f by (simp_all add: adjudicate_turn_def)
    then show thesis using f Inl by (intro failed [of BadBody]) (simp_all add: fetch_failed)
  next
    case r: (Inr a)
    obtain q where a: "a = AdjudicationsAnswer q" and q: "list_all2 (\<lambda>c j. adjudication_view_of s c = Some j) (pending 1000 s) q"
      using fetch_adjudications [OF f [unfolded w r]] by auto
    have step: "answered S key w w1" using answered.asked [OF answered.start] f r by blast
    have same: "disputes s1 = disputes s" "disputed s1 = disputed s" by (simp_all add: disputes_def disputed_def s1)
    have on: "decided_on S key c w c w1" using step same by (simp add: decided_on_def wire_db_def w w1 s1)
    show thesis
    proof (cases "q = []")
      case True
      then have "disputed s = 0" using q by (simp flip: pending_Nil)
      moreover have "x = Inl (Inr c)" "w' = w1" using assms f r a True by (simp_all add: adjudicate_turn_def)
      ultimately show thesis using same on by (intro finished) (simp_all add: wire_db_def w1)
    next
      case False
      obtain y w2 where b: "adjudicate_batch S key sims q c w1 = (y, w2)" by (meson surj_pair)
      have x: "(x, w') = (case y of Inl e \<Rightarrow> Inl (Inl e) | Inr c \<Rightarrow> Inr c, w2)"
        using assms f r a b False by (auto simp: adjudicate_turn_def split: sum.splits)
      note run = adjudicate_batch_run [OF b]
      show thesis
      proof (cases y)
        case (Inl e)
        then have "request_failed S key w1 e w2 \<or> (\<exists>j \<in> set q. no_truth sims (jv_task_id j) e \<or> jv_grades j = [] \<and> e = NothingToChoose)"
          using run by simp
        then show thesis
        proof
          assume "request_failed S key w1 e w2"
          then show thesis using x Inl request_failed_later [OF step] by (intro failed [of e]) auto
        next
          assume "\<exists>j \<in> set q. no_truth sims (jv_task_id j) e \<or> jv_grades j = [] \<and> e = NothingToChoose"
          then obtain j where j: "j \<in> set q" "no_truth sims (jv_task_id j) e \<or> jv_grades j = [] \<and> e = NothingToChoose" by blast
          obtain i where i: "i < length q" "q ! i = j" using j(1) by (auto simp: in_set_conv_nth)
          define row where "row = pending 1000 s ! i"
          have row: "row \<in> set (pending 1000 s)" "adjudication_view_of s row = Some j"
            using q i by (auto simp: row_def list_all2_conv_all_nth)
          then have "row \<in> set (disputes (wire_db w))" "undecidable sims (wire_db w) row e"
            using pending_disputes viewed_undecidable [OF row(2) j(2)] by (auto simp: wire_db_def w)
          then show thesis using x Inl by (intro unknown [of e row]) auto
        qed
      next
        case (Inr c')
        have "disputed (wire_db w2) + length q \<le> disputed (wire_db w1)"
          and on': "decided_on S key c w1 c' w2" using run Inr by simp_all
        moreover have "0 < length q" using False by simp
        moreover have "disputed (wire_db w1) = disputed (wire_db w)" by (simp add: wire_db_def w w1 same)
        ultimately have "disputed (wire_db w2) < disputed (wire_db w)" by linarith
        then show thesis using x Inr decided_on_trans [OF on on'] by (intro going [of c']) auto
      qed
    qed
  qed
qed

interpretation adjudicating: draining "adjudicate_turn S key sims" "\<lambda>w. disputed (wire_db w)" for S key sims
  by unfold_locales (auto elim: adjudicate_turn_cases)

lemma adjudicate_all_result:
  "\<exists>r w'. adjudicate_all S key sims w = Some (r, w') \<and>
     (case r of
        Inr (resolved, outvoted) \<Rightarrow> answered S key w w' \<and> disputed (wire_db w') = 0 \<and> resolved \<le> disputed (wire_db w)
      | Inl f \<Rightarrow> request_failed S key w f w' \<or>
          (\<exists>row \<in> set (consensuses (wire_db w)). co_status row = Adjudicating \<and> undecidable sims (wire_db w) row f))"
proof -
  let ?P = "\<lambda>c w1. decided_on S key (0, 0) w c w1"
  have step: "?P c' w'" if "?P c w1" "adjudicate_turn S key sims c w1 = (Inr c', w')" for c w1 c' w'
    using that(2) by (cases rule: adjudicate_turn_cases) (use that(1) decided_on_trans in blast)+
  have "\<exists>r w' c1 w1. repeating (adjudicate_turn S key sims) (0, 0) w = Some (r, w') \<and> ?P c1 w1 \<and>
      adjudicate_turn S key sims c1 w1 = (Inl r, w')"
    by (rule adjudicating.returns [where P = ?P]) (simp add: decided_on_def answered.start, rule step)
  then obtain r w' c1 w1 where run: "repeating (adjudicate_turn S key sims) (0, 0) w = Some (r, w')" and P: "?P c1 w1"
      and last_turn: "adjudicate_turn S key sims c1 w1 = (Inl r, w')" by blast
  have a: "answered S key w w1" "set (disputes (wire_db w1)) \<subseteq> set (disputes (wire_db w))" "grades (wire_db w1) = grades (wire_db w)"
    using P by (simp_all add: decided_on_def)
  from last_turn show ?thesis
  proof (cases rule: adjudicate_turn_cases)
    case finished
    with decided_on_trans [OF P finished(3)] show ?thesis using run by (cases c1) (auto simp: adjudicate_all_def decided_on_def)
  next
    case (failed f)
    then show ?thesis using run request_failed_later [OF a(1)] by (auto simp: adjudicate_all_def)
  next
    case (unknown f row)
    then have "row \<in> set (disputes (wire_db w))" "undecidable sims (wire_db w) row f"
      using a(2,3) by (auto simp: undecidable_def grades_for_def)
    then show ?thesis using run unknown(1) by (auto simp: adjudicate_all_def disputes_def)
  qed simp
qed


end
