(* ===== verification/DemoRun.thy ===== *)
theory DemoRun
  imports DemoFacts
begin

text \<open>
  A whole run of the demonstration (\<open>sim/demo.py\<close>, \<open>main\<close>). The tags of the experts and of the tasks are what the simulated
  clients compare; the operations the run uses leave them as seeding stored them, so the counter of mismatches stays at
  zero under every schedule of the threads, and the run ends with an empty adjudication queue.
\<close>

section \<open>What the clients rely on\<close>

definition expert_tags :: "db \<Rightarrow> (uuid \<times> string list) list" where
  "expert_tags s = map (\<lambda>e. (e_id e, e_tags e)) (experts s)"

definition task_tags :: "db \<Rightarrow> (uuid \<times> string list) list" where
  "task_tags s = map (\<lambda>t. (t_id t, t_required_tags t)) (tasks s)"

definition same_tags :: "db \<Rightarrow> db \<Rightarrow> bool" where
  "same_tags s s' \<longleftrightarrow> expert_tags s' = expert_tags s \<and> task_tags s' = task_tags s \<and> api_keys s' = api_keys s"

text \<open>The key of the expert authenticates a row with the tags the client believes in.\<close>

definition enlisted :: "env \<Rightarrow> db \<Rightarrow> sim_expert \<Rightarrow> bool" where
  "enlisted E s e \<longleftrightarrow> (\<exists>k eid. holds_key E (Some (se_key e)) k s \<and> k_expert_id k = Some eid \<and>
     map_of (expert_tags s) eid = Some (se_tags e))"

text \<open>A task the client knows has the tags of its payload.\<close>

definition mirrored :: "(uuid \<Rightarrow> sim_task option) \<Rightarrow> db \<Rightarrow> bool" where
  "mirrored sims s \<longleftrightarrow> (\<forall>(tid, tags) \<in> set (task_tags s).
     case sims tid of None \<Rightarrow> True | Some t \<Rightarrow> pl_required_tags (st_payload t) = tags)"

lemma same_tags_trans: "same_tags s s1 \<Longrightarrow> same_tags s1 s' \<Longrightarrow> same_tags s s'"
  by (simp add: same_tags_def)

lemma same_tags_core: "core s' = core u \<Longrightarrow> same_tags s s' = same_tags s u"
  by (simp add: same_tags_def expert_tags_def task_tags_def core_eq_iff)

lemma enlisted_same: "same_tags s s' \<Longrightarrow> enlisted E s' e = enlisted E s e"
  by (simp add: enlisted_def same_tags_def holds_key_def)

lemma mirrored_same: "same_tags s s' \<Longrightarrow> mirrored sims s' = mirrored sims s"
  by (simp add: mirrored_def same_tags_def)

lemma map_of_expert_tags: "get_expert eid s = Some e \<Longrightarrow> map_of (expert_tags s) eid = Some (e_tags e)"
proof -
  have "map_of (map (\<lambda>e. (e_id e, e_tags e)) es) eid = map_option e_tags (row_of e_id eid es)" for es
    by (induction es) (auto simp: row_of_def)
  from this [of "experts s"]
  show "get_expert eid s = Some e \<Longrightarrow> map_of (expert_tags s) eid = Some (e_tags e)" by (simp add: expert_tags_def del: map_map)
qed

lemma tags_maps:
  "map f (experts s') = map f (experts s) \<Longrightarrow> (\<And>e. (e_id (f e), e_tags (f e)) = (e_id e, e_tags e)) \<Longrightarrow> expert_tags s' = expert_tags s"
proof -
  assume f: "map f (experts s') = map f (experts s)" "\<And>e. (e_id (f e), e_tags (f e)) = (e_id e, e_tags e)"
  have "map (\<lambda>e. (e_id e, e_tags e)) (map f es) = map (\<lambda>e. (e_id e, e_tags e)) es" for es
    using f(2) by (simp add: comp_def)
  then show ?thesis unfolding expert_tags_def by (metis f(1))
qed

lemma swept_same: "same_tags s (swept E s)"
  by (simp add: same_tags_def expert_tags_def task_tags_def swept_def map_update_where)

lemma claim_next_same:
  assumes "claim_next E eid locked s = (Inr r, s')"
  shows "same_tags s s'"
  using assms
proof (cases rule: claim_next_cases)
  case (empty e)
  then show ?thesis using swept_same same_tags_core by blast
next
  case (served e t now)
  have "same_tags s (modify_expert eid (\<lambda>e. e\<lparr>e_served_count := e_served_count e + 1\<rparr>)
         (modify_task (t_id t) (leased E eid now) (swept E s)))"
    using swept_same [of s E] by (simp add: same_tags_def expert_tags_def task_tags_def map_update_row)
  then show ?thesis using same_tags_core [OF served(6)] by blast
qed

lemma evaluate_same: "evaluate E tid s = (Inr r, s') \<Longrightarrow> same_tags s s'"
  by (cases rule: evaluate_cases, assumption)
    (auto simp: core_eq_iff same_tags_def expert_tags_def task_tags_def map_update_row)

lemma update_same:
  assumes "update E eid actor s = (Inr r, s')"
  shows "same_tags s s'"
proof -
  note U = update_frame [OF assms]
  have "expert_tags s' = expert_tags s" by (rule tags_maps [OF U(3)]) simp
  then show ?thesis using U(1) by (simp add: same_tags_def task_tags_def core_eq_iff)
qed

lemma enforce_same:
  assumes "enforce E eid s = (Inr b, s')"
  shows "same_tags s s'"
proof -
  note U = enforce_frame [OF assms]
  have "expert_tags s' = expert_tags s" by (rule tags_maps [OF U(3)]) simp
  then show ?thesis using U(1) by (simp add: same_tags_def task_tags_def core_eq_iff)
qed

lemma aftermath_same:
  assumes "aftermath E eid t g s = (Inr u, s')"
  shows "same_tags s s'"
  using assms
proof (cases rule: aftermath_cases)
  case (checked a s1 s2 b c)
  have "same_tags s s1" using evaluate_check_frame(1) [OF checked(1)]
    by (simp add: same_tags_def expert_tags_def task_tags_def core_eq_iff)
  moreover have "same_tags s1 s2" using checked(3) enforce_same by (cases "ar_passed a") (auto simp: same_tags_def)
  ultimately show ?thesis using update_same [OF checked(4)] same_tags_trans by blast
qed (simp add: same_tags_def)

lemma submit_same:
  assumes "submit E eid tid scores rationale time_spent rubric_id s = (Inr g, s')"
  shows "same_tags s s'"
  using assms
proof (cases rule: submit_cases)
  case (1 t r s3 c s4 s5)
  have "same_tags s s3" using 1(11) by (simp add: core_eq_iff same_tags_def expert_tags_def task_tags_def map_update_row graded_def)
  moreover have "same_tags s3 s4" using 1(13) evaluate_same by (cases "t_status (graded t) = Queued") (auto simp: same_tags_def)
  moreover have "same_tags s4 s5" using 1(14) by (simp add: core_eq_iff same_tags_def expert_tags_def task_tags_def)
  ultimately show ?thesis using aftermath_same [OF 1(16)] same_tags_trans by blast
qed

lemma rolled_back_same: "same_tags s (rolled_back s s')"
  by (simp add: same_tags_def expert_tags_def task_tags_def)

lemma same_tags_begun: "same_tags (s\<lparr>tx_now := x\<rparr>) s' = same_tags s s'"
  by (simp add: same_tags_def expert_tags_def task_tags_def)

lemma reclaim_expired_same: "reclaim_expired E s = (n, s1) \<Longrightarrow> same_tags s s1"
  using same_tags_core [OF reclaim_expired_core(1)] swept_same by blast

lemma claim_by_id_same:
  assumes "claim_by_id E eid tid locked s = (Inr t, s')"
  shows "same_tags s s'"
  using assms
proof (cases rule: claim_by_id_cases)
  case (1 e t now)
  have "same_tags s (modify_expert eid (\<lambda>e. e\<lparr>e_served_count := e_served_count e + 1\<rparr>)
         (modify_task tid (leased E eid now) (swept E s)))"
    using swept_same [of s E] by (simp add: same_tags_def expert_tags_def task_tags_def map_update_row)
  then show ?thesis using same_tags_core [OF 1(10)] by blast
qed

lemma release_same: "release eid tid s = (Inr t, s') \<Longrightarrow> same_tags s s'"
  by (cases rule: release_cases, assumption)
    (auto simp: core_eq_iff same_tags_def expert_tags_def task_tags_def map_update_row)

lemma settle_status_same: "same_tags s (settle_status tid t g d actor s)"
  by (auto simp: settle_status_def requeue_def requeued_def Let_def same_tags_def expert_tags_def task_tags_def map_update_row)

lemma review_same:
  assumes "review_grade E key gid d reason actor s = (Inr (rv, p), s')"
  shows "same_tags s s'"
  using assms
proof (cases rule: review_cases)
  case (1 g t s2 s3 s4 s5 s6 c)
  have "same_tags s s2" using 1(12) by (simp add: core_eq_iff same_tags_def expert_tags_def task_tags_def)
  moreover have "same_tags s2 s3"
    using 1(14) by (auto simp: core_eq_iff same_tags_def expert_tags_def task_tags_def dest!: create_for_grade_frame(1) split: if_splits)
  moreover have "same_tags s3 s4" unfolding 1(15) by (rule settle_status_same)
  moreover have "same_tags s4 s5"
    using 1(16) by (auto simp: core_eq_iff same_tags_def expert_tags_def task_tags_def dest!: redeliver_frame(1) split: if_splits)
  moreover have "same_tags s5 s6" using 1(17) by (simp add: core_eq_iff same_tags_def expert_tags_def task_tags_def)
  ultimately show ?thesis using update_same [OF 1(19)] same_tags_trans by blast
qed

lemma resolve_same:
  assumes "resolve E tid d reason key actor s = (Inr r, s')"
  shows "same_tags s s'"
  using assms
proof (cases rule: resolve_cases)
  case (1 row g t acc s1 now)
  have S: "core (s1\<lparr>reviews := reviews s, payouts := payouts s, experts := experts s, tier_changes := tier_changes s\<rparr>) = core s"
      "map uncalibrated (experts s1) = map uncalibrated (experts s)"
    using settle_grades_settles [OF 1(7)] by (simp_all add: settles_def)
  have "expert_tags s1 = expert_tags s" by (rule tags_maps [OF S(2)]) (simp add: uncalibrated_def)
  then have "same_tags s s1" using S(1) by (simp add: same_tags_def task_tags_def core_eq_iff)
  moreover have "same_tags s1 s'" using 1(11)
    by (simp add: core_eq_iff same_tags_def expert_tags_def task_tags_def map_update_row)
  ultimately show ?thesis using same_tags_trans by blast
qed

text \<open>The requests of a run after the seeding.\<close>

fun traffic :: "command \<Rightarrow> bool" where
  "traffic NextTask = True" | "traffic (ClaimTask _) = True" | "traffic (ReleaseTask _) = True" | "traffic Reclaim = True"
| "traffic (SubmitGrade _) = True" | "traffic (CreateReview _) = True" | "traffic (Decide _ _) = True" | "traffic _ = False"

lemma run_command_same:
  assumes "traffic c" "run_command E m c raw s = (Inr x, s')"
  shows "same_tags s s'"
proof (cases c)
  case NextTask
  then obtain e v where "next_task E e (m_locked m) s = (Inr v, s')"
    using assms by (auto dest!: as_expert_returns responds_returns)
  then show ?thesis by (auto simp: next_task_def result_simps split: option.splits dest!: show_task_state dest: claim_next_same)
next
  case (ClaimTask tid)
  then obtain e v where "claim_task E e tid (m_locked m) s = (Inr v, s')"
    using assms by (auto dest!: as_expert_returns responds_returns)
  then show ?thesis by (auto simp: claim_task_def result_simps dest!: show_task_state dest: claim_by_id_same)
next
  case (ReleaseTask tid)
  then obtain e v where "release_task e tid s = (Inr v, s')"
    using assms by (auto dest!: as_expert_returns responds_returns)
  then show ?thesis by (auto simp: release_task_def result_simps dest: release_same)
next
  case Reclaim
  then obtain p v where "reclaim_route E s = (Inr v, s')"
    using assms by (auto dest!: with_scopes_returns responds_returns)
  then show ?thesis by (auto simp: reclaim_route_def dest: reclaim_expired_same split: prod.splits)
next
  case (SubmitGrade b)
  then obtain e g where "submit_grade E e b s = (Inr g, s')"
    using assms by (auto simp: result_simps dest!: as_expert_returns responds_returns)
  then show ?thesis by (auto simp: submit_grade_def dest: submit_same)
next
  case (CreateReview b)
  then obtain p v where "create_review E p b s = (Inr v, s')"
    using assms by (auto dest!: with_scopes_returns responds_returns)
  then show ?thesis by (auto simp: create_review_def result_simps dest: review_same)
next
  case (Decide tid b)
  then obtain p v where "decide E p tid b s = (Inr v, s')"
    using assms by (auto simp: result_simps dest!: with_scopes_returns responds_returns)
  then show ?thesis by (auto simp: decide_def result_simps dest: resolve_same)
qed (use assms(1) in simp_all)

lemma post_same:
  assumes "post S key c (n, s, st) = (r, (n', s', st'))" "traffic c"
  shows "same_tags s s'"
proof (cases r)
  case (Inl e)
  have "c \<noteq> ExportDelivery" using assms(2) by auto
  from post_raises [OF assms(1) [unfolded Inl] this] show ?thesis by (metis rolled_back_same)
next
  case (Inr x)
  have "c \<noteq> ExportDelivery" using assms(2) by auto
  note run = post_returns(1) [OF assms(1) [unfolded Inr] this]
  show ?thesis using run_command_same [OF assms(2) run] by (simp add: same_tags_begun)
qed

lemma fetch_same: "fetch S key q (n, s, st) = (r, (n', s', st')) \<Longrightarrow> same_tags s s'"
  using fetch_state(1) [of S key q n s st r n' s' st'] rolled_back_same by blast

lemma next_task_matches:
  assumes "post S key NextTask (n, s, st) = (Inr (TaskOut v), w)"
  obtains k eid tags own where "holds_key (sv_env S) (Some key) k s" "k_expert_id k = Some eid"
    "map_of (expert_tags s) eid = Some own" "(ev_id v, tags) \<in> set (task_tags s)" "tags_overlap tags own"
proof -
  let ?s = "s\<lparr>tx_now := m_now (sv_moment S n)\<rparr>"
  obtain n' s' st' where w: "w = (n', s', st')" by (metis prod_cases3)
  obtain k eid e t where k: "holds_key (sv_env S) (Some key) k s" "k_expert_id k = Some eid" "get_expert eid s = Some e"
    and t: "claim_next (sv_env S) eid (m_locked (sv_moment S n)) ?s = (Inr (Some t), s')" and id: "ev_id v = t_id t"
    by (rule next_task_claims [OF assms [unfolded w]])
  show thesis
    using t
  proof (cases rule: claim_next_cases)
    case (served e' u now)
    have e': "e' = e" using served(1) k(3) by simp
    note u = pick_SomeD [OF claim_choice_SomeD(1) [OF served(3)]]
    have "(t_id u, t_required_tags u) \<in> set (task_tags (swept (sv_env S) ?s))"
      using u(1) by (simp add: task_tags_def)
    moreover have "task_tags (swept (sv_env S) ?s) = task_tags s"
      using swept_same [of ?s "sv_env S"] by (simp add: same_tags_def) (simp add: task_tags_def)
    ultimately show thesis
      using that [OF k(1,2) map_of_expert_tags [OF k(3)], of "t_required_tags u"] u(2) e' served(4) id
      by (simp add: eligibility_def)
  qed simp
qed

section \<open>Threads\<close>

definition credentials :: "sim_expert \<Rightarrow> string \<times> string list" where
  "credentials e = (se_key e, se_tags e)"

lemma enlisted_credentials: "credentials e' = credentials e \<Longrightarrow> enlisted E s e' = enlisted E s e"
  by (simp add: credentials_def enlisted_def)

lemma run_expert_step:
  assumes "run_expert S R sims th x (n, s, st) = (th', x', (n', s', st'))"
  shows "same_tags s s'" "credentials (th_expert th') = credentials (th_expert th)"
    "enlisted (sv_env S) s (th_expert th) \<Longrightarrow> mirrored sims s \<Longrightarrow> sx_mismatches x' = sx_mismatches x"
proof -
  have refl: "same_tags s s" by (simp add: same_tags_def)
  have "same_tags s s' \<and> credentials (th_expert th') = credentials (th_expert th) \<and>
    (enlisted (sv_env S) s (th_expert th) \<longrightarrow> mirrored sims s \<longrightarrow> sx_mismatches x' = sx_mismatches x)"
  proof (cases "th_place th")
    case Claiming
    obtain r n1 s1 st1 where p: "post S (se_key (th_expert th)) NextTask (n, s, st) = (r, (n1, s1, st1))" by (metis prod_cases4)
    have same: "same_tags s s1" by (rule post_same [OF p]) simp
    show ?thesis
    proof (cases "\<exists>v. r = Inr (TaskOut v)")
      case True
      then obtain v where v: "r = Inr (TaskOut v)" by blast
      have run: "served_task R sims v th x = (th', x')" "s' = s1"
        using assms Claiming p v by (auto simp: run_expert_def Let_def split: prod.splits)
      have "sx_mismatches x' = sx_mismatches x" if "enlisted (sv_env S) s (th_expert th)" "mirrored sims s"
      proof (cases "sims (ev_id v)")
        case None
        then show ?thesis using run(1) by (auto simp: served_task_def)
      next
        case (Some t)
        obtain k eid tags own where m: "holds_key (sv_env S) (Some (se_key (th_expert th))) k s" "k_expert_id k = Some eid"
            "map_of (expert_tags s) eid = Some own" "(ev_id v, tags) \<in> set (task_tags s)" "tags_overlap tags own"
          by (rule next_task_matches [OF p [unfolded v]])
        have "own = se_tags (th_expert th)"
          using that(1) m(1-3) by (auto simp: enlisted_def dest: holds_key_unique)
        moreover have "pl_required_tags (st_payload t) = tags" using that(2) m(4) Some by (fastforce simp: mirrored_def)
        ultimately have "remdups (filter (\<lambda>tag. tag \<in> set (se_tags (th_expert th))) (pl_required_tags (st_payload t))) \<noteq> []"
          using m(5) by (auto simp: tags_overlap_def filter_empty_conv)
        then show ?thesis using run(1) Some by (auto simp: served_task_def Let_def split: prod.splits)
      qed
      moreover have "credentials (th_expert th') = credentials (th_expert th)"
        using run(1) by (auto simp: served_task_def credentials_def Let_def split: option.splits prod.splits)
      ultimately show ?thesis using same run(2) by blast
    next
      case False
      then have "s' = s1 \<and> credentials (th_expert th') = credentials (th_expert th) \<and> sx_mismatches x' = sx_mismatches x"
        using assms Claiming p
        by (auto simp: run_expert_def Let_def credentials_def split: sum.splits response.splits if_splits)
      then show ?thesis using same by blast
    qed
  next
    case (Grading b)
    obtain r n1 s1 st1 where p: "post S (se_key (th_expert th)) (SubmitGrade b) (n, s, st) = (r, (n1, s1, st1))" by (metis prod_cases4)
    have same: "same_tags s s1" by (rule post_same [OF p]) simp
    have "s' = s1 \<and> credentials (th_expert th') = credentials (th_expert th) \<and> x' = x"
      using assms Grading p by (auto simp: run_expert_def Let_def credentials_def split: sum.splits)
    then show ?thesis using same by blast
  qed (use assms refl in \<open>auto simp: run_expert_def Let_def\<close>)
  then show "same_tags s s'" "credentials (th_expert th') = credentials (th_expert th)"
    "enlisted (sv_env S) s (th_expert th) \<Longrightarrow> mirrored sims s \<Longrightarrow> sx_mismatches x' = sx_mismatches x" by blast+
qed

lemma pool_steps:
  assumes "pool S R sims schedule ths x w = (ths', x', w')" "\<forall>th \<in> set ths. enlisted (sv_env S) (wire_db w) (th_expert th)"
    "mirrored sims (wire_db w)"
  shows "sx_mismatches x' = sx_mismatches x" "same_tags (wire_db w) (wire_db w')"
    "map (credentials \<circ> th_expert) ths' = map (credentials \<circ> th_expert) ths"
proof -
  have "sx_mismatches x' = sx_mismatches x \<and> same_tags (wire_db w) (wire_db w') \<and>
    map (credentials \<circ> th_expert) ths' = map (credentials \<circ> th_expert) ths"
    using assms
  proof (induction schedule arbitrary: ths x w)
    case Nil
    then show ?case by (simp add: same_tags_def)
  next
    case (Cons i schedule)
    show ?case
    proof (cases "i < length ths")
      case False
      with Cons show ?thesis by simp
    next
      case True
      obtain n s st where w: "w = (n, s, st)" by (metis prod_cases3)
      obtain th x1 n1 s1 st1 where run: "run_expert S R sims (ths ! i) x (n, s, st) = (th, x1, (n1, s1, st1))" by (metis prod_cases5)
      have rest: "pool S R sims schedule (ths[i := th]) x1 (n1, s1, st1) = (ths', x', w')"
        using Cons.prems(1) True w run by simp
      note step = run_expert_step [OF run]
      have enl: "enlisted (sv_env S) s (th_expert u)" if "u \<in> set ths" for u using Cons.prems(2) w that by (simp add: wire_db_def)
      have "enlisted (sv_env S) s (th_expert u)" if "u \<in> set (ths[i := th])" for u
        using that set_update_subset_insert [of ths i th] enl [of u] enl [of "ths ! i"] True enlisted_credentials [OF step(2)] by auto
      then have "\<forall>u \<in> set (ths[i := th]). enlisted (sv_env S) (wire_db (n1, s1, st1)) (th_expert u)"
        using enlisted_same [OF step(1)] by (simp add: wire_db_def)
      moreover have "mirrored sims (wire_db (n1, s1, st1))"
        using mirrored_same [OF step(1)] Cons.prems(3) by (simp add: wire_db_def w)
      ultimately have IH: "sx_mismatches x' = sx_mismatches x1" "same_tags s1 (wire_db w')"
          "map (credentials \<circ> th_expert) ths' = map (credentials \<circ> th_expert) (ths[i := th])"
        using Cons.IH [OF rest] by (simp_all add: wire_db_def comp_def)
      have "sx_mismatches x1 = sx_mismatches x"
        using step(3) enl [of "ths ! i"] True Cons.prems(3) by (simp add: wire_db_def w)
      moreover have "map (credentials \<circ> th_expert) (ths[i := th]) = map (credentials \<circ> th_expert) ths"
        using True step(2) by (simp add: map_update list_update_same_conv)
      moreover have "same_tags (wire_db w) (wire_db w')"
        using same_tags_trans [OF step(1) IH(2)] by (simp add: wire_db_def w)
      ultimately show ?thesis using IH(1,3) by (simp add: comp_def)
    qed
  qed
  then show "sx_mismatches x' = sx_mismatches x" "same_tags (wire_db w) (wire_db w')"
    "map (credentials \<circ> th_expert) ths' = map (credentials \<circ> th_expert) ths" by blast+
qed

section \<open>The other parts of the run\<close>

lemma post_wire: "post S key c w = (r, w') \<Longrightarrow> traffic c \<Longrightarrow> same_tags (wire_db w) (wire_db w')"
  using post_same [of S key c "fst w" "fst (snd w)" "snd (snd w)" r "fst w'" "fst (snd w')" "snd (snd w')"]
  by (simp add: wire_db_def)

lemma fetch_wire: "fetch S key q w = (r, w') \<Longrightarrow> same_tags (wire_db w) (wire_db w')"
  using fetch_same [of S key q "fst w" "fst (snd w)" "snd (snd w)" r "fst w'" "fst (snd w')" "snd (snd w')"]
  by (simp add: wire_db_def)

lemma same_tags_refl [simp]: "same_tags s s"
  by (simp add: same_tags_def)

lemma first_claim_same: "first_claim S e w = (tid, w') \<Longrightarrow> same_tags (wire_db w) (wire_db w')"
  by (auto simp: first_claim_def split: prod.splits sum.splits response.splits dest!: post_wire)

lemma first_claims_same: "first_claims S es order held w = (held', w') \<Longrightarrow> same_tags (wire_db w) (wire_db w')"
proof (induction order arbitrary: held w)
  case (Cons i order)
  obtain tid w1 where c: "first_claim S (es ! i) w = (tid, w1)" by (meson surj_pair)
  then have "first_claims S es order (held[i := tid]) w1 = (held', w')" using Cons.prems by simp
  from Cons.IH [OF this] show ?case by (rule same_tags_trans [OF first_claim_same [OF c]])
qed simp

lemma steal_same: "steal S es hs i w = (c, w') \<Longrightarrow> same_tags (wire_db w) (wire_db w')"
  by (auto simp: steal_def split: option.splits prod.splits sum.splits dest!: post_wire)

lemma steals_same: "steals S es hs order w = (c, w') \<Longrightarrow> same_tags (wire_db w) (wire_db w')"
proof (induction order arbitrary: c w)
  case (Cons i order)
  obtain a w1 where a: "steal S es hs i w = (a, w1)" by (meson surj_pair)
  obtain b w2 where b: "steals S es hs order w1 = (b, w2)" by (meson surj_pair)
  have "w2 = w'" using Cons.prems a b by (auto split: prod.splits)
  with Cons.IH [OF b [unfolded this]] show ?case using same_tags_trans [OF steal_same [OF a]] by blast
qed simp

lemma releases_same: "same_tags (wire_db w) (wire_db (releases S held w))"
proof (induction held arbitrary: w)
  case (Cons x held)
  obtain e tid where x: "x = (e, tid)" by (meson surj_pair)
  have "same_tags (wire_db w) (wire_db (snd (post S (se_key e) (ReleaseTask t) w)))" for t
    by (rule post_wire [OF surjective_pairing]) simp
  from same_tags_trans [OF this Cons.IH] show ?case using Cons.IH [of w] by (cases tid) (simp_all add: x)
qed simp

lemma contention_round_same:
  assumes "contention_round S wd order1 order2 x w = (c, x', w')"
  shows "same_tags (wire_db w) (wire_db w')" "sx_mismatches x' = sx_mismatches x"
proof -
  obtain held w1 where h: "first_claims S (w_experts wd) order1 (replicate (length (w_experts wd)) None) w = (held, w1)" by (meson surj_pair)
  obtain a b w2 where st: "steals S (w_experts wd) (holders held) order2 w1 = ((a, b), w2)" by (metis surj_pair)
  have w': "w' = releases S (zip (w_experts wd) held) w2" "sx_mismatches x' = sx_mismatches x"
    using assms by (auto simp: contention_round_def Let_def h st)
  show "same_tags (wire_db w) (wire_db w')"
    using same_tags_trans [OF first_claims_same [OF h] same_tags_trans [OF steals_same [OF st] releases_same]] w'(1) by simp
  show "sx_mismatches x' = sx_mismatches x" by (rule w'(2))
qed

lemma review_batch_same:
  "review_batch S key sims gs c w = (r, w') \<Longrightarrow> same_tags (wire_db w) (wire_db w')"
proof (induction gs arbitrary: c w)
  case (Cons g gs)
  show ?case
  proof (cases "\<exists>truth. truth_of sims (go_task_id g) w = (Inr truth, w)")
    case False
    then have "w' = w" using Cons.prems by (auto simp: truth_of_def split: option.splits)
    then show ?thesis by simp
  next
    case True
    then obtain truth where t: "truth_of sims (go_task_id g) w = (Inr truth, w)" by blast
    obtain x w1 where p: "post S key (CreateReview (spot_check g truth)) w = (x, w1)" by (meson surj_pair)
    have same: "same_tags (wire_db w) (wire_db w1)" by (rule post_wire [OF p]) simp
    show ?thesis
    proof (cases x)
      case (Inl e)
      then have "w' = w1" using Cons.prems t p by (simp add: raise_for_status_def)
      then show ?thesis using same by simp
    next
      case (Inr y)
      then have "review_batch S key sims gs (if rb_decision (spot_check g truth) = Reject then (fst c, snd c + 1) else (fst c + 1, snd c))
          w1 = (r, w')"
        using Cons.prems t p by (simp add: raise_for_status_def Let_def)
      from Cons.IH [OF this] show ?thesis by (rule same_tags_trans [OF same])
    qed
  qed
qed simp

lemma adjudicate_batch_same:
  "adjudicate_batch S key sims js c w = (r, w') \<Longrightarrow> same_tags (wire_db w) (wire_db w')"
proof (induction js arbitrary: c w)
  case (Cons j js)
  show ?case
  proof (cases "\<exists>truth. truth_of sims (jv_task_id j) w = (Inr truth, w)")
    case False
    then have "w' = w" using Cons.prems by (auto simp: truth_of_def split: option.splits)
    then show ?thesis by simp
  next
    case True
    then obtain truth where t: "truth_of sims (jv_task_id j) w = (Inr truth, w)" by blast
    show ?thesis
    proof (cases "min_by (\<lambda>g. float_distance (cg_weighted_score g) truth) (jv_grades j)")
      case None
      then have "w' = w" using Cons.prems t by (simp add: min_by_def)
      then show ?thesis by simp
    next
      case (Some best)
      let ?b = "\<lparr>ad_delivered_grade_id = cg_grade_id best, ad_reason = ''closest to the reference answer''\<rparr>"
      obtain x w1 where p: "post S key (Decide (jv_task_id j) ?b) w = (x, w1)" by (meson surj_pair)
      have same: "same_tags (wire_db w) (wire_db w1)" by (rule post_wire [OF p]) simp
      show ?thesis
      proof (cases "\<exists>d. x = Inr (AdjudicationResult d)")
        case False
        then have "w' = w1" using Cons.prems t Some p
          by (auto simp: raise_for_status_def split: sum.splits response.splits)
        then show ?thesis using same by simp
      next
        case True
        then obtain d where "x = Inr (AdjudicationResult d)" by blast
        then have "adjudicate_batch S key sims js (fst c + 1, snd c + length (aj_outvoted d)) w1 = (r, w')"
          using Cons.prems t Some p by (simp add: raise_for_status_def)
        from Cons.IH [OF this] show ?thesis by (rule same_tags_trans [OF same])
      qed
    qed
  qed
qed simp

lemma review_turn_same:
  assumes "review_turn S key sims c w = (r, w')"
  shows "same_tags (wire_db w) (wire_db w')"
proof -
  obtain x w1 where f: "fetch S key (ListUnreviewed 1000) w = (x, w1)" by (meson surj_pair)
  have "w' = w1 \<or> (\<exists>gs y. review_batch S key sims gs c w1 = (y, w'))"
    using assms f by (auto simp: review_turn_def split: sum.splits answer.splits if_splits prod.splits)
  then show ?thesis using fetch_wire [OF f] review_batch_same same_tags_trans by blast
qed

lemma adjudicate_turn_same:
  assumes "adjudicate_turn S key sims c w = (r, w')"
  shows "same_tags (wire_db w) (wire_db w')"
proof -
  obtain x w1 where f: "fetch S key (AdjudicationQueue 1000) w = (x, w1)" by (meson surj_pair)
  have "w' = w1 \<or> (\<exists>gs y. adjudicate_batch S key sims gs c w1 = (y, w'))"
    using assms f by (auto simp: adjudicate_turn_def split: sum.splits answer.splits if_splits prod.splits)
  then show ?thesis using fetch_wire [OF f] adjudicate_batch_same same_tags_trans by blast
qed

lemma review_all_same:
  assumes "review_all S key sims w = Some (r, w')"
  shows "same_tags (wire_db w) (wire_db w')"
proof -
  let ?P = "\<lambda>(c :: nat \<times> nat) w1. same_tags (wire_db w) (wire_db w1)"
  have step: "?P c' w2" if "?P c w1" "review_turn S key sims c w1 = (Inr c', w2)" for c w1 c' w2
    using same_tags_trans [OF that(1) review_turn_same [OF that(2)]] .
  have "\<exists>r w' c1 w1. repeating (review_turn S key sims) (0, 0) w = Some (r, w') \<and> ?P c1 w1 \<and> review_turn S key sims c1 w1 = (Inl r, w')"
    by (rule reviewing.returns [where P = ?P]) (simp add: same_tags_def, rule step)
  then obtain c1 w1 where "same_tags (wire_db w) (wire_db w1)" "review_turn S key sims c1 w1 = (Inl r, w')"
    using assms unfolding review_all_def by auto
  then show ?thesis using same_tags_trans review_turn_same by blast
qed

lemma run_pool_same:
  assumes "run_pool S R chosen schedule wd x w = Some (r, w')"
    "\<forall>e \<in> set (w_experts wd). enlisted (sv_env S) (wire_db w) e" "mirrored (by_id wd) (wire_db w)"
  shows "same_tags (wire_db w) (wire_db w')"
    "r = Inr (wd', x') \<Longrightarrow> sx_mismatches x' = sx_mismatches x \<and> by_id wd' = by_id wd \<and>
       (\<forall>e \<in> set (w_experts wd'). enlisted (sv_env S) (wire_db w') e)"
proof -
  let ?es = "filter chosen (w_experts wd)"
  obtain ths x1 w1 where run: "pool S R (by_id wd) schedule (map (started R (w_seed wd)) ?es) x w = (ths, x1, w1)" by (metis prod_cases3)
  have "\<forall>th \<in> set (map (started R (w_seed wd)) ?es). enlisted (sv_env S) (wire_db w) (th_expert th)"
    using assms(2) by (auto simp: started_def)
  note P = pool_steps [OF run this assms(3)]
  obtain j where j: "joined ths = Some j" "w' = w1"
    using assms(1) run by (auto simp: run_pool_def split: option.splits sum.splits)
  show same: "same_tags (wire_db w) (wire_db w')" using P(2) j(2) by simp
  assume r: "r = Inr (wd', x')"
  have wd': "wd' = wd\<lparr>w_experts := written_back chosen (w_experts wd) (map th_expert ths)\<rparr>" "x' = x1"
    using assms(1) run j r by (auto simp: run_pool_def joined_def split: if_splits list.splits)
  have "map credentials (map th_expert ths) = map credentials ?es"
    using P(3) by (simp add: started_def comp_def)
  moreover have "map credentials (written_back chosen es us) = map credentials es"
    if "map credentials us = map credentials (filter chosen es)" for es us
    using that by (induction chosen es us rule: written_back.induct) (auto split: if_splits)
  ultimately have "map credentials (w_experts wd') = map credentials (w_experts wd)" by (simp add: wd'(1))
  then have "enlisted (sv_env S) (wire_db w) e" if "e \<in> set (w_experts wd')" for e
    using assms(2) that enlisted_credentials [of e] by (metis (no_types, lifting) image_iff list.set_map)
  then show "sx_mismatches x' = sx_mismatches x \<and> by_id wd' = by_id wd \<and>
       (\<forall>e \<in> set (w_experts wd'). enlisted (sv_env S) (wire_db w') e)"
    using P(1) wd' enlisted_same [OF same] by (simp add: by_id_def)
qed

section \<open>Seeding\<close>

definition grows :: "db \<Rightarrow> db \<Rightarrow> bool" where
  "grows s s' \<longleftrightarrow> prefix (expert_tags s) (expert_tags s') \<and> prefix (api_keys s) (api_keys s') \<and> task_tags s' = task_tags s"

lemma grows_refl [simp]: "grows s s"
  by (simp add: grows_def)

lemma grows_trans: "grows s s1 \<Longrightarrow> grows s1 s' \<Longrightarrow> grows s s'"
  unfolding grows_def by (auto intro: prefix_order.trans)

lemma grows_begun: "grows (s\<lparr>tx_now := x\<rparr>) s' = grows s s'"
  by (simp add: grows_def expert_tags_def task_tags_def)

lemma enlisted_grows:
  assumes "enlisted E s e" "prefix (expert_tags s) (expert_tags s')" "prefix (api_keys s) (api_keys s')"
  shows "enlisted E s' e"
proof -
  obtain k eid raw where k: "Some (se_key e) = Some raw" "raw \<noteq> []"
      "find (\<lambda>k. k_key_hash k = hash_key E raw \<and> k_revoked_at k = None) (api_keys s) = Some k"
      "k_expert_id k = Some eid" "map_of (expert_tags s) eid = Some (se_tags e)"
    using assms(1) by (auto simp: enlisted_def holds_key_def)
  have "find (\<lambda>k. k_key_hash k = hash_key E raw \<and> k_revoked_at k = None) (api_keys s') = Some k"
    using k(3) assms(3) by (auto simp: prefix_def find_append)
  moreover have "map_of (expert_tags s') eid = Some (se_tags e)" using k(5) assms(2) by (auto simp: prefix_def map_add_Some_iff)
  ultimately show ?thesis using k(1,2,4) by (auto simp: enlisted_def holds_key_def)
qed

lemma merge_rate_cards_grows: "grows s (fold merge_rate_card cards s)"
proof (induction cards arbitrary: s)
  case (Cons c cs)
  have "grows s (merge_rate_card c s)" by (simp add: merge_rate_card_def grows_def expert_tags_def task_tags_def)
  then show ?case using grows_trans [OF _ Cons.IH] by simp
qed simp

fun founding :: "command \<Rightarrow> bool" where
  "founding (CreateRubric _) = True" | "founding (PutRateCards _) = True" | "founding (CreateExpert _) = True"
| "founding (CreateExpertKey _) = True" | "founding (CreateKey _) = True" | "founding _ = False"

lemma issue_key_grows: "issue_key E r expert_id label token s = (Inr (k, raw), s') \<Longrightarrow> grows s s'"
  by (erule issue_key_cases) (simp add: grows_def expert_tags_def task_tags_def core_eq_iff)

lemma run_command_grows:
  assumes "founding c" "run_command E m c raw s = (Inr x, s')"
  shows "grows s s'"
proof (cases c)
  case (CreateRubric b)
  then obtain p r where "create_rubric E p b s = (Inr r, s')"
    using assms by (auto simp: result_simps dest!: with_scopes_returns responds_returns)
  then show ?thesis
    by (auto simp: create_rubric_def new_uuid_def new_uuids_def insert_rubric_def result_simps Let_def grows_def
        expert_tags_def task_tags_def)
next
  case (PutRateCards cards)
  then obtain p u where "put_rate_cards p cards s = (Inr u, s')"
    using assms by (auto simp: result_simps dest!: with_scopes_returns responds_returns)
  then show ?thesis using merge_rate_cards_grows [of s cards]
    by (auto simp: put_rate_cards_def grows_def expert_tags_def task_tags_def)
next
  case (CreateExpert b)
  then obtain p e where "create_expert E p b s = (Inr e, s')"
    using assms by (auto simp: result_simps dest!: with_scopes_returns responds_returns)
  then show ?thesis
    by (auto simp: create_expert_def new_uuid_def insert_expert_def result_simps Let_def grows_def expert_tags_def task_tags_def)
next
  case (CreateExpertKey eid)
  then obtain p kr where "create_expert_key E p eid (m_token m) s = (Inr kr, s')"
    using assms by (auto simp: result_simps dest!: with_scopes_returns responds_returns)
  then show ?thesis
    by (auto simp: create_expert_key_def result_simps split: option.splits dest!: issue_key_grows)
      (simp add: grows_def expert_tags_def task_tags_def)
next
  case (CreateKey b)
  then obtain p kr where "create_key E p (kc_role b) (kc_expert_id b) (kc_label b) (m_token m) s = (Inr kr, s')"
    using assms by (auto simp: result_simps dest!: with_scopes_returns responds_returns)
  then show ?thesis
    by (auto simp: create_key_def result_simps dest!: issue_key_grows) (simp add: grows_def expert_tags_def task_tags_def)
qed (use assms(1) in simp_all)

lemma post_grows:
  assumes "post S key c w = (r, w')" "founding c"
  shows "grows (wire_db w) (wire_db w')"
proof -
  obtain n s st n' s' st' where w: "w = (n, s, st)" "w' = (n', s', st')" by (metis prod_cases3)
  have c: "c \<noteq> ExportDelivery" using assms(2) by auto
  show ?thesis
  proof (cases r)
    case (Inl e)
    obtain s1 where "s' = rolled_back s s1" using post_raises [OF assms(1) [unfolded w Inl] c] by blast
    then show ?thesis by (simp add: w wire_db_def grows_def expert_tags_def task_tags_def)
  next
    case (Inr x)
    from run_command_grows [OF assms(2) post_returns(1) [OF assms(1) [unfolded w Inr] c]]
    show ?thesis by (simp add: w wire_db_def grows_begun)
  qed
qed

lemma post_wire_returns:
  assumes "post S key c w = (Inr r, w')" "c \<noteq> ExportDelivery"
  shows "run_command (sv_env S) (sv_moment S (fst w)) c (Some key) ((wire_db w)\<lparr>tx_now := m_now (sv_moment S (fst w))\<rparr>) = (Inr r, wire_db w')"
  using post_returns(1) [of S key c "fst w" "fst (snd w)" "snd (snd w)" r "fst w'" "fst (snd w')" "snd (snd w')"] assms
  by (simp add: wire_db_def)

lemma create_expert_new:
  "create_expert E p b s = (Inr c, s') \<Longrightarrow> e_id c \<notin> e_id ` set (experts s) \<and> experts s' = experts s @ [c] \<and> e_tags c = xc_tags b"
  by (auto simp: create_expert_def new_uuid_def insert_expert_def result_simps Let_def)

lemma create_expert_key_issues:
  "create_expert_key E p eid token s = (Inr (k, raw), s') \<Longrightarrow> \<exists>u s1. get_expert eid s = Some u \<and>
     issue_key E ExpertRole (Some (e_id u)) (e_name u) token s = (Inr (k, raw), s1) \<and> api_keys s' = api_keys s1 \<and> experts s' = experts s1"
  by (auto simp: create_expert_key_def result_simps split: option.splits)

lemma create_tasks_inserts:
  "create_tasks E p bs s = (Inr ids, s') \<Longrightarrow> \<exists>s1. insert_tasks E bs s = (Inr ids, s1) \<and> tasks s' = tasks s1 \<and>
     experts s' = experts s1 \<and> api_keys s' = api_keys s1"
  by (auto simp: create_tasks_def result_simps split: option.splits if_splits)

lemma expert_seeded:
  assumes "post S admin (CreateExpert b) w = (Inr (ExpertOut x), w1)"
    "post S admin (CreateExpertKey (xo_id x)) w1 = (Inr (ApiKeyOut k), w2)"
    "se_key e = ko_key k" "se_tags e = xc_tags b"
  shows "enlisted (sv_env S) (wire_db w2) e"
proof -
  let ?s = "(wire_db w)\<lparr>tx_now := m_now (sv_moment S (fst w))\<rparr>"
  have run1: "run_command (sv_env S) (sv_moment S (fst w)) (CreateExpert b) (Some admin) ?s = (Inr (ExpertOut x), wire_db w1)"
    by (rule post_wire_returns [OF assms(1)]) simp
  then obtain p c where c: "create_expert (sv_env S) p b ?s = (Inr c, wire_db w1)" "x = expert_out_of c"
    by (auto simp: result_simps responds_def dest!: with_scopes_returns)
  have new: "e_id c \<notin> e_id ` set (experts (wire_db w))" "experts (wire_db w1) = experts (wire_db w) @ [c]" "e_tags c = xc_tags b"
    using create_expert_new [OF c(1)] by simp_all
  let ?s1 = "(wire_db w1)\<lparr>tx_now := m_now (sv_moment S (fst w1))\<rparr>"
  have "run_command (sv_env S) (sv_moment S (fst w1)) (CreateExpertKey (xo_id x)) (Some admin) ?s1 = (Inr (ApiKeyOut k), wire_db w2)"
    by (rule post_wire_returns [OF assms(2)]) simp
  then obtain q row raw where row: "create_expert_key (sv_env S) q (xo_id x) (m_token (sv_moment S (fst w1))) ?s1 = (Inr (row, raw), wire_db w2)"
      "k = api_key_out_of row raw"
    by (auto simp: result_simps responds_def dest!: with_scopes_returns split: prod.splits)
  obtain u s3 where u: "get_expert (xo_id x) (wire_db w1) = Some u"
      and iss: "issue_key (sv_env S) ExpertRole (Some (e_id u)) (e_name u) (m_token (sv_moment S (fst w1))) ?s1 = (Inr (row, raw), s3)"
      and keys: "api_keys (wire_db w2) = api_keys s3" "experts (wire_db w2) = experts s3"
    using create_expert_key_issues [OF row(1)] by auto
  have uid: "e_id u = xo_id x" "xo_id x = e_id c" using row_of_SomeD [OF u] c(2) by (simp_all add: expert_out_of_def)
  from iss show ?thesis
  proof (cases rule: issue_key_cases)
    case 1
    have k2: "api_keys (wire_db w2) = api_keys (wire_db w1) @ [row]" "experts (wire_db w2) = experts (wire_db w1)"
      using 1(6) keys by (simp_all add: core_eq_iff)
    have key: "se_key e = raw" using assms(3) row(2) by (simp add: api_key_out_of_def)
    have old: "find (\<lambda>k. k_key_hash k = hash_key (sv_env S) raw \<and> k_revoked_at k = None) (api_keys (wire_db w1)) = None"
      using 1(2,4) by (auto simp: find_None_iff image_iff)
    have "find (\<lambda>k. k_key_hash k = hash_key (sv_env S) raw \<and> k_revoked_at k = None) (api_keys (wire_db w2)) = Some row"
      unfolding k2(1) find_append old using 1(2) by simp
    moreover have "raw \<noteq> []" using 1(1) by (simp add: generate_key_def)
    ultimately have "holds_key (sv_env S) (Some (se_key e)) row (wire_db w2)" by (simp add: holds_key_def key)
    moreover have "k_expert_id row = Some (e_id c)" using 1(2) uid by simp
    moreover have "map_of (expert_tags (wire_db w2)) (e_id c) = Some (se_tags e)"
    proof -
      have "e_id c \<notin> fst ` set (expert_tags (wire_db w))" using new(1) by (auto simp: expert_tags_def image_image)
      then have "map_of (expert_tags (wire_db w)) (e_id c) = None" by (simp add: map_of_eq_None_iff)
      then show ?thesis by (simp add: k2(2) new expert_tags_def assms(4) map_add_def)
    qed
    ultimately show ?thesis by (auto simp: enlisted_def)
  qed
qed

lemma seed_experts_enlists:
  "seed_experts S admin es w = (Inr es', w') \<Longrightarrow> grows (wire_db w) (wire_db w') \<and> (\<forall>e \<in> set es'. enlisted (sv_env S) (wire_db w') e)"
proof (induction es arbitrary: es' w)
  case (Cons e es)
  let ?b = "\<lparr>xc_name = se_name e, xc_tags = se_tags e, xc_tier = se_tier e, xc_task_rate_cents = None\<rparr>"
  obtain r1 w1 where r1: "post S admin (CreateExpert ?b) w = (Inr r1, w1)"
    and n1: "(case r1 of ExpertOut x \<Rightarrow>
          and_then (json_field ''key'' (post S admin (CreateExpertKey (xo_id x)) w1)) (\<lambda>issued w.
            case issued of
              ApiKeyOut k \<Rightarrow>
                and_then (seed_experts S admin es w) (\<lambda>es w. (Inr (e\<lparr>se_id := xo_id x, se_key := ko_key k\<rparr> # es), w))
            | _ \<Rightarrow> (Inl BadBody, w))
      | _ \<Rightarrow> (Inl BadBody, w1)) = (Inr es', w')"
    using Cons.prems by (auto simp: and_then_returns json_field_Inr)
  obtain x where x: "r1 = ExpertOut x" using n1 by (cases r1) simp_all
  obtain r2 w2 where r2: "post S admin (CreateExpertKey (xo_id x)) w1 = (Inr r2, w2)"
    and n2: "(case r2 of ApiKeyOut k \<Rightarrow>
                and_then (seed_experts S admin es w2) (\<lambda>es w. (Inr (e\<lparr>se_id := xo_id x, se_key := ko_key k\<rparr> # es), w))
            | _ \<Rightarrow> (Inl BadBody, w2)) = (Inr es', w')"
    using n1 by (auto simp: x and_then_returns json_field_Inr)
  obtain k where k: "r2 = ApiKeyOut k" using n2 by (cases r2) simp_all
  obtain rest where rest: "seed_experts S admin es w2 = (Inr rest, w')" "es' = e\<lparr>se_id := xo_id x, se_key := ko_key k\<rparr> # rest"
    using n2 by (auto simp: k and_then_returns)
  have "enlisted (sv_env S) (wire_db w2) (e\<lparr>se_id := xo_id x, se_key := ko_key k\<rparr>)"
    by (rule expert_seeded [OF r1 [unfolded x] r2 [unfolded k]]) simp_all
  moreover have g: "grows (wire_db w) (wire_db w1)" "grows (wire_db w1) (wire_db w2)"
    by (rule post_grows [OF r1], simp) (rule post_grows [OF r2], simp)
  note IH = Cons.IH [OF rest(1)]
  ultimately have "enlisted (sv_env S) (wire_db w') (e\<lparr>se_id := xo_id x, se_key := ko_key k\<rparr>)"
    using IH by (auto simp: grows_def intro: enlisted_grows)
  then show ?case using IH grows_trans [OF grows_trans [OF g]] rest(2) by auto
qed simp

lemma insert_tasks_tags:
  "insert_tasks E bs s = (Inr ids, s') \<Longrightarrow> length ids = length bs \<and> distinct ids \<and> set ids \<inter> fst ` set (task_tags s) = {} \<and>
     task_tags s' = task_tags s @ zip ids (map kt_required_tags bs) \<and> expert_tags s' = expert_tags s \<and> api_keys s' = api_keys s"
proof (induction bs arbitrary: ids s)
  case (Cons b bs)
  from Cons.prems obtain t s2 rest where t: "t = new_task (uuid4 E (uuid_pos s)) (task_seq s) (tx_now s) b"
      "t_id t \<notin> t_id ` set (tasks s)"
      "s2 = s\<lparr>uuid_pos := Suc (uuid_pos s), task_seq := task_seq s + 1, tasks := tasks s @ [t]\<rparr>"
      "insert_tasks E bs s2 = (Inr rest, s')" "ids = t_id t # rest"
    by (rule insert_tasks_ConsE) blast
  have s2: "task_tags s2 = task_tags s @ [(t_id t, kt_required_tags b)]" "expert_tags s2 = expert_tags s" "api_keys s2 = api_keys s"
    using t(1,3) by (simp_all add: task_tags_def expert_tags_def new_task_def)
  have "t_id t \<notin> fst ` set (task_tags s)" using t(2) by (auto simp: task_tags_def image_image)
  then show ?case using Cons.IH [OF t(4)] by (auto simp: t(5) s2)
qed simp

lemma post_tasks:
  assumes "post S admin (CreateTasks bs) w = (Inr (IdsOut ids), w')"
  shows "length ids = length bs" "distinct ids" "set ids \<inter> fst ` set (task_tags (wire_db w)) = {}"
    "task_tags (wire_db w') = task_tags (wire_db w) @ zip ids (map kt_required_tags bs)"
    "expert_tags (wire_db w') = expert_tags (wire_db w)" "api_keys (wire_db w') = api_keys (wire_db w)"
proof -
  let ?s = "(wire_db w)\<lparr>tx_now := m_now (sv_moment S (fst w))\<rparr>"
  have "run_command (sv_env S) (sv_moment S (fst w)) (CreateTasks bs) (Some admin) ?s = (Inr (IdsOut ids), wire_db w')"
    by (rule post_wire_returns [OF assms]) simp
  then obtain p where "create_tasks (sv_env S) p bs ?s = (Inr ids, wire_db w')"
    by (auto simp: result_simps responds_def dest!: with_scopes_returns)
  then obtain s1 where ins: "insert_tasks (sv_env S) bs ?s = (Inr ids, s1)"
      and s1: "tasks (wire_db w') = tasks s1" "experts (wire_db w') = experts s1" "api_keys (wire_db w') = api_keys s1"
    using create_tasks_inserts by blast
  note I = insert_tasks_tags [OF ins]
  have tags: "task_tags ?s = task_tags (wire_db w)" "expert_tags ?s = expert_tags (wire_db w)"
    by (simp_all add: task_tags_def expert_tags_def)
  show "length ids = length bs" "distinct ids" "set ids \<inter> fst ` set (task_tags (wire_db w)) = {}"
    "task_tags (wire_db w') = task_tags (wire_db w) @ zip ids (map kt_required_tags bs)"
    "expert_tags (wire_db w') = expert_tags (wire_db w)" "api_keys (wire_db w') = api_keys (wire_db w)"
    using I s1 by (simp_all add: tags) (simp_all add: task_tags_def expert_tags_def)
qed

lemma issued_key_grows: "issued_key S admin r label w = (x, w') \<Longrightarrow> grows (wire_db w) (wire_db w')"
  by (auto simp: issued_key_def and_then_def json_field_def split: prod.splits sum.splits response.splits dest!: post_grows)

lemma by_id_seeded:
  assumes "length ids = length ts" "distinct ids"
  shows "i < length ids \<Longrightarrow> by_id (wd\<lparr>w_tasks := map2 (\<lambda>t i. t\<lparr>st_id := i\<rparr>) ts ids\<rparr>) (ids ! i) = Some ((ts ! i)\<lparr>st_id := ids ! i\<rparr>)"
    "tid \<notin> set ids \<Longrightarrow> by_id (wd\<lparr>w_tasks := map2 (\<lambda>t i. t\<lparr>st_id := i\<rparr>) ts ids\<rparr>) tid = None"
proof -
  let ?us = "map2 (\<lambda>t i. t\<lparr>st_id := i\<rparr>) ts ids"
  let ?kv = "map (\<lambda>t. (st_id t, t)) (rev ?us)"
  have "map st_id ?us = ids" using assms(1) by (intro nth_equalityI) simp_all
  then have keys: "map fst ?kv = rev ids" by (simp add: comp_def flip: rev_map)
  show "by_id (wd\<lparr>w_tasks := ?us\<rparr>) (ids ! i) = Some ((ts ! i)\<lparr>st_id := ids ! i\<rparr>)" if i: "i < length ids"
  proof -
    have "distinct (map fst ?kv)" unfolding keys using assms(2) by simp
    moreover have "(ids ! i, (ts ! i)\<lparr>st_id := ids ! i\<rparr>) \<in> set ?kv"
      using i assms(1) by (auto simp: set_zip image_iff intro!: exI [of _ i] bexI [of _ "(ts ! i, ids ! i)"])
    ultimately have "map_of ?kv (ids ! i) = Some ((ts ! i)\<lparr>st_id := ids ! i\<rparr>)" by (rule map_of_is_SomeI)
    then show ?thesis by (simp add: by_id_def)
  qed
  show "by_id (wd\<lparr>w_tasks := ?us\<rparr>) tid = None" if "tid \<notin> set ids"
  proof -
    have "tid \<notin> set (map fst ?kv)" unfolding keys using that by simp
    then have "map_of ?kv tid = None" by (simp add: map_of_eq_None_iff del: map_map)
    then show ?thesis by (simp add: by_id_def)
  qed
qed

lemma seed_enlists:
  assumes "seed S wd admin w = (Inr (wd', rid, reviewer, senior), w')"
  shows "(\<forall>e \<in> set (w_experts wd'). enlisted (sv_env S) (wire_db w') e) \<and> mirrored (by_id wd') (wire_db w')"
proof -
  obtain rubric w1 where r: "post S admin (CreateRubric RUBRIC) w = (rubric, w1)" by (meson surj_pair)
  obtain u w2 es w3 where rates: "post S admin (PutRateCards RATES) w1 = (Inr u, w2)"
    and es: "seed_experts S admin (w_experts wd) w2 = (Inr es, w3)"
    and rest: "and_then (json_field ''id'' (rubric, w3)) (\<lambda>rubric w.
     case rubric of
       RubricOut r \<Rightarrow>
         and_then (json_field ''ids'' (post S admin (CreateTasks (map (\<lambda>t. with_rubric (uo_id r) (st_payload t)) (w_tasks wd))) w)) (\<lambda>a w.
         case a of
           IdsOut ids \<Rightarrow>
             if length ids \<noteq> length (w_tasks wd) then (Inl LengthMismatch, w)
             else let wd' = wd\<lparr>w_experts := es, w_tasks := map2 (\<lambda>t i. t\<lparr>st_id := i\<rparr>) (w_tasks wd) ids\<rparr> in
               and_then (issued_key S admin ReviewerRole ''sim'' w) (\<lambda>reviewer w.
               and_then (issued_key S admin SeniorReviewerRole ''sim-senior'' w) (\<lambda>senior w.
               (Inr (wd', uo_id r, reviewer, senior), w)))
         | _ \<Rightarrow> (Inl BadBody, w))
     | _ \<Rightarrow> (Inl BadBody, w)) = (Inr (wd', rid, reviewer, senior), w')"
    using assms by (auto simp: seed_def r and_then_returns raise_for_status_Inr split: if_splits)
  let ?bs = "\<lambda>rid. map (\<lambda>t. with_rubric rid (st_payload t)) (w_tasks wd)"
  obtain x where x: "rubric = Inr x" using rest by (cases rubric) (simp_all add: json_field_def)
  obtain ro where ro: "x = RubricOut ro" using rest by (cases x) (simp_all add: \<open>rubric = Inr x\<close> json_field_def)
  obtain a w4 where a: "post S admin (CreateTasks (?bs (uo_id ro))) w3 = (Inr a, w4)"
    and rest': "(case a of
           IdsOut ids \<Rightarrow>
             if length ids \<noteq> length (w_tasks wd) then (Inl LengthMismatch, w4)
             else let wd' = wd\<lparr>w_experts := es, w_tasks := map2 (\<lambda>t i. t\<lparr>st_id := i\<rparr>) (w_tasks wd) ids\<rparr> in
               and_then (issued_key S admin ReviewerRole ''sim'' w4) (\<lambda>reviewer w.
               and_then (issued_key S admin SeniorReviewerRole ''sim-senior'' w) (\<lambda>senior w.
               (Inr (wd', uo_id ro, reviewer, senior), w)))
         | _ \<Rightarrow> (Inl BadBody, w4)) = (Inr (wd', rid, reviewer, senior), w')"
    using rest unfolding x json_field_def by (simp add: ro and_then_returns) (fold json_field_def, auto simp: json_field_Inr)
  obtain ids where i: "a = IdsOut ids" using rest' by (cases a) simp_all
  have ids: "post S admin (CreateTasks (?bs (uo_id ro))) w3 = (Inr (IdsOut ids), w4)" "length ids = length (w_tasks wd)"
    using a rest' by (auto simp: i split: if_splits)
  obtain rv w5 sn where k1: "issued_key S admin ReviewerRole ''sim'' w4 = (Inr rv, w5)"
    and k2: "issued_key S admin SeniorReviewerRole ''sim-senior'' w5 = (Inr sn, w')"
    and wd': "wd' = wd\<lparr>w_experts := es, w_tasks := map2 (\<lambda>t i. t\<lparr>st_id := i\<rparr>) (w_tasks wd) ids\<rparr>"
    using rest' ids(2) by (auto simp: i and_then_returns Let_def)
  note T = post_tasks [OF ids(1)]
  have g: "grows (wire_db w4) (wire_db w')" by (rule grows_trans [OF issued_key_grows [OF k1] issued_key_grows [OF k2]])
  have "enlisted (sv_env S) (wire_db w') e" if "e \<in> set es" for e
  proof -
    have "enlisted (sv_env S) (wire_db w3) e" using seed_experts_enlists [OF es] that by blast
    then have "enlisted (sv_env S) (wire_db w4) e" by (rule enlisted_grows) (simp_all add: T)
    then show ?thesis using g by (auto simp: grows_def intro: enlisted_grows)
  qed
  moreover have "mirrored (by_id wd') (wire_db w')"
  proof -
    note sims = by_id_seeded [OF ids(2) T(2), of _ "wd\<lparr>w_experts := es\<rparr>"]
    have tags: "task_tags (wire_db w') = task_tags (wire_db w3) @ zip ids (map kt_required_tags (?bs (uo_id ro)))"
      using g T(4) by (simp add: grows_def)
    show ?thesis unfolding mirrored_def
    proof safe
      fix tid tags assume "(tid, tags) \<in> set (task_tags (wire_db w'))"
      then consider "(tid, tags) \<in> set (task_tags (wire_db w3))" | "(tid, tags) \<in> set (zip ids (map kt_required_tags (?bs (uo_id ro))))"
        unfolding tags by auto
      then show "case by_id wd' tid of None \<Rightarrow> True | Some t \<Rightarrow> pl_required_tags (st_payload t) = tags"
      proof cases
        case 1
        then have "tid \<notin> set ids" using T(3) by force
        then have "by_id wd' tid = None" using sims(2) by (simp add: wd')
        then show ?thesis by simp
      next
        case 2
        then obtain i where i: "i < length ids" "tid = ids ! i" "tags = kt_required_tags (?bs (uo_id ro) ! i)"
          by (auto simp: set_zip)
        have "by_id wd' tid = Some (((w_tasks wd) ! i)\<lparr>st_id := ids ! i\<rparr>)"
          using sims(1) [OF i(1)] i(2) by (simp add: wd')
        then show ?thesis using i ids(2) by (simp add: with_rubric_def)
      qed
    qed
  qed
  ultimately show ?thesis by (simp add: wd')
qed

section \<open>The whole run\<close>

definition ensures :: "('a \<Rightarrow> 'w \<Rightarrow> bool) \<Rightarrow> ('e, 'a, 'w) result option \<Rightarrow> bool" where
  "ensures P r \<longleftrightarrow> (\<forall>a w. r = Some (Inr a, w) \<longrightarrow> P a w)"

lemma ensures_proceed:
  "ensures Q r \<Longrightarrow> (\<And>a w. Q a w \<Longrightarrow> ensures P (f a w)) \<Longrightarrow> ensures P (proceed r f)"
  by (auto simp: ensures_def proceed_def split: option.splits sum.splits)

lemma ensures_Some [simp]: "ensures P (Some (Inr a, w)) \<longleftrightarrow> P a w"
  by (simp add: ensures_def)

text \<open>What a run keeps once the world is seeded.\<close>

definition in_step :: "'st server \<Rightarrow> world \<Rightarrow> stats \<Rightarrow> 'st wire \<Rightarrow> bool" where
  "in_step S wd x w \<longleftrightarrow> (\<forall>e \<in> set (w_experts wd). enlisted (sv_env S) (wire_db w) e) \<and> mirrored (by_id wd) (wire_db w) \<and>
     sx_mismatches x = 0"

lemma in_step_same: "in_step S wd x w \<Longrightarrow> same_tags (wire_db w) (wire_db w') \<Longrightarrow> in_step S wd x w'"
  by (simp add: in_step_def enlisted_same mirrored_same)

lemma seed_in_step: "ensures (\<lambda>(wd, _) w. in_step S wd no_stats w) (Some (seed S wd admin w))"
  using seed_enlists by (fastforce simp: ensures_def in_step_def no_stats_def)

lemma run_pool_in_step:
  assumes "in_step S wd x w"
  shows "ensures (\<lambda>(wd', x') w'. in_step S wd' x' w') (run_pool S R chosen schedule wd x w)"
  unfolding ensures_def
proof (intro allI impI)
  fix a w' assume run: "run_pool S R chosen schedule wd x w = Some (Inr a, w')"
  obtain wd' x' where a: "a = (wd', x')" by (meson surj_pair)
  have pre: "\<forall>e \<in> set (w_experts wd). enlisted (sv_env S) (wire_db w) e" "mirrored (by_id wd) (wire_db w)"
    using assms by (simp_all add: in_step_def)
  note P = run_pool_same [OF run [unfolded a] pre]
  show "(case a of (wd', x') \<Rightarrow> \<lambda>w'. in_step S wd' x' w') w'"
    using P(2) [OF refl] mirrored_same [OF P(1)] assms by (simp add: a in_step_def)
qed

lemma review_all_in_step: "in_step S wd x w \<Longrightarrow> ensures (\<lambda>_ w'. in_step S wd x w') (review_all S key sims w)"
  unfolding ensures_def using in_step_same review_all_same by blast

lemma reclaim_in_step: "in_step S wd x w \<Longrightarrow> ensures (\<lambda>_ w'. in_step S wd x w') (Some (json_field f (post S admin Reclaim w)))"
  by (auto simp: ensures_def json_field_Inr dest!: post_wire intro: in_step_same)

lemma regrade_in_step:
  "in_step S wd x w \<Longrightarrow> ensures (\<lambda>(wd', x', _) w'. in_step S wd' x' w') (regrade S R reviewer scheds wd x c w)"
proof (induction scheds arbitrary: wd x c w)
  case (Cons sched scheds)
  show ?case unfolding regrade.simps
    apply (rule ensures_proceed [OF run_pool_in_step [OF Cons.prems]], clarsimp)
    apply (rule ensures_proceed [OF review_all_in_step], assumption)
    apply (auto simp: Let_def intro: Cons.IH)
    done
qed simp

lemma adjudicate_all_ensures: "ensures (\<lambda>_ w'. disputed (wire_db w') = 0) (adjudicate_all S key sims w)"
proof -
  obtain r w' where "adjudicate_all S key sims w = Some (r, w')" "\<And>c. r = Inr c \<Longrightarrow> disputed (wire_db w') = 0"
    using adjudicate_all_result [of S key sims w] by (elim exE conjE) (rule that, auto)
  then show ?thesis by (cases r) (auto simp: ensures_def)
qed

lemma contention_in_step:
  "in_step S wd no_stats w \<Longrightarrow> contention_round S wd order1 order2 no_stats w = (c, x, w') \<Longrightarrow> in_step S wd x w'"
  using contention_round_same [of S wd order1 order2 no_stats w c x w'] in_step_same [of S wd no_stats w w']
  by (simp add: in_step_def)

lemma demo_work_ensures:
  "ensures (\<lambda>(wd, x, counts, settled) w'. sx_mismatches x = 0 \<and> disputed (wire_db w') = 0) (demo_work S R sc wd admin w)"
  unfolding demo_work_def
  apply (rule ensures_proceed [OF seed_in_step], clarsimp split: prod.splits)
  apply (drule (1) contention_in_step)
  apply (rule ensures_proceed [OF run_pool_in_step], assumption, clarsimp)
  apply (rule ensures_proceed [OF reclaim_in_step], assumption)
  apply (rule ensures_proceed [OF run_pool_in_step], assumption, clarsimp)
  apply (rule ensures_proceed [OF review_all_in_step], assumption, clarsimp)
  apply (rule ensures_proceed [OF regrade_in_step], assumption, clarsimp)
  apply (rule ensures_proceed [OF adjudicate_all_ensures])
  apply (simp add: in_step_def split: prod.splits)
  done

text \<open>
  C31: in every run that reaches its end, under any schedule of the threads, no expert was served a task with which it
  shares no tag (the counter of mismatches is zero, so the exit code says only whether every double claim was blocked),
  and no task is left for adjudication. The tags are those the client believes in: seeding stores them and nothing a
  client asks of the server changes them.
\<close>

theorem demo_serves_by_tag:
  "case demo_work S R sc wd admin w of
     None \<Rightarrow> True
   | Some (Inl f, w') \<Rightarrow> True
   | Some (Inr (wd', x, counts, settled), w') \<Rightarrow>
       sx_mismatches x = 0 \<and> exit_code x = (if sx_double_blocked x = sx_double_attempts x then 0 else 1) \<and>
       disputed (wire_db w') = 0"
  using demo_work_ensures [of S R sc wd admin w] by (auto simp: ensures_def exit_code_def split: option.splits sum.splits)

end
