(* ===== verification/WorldFacts.thy ===== *)
theory WorldFacts
  imports Demo
begin

text \<open>
  What the world of \<open>sim/world.py\<close> promises the service. A generator behaves as \<open>random_ok\<close> says; a predicate on
  what a drawing returns is carried through the code by \<open>pred_state\<close>, with one rule per way of drawing.
\<close>

section \<open>Drawing\<close>

lemma pred_state_iff: "pred_state P m \<longleftrightarrow> (\<forall>g. P (fst (run_state m g)))"
proof
  show "pred_state P m \<Longrightarrow> \<forall>g. P (fst (run_state m g))" by (blast intro: pred_state_run_state)
  assume all: "\<forall>g. P (fst (run_state m g))"
  show "pred_state P m"
  proof (rule pred_stateI)
    fix a g g' assume "run_state m g = (a, g')"
    then show "P a" using all [THEN spec, of g] by simp
  qed
qed

lemma pred_mono: "pred_state P m \<Longrightarrow> (\<And>x. P x \<Longrightarrow> Q x) \<Longrightarrow> pred_state Q m"
  by (simp add: pred_state_iff)

lemma pred_return: "P x \<Longrightarrow> pred_state P (State_Monad.return x)"
  by (simp add: pred_state_iff)

lemma pred_bind:
  assumes "pred_state Q m" "\<And>x. Q x \<Longrightarrow> pred_state P (f x)"
  shows "pred_state P (State_Monad.bind m f)"
  by (rule bind_predI) (rule pred_mono [OF assms])

lemma pred_traverse:
  "(\<And>x. x \<in> set xs \<Longrightarrow> pred_state (P x) (f x)) \<Longrightarrow> pred_state (list_all2 P xs) (State_Monad.traverse_list f xs)"
proof (induction xs)
  case Nil
  show ?case by (simp add: pred_return)
next
  case (Cons x xs)
  have tail: "pred_state (list_all2 P xs) (State_Monad.traverse_list f xs)" by (rule Cons.IH) (simp add: Cons.prems)
  show ?case unfolding State_Monad.traverse_list.simps
  proof (rule pred_bind)
    show "pred_state (P x) (f x)" by (rule Cons.prems) simp
    fix y assume "P x y"
    then show "pred_state (list_all2 P (x # xs)) (State_Monad.bind (State_Monad.traverse_list f xs) (\<lambda>ys. State_Monad.return (y # ys)))"
      by (intro pred_bind [OF tail] pred_return) simp
  qed
qed

lemma pred_choice:
  assumes "random_ok R" "xs \<noteq> []"
  shows "pred_state (\<lambda>x. x \<in> set xs) (choice R xs)"
  unfolding choice_def
proof (rule pred_bind)
  show "pred_state (\<lambda>i. i < length xs) (State (below R (length xs)))"
    using assms by (simp add: pred_state_iff random_ok_def)
  show "i < length xs \<Longrightarrow> pred_state (\<lambda>x. x \<in> set xs) (State_Monad.return (xs ! i))" for i
    by (rule pred_return) simp
qed

lemma pred_randint:
  assumes "random_ok R" "a \<le> b"
  shows "pred_state (\<lambda>v. a \<le> v \<and> v \<le> b) (randint R a b)"
  unfolding randint_def
proof (rule pred_bind)
  show "pred_state (\<lambda>i. i < nat (b - a + 1)) (State (below R (nat (b - a + 1))))"
    using assms by (simp add: pred_state_iff random_ok_def)
  show "i < nat (b - a + 1) \<Longrightarrow> pred_state (\<lambda>v. a \<le> v \<and> v \<le> b) (State_Monad.return (a + int i))" for i
    by (rule pred_return) simp
qed

lemma pred_sample:
  assumes "random_ok R" "k \<le> length xs" "distinct xs"
  shows "pred_state (\<lambda>ys. length ys = k \<and> set ys \<subseteq> set xs \<and> distinct ys) (sample R xs k)"
  unfolding sample_def
proof (rule pred_bind)
  show "pred_state (\<lambda>is. distinct is \<and> length is = k \<and> set is \<subseteq> {..<length xs}) (State (sampled R (length xs) k))"
    using assms(1,2) by (simp add: pred_state_iff random_ok_def)
  fix "is" assume i: "distinct is \<and> length is = k \<and> set is \<subseteq> {..<length xs}"
  have "inj_on ((!) xs) (set is)" by (rule inj_on_nth [OF assms(3)]) (use i in auto)
  then show "pred_state (\<lambda>ys. length ys = k \<and> set ys \<subseteq> set xs \<and> distinct ys) (State_Monad.return (map ((!) xs) is))"
    using i by (intro pred_return) (auto simp: distinct_map)
qed

lemma pred_shuffle:
  assumes "random_ok R"
  shows "pred_state (\<lambda>ys. mset ys = mset xs) (shuffle R xs)"
  unfolding shuffle_def
proof (rule pred_bind)
  show "pred_state (\<lambda>is. mset is = mset [0..<length xs]) (State (shuffled R (length xs)))"
    using assms by (simp add: pred_state_iff random_ok_def)
  fix "is" assume "mset is = mset [0..<length xs]"
  then have "mset (map ((!) xs) is) = mset (map ((!) xs) [0..<length xs])" by simp
  then show "pred_state (\<lambda>ys. mset ys = mset xs) (State_Monad.return (map ((!) xs) is))"
    by (intro pred_return) (simp add: map_nth)
qed

section \<open>The world\<close>

definition whole :: "rat \<Rightarrow> bool" where
  "whole v \<longleftrightarrow> of_int \<lfloor>v\<rfloor> = v"

lemma whole_iff [simp]: "whole v \<longleftrightarrow> v \<in> \<int>"
  by (metis Ints_cases Ints_of_int floor_of_int whole_def)

definition scored :: "rat \<Rightarrow> rat \<Rightarrow> (string \<times> rat) list \<Rightarrow> bool" where
  "scored lo hi sc \<longleftrightarrow> map fst sc = CRITERIA \<and> (\<forall>(c, v) \<in> set sc. lo \<le> v \<and> v \<le> hi \<and> whole v)"

text \<open>A task of the world: whole reference scores within two and five, a payload its creation accepts, golden
  exactly when it carries the reference scores as the expected ones.\<close>

definition fine_task :: "sim_task \<Rightarrow> bool" where
  "fine_task t \<longleftrightarrow> (let p = st_payload t in scored 2 5 (st_true_scores t) \<and> pl_responses p \<noteq> [] \<and>
     pl_required_tags p \<noteq> [] \<and> set (pl_required_tags p) \<subseteq> set TAGS \<and> pl_required_grades p \<in> {1, 2} \<and>
     (if pl_is_attention_check p then pl_required_grades p = 1 \<and> pl_expected_scores p = Some (st_true_scores t)
      else pl_expected_scores p = None))"

lemma traverse_scores:
  assumes "\<And>c. c \<in> set cs \<Longrightarrow> pred_state (\<lambda>(c', v). c' = c \<and> lo \<le> v \<and> v \<le> hi \<and> v \<in> \<int>) (f c)"
  shows "pred_state (\<lambda>sc. map fst sc = cs \<and> (\<forall>(c, v) \<in> set sc. lo \<le> v \<and> v \<le> (hi :: rat) \<and> v \<in> \<int>)) (State_Monad.traverse_list f cs)"
proof (rule pred_mono [OF pred_traverse [where P = "\<lambda>c (c', v). c' = c \<and> lo \<le> v \<and> v \<le> hi \<and> v \<in> \<int>"]])
  show "c \<in> set cs \<Longrightarrow> pred_state (\<lambda>(c', v). c' = c \<and> lo \<le> v \<and> v \<le> hi \<and> v \<in> \<int>) (f c)" for c by (rule assms)
  show "list_all2 (\<lambda>c (c', v). c' = c \<and> lo \<le> v \<and> v \<le> hi \<and> v \<in> \<int>) cs sc \<Longrightarrow>
      map fst sc = cs \<and> (\<forall>(c, v) \<in> set sc. lo \<le> v \<and> v \<le> hi \<and> v \<in> \<int>)" for sc
    by (induction rule: list_all2_induct) auto
qed

lemma pred_make_expert:
  assumes "random_ok R"
  shows "pred_state (\<lambda>e. se_name e = ''expert-'' @ zero_padded 2 (i + 1) \<and> se_tags e \<noteq> [] \<and> distinct (se_tags e) \<and>
    set (se_tags e) \<subseteq> set TAGS \<and> \<not> se_careless e) (make_expert R i)"
  unfolding make_expert_def
proof (rule pred_bind [OF pred_choice [OF assms]])
  fix k assume "k \<in> set [1, 2, 2, 3 :: nat]"
  then have k: "1 \<le> k" "k \<le> length TAGS" "distinct TAGS" by (auto simp: TAGS_def)
  show "pred_state (\<lambda>e. se_name e = ''expert-'' @ zero_padded 2 (i + 1) \<and> se_tags e \<noteq> [] \<and> distinct (se_tags e) \<and>
      set (se_tags e) \<subseteq> set TAGS \<and> \<not> se_careless e)
    (do { tags \<leftarrow> sample R TAGS k; tr \<leftarrow> choice R TIERS;
      State_Monad.return \<lparr>se_name = ''expert-'' @ zero_padded 2 (i + 1), se_tags = tags, se_tier = tr, se_careless = False,
       se_abandons_first = False, se_id = 0, se_key = [], se_served = 0, se_graded = 0, se_paused = False\<rparr> })"
    using k by (intro pred_bind [OF pred_sample [OF assms k(2,3)]] pred_bind [OF pred_choice [OF assms]] pred_return)
      (auto simp: TIERS_def)
qed simp

lemma pred_make_task:
  assumes "random_ok R"
  shows "pred_state (\<lambda>t. fine_task t \<and> pl_is_attention_check (st_payload t) = (i < n)) (make_task R now n i)"
  unfolding make_task_def Let_def
proof (rule pred_bind [OF pred_choice [OF assms]])
  fix k assume "k \<in> set [1, 1, 2 :: nat]"
  then have k: "1 \<le> k" "k \<le> length TAGS" "distinct TAGS" by (auto simp: TAGS_def)
  have scores: "pred_state (scored 2 5) (State_Monad.traverse_list (\<lambda>c. do {
       v \<leftarrow> choice R [2, 3, 3, 4, 4, 4, 5, 5]; State_Monad.return (c, v) }) CRITERIA)"
    unfolding scored_def whole_iff
    by (rule traverse_scores) (intro pred_bind [OF pred_choice [OF assms]] pred_return, auto)
  have responses: "pred_state (\<lambda>rs. rs \<noteq> []) (State_Monad.traverse_list (make_response R i) [0..<if ty = ''pairwise'' then 2 else 1])" for ty
    by (rule pred_mono [OF pred_traverse [where P = "\<lambda>_ _. True"]]) (auto simp: pred_state_iff split: if_splits)
  have required: "pred_state (\<lambda>n. n \<in> {1, 2} \<and> (g \<longrightarrow> n = 1)) (if g then State_Monad.return 1 else choice R (replicate 5 1 @ [2 :: int]))" for g
  proof (cases g)
    case False
    have "pred_state (\<lambda>n. n \<in> {1, 2}) (choice R (replicate 5 1 @ [2 :: int]))"
      by (rule pred_mono [OF pred_choice [OF assms]]) auto
    with False show ?thesis by simp
  qed (simp add: pred_return)
  show "pred_state (\<lambda>t. fine_task t \<and> pl_is_attention_check (st_payload t) = (i < n)) (do {
     tags \<leftarrow> sample R TAGS k;
     task_type \<leftarrow> choice R TASK_TYPES;
     true_scores \<leftarrow> State_Monad.traverse_list (\<lambda>c. do {
       v \<leftarrow> choice R [2, 3, 3, 4, 4, 4, 5, 5]; State_Monad.return (c, v) }) CRITERIA;
     responses \<leftarrow> State_Monad.traverse_list (make_response R i) [0..<if task_type = ''pairwise'' then 2 else 1];
     min_tier \<leftarrow> choice R (replicate 5 Junior @ [Senior]);
     priority \<leftarrow> choice R [0, 0, 1, 2, 3];
     deadline \<leftarrow> randint R 6 168;
     required \<leftarrow> (if i < n then State_Monad.return 1 else choice R (replicate 5 1 @ [2]));
     State_Monad.return \<lparr>st_payload = \<lparr>pl_external_ref = ''sim-'' @ zero_padded 4 (i + 1),
         pl_prompt = the (map_of PROMPTS (hd tags)), pl_responses = responses, pl_required_tags = tags,
         pl_task_type = task_type, pl_min_tier = min_tier, pl_priority = priority,
         pl_deadline = now + seconds (3600 * deadline), pl_required_grades = required,
         pl_is_attention_check = (i < n), pl_expected_scores = (if i < n then Some true_scores else None)\<rparr>,
       st_true_scores = true_scores, st_id = 0\<rparr> })"
    using k
    by (intro pred_bind [OF pred_sample [OF assms k(2,3)]] pred_bind [OF pred_choice [OF assms]] pred_bind [OF scores]
        pred_bind [OF responses] pred_bind [OF required] pred_bind [OF pred_randint [OF assms]] pred_return)
      (auto simp: TASK_TYPES_def fine_task_def Let_def)
qed simp

lemma fine_task_creatable:
  assumes "fine_task t"
  shows "task_create_ok (with_rubric rid (st_payload t))"
proof -
  have "pl_required_grades (st_payload t) = 1 \<or> pl_required_grades (st_payload t) = 2"
    using assms by (auto simp: fine_task_def Let_def)
  then have "1 \<le> pl_required_grades (st_payload t)" "pl_required_grades (st_payload t) \<le> 5" by linarith+
  with assms show ?thesis
    by (auto simp: task_create_ok_def sized_def with_rubric_def fine_task_def Let_def split: if_splits)
qed

lemma scored_cases:
  assumes "scored lo hi sc"
  obtains a b c d where "sc = [(''accuracy'', a), (''completeness'', b), (''clarity'', c), (''safety'', d)]"
    "\<forall>x \<in> {a, b, c, d}. lo \<le> x \<and> x \<le> hi \<and> x \<in> \<int>"
proof -
  have "map fst sc = [''accuracy'', ''completeness'', ''clarity'', ''safety'']"
    using assms by (simp add: scored_def CRITERIA_def RUBRIC_def plain_criterion_def)
  then obtain p1 p2 p3 p4 where sc: "sc = [p1, p2, p3, p4]" "fst p1 = ''accuracy''" "fst p2 = ''completeness''"
      "fst p3 = ''clarity''" "fst p4 = ''safety''"
    by (auto simp: map_eq_Cons_conv)
  show thesis
    by (rule that [of "snd p1" "snd p2" "snd p3" "snd p4"])
      (use assms sc in \<open>auto simp: scored_def prod_eq_iff split: prod.splits\<close>)
qed

text \<open>The weights and whole scores are floats whose products and sums lose nothing; only the division rounds.\<close>

lemma weights_sum: "py_sum [2, 3 / 2, 1, 1] = 11 / 2"
  using py_sum_halves [of "[4, 3, 2, 2]"] by simp

lemma weighted_points:
  assumes "x \<in> \<int>" "0 \<le> x" "x \<le> 5"
  shows "fl (x * 2) = x * 2" "fl (x * 3 / 2) = x * 3 / 2" "fl x = x"
proof -
  obtain n where x: "x = of_int n" using assms(1) by (rule Ints_cases)
  have n: "0 \<le> n" "n \<le> 5" using assms(2,3) by (simp_all add: x)
  show "fl (x * 2) = x * 2" using fl_half [OF halfI [of "4 * n"]] n by (simp add: x mult.commute)
  show "fl (x * 3 / 2) = x * 3 / 2" using fl_half [OF halfI [of "3 * n"]] n by (simp add: x mult.commute)
  show "fl x = x" using fl_half [OF halfI [of "2 * n"]] n by (simp add: x)
qed

lemma points_sum:
  assumes "\<forall>x \<in> {a, b, c, d}. 0 \<le> x \<and> x \<le> 5 \<and> x \<in> \<int>"
  shows "py_sum [fl (a * 2), fl (b * 3 / 2), fl c, fl d] = (4 * a + 3 * b + 2 * c + 2 * d) / 2"
proof -
  obtain i j k l where x: "a = of_int i" "b = of_int j" "c = of_int k" "d = of_int l"
    using assms by (auto elim!: Ints_cases)
  have "py_sum (map (\<lambda>n. of_int n / 2) [4 * i, 3 * j, 2 * k, 2 * l]) = of_int (sum_list [4 * i, 3 * j, 2 * k, 2 * l]) / 2"
    by (rule py_sum_halves) (use assms in \<open>simp_all add: x\<close>)
  moreover have exact: "fl (a * 2) = a * 2" "fl (b * 3 / 2) = b * 3 / 2" "fl c = c" "fl d = d" using assms by (simp_all add: weighted_points)
  ultimately show ?thesis unfolding exact by (simp add: x mult.commute add.assoc)
qed

lemma weighted_scored:
  assumes "\<forall>x \<in> {a, b, c, d}. 0 \<le> x \<and> x \<le> 5 \<and> x \<in> \<int>"
  shows "weighted [(''accuracy'', a), (''completeness'', b), (''clarity'', c), (''safety'', d)] =
     Some (fl ((4 * a + 3 * b + 2 * c + 2 * d) / 11))"
  using points_sum [OF assms] by (simp add: weighted_def CRITERIA_def WEIGHTS_def RUBRIC_def plain_criterion_def weights_sum)

text \<open>A rubric created from the body of the world.\<close>

definition world_rubric :: "rubric \<Rightarrow> bool" where
  "world_rubric r \<longleftrightarrow> (\<exists>ids. length ids = 4 \<and> r_criteria r = criteria_rows ids (bc_criteria RUBRIC))"

lemma world_rubric_criteria:
  assumes "world_rubric r"
  obtains i j k l where "r_criteria r =
    [criterion_row i 0 (plain_criterion ''accuracy'' ''Factual accuracy'' 2),
     criterion_row j 1 (plain_criterion ''completeness'' ''Completeness'' (3 / 2)),
     criterion_row k 2 (plain_criterion ''clarity'' ''Clarity'' 1),
     criterion_row l 3 (plain_criterion ''safety'' ''Safety and policy'' 1)]"
proof -
  obtain ids where ids: "length ids = 4" "r_criteria r = criteria_rows ids (bc_criteria RUBRIC)"
    using assms by (auto simp: world_rubric_def)
  then obtain i j k l where "ids = [i, j, k, l]"
    by (auto simp: length_Suc_conv numeral_eq_Suc)
  with ids(2) show thesis by (intro that [of i j k l]) (simp add: criteria_rows_def RUBRIC_def upt_rec numeral_eq_Suc)
qed

lemma world_scores:
  assumes "world_rubric r" "scored 1 5 sc"
  shows "check_scores r sc = None" "weighted sc = Some (weighted_score r sc)" "distinct (map fst sc)"
proof -
  obtain i j k l where r: "r_criteria r =
    [criterion_row i 0 (plain_criterion ''accuracy'' ''Factual accuracy'' 2),
     criterion_row j 1 (plain_criterion ''completeness'' ''Completeness'' (3 / 2)),
     criterion_row k 2 (plain_criterion ''clarity'' ''Clarity'' 1),
     criterion_row l 3 (plain_criterion ''safety'' ''Safety and policy'' 1)]"
    using assms(1) by (rule world_rubric_criteria)
  obtain a b c d where sc: "sc = [(''accuracy'', a), (''completeness'', b), (''clarity'', c), (''safety'', d)]"
      "\<forall>x \<in> {a, b, c, d}. 1 \<le> x \<and> x \<le> 5 \<and> x \<in> \<int>"
    using assms(2) by (rule scored_cases)
  then have small: "\<forall>x \<in> {a, b, c, d}. 0 \<le> x \<and> x \<le> 5 \<and> x \<in> \<int>" by auto
  show "check_scores r sc = None" unfolding check_scores_None
    using sc(2) by (auto simp: sc(1) r criterion_row_def plain_criterion_def within_scale_def by_key_def)
  show "weighted sc = Some (weighted_score r sc)" unfolding sc(1) weighted_scored [OF small]
    using points_sum [OF small]
    by (simp add: weighted_score_def r criterion_row_def plain_criterion_def snapshot_get_def weights_sum Let_def)
  show "distinct (map fst sc)" by (simp add: sc(1))
qed

text \<open>Weighted scores of careful grades differ from the reference by one point and the rounding of two divisions.\<close>

definition near_scores :: "rat option \<Rightarrow> rat option \<Rightarrow> bool" where
  "near_scores a b \<longleftrightarrow> (case (a, b) of (Some x, Some y) \<Rightarrow> \<bar>x - y\<bar> \<le> 1 + 1 / 2 ^ 49 | _ \<Rightarrow> False)"

lemma quotients_near:
  assumes "\<bar>x - y\<bar> \<le> 1" "1 \<le> x" "x \<le> 5" "1 \<le> y" "y \<le> 5"
  shows "\<bar>fl x - fl y\<bar> \<le> 1 + 1 / 2 ^ 49"
proof -
  have off: "\<bar>fl z - z\<bar> \<le> 5 / 2 ^ 53" if "1 \<le> z" "z \<le> 5" for z
  proof -
    have "2 powi (- 1022) \<le> (2 :: rat) powi 0" by (rule powi_mono) simp
    then have "\<bar>fl z - z\<bar> \<le> \<bar>z\<bar> / 2 ^ 53" using that by (intro fl_error) simp
    also have "\<dots> \<le> 5 / 2 ^ 53" using that by (intro divide_right_mono) simp_all
    finally show ?thesis .
  qed
  have "\<bar>fl x - fl y\<bar> \<le> \<bar>x - y\<bar> + 5 / 2 ^ 53 + 5 / 2 ^ 53" using off [OF assms(2,3)] off [OF assms(4,5)] by linarith
  also have "\<dots> \<le> 1 + 1 / 2 ^ 49" using assms(1) by simp
  finally show ?thesis .
qed

lemma near_approved:
  assumes "\<bar>x - y\<bar> \<le> 1 + 1 / 2 ^ 49"
  shows "float_distance x y \<le> 3 / 2"
proof -
  have "(1 :: rat) + 1 / 2 ^ 49 \<le> 2" by simp
  then have "\<bar>x - y\<bar> \<le> 2" using assms by linarith
  then have "\<bar>fl (x - y)\<bar> \<le> \<bar>x - y\<bar> + 1 / 2 ^ 52" using fl_near [of "x - y"] by linarith
  also have "\<dots> \<le> 1 + 1 / 2 ^ 49 + 1 / 2 ^ 52" using assms by simp
  also have "\<dots> \<le> 3 / 2" by simp
  finally show ?thesis by (simp add: float_distance_def)
qed

lemma careful_close:
  assumes "scored 2 5 truth" "list_all2 (\<lambda>(c, x) (c', y). c' = c \<and> \<bar>y - x\<bar> \<le> 1 \<and> 1 \<le> y \<and> y \<le> 5 \<and> y \<in> \<int>) truth sc"
  shows "scored 1 5 sc" "max_of (deviations sc truth) \<le> 1"
    "near_scores (weighted sc) (weighted truth)"
proof -
  obtain a b c d where t: "truth = [(''accuracy'', a), (''completeness'', b), (''clarity'', c), (''safety'', d)]"
      and t_range: "\<forall>x \<in> {a, b, c, d}. 2 \<le> x \<and> x \<le> 5 \<and> x \<in> \<int>"
    using assms(1) by (rule scored_cases)
  obtain a' b' c' d' where s: "sc = [(''accuracy'', a'), (''completeness'', b'), (''clarity'', c'), (''safety'', d')]"
      and near: "\<bar>a' - a\<bar> \<le> 1" "\<bar>b' - b\<bar> \<le> 1" "\<bar>c' - c\<bar> \<le> 1" "\<bar>d' - d\<bar> \<le> 1"
      and range: "\<forall>x \<in> {a', b', c', d'}. 1 \<le> x \<and> x \<le> 5 \<and> x \<in> \<int>"
    using assms(2) unfolding t by (auto simp: list_all2_Cons1)
  show "scored 1 5 sc" using range by (auto simp: scored_def s CRITERIA_def RUBRIC_def plain_criterion_def)
  show "max_of (deviations sc truth) \<le> 1"
    by (subst max_of_le) (use near in \<open>auto simp: deviations_def s t snapshot_get_def\<close>)
  let ?u = "(4 * a' + 3 * b' + 2 * c' + 2 * d') / 11" and ?v = "(4 * a + 3 * b + 2 * c + 2 * d) / 11"
  have "\<bar>?u - ?v\<bar> \<le> 1"
  proof (rule abs_leI)
    have up: "a' - a \<le> 1" "b' - b \<le> 1" "c' - c \<le> 1" "d' - d \<le> 1" using near by (simp_all add: abs_le_iff)
    have down: "a - a' \<le> 1" "b - b' \<le> 1" "c - c' \<le> 1" "d - d' \<le> 1" using near by (simp_all add: abs_le_iff)
    show "?u - ?v \<le> 1" unfolding diff_divide_distrib [symmetric] using up by (simp add: field_simps)
    show "- (?u - ?v) \<le> 1" unfolding diff_divide_distrib [symmetric] using down by (simp add: field_simps)
  qed
  moreover have "1 \<le> ?u" "?u \<le> 5" "1 \<le> ?v" "?v \<le> 5" using range t_range by (simp_all add: field_simps)
  ultimately have "\<bar>fl ?u - fl ?v\<bar> \<le> 1 + 1 / 2 ^ 49" by (rule quotients_near)
  moreover have "\<forall>x \<in> {a', b', c', d'}. 0 \<le> x \<and> x \<le> 5 \<and> x \<in> \<int>" "\<forall>x \<in> {a, b, c, d}. 0 \<le> x \<and> x \<le> 5 \<and> x \<in> \<int>"
    using range t_range by auto
  ultimately show "near_scores (weighted sc) (weighted truth)" unfolding s t by (simp only: weighted_scored near_scores_def prod.case option.case)
qed

lemma pred_grade_for:
  assumes "random_ok R" "fine_task t"
  shows "pred_state (\<lambda>sg. scored 1 5 (sg_scores sg) \<and> sg_rationale sg \<noteq> [] \<and> 0 \<le> sg_time_spent_seconds sg \<and>
    (\<not> se_careless e \<longrightarrow> max_of (deviations (sg_scores sg) (st_true_scores t)) \<le> 1 \<and>
      near_scores (weighted (sg_scores sg)) (weighted (st_true_scores t)))) (grade_for R e t)"
proof (cases "se_careless e")
  case True
  have "pred_state (scored 1 5) (State_Monad.traverse_list (\<lambda>c. do { v \<leftarrow> randint R 1 5; State_Monad.return (c, of_int v) }) CRITERIA)"
    unfolding scored_def whole_iff
    by (rule traverse_scores) (intro pred_bind [OF pred_randint [OF assms(1)]] pred_return, auto)
  then show ?thesis unfolding grade_for_def if_P [OF True]
    by (rule pred_bind) (intro pred_bind [OF pred_randint [OF assms(1)]] pred_return, auto simp: True)
next
  case False
  have truth: "scored 2 5 (st_true_scores t)" using assms(2) by (simp add: fine_task_def Let_def)
  have near: "pred_state (\<lambda>(c', y). c' = fst p \<and> \<bar>y - snd p\<bar> \<le> 1 \<and> 1 \<le> y \<and> y \<le> 5 \<and> y \<in> \<int>)
      ((\<lambda>(c, truth). do { noise \<leftarrow> choice R [0, 0, 0, 0, 1, - 1]; State_Monad.return (c, max 1 (min 5 (truth + noise))) }) p)"
    if "p \<in> set (st_true_scores t)" for p
  proof -
    have "2 \<le> snd p" "snd p \<le> 5" "snd p \<in> \<int>" using truth that by (auto simp: scored_def)
    then show ?thesis
      by (cases p) (auto intro!: pred_bind [OF pred_choice [OF assms(1)]] pred_return simp: min_def max_def)
  qed
  have "pred_state (list_all2 (\<lambda>(c, x) (c', y). c' = c \<and> \<bar>y - x\<bar> \<le> 1 \<and> 1 \<le> y \<and> y \<le> 5 \<and> y \<in> \<int>) (st_true_scores t))
      (State_Monad.traverse_list (\<lambda>(c, truth). do {
         noise \<leftarrow> choice R [0, 0, 0, 0, 1, - 1];
         State_Monad.return (c, max 1 (min 5 (truth + noise))) }) (st_true_scores t))"
    by (rule pred_traverse) (use near in \<open>simp add: case_prod_beta\<close>)
  then show ?thesis unfolding grade_for_def if_not_P [OF False]
    by (rule pred_bind)
      (intro pred_bind [OF pred_choice [OF assms(1)]] pred_bind [OF pred_randint [OF assms(1)]] pred_return,
        auto simp: RATIONALES_def careful_close [OF truth])
qed

lemma mark_experts_Some:
  assumes "30 \<le> length es"
  obtains es' where "mark_experts es = Some es'" "length es' = length es" "map se_tags es' = map se_tags es" "map se_name es' = map se_name es"
    "\<And>i. i < length es \<Longrightarrow> se_careless (es' ! i) \<longleftrightarrow> se_careless (es ! i) \<or> i \<in> {3, 17}"
proof -
  obtain es' where e: "mark_experts es = Some es'" using assms by (auto simp: mark_experts_def)
  then have es': "es' = (es[3 := (es ! 3)\<lparr>se_careless := True\<rparr>, 17 := (es ! 17)\<lparr>se_careless := True\<rparr>,
      7 := (es ! 7)\<lparr>se_abandons_first := True\<rparr>, 29 := (es ! 29)\<lparr>se_abandons_first := True\<rparr>])"
    using assms by (simp add: mark_experts_def Let_def)
  have keeps: "map f es' = map f es" if "\<And>x. f (x\<lparr>se_careless := True\<rparr>) = f x" "\<And>x. f (x\<lparr>se_abandons_first := True\<rparr>) = f x" for f :: "sim_expert \<Rightarrow> 'b"
    unfolding es' using assms by (intro nth_equalityI) (simp_all add: nth_list_update that)
  have marked: "se_careless (es' ! i) \<longleftrightarrow> se_careless (es ! i) \<or> i \<in> {3, 17}" if "i < length es" for i
    unfolding es' using assms that by (simp add: nth_list_update)
  have "length es' = length es" unfolding es' by simp
  then show thesis by (rule that [OF e]) (auto simp: keeps marked)
qed

text \<open>
  C39: with at least 30 experts and one to 2000 tasks, the world builds and the service accepts it whole. It has the
  asked counts, its careless experts are the fourth and the eighteenth, every expert has tags of the fixed set, the
  golden tasks are the rounded share of the tasks, each golden task carries its reference scores as the expected ones
  and asks for one grade, and both the bulk creation of the tasks and the creation of the rubric pass validation.
\<close>

theorem world_is_servable:
  assumes "random_ok R" "30 \<le> n_experts" "1 \<le> n_tasks" "n_tasks \<le> 2000"
  shows "\<exists>w. build_world R now sd n_experts n_tasks golden_share = Some w \<and>
    length (w_experts w) = nat n_experts \<and> length (w_tasks w) = nat n_tasks \<and>
    {i. i < length (w_experts w) \<and> se_careless (w_experts w ! i)} = {3, 17} \<and>
    (\<forall>e \<in> set (w_experts w). se_tags e \<noteq> [] \<and> set (se_tags e) \<subseteq> set TAGS) \<and>
    length (filter (\<lambda>t. pl_is_attention_check (st_payload t)) (w_tasks w)) =
      min (nat n_tasks) (nat (py_round (of_int n_tasks * golden_share))) \<and>
    (\<forall>t \<in> set (w_tasks w). fine_task t) \<and>
    task_bulk_ok (map (\<lambda>t. with_rubric rid (st_payload t)) (w_tasks w)) \<and> rubric_create_ok RUBRIC"
proof -
  obtain es g where es: "run_state (State_Monad.traverse_list (make_expert R) [0..<nat n_experts]) (of_seed R sd) = (es, g)"
    by fastforce
  let ?fine = "\<lambda>i e. se_name e = ''expert-'' @ zero_padded 2 (i + 1) \<and> se_tags e \<noteq> [] \<and> distinct (se_tags e) \<and>
      set (se_tags e) \<subseteq> set TAGS \<and> \<not> se_careless e"
  have "pred_state (list_all2 ?fine [0..<nat n_experts]) (State_Monad.traverse_list (make_expert R) [0..<nat n_experts])"
    by (rule pred_traverse) (rule pred_make_expert [OF assms(1)])
  then have fine: "list_all2 ?fine [0..<nat n_experts] es" using es by (auto dest: pred_stateD)
  then have len: "length es = nat n_experts" and each: "\<And>i. i < length es \<Longrightarrow> ?fine i (es ! i)"
    by (auto simp: list_all2_conv_all_nth)
  obtain es' where es': "mark_experts es = Some es'" "length es' = length es" "map se_tags es' = map se_tags es"
      "\<And>i. i < length es \<Longrightarrow> se_careless (es' ! i) \<longleftrightarrow> se_careless (es ! i) \<or> i \<in> {3, 17}"
    by (rule mark_experts_Some [of es]) (use len assms(2) in auto)
  let ?n = "nat (py_round (of_int n_tasks * golden_share))"
  let ?ok = "\<lambda>i t. fine_task t \<and> pl_is_attention_check (st_payload t) = (i < ?n)"
  let ?m = "do { ts \<leftarrow> State_Monad.traverse_list (make_task R now ?n) [0..<nat n_tasks]; shuffle R ts }"
  obtain ts g' where ts: "run_state ?m g = (ts, g')" by fastforce
  have "pred_state (\<lambda>ts. \<exists>us. list_all2 ?ok [0..<nat n_tasks] us \<and> mset ts = mset us) ?m"
    by (rule pred_bind [OF pred_traverse [where P = ?ok]], rule pred_make_task [OF assms(1)])
      (rule pred_mono [OF pred_shuffle [OF assms(1)]], blast)
  then obtain us where us: "list_all2 ?ok [0..<nat n_tasks] us" "mset ts = mset us" using ts by (auto dest: pred_stateD)
  have count: "length (filter (\<lambda>t. pl_is_attention_check (st_payload t)) ts) = min (nat n_tasks) ?n"
  proof -
    have "length (filter (\<lambda>t. pl_is_attention_check (st_payload t)) us) = length (filter (\<lambda>i. i < ?n) [0..<nat n_tasks])"
      using us(1) by (induction rule: list_all2_induct) auto
    moreover have "length (filter (\<lambda>i. i < ?n) [0..<k]) = min k ?n" for k by (induction k) auto
    moreover have "mset (filter p ts) = mset (filter p us)" for p using us(2) by simp
    ultimately show ?thesis by (metis size_mset)
  qed
  have fine': "fine_task t" if "t \<in> set ts" for t
    using us that by (metis (no_types, lifting) list_all2_conv_all_nth in_set_conv_nth mset_eq_setD)
  have len': "length ts = nat n_tasks" using us list_all2_lengthD mset_eq_length by fastforce
  let ?w = "\<lparr>w_seed = sd, w_experts = es', w_tasks = ts\<rparr>"
  have "build_world R now sd n_experts n_tasks golden_share = Some ?w"
    unfolding build_world_def es using es'(1) ts by (simp add: Let_def del: run_state_bind)
  moreover have "{i. i < length es' \<and> se_careless (es' ! i)} = {3, 17}"
    using es'(2,4) each len assms(2) by auto
  moreover have "se_tags e \<noteq> [] \<and> set (se_tags e) \<subseteq> set TAGS" if "e \<in> set es'" for e
  proof -
    have "se_tags e \<in> set (map se_tags es)" using that by (simp flip: es'(3))
    then obtain i where "i < length es" "se_tags e = se_tags (es ! i)" by (auto simp: in_set_conv_nth)
    then show ?thesis using each by simp
  qed
  moreover have "task_bulk_ok (map (\<lambda>t. with_rubric rid (st_payload t)) ts)"
    using len' assms(3,4) by (auto simp: task_bulk_ok_def sized_def list_all_iff fine_task_creatable fine')
  moreover have "rubric_create_ok RUBRIC"
    by (simp add: rubric_create_ok_def RUBRIC_def plain_criterion_def criterion_in_ok_def sized_def)
  moreover have "length es' = nat n_experts" using len es'(2) by simp
  ultimately show ?thesis using len' count fine' by (intro exI [of _ ?w] conjI ballI) simp_all
qed

definition sample_random :: "nat random" where
  "sample_random = \<lparr>of_seed = nat, of_text = length, below = (\<lambda>n g. (g mod n, Suc g)),
     sampled = (\<lambda>n k g. ([0..<k], Suc g)), shuffled = (\<lambda>n g. (rev [0..<n], Suc g))\<rparr>"

lemma sample_random_ok: "random_ok sample_random"
  by (auto simp: random_ok_def sample_random_def)

theorem world_is_servable_witness:
  "\<exists>w. build_world sample_random 0 7 50 500 (1 / 20) = Some w \<and> length (w_tasks w) = 500 \<and>
     length (filter (\<lambda>t. pl_is_attention_check (st_payload t)) (w_tasks w)) = 25"
proof -
  have "py_round (25 :: rat) = 25" by (simp add: py_round_def)
  then show ?thesis
    using world_is_servable [OF sample_random_ok, of 50 500 0 7 "1 / 20" 1] by auto
qed

text \<open>
  C40: every grade the world makes fits the service. Its body passes validation, the scores pass \<open>_check_scores\<close> on a
  rubric created from \<open>RUBRIC\<close>, and \<open>weighted\<close> is, to the last bit, the weighted score the service stores. A grade of an
  expert who is not careless is within one point of the reference on every criterion, so it passes the golden check under
  a tolerance of at least one; the two weighted scores, each rounded by a division, are within a point and
  \<open>2 ^ - 49\<close>, so the spot check of the demonstration approves it.
\<close>

theorem world_grades_fit:
  assumes "random_ok R" "fine_task t" "world_rubric r" "sg = fst (run_state (grade_for R e t) gen)"
  shows "grade_create_ok \<lparr>gc_task_id = tid, gc_rubric_id = rid, gc_scores = sg_scores sg, gc_rationale = sg_rationale sg,
      gc_time_spent_seconds = sg_time_spent_seconds sg\<rparr> \<and>
    check_scores r (sg_scores sg) = None \<and> weighted (sg_scores sg) = Some (weighted_score r (sg_scores sg)) \<and>
    (\<not> se_careless e \<longrightarrow> max_of (deviations (sg_scores sg) (st_true_scores t)) \<le> 1 \<and>
      \<bar>weighted_score r (sg_scores sg) - weighted_score r (st_true_scores t)\<bar> \<le> 1 + 1 / 2 ^ 49 \<and>
      (\<forall>go truth. go_weighted_score go = weighted_score r (sg_scores sg) \<and> weighted (st_true_scores t) = Some truth \<longrightarrow>
         rb_decision (spot_check go truth) = Approve) \<and>
      (\<forall>E tk g s a s'. 1 \<le> attention_tolerance (cfg E) \<and> t_expected_scores tk = Some (st_true_scores t) \<and>
         g_scores_snapshot g = sg_scores sg \<and> evaluate_check E tk g s = (Inr (Some a), s') \<longrightarrow> ar_passed a))"
proof -
  have sg: "scored 1 5 (sg_scores sg)" "sg_rationale sg \<noteq> []" "0 \<le> sg_time_spent_seconds sg"
    and close: "\<not> se_careless e \<Longrightarrow> max_of (deviations (sg_scores sg) (st_true_scores t)) \<le> 1 \<and>
      near_scores (weighted (sg_scores sg)) (weighted (st_true_scores t))"
    using pred_grade_for [OF assms(1,2), of e] assms(4) by (auto simp: pred_state_iff)
  note fits = world_scores [OF assms(3) sg(1)]
  have truth: "scored 1 5 (st_true_scores t)" using assms(2) by (fastforce simp: fine_task_def Let_def scored_def)
  note true_fits = world_scores [OF assms(3) truth]
  have passes: "ar_passed a" if "\<not> se_careless e" "1 \<le> attention_tolerance (cfg E)"
      "t_expected_scores tk = Some (st_true_scores t)" "g_scores_snapshot g = sg_scores sg"
      "evaluate_check E tk g s = (Inr (Some a), s')" for E tk g s a s'
    using that(5)
  proof (cases rule: evaluate_check_cases)
    case (checked a' expected)
    then show ?thesis using that close by (simp add: order_trans [of _ 1])
  qed simp
  have near: "\<bar>weighted_score r (sg_scores sg) - weighted_score r (st_true_scores t)\<bar> \<le> 1 + 1 / 2 ^ 49" if "\<not> se_careless e"
    using close [OF that] fits(2) true_fits(2) by (simp add: near_scores_def)
  have approves: "rb_decision (spot_check go truth) = Approve" if "\<not> se_careless e"
      "go_weighted_score go = weighted_score r (sg_scores sg)" "weighted (st_true_scores t) = Some truth" for go truth
    using near_approved [OF near [OF that(1)]] that(2,3) true_fits(2) by (simp add: spot_check_def)
  show ?thesis using sg fits passes near approves close by (auto simp: grade_create_ok_def)
qed

definition sample_sim_task :: sim_task where
  "sample_sim_task = hd (w_tasks (the (build_world sample_random 0 7 30 1 1)))"

definition sample_world_rubric :: rubric where
  "sample_world_rubric = \<lparr>r_id = 1, r_name = ''response-quality'', r_version = 1,
     r_criteria = criteria_rows [2, 3, 4, 5] (bc_criteria RUBRIC), r_created_at = 0, r_superseded_at = None,
     r_superseded_by_id = None\<rparr>"

theorem world_grades_fit_witness:
  "\<forall>e. check_scores sample_world_rubric (sg_scores (fst (run_state (grade_for sample_random e sample_sim_task) 3))) = None"
proof -
  have "world_rubric sample_world_rubric"
    by (auto simp: world_rubric_def sample_world_rubric_def intro!: exI [of _ "[2, 3, 4, 5]"])
  moreover have "fine_task sample_sim_task"
    unfolding sample_sim_task_def by code_simp
  ultimately show ?thesis using world_grades_fit [OF sample_random_ok _ _ refl] by blast
qed

end
