(* ===== verification/DemoBooks.thy ===== *)
theory DemoBooks
  imports DemoRun WorldFacts
begin

text \<open>
  A run of the demonstration is a path of the service: every request it makes is an event. So what holds in every state
  the service can reach holds at its end, and the books it closes there can be read against the tables.
\<close>

section \<open>What every request keeps\<close>

text \<open>
  The interface of a relation that holds between the states before and after whatever a client does, once it does for
  each of its requests: it is reflexive and transitive. \<open>roams\<close> is for what always returns, \<open>roams_when_done\<close> for what may
  not; their rules follow the structure of the code.
\<close>

definition roams :: "('w \<Rightarrow> 'w \<Rightarrow> bool) \<Rightarrow> ('w \<Rightarrow> 'a \<times> 'w) \<Rightarrow> bool" where
  "roams P f \<longleftrightarrow> (\<forall>w r w'. f w = (r, w') \<longrightarrow> P w w')"

definition roams_when_done :: "('w \<Rightarrow> 'w \<Rightarrow> bool) \<Rightarrow> ('w \<Rightarrow> ('a \<times> 'w) option) \<Rightarrow> bool" where
  "roams_when_done P f \<longleftrightarrow> (\<forall>w r w'. f w = Some (r, w') \<longrightarrow> P w w')"

named_theorems roaming

lemma roamsD: "roams P f \<Longrightarrow> f w = (r, w') \<Longrightarrow> P w w'"
  unfolding roams_def by blast

lemma roams_when_doneD: "roams_when_done P f \<Longrightarrow> f w = Some (r, w') \<Longrightarrow> P w w'"
  unfolding roams_when_done_def by blast

lemma roams_if [roaming]: "roams P f \<Longrightarrow> roams P g \<Longrightarrow> roams P (\<lambda>w. if c then f w else g w)"
  by (cases c) simp_all

lemma roams_sum [roaming]:
  "(\<And>x. roams P (f x)) \<Longrightarrow> (\<And>x. roams P (g x)) \<Longrightarrow> roams P (\<lambda>w. case c of Inl x \<Rightarrow> f x w | Inr x \<Rightarrow> g x w)"
  by (cases c) simp_all

lemma roams_option [roaming]:
  "roams P f \<Longrightarrow> (\<And>x. roams P (g x)) \<Longrightarrow> roams P (\<lambda>w. case c of None \<Rightarrow> f w | Some x \<Rightarrow> g x w)"
  by (cases c) simp_all

lemma roams_prod [roaming]:
  "(\<And>a b. roams P (f a b)) \<Longrightarrow> roams P (\<lambda>w. case p of (a, b) \<Rightarrow> f a b w)"
  "(\<And>a b. roams P (f a b)) \<Longrightarrow> roams P (case p of (a, b) \<Rightarrow> f a b)"
  by (cases p; simp)+

lemma done_prod [roaming]:
  "(\<And>a b. roams_when_done P (g a b)) \<Longrightarrow> roams_when_done P (\<lambda>w. case p of (a, b) \<Rightarrow> g a b w)"
  "(\<And>a b. roams_when_done P (g a b)) \<Longrightarrow> roams_when_done P (case p of (a, b) \<Rightarrow> g a b)"
  by (cases p; simp)+

lemma done_if [roaming]: "roams_when_done P f \<Longrightarrow> roams_when_done P g \<Longrightarrow> roams_when_done P (\<lambda>w. if c then f w else g w)"
  by (cases c) simp_all

lemma done_Some [roaming]: "roams P f \<Longrightarrow> roams_when_done P (\<lambda>w. Some (f w))"
  unfolding roams_when_done_def roams_def by blast

lemma roams_response [roaming]:
  "(\<And>x. roams P (f1 x)) \<Longrightarrow> (\<And>x. roams P (f2 x)) \<Longrightarrow>
    (\<And>x. roams P (f3 x)) \<Longrightarrow> roams P f4 \<Longrightarrow>
    (\<And>x. roams P (f5 x)) \<Longrightarrow> (\<And>x. roams P (f6 x)) \<Longrightarrow>
    (\<And>x. roams P (f7 x)) \<Longrightarrow> (\<And>x. roams P (f8 x)) \<Longrightarrow>
    (\<And>x. roams P (f9 x)) \<Longrightarrow> (\<And>x. roams P (f10 x)) \<Longrightarrow>
    (\<And>x. roams P (f11 x)) \<Longrightarrow> (\<And>x. roams P (f12 x)) \<Longrightarrow>
    (\<And>x. roams P (f13 x)) \<Longrightarrow>
    roams P (\<lambda>w. case c of
      ExpertOut x \<Rightarrow> f1 x w | ApiKeyOut x \<Rightarrow> f2 x w | IdsOut x \<Rightarrow> f3 x w
      | NoContent \<Rightarrow> f4 w | TaskOut x \<Rightarrow> f5 x w | ReclaimOut x \<Rightarrow> f6 x w
      | GradeOut x \<Rightarrow> f7 x w | ReviewOut x \<Rightarrow> f8 x w
      | AdjudicationResult x \<Rightarrow> f9 x w | RubricOut x \<Rightarrow> f10 x w
      | RubricPublishOut x \<Rightarrow> f11 x w | PeriodOut x \<Rightarrow> f12 x w
      | DeliveryOut x \<Rightarrow> f13 x w)"
  by (cases c) simp_all

lemma roams_answer [roaming]:
  "(\<And>x. roams P (f1 x)) \<Longrightarrow> (\<And>x. roams P (f2 x)) \<Longrightarrow>
    (\<And>x. roams P (f3 x)) \<Longrightarrow> (\<And>x y. roams P (f4 x y)) \<Longrightarrow>
    (\<And>x. roams P (f5 x)) \<Longrightarrow> (\<And>x. roams P (f6 x)) \<Longrightarrow>
    (\<And>x. roams P (f7 x)) \<Longrightarrow> (\<And>x. roams P (f8 x)) \<Longrightarrow>
    (\<And>x. roams P (f9 x)) \<Longrightarrow> (\<And>x. roams P (f10 x)) \<Longrightarrow>
    (\<And>x. roams P (f11 x)) \<Longrightarrow> (\<And>x. roams P (f12 x)) \<Longrightarrow>
    (\<And>x. roams P (f13 x)) \<Longrightarrow> (\<And>x. roams P (f14 x)) \<Longrightarrow>
    (\<And>x. roams P (f15 x)) \<Longrightarrow> (\<And>x. roams P (f16 x)) \<Longrightarrow>
    (\<And>x. roams P (f17 x)) \<Longrightarrow> (\<And>x. roams P (f18 x)) \<Longrightarrow>
    (\<And>x. roams P (f19 x)) \<Longrightarrow> (\<And>x. roams P (f20 x)) \<Longrightarrow>
    (\<And>x. roams P (f21 x)) \<Longrightarrow>
    roams P (\<lambda>w. case c of
      ExpertAnswer x \<Rightarrow> f1 x w | AttentionAnswer x \<Rightarrow> f2 x w
      | CalibrationAnswer x \<Rightarrow> f3 x w | QueueAnswer x y \<Rightarrow> f4 x y w
      | TaskAnswer x \<Rightarrow> f5 x w | GradeAnswer x \<Rightarrow> f6 x w | GradesAnswer x \<Rightarrow> f7 x w
      | AdjudicationsAnswer x \<Rightarrow> f8 x w | RubricAnswer x \<Rightarrow> f9 x w
      | PayoutsAnswer x \<Rightarrow> f10 x w | LedgerAnswer x \<Rightarrow> f11 x w
      | PeriodAnswer x \<Rightarrow> f12 x w | CsvAnswer x \<Rightarrow> f13 x w
      | CriteriaAnswer x \<Rightarrow> f14 x w | AgreementAnswer x \<Rightarrow> f15 x w
      | GlobalAnswer x \<Rightarrow> f16 x w | TaskAgreementAnswer x \<Rightarrow> f17 x w
      | ReliabilityAnswer x \<Rightarrow> f18 x w | DeliveriesAnswer x \<Rightarrow> f19 x w
      | VerificationAnswer x \<Rightarrow> f20 x w | OverviewAnswer x \<Rightarrow> f21 x w)"
  by (cases c) simp_all

locale lasting =
  fixes P :: "'w \<Rightarrow> 'w \<Rightarrow> bool"
  assumes same: "P w w" and later: "P w w1 \<Longrightarrow> P w1 w' \<Longrightarrow> P w w'"
begin

lemma pair [roaming]: "roams P (Pair x)" "roams P (\<lambda>w. (x, w))" "roams P (\<lambda>w. (f w, w))"
  unfolding roams_def using same by blast+

lemma bind [roaming]:
  assumes "roams P f" "\<And>a. roams P (g a)"
  shows "roams P (\<lambda>w. case f w of (a, w) \<Rightarrow> g a w)"
  unfolding roams_def
proof (intro allI impI)
  fix w r w' assume run: "(case f w of (a, w) \<Rightarrow> g a w) = (r, w')"
  obtain a w1 where a: "f w = (a, w1)" by (metis surj_pair)
  show "P w w'" using later [OF roamsD [OF assms(1) a] roamsD [OF assms(2)]] run a by simp
qed

lemma and_then [roaming]: "roams P f \<Longrightarrow> (\<And>a. roams P (g a)) \<Longrightarrow> roams P (\<lambda>w. and_then (f w) g)"
  unfolding and_then_def by (intro bind roams_sum pair)

lemma json_body [roaming]: "roams P f \<Longrightarrow> roams P (\<lambda>w. json_body (f w))"
  unfolding json_body_def by (intro bind roams_sum roams_if pair)

lemma json_field [roaming]: "roams P f \<Longrightarrow> roams P (\<lambda>w. json_field key (f w))"
  unfolding json_field_def by (intro bind roams_sum pair)

lemma raise_for_status [roaming]: "roams P f \<Longrightarrow> roams P (\<lambda>w. raise_for_status (f w))"
  unfolding raise_for_status_def by (intro bind roams_sum pair)

lemma read_key [roaming]: "roams P (read_key key b)"
  unfolding read_key_def [abs_def] by (intro pair)

lemma read_attentions [roaming]: "roams P (read_attentions bs)"
  by (induction bs) (auto intro!: roams_answer and_then read_key pair)

lemma done_proceed [roaming]:
  assumes "roams_when_done P f" "\<And>a. roams_when_done P (g a)"
  shows "roams_when_done P (\<lambda>w. proceed (f w) g)"
  unfolding roams_when_done_def
proof (intro allI impI)
  fix w r w' assume run: "proceed (f w) g = Some (r, w')"
  then obtain r1 w1 where f: "f w = Some (r1, w1)" by (auto simp: proceed_def split: option.splits)
  have "P w w1" using assms(1) f by (rule roams_when_doneD)
  moreover have "P w1 w'"
  proof (cases r1)
    case (Inl e)
    then show ?thesis using run f same by (simp add: proceed_def)
  next
    case (Inr a)
    then show ?thesis using run f roams_when_doneD [OF assms(2)] by (simp add: proceed_def)
  qed
  ultimately show "P w w'" by (rule later)
qed

lemma loop:
  assumes "\<And>c. roams P (turn c)"
    and "\<exists>r w1 c1 w2. repeating turn c w = Some (r, w1) \<and> P w w2 \<and> turn c1 w2 = (Inl r, w1)"
    and "repeating turn c w = Some (r, w')"
  shows "P w w'"
proof -
  obtain r1 w1 c1 w2 where "repeating turn c w = Some (r1, w1)" "P w w2" "turn c1 w2 = (Inl r1, w1)"
    using assms(2) by blast
  then show ?thesis using later [OF _ roamsD [OF assms(1)]] assms(3) by simp
qed

end

text \<open>The same for the states of a client, where the count of the requests does not matter and queries keep the relation.\<close>

locale looking = lasting P for P :: "'st wire \<Rightarrow> 'st wire \<Rightarrow> bool" +
  fixes S :: "'st server"
  assumes looks [roaming]: "roams P (fetch S key q)" and uncounted: "P (Suc n, \<sigma>) w \<longleftrightarrow> P (n, \<sigma>) w"
begin

lemma looks_counted [roaming]: "roams P (\<lambda>w. fetch S key q (Suc (fst w), snd w))"
proof -
  have "P w w'" if "fetch S key q (Suc (fst w), snd w) = (r, w')" for w r w'
    using roamsD [OF looks that] uncounted [of "fst w" "snd w" w'] by simp
  then show ?thesis unfolding roams_def by blast
qed

lemma tier_moves [roaming]: "roams P (tier_moves S admin es)"
  by (induction es) (auto intro!: and_then json_field looks roams_answer pair)

lemma attentions [roaming]: "roams P (attentions S admin es)"
  by (induction es) (auto intro!: and_then json_body looks pair)

lemma wrap_up [roaming]:
  assumes "roams P (post S admin ExportDelivery)" "roams P (run_tick S)"
  shows "roams P (wrap_up S admin wd period led)"
  unfolding wrap_up_def [abs_def]
  by (intro and_then json_body looks looks_counted tier_moves attentions read_attentions read_key roams_answer roams_response pair assms)

end

section \<open>Clients walk the service\<close>

definition walks :: "'st server \<Rightarrow> 'st wire \<Rightarrow> 'st wire \<Rightarrow> bool" where
  "walks S w w' \<longleftrightarrow> (happens (sv_env S) (sv_io S))\<^sup>*\<^sup>* (snd w) (snd w')"

interpretation walk: lasting "walks S" for S
  by unfold_locales (auto simp: walks_def intro: rtranclp_trans)

lemma walks_refl [simp]: "walks S w w" by (rule walk.same)

lemmas walks_trans = walk.later

lemma roams_post [roaming]: "roams (walks S) (post S key c)"
proof -
  have "walks S w w'" if "post S key c w = (r, w')" for w r w'
  proof -
    obtain n s st where w: "w = (n, s, st)" by (metis prod_cases3)
    from that obtain s' st' where "w' = (Suc n, s', st')"
      "serve (sv_env S) (sv_io S) (sv_moment S n) c (Some key) (s, st) = (r, (s', st'))"
      unfolding w by (rule post_cases)
    then show ?thesis by (auto simp: walks_def w intro: happens.request)
  qed
  then show ?thesis unfolding roams_def by blast
qed

lemma roams_fetch [roaming]: "roams (walks S) (fetch S key q)"
proof -
  have "walks S w w'" if "fetch S key q w = (r, w')" for w r w'
    using that by (cases w) (auto simp: fetch_def Let_def walks_def intro!: r_into_rtranclp happens.question simp flip: prod.collapse)
  then show ?thesis unfolding roams_def by blast
qed

lemma roams_run_tick [roaming]: "roams (walks S) (run_tick S)"
proof -
  have "walks S w w'" if "run_tick S w = (r, w')" for w r w'
  proof -
    obtain n s st where w: "w = (n, s, st)" by (metis prod_cases3)
    have "snd w' = (transact (tick (sv_env S) ''system:tick'') (m_now (sv_moment S n)) s, st)"
      using that by (auto simp: run_tick_def w transact_def split: prod.splits sum.splits)
    then show ?thesis using happens.scheduled [of "sv_env S" "sv_io S" s st "''system:tick''" "m_now (sv_moment S n)"]
      by (simp add: walks_def w)
  qed
  then show ?thesis unfolding roams_def by blast
qed

interpretation walking: looking "walks S" S for S
  by unfold_locales (simp_all add: roams_fetch walks_def)

section \<open>The parts of a run\<close>

lemma roams_seed_experts [roaming]: "roams (walks S) (seed_experts S admin es)"
  by (induction es) (auto intro!: roaming)

lemma roams_issued_key [roaming]: "roams (walks S) (issued_key S admin r label)"
  unfolding issued_key_def [abs_def] by (intro roaming)

lemma roams_seed [roaming]: "roams (walks S) (seed S wd admin)"
  unfolding seed_def [abs_def] Let_def by (intro roaming)

lemma roams_first_claim [roaming]: "roams (walks S) (first_claim S e)"
  unfolding first_claim_def [abs_def] by (intro roaming)

lemma roams_first_claims [roaming]: "roams (walks S) (first_claims S es order held)"
proof (induction order arbitrary: held)
  case Nil
  have "first_claims S es [] held = Pair held" by (rule ext) simp
  then show ?case by (simp only: walk.pair)
next
  case (Cons i order)
  have "first_claims S es (i # order) held =
      (\<lambda>w. case first_claim S (es ! i) w of (tid, w) \<Rightarrow> first_claims S es order (held[i := tid]) w)"
    by (rule ext) simp
  then show ?case by (simp only:) (intro roaming Cons.IH)
qed

lemma roams_steal [roaming]: "roams (walks S) (steal S es hs i)"
  unfolding steal_def [abs_def] by (intro roaming)

lemma roams_steals [roaming]: "roams (walks S) (steals S es hs order)"
  by (induction order) (auto intro!: roaming)

lemma releases_walks: "walks S w (releases S held w)"
proof (induction held arbitrary: w)
  case (Cons h held)
  have "walks S w (releases S held (snd (post S key c w)))" for key c
    using walks_trans [OF roamsD [OF roams_post] Cons.IH] by (metis prod.collapse)
  then show ?case using Cons.IH by (cases h) (simp split: option.split)
qed simp

lemma contention_round_walks:
  assumes "contention_round S wd order1 order2 x w = (c, x', w')"
  shows "walks S w w'"
proof -
  obtain held w1 where h: "first_claims S (w_experts wd) order1 (replicate (length (w_experts wd)) None) w = (held, w1)"
    by (metis surj_pair)
  obtain p w2 where s: "steals S (w_experts wd) (holders held) order2 w1 = (p, w2)" by (metis surj_pair)
  have "w' = releases S (zip (w_experts wd) held) w2"
    using assms by (auto simp: contention_round_def h s Let_def split: prod.splits)
  then show ?thesis
    using walks_trans [OF roamsD [OF roams_first_claims h] walks_trans [OF roamsD [OF roams_steals s] releases_walks]] by simp
qed

lemma run_expert_walks:
  assumes "run_expert S R sims th x w = (th', x', w')"
  shows "walks S w w'"
proof -
  have asks: "walks S w w'" if "post S key c w = (r, w1)" "w' = w1" for key c r w1
    using roamsD [OF roams_post that(1)] that(2) by simp
  obtain r1 w1 where next_task: "post S (se_key (th_expert th)) NextTask w = (r1, w1)" by (metis surj_pair)
  show ?thesis
  proof (cases "th_place th")
    case Claiming
    have "w' = w1"
      using assms Claiming next_task
      by (auto simp: run_expert_def Let_def split: sum.splits response.splits if_splits prod.splits)
    then show ?thesis by (rule asks [OF next_task])
  next
    case (Grading b)
    obtain r2 w2 where grade: "post S (se_key (th_expert th)) (SubmitGrade b) w = (r2, w2)" by (metis surj_pair)
    have "w' = w2" using assms Grading grade by (auto simp: run_expert_def Let_def split: sum.splits)
    then show ?thesis by (rule asks [OF grade])
  qed (use assms in \<open>simp_all add: run_expert_def Let_def\<close>)
qed

lemma pool_walks: "pool S R sims schedule ths x w = (ths', x', w') \<Longrightarrow> walks S w w'"
proof (induction schedule arbitrary: ths x w)
  case (Cons i schedule)
  then show ?case
    by (auto split: if_splits prod.splits intro: walks_trans [OF run_expert_walks])
qed simp

section \<open>Runs that may not return\<close>

lemma done_run_pool [roaming]: "roams_when_done (walks S) (run_pool S R chosen schedule wd x)"
  unfolding roams_when_done_def run_pool_def
  by (auto split: prod.splits option.splits sum.splits dest: pool_walks)

lemma roams_truth_of [roaming]: "roams (walks S) (truth_of sims tid)"
  unfolding truth_of_def [abs_def] by (intro roaming)

lemma roams_review_batch [roaming]: "roams (walks S) (review_batch S reviewer sims gs c)"
proof (induction gs arbitrary: c)
  case Nil
  have "review_batch S reviewer sims [] c = Pair (Inr c)" by (rule ext) simp
  then show ?case by (simp only: walk.pair)
next
  case (Cons g gs)
  have "review_batch S reviewer sims (g # gs) c = (\<lambda>w.
    and_then (truth_of sims (go_task_id g) w) (\<lambda>truth w.
      and_then (raise_for_status (post S reviewer (CreateReview (spot_check g truth)) w)) (\<lambda>_ w.
        review_batch S reviewer sims gs
          (if rb_decision (spot_check g truth) = Reject then (fst c, snd c + 1) else (fst c + 1, snd c)) w)))"
    by (rule ext) (simp add: Let_def)
  then show ?case by (simp only:) (intro roaming Cons.IH)
qed

lemma roams_review_turn [roaming]: "roams (walks S) (review_turn S reviewer sims c)"
  unfolding review_turn_def [abs_def] by (intro roaming)

lemma roams_adjudicate_batch [roaming]: "roams (walks S) (adjudicate_batch S senior sims queue c)"
proof (induction queue arbitrary: c)
  case Nil
  have "adjudicate_batch S senior sims [] c = Pair (Inr c)" by (rule ext) simp
  then show ?case by (simp only: walk.pair)
next
  case (Cons entry queue)
  show ?case
    unfolding ext [OF adjudicate_batch.simps(2) [of S senior sims entry queue c]]
    by (intro roaming Cons.IH)
qed

lemma roams_adjudicate_turn [roaming]: "roams (walks S) (adjudicate_turn S senior sims c)"
  unfolding adjudicate_turn_def [abs_def] by (intro roaming)

lemma done_review_all [roaming]: "roams_when_done (walks S) (review_all S key sims)"
  unfolding roams_when_done_def review_all_def
proof (intro allI impI)
  fix w r w' assume run: "repeating (review_turn S key sims) (0, 0) w = Some (r, w')"
  show "walks S w w'"
  proof (rule walk.loop [OF roams_review_turn _ run])
    show "\<exists>r w1 c1 w2. repeating (review_turn S key sims) (0, 0) w = Some (r, w1) \<and> walks S w w2 \<and>
        review_turn S key sims c1 w2 = (Inl r, w1)"
      by (rule reviewing.returns) (rule walks_refl, rule walks_trans [OF _ roamsD [OF roams_review_turn]])
  qed
qed

lemma done_adjudicate_all [roaming]: "roams_when_done (walks S) (adjudicate_all S key sims)"
  unfolding roams_when_done_def adjudicate_all_def
proof (intro allI impI)
  fix w r w' assume run: "repeating (adjudicate_turn S key sims) (0, 0) w = Some (r, w')"
  show "walks S w w'"
  proof (rule walk.loop [OF roams_adjudicate_turn _ run])
    show "\<exists>r w1 c1 w2. repeating (adjudicate_turn S key sims) (0, 0) w = Some (r, w1) \<and> walks S w w2 \<and>
        adjudicate_turn S key sims c1 w2 = (Inl r, w1)"
      by (rule adjudicating.returns) (rule walks_refl, rule walks_trans [OF _ roamsD [OF roams_adjudicate_turn]])
  qed
qed

lemma done_regrade [roaming]: "roams_when_done (walks S) (regrade S R reviewer scheds wd x c)"
proof (induction scheds arbitrary: wd x c)
  case Nil
  have "regrade S R reviewer [] wd x c = (\<lambda>w. Some (Inr (wd, x, c), w))" by (rule ext) simp
  then show ?case by (simp only:) (intro roaming)
next
  case (Cons sched scheds)
  show ?case
    unfolding ext [OF regrade.simps(2) [of S R reviewer sched scheds wd x c]] Let_def
    by (intro roaming Cons.IH)
qed

lemma done_contention:
  assumes "\<And>c x. roams_when_done (walks S) (g c x)"
  shows "roams_when_done (walks S) (\<lambda>w. case contention_round S wd order1 order2 x w of (c, x, w) \<Rightarrow> g c x w)"
  unfolding roams_when_done_def
proof (intro allI impI)
  fix w r w' assume run: "(case contention_round S wd order1 order2 x w of (c, x, w) \<Rightarrow> g c x w) = Some (r, w')"
  obtain c x1 w1 where c: "contention_round S wd order1 order2 x w = (c, x1, w1)" by (metis prod_cases3)
  then have "g c x1 w1 = Some (r, w')" using run by simp
  then show "walks S w w'"
    using walks_trans [OF contention_round_walks [OF c]] assms unfolding roams_when_done_def by blast
qed

lemma done_demo_work [roaming]: "roams_when_done (walks S) (demo_work S R sc wd admin)"
  unfolding demo_work_def [abs_def] by (intro roaming done_contention)

lemma roams_closing [roaming]: "roams (walks S) (closing S admin wd)"
  unfolding closing_def [abs_def] by (intro roaming)

lemma done_demo_main: "roams_when_done (walks S) (demo_main S R sc wd admin)"
  unfolding demo_main_def [abs_def] by (intro roaming)

section \<open>The books\<close>

lemma json_body_Inr: "json_body r = (Inr b, w) \<Longrightarrow> r = (b, w)"
  by (auto simp: json_body_def split: prod.splits sum.splits if_splits)

lemma read_key_Inr [result_simps]: "read_key key b w = (Inr x, w') \<longleftrightarrow> b = Inr x \<and> w' = w"
  by (auto simp: read_key_def split: sum.splits)

lemma post_close:
  assumes "post S key (ClosePeriod label) w = (Inr (PeriodOut ps), w')"
  obtains period actor where "close_period (sv_env S) label actor ((wire_db w)\<lparr>tx_now := m_now (sv_moment S (fst w))\<rparr>) = (Inr period, wire_db w')"
    "ps = period_totals period (wire_db w')"
proof -
  have "run_command (sv_env S) (sv_moment S (fst w)) (ClosePeriod label) (Some key) ((wire_db w)\<lparr>tx_now := m_now (sv_moment S (fst w))\<rparr>)
      = (Inr (PeriodOut ps), wire_db w')"
    by (rule post_wire_returns [OF assms]) simp
  then obtain p where "close_period_route (sv_env S) p label ((wire_db w)\<lparr>tx_now := m_now (sv_moment S (fst w))\<rparr>) = (Inr ps, wire_db w')"
    by (auto simp: result_simps responds_def dest!: with_scopes_returns)
  then show thesis by (auto simp: close_period_route_def result_simps intro: that)
qed

lemma fetch_ledger:
  assumes "fetch S key Ledger w = (Inr (LedgerAnswer l), w')"
  shows "l = ledger (sv_env S) ((wire_db w)\<lparr>tx_now := m_now (sv_moment S (fst w))\<rparr>)"
proof -
  let ?s = "(wire_db w)\<lparr>tx_now := m_now (sv_moment S (fst w))\<rparr>"
  obtain n s st where w: "w = (n, s, st)" by (metis prod_cases3)
  have "fst (ledger_route (sv_env S) (Some key) ?s) = Inr (LedgerAnswer l)"
    using assms by (simp add: fetch_def w wire_db_def Let_def)
  then obtain s' where "ledger_route (sv_env S) (Some key) ?s = (Inr (LedgerAnswer l), s')" by (metis prod.collapse)
  then show ?thesis by (auto simp: ledger_route_def with_scopes_def result_simps require_scopes_returns)
qed

section \<open>What leaves the payouts alone\<close>

definition payouts_kept :: "'st wire \<Rightarrow> 'st wire \<Rightarrow> bool" where
  "payouts_kept w w' \<longleftrightarrow> payouts (wire_db w') = payouts (wire_db w)"

lemma fetch_payouts: "payouts_kept w w'" if "fetch S key q w = (r, w')"
  using that fetch_state(1) [of S key q "fst w" "fst (snd w)" "snd (snd w)" r "fst w'" "fst (snd w')" "snd (snd w')"]
  by (auto simp: payouts_kept_def wire_db_def rolled_back_def)

interpretation paying: looking payouts_kept S for S
  by unfold_locales (auto simp: payouts_kept_def wire_db_def roams_def dest: fetch_payouts [unfolded payouts_kept_def wire_db_def])

lemma refresh_experts_payouts: "refresh_experts E actor es acc s = (Inr r, s') \<Longrightarrow> payouts s' = payouts s"
proof (induction es arbitrary: acc s)
  case (Cons e es)
  obtain moves uncal where "acc = (moves, uncal)" by fastforce
  then obtain change s1 acc1 where step: "update E (e_id e) actor s = (Inr change, s1)"
    and rest: "refresh_experts E actor es acc1 s1 = (Inr r, s')"
    using Cons.prems by (auto simp: result_simps simp del: split_paired_Ex)
  show ?case using Cons.IH [OF rest] update_frame(1) [OF step] by (simp add: core_eq_iff)
qed simp

lemma tick_payouts: "tick E actor s = (Inr report, s') \<Longrightarrow> payouts s' = payouts s"
  by (erule tick_cases) (auto simp: core_eq_iff swept_def dest!: refresh_experts_payouts reclaim_expired_core(1))

lemma run_tick_payouts: "roams payouts_kept (run_tick S)"
proof -
  have "payouts_kept w w'" if "run_tick S w = (r, w')" for w r w'
    using that by (cases w) (auto simp: run_tick_def payouts_kept_def wire_db_def rolled_back_def dest: tick_payouts split: prod.splits sum.splits)
  then show ?thesis unfolding roams_def by blast
qed

lemma export_payouts: "roams payouts_kept (post S key ExportDelivery)"
proof -
  have "payouts_kept w w'" if "post S key ExportDelivery w = (r, w')" for w r w'
  proof -
    obtain n s st where w: "w = (n, s, st)" by (metis prod_cases3)
    show ?thesis
      using that unfolding w
      by (auto simp: post_def serve_def perform_def payouts_kept_def wire_db_def rolled_back_def Let_def core_eq_iff result_simps require_scopes_returns
          split: prod.splits sum.splits elim!: export_cases)
  qed
  then show ?thesis unfolding roams_def by blast
qed

lemmas wrap_up_payouts = paying.wrap_up [OF export_payouts run_tick_payouts]

lemma expected_answers:
  "(case a of LedgerAnswer l \<Rightarrow> f l | _ \<Rightarrow> (Inl BadBody, w)) = (Inr x, w') \<longleftrightarrow> (\<exists>l. a = LedgerAnswer l \<and> f l = (Inr x, w'))"
  "(case b of PeriodOut ps \<Rightarrow> g ps | _ \<Rightarrow> (Inl BadBody, w)) = (Inr x, w') \<longleftrightarrow> (\<exists>ps. b = PeriodOut ps \<and> g ps = (Inr x, w'))"
  "(case b of DeliveryOut d \<Rightarrow> h d | _ \<Rightarrow> (Inl BadBody, w)) = (Inr x, w') \<longleftrightarrow> (\<exists>d. b = DeliveryOut d \<and> h d = (Inr x, w'))"
  by (cases a; simp) (cases b; simp)+

lemma wrap_up_summary:
  assumes "wrap_up S admin wd period led w = (Inr sm, w')"
  obtains ps l where "period = Inr (PeriodOut ps)" "led = Inr (LedgerAnswer l)" "sm_statement sm = ps" "sm_ledger sm = l"
  using assms unfolding wrap_up_def and_then_returns read_key_Inr expected_answers
  by (auto simp: summarise_def Let_def)

text \<open>The books of a summary agree with the tables: nothing is pending, the ledger is the payouts by status, and the
  statement is the payouts of its period.\<close>

definition books_agree :: "summary \<Rightarrow> db \<Rightarrow> bool" where
  "books_agree sm s \<longleftrightarrow> list_all (\<lambda>p. p_status p \<noteq> Pending) (payouts s) \<and>
     lv_totals_by_status (sm_ledger sm) = [(Pending, 0), (Withheld, cents_where (\<lambda>p. p_status p = Withheld) (payouts s)),
       (Paid, cents_where (\<lambda>p. p_status p = Paid) (payouts s))] \<and>
     lv_grand_total_cents (sm_ledger sm) = sum_list (map p_amount_cents (payouts s)) \<and>
     ps_total_cents (sm_statement sm) = cents_where (\<lambda>p. p_period_id p = Some (ps_id (sm_statement sm))) (payouts s)"

lemma closing_books:
  assumes "closing S admin wd w = (Inr sm, w')" "tables_ok (wire_db w)"
  shows "books_agree sm (wire_db w')"
proof -
  let ?s = "(wire_db w)\<lparr>tx_now := m_now (sv_moment S (fst w))\<rparr>"
  obtain period w1 led w2 where p: "post S admin (ClosePeriod ''2026-09-A'') w = (period, w1)"
    and l: "fetch S admin Ledger w1 = (led, w2)" and rest: "wrap_up S admin wd period led w2 = (Inr sm, w')"
    using assms(1) unfolding closing_def and_then_returns by (auto dest!: json_body_Inr)
  obtain ps lv where ps: "period = Inr (PeriodOut ps)" "led = Inr (LedgerAnswer lv)" "sm_statement sm = ps" "sm_ledger sm = lv"
    by (rule wrap_up_summary [OF rest])
  obtain row actor where c: "close_period (sv_env S) ''2026-09-A'' actor ?s = (Inr row, wire_db w1)" "ps = period_totals row (wire_db w1)"
    by (rule post_close [OF p [unfolded ps]])
  have ok: "tables_ok ?s" using assms(2) tables_ok_begun by blast
  then have paid: "\<forall>p \<in> set (payouts (wire_db w1)). p_status p \<noteq> Pending"
    using close_period_pays_all [OF _ c(1)] by (simp add: tables_ok_def)
  have ok1: "tables_ok (wire_db w1)" by (rule close_period_tables_ok [OF ok c(1)])
  let ?s1 = "(wire_db w1)\<lparr>tx_now := m_now (sv_moment S (fst w1))\<rparr>"
  have "distinct (map e_id (experts ?s1))" "payouts_ok ?s1"
    using ok1 tables_ok_begun [where s = "wire_db w1" and now = "m_now (sv_moment S (fst w1))"] by (auto simp: tables_ok_def keys_ok_def)
  note L = ledger_matches_payouts [OF this, of "sv_env S"]
  have same: "payouts (wire_db w') = payouts (wire_db w1)"
    using roamsD [OF wrap_up_payouts rest] fetch_payouts [OF l] by (simp add: payouts_kept_def)
  show ?thesis
    unfolding books_agree_def same ps(3,4) fetch_ledger [OF l [unfolded ps(2)]]
    using L paid by (simp add: c(2) period_totals_def Let_def list_all_iff cents_where_empty)
qed

lemma reachable_walks:
  assumes "(happens E io)\<^sup>*\<^sup>* \<sigma> \<sigma>'" "reachable E io st0 \<sigma>"
  shows "reachable E io st0 \<sigma>'"
  using assms by (induction rule: rtranclp_induct) (auto intro: reachable.event)

section \<open>Properties\<close>

text \<open>
  C30: a whole run of the demonstration is a path of the service, whether it returns or raises: started in a state the service
  can reach, it ends in one, so every invariant of the service holds there. Where it returns, the books it prints agree
  with the tables it leaves: closing the period has left no payout pending, the ledger adds up to the payouts by
  status and in total, and the statement to the payouts of its period.
\<close>

theorem demo_closes_books:
  assumes "reachable (sv_env S) (sv_io S) st0 (s, st)"
  shows "case demo_main S R sc wd admin (n, s, st) of
      None \<Rightarrow> True
    | Some (r, (n', s', st')) \<Rightarrow> reachable (sv_env S) (sv_io S) st0 (s', st') \<and>
        (case r of Inl f \<Rightarrow> True | Inr (status, sm) \<Rightarrow> books_agree sm s')"
proof (cases "demo_main S R sc wd admin (n, s, st)")
  case (Some rw)
  obtain r n' s' st' where rw: "rw = (r, (n', s', st'))" by (metis prod_cases4)
  have "walks S (n, s, st) (n', s', st')" using roams_when_doneD [OF done_demo_main Some [unfolded rw]] .
  then have at_end: "reachable (sv_env S) (sv_io S) st0 (s', st')" using reachable_walks [OF _ assms] by (simp add: walks_def)
  have "books_agree sm s'" if r: "r = Inr (status, sm)" for status sm
  proof -
    obtain wd' x counts w1 where work: "demo_work S R sc wd admin (n, s, st) = Some (Inr (wd', x, counts), w1)"
      and close: "closing S admin wd' w1 = (Inr sm, (n', s', st'))"
      using Some unfolding demo_main_def rw r by (auto simp: proceed_def split: option.splits sum.splits prod.splits)
    have "walks S (n, s, st) w1" using roams_when_doneD [OF done_demo_work work] .
    then have "reachable (sv_env S) (sv_io S) st0 (snd w1)" using reachable_walks [OF _ assms] by (simp add: walks_def)
    then have "tables_ok (wire_db w1)" by (auto simp: wire_db_def dest: reachable_tables_ok)
    from closing_books [OF close this] show ?thesis by (simp add: wire_db_def)
  qed
  then show ?thesis using at_end by (cases r) (auto simp: Some rw)
qed simp

text \<open>A service that has just been given its first key, and a world of two experts and one task. The keys differ in their
  hashes; each request comes a second after the one before.\<close>

definition live_env :: env where
  "live_env = sample_env\<lparr>sha256 := map of_char\<rparr>"

definition live_db :: db where
  "live_db = transact (bootstrap live_env (Some ''pk'')) 5 empty_db"

definition live_server :: "(string \<Rightarrow> string option) server" where
  "live_server = \<lparr>sv_env = live_env, sv_io = sample_storage, sv_sqrt = (\<lambda>x. x),
     sv_moment = (\<lambda>n. \<lparr>m_now = seconds (int n), m_locked = [], m_token = nat_digits n\<rparr>)\<rparr>"

definition small_expert :: "string \<Rightarrow> sim_expert" where
  "small_expert name = \<lparr>se_name = name, se_tags = [''law''], se_tier = Junior, se_careless = False, se_abandons_first = False,
     se_id = 0, se_key = [], se_served = 0, se_graded = 0, se_paused = False\<rparr>"

definition small_world :: world where
  "small_world = \<lparr>w_seed = 7, w_experts = [small_expert ''ada'', small_expert ''bob''], w_tasks =
     [\<lparr>st_payload = \<lparr>pl_external_ref = ''sim-0001'', pl_prompt = ''Explain'', pl_responses = [JObj [(''text'', JStr ''Response'')]],
         pl_required_tags = [''law''], pl_task_type = ''single'', pl_min_tier = Junior, pl_priority = 0,
         pl_deadline = seconds 3600, pl_required_grades = 1, pl_is_attention_check = False, pl_expected_scores = None\<rparr>,
       st_true_scores = map (\<lambda>c. (c, 4)) CRITERIA, st_id = 0\<rparr>]\<rparr>"

definition small_schedules :: schedules where
  "small_schedules = \<lparr>sc_claims = [0, 1], sc_steals = [1, 0], sc_first = [1, 0, 1, 0, 1], sc_second = [0, 1],
     sc_regrade = (\<lambda>_. [0, 1])\<rparr>"

theorem demo_closes_books_witness:
  "case demo_main live_server sample_random small_schedules small_world ''pk'' (0, live_db, \<lambda>_. None) of
      None \<Rightarrow> True
    | Some (r, (n', s', st')) \<Rightarrow> reachable live_env sample_storage (\<lambda>_. None) (s', st') \<and>
        (case r of Inl f \<Rightarrow> True | Inr (status, sm) \<Rightarrow> books_agree sm s')"
proof -
  have "reachable (sv_env live_server) (sv_io live_server) (\<lambda>_. None) (live_db, \<lambda>_. None)"
    unfolding live_db_def live_server_def by (simp add: reachable.event [OF reachable.start happens.first_key])
  moreover have "sv_env live_server = live_env" "sv_io live_server = sample_storage" by (simp_all add: live_server_def)
  ultimately show ?thesis
    using demo_closes_books [of live_server "\<lambda>_. None" live_db "\<lambda>_. None" sample_random small_schedules small_world "''pk''" 0]
    by (simp only:)
qed

end
