(* ===== verification/Fingerprint.thy ===== *)
theory Fingerprint
  imports Demo WorldFacts
begin

text \<open>
  Checking a recorded run (\<open>check_artifact\<close> of \<open>sim/demo.py\<close>). The world is built anew when the check runs, so its deadlines
  differ from those of the run; nothing else does, and the fingerprint leaves them out.
\<close>

section \<open>Worlds built at different times\<close>

definition later :: "time \<Rightarrow> sim_task \<Rightarrow> sim_task" where
  "later d t = t\<lparr>st_payload := (st_payload t)\<lparr>pl_deadline := pl_deadline (st_payload t) + d\<rparr>\<rparr>"

lemma make_task_later: "make_task R now n i = State_Monad.bind (make_task R 0 n i) (\<lambda>t. State_Monad.return (later now t))"
  by (simp add: make_task_def later_def Let_def add.commute)

lemma traverse_later:
  "(\<And>x. f x = State_Monad.bind (h x) (\<lambda>y. State_Monad.return (g y))) \<Longrightarrow>
   State_Monad.traverse_list f xs = State_Monad.bind (State_Monad.traverse_list h xs) (\<lambda>ys. State_Monad.return (map g ys))"
  by (induction xs) simp_all

lemma length_traverse: "run_state (State_Monad.traverse_list f xs) g = (ys, g') \<Longrightarrow> length ys = length xs"
  by (induction xs arbitrary: g ys g') (auto simp: case_prod_beta Let_def prod_eq_iff)

lemma shuffle_map:
  assumes "random_ok R"
  shows "run_state (shuffle R (map f xs)) g = (let (ys, g') = run_state (shuffle R xs) g in (map f ys, g'))"
proof -
  have "mset (fst (shuffled R (length xs) g)) = mset [0..<length xs]" using assms by (simp add: random_ok_def)
  then have "set (fst (shuffled R (length xs) g)) = set [0..<length xs]" by (rule mset_eq_setD)
  then have "\<forall>i \<in> set (fst (shuffled R (length xs) g)). i < length xs" by simp
  then show ?thesis by (simp add: shuffle_def case_prod_beta Let_def)
qed

lemma build_world_later:
  assumes "random_ok R"
  shows "build_world R now sd n m golden = map_option (\<lambda>w. w\<lparr>w_tasks := map (later now) (w_tasks w)\<rparr>) (build_world R 0 sd n m golden)"
proof -
  obtain es g where es: "run_state (State_Monad.traverse_list (make_expert R) [0..<nat n]) (of_seed R sd) = (es, g)"
    by (metis surj_pair)
  let ?k = "nat (py_round (of_int m * golden))"
  obtain ts g' where ts: "run_state (State_Monad.traverse_list (make_task R 0 ?k) [0..<nat m]) g = (ts, g')"
    by (metis surj_pair)
  have "run_state (State_Monad.traverse_list (make_task R now ?k) [0..<nat m]) g = (map (later now) ts, g')"
    unfolding traverse_later [OF make_task_later [of R now]] by (simp add: ts)
  then have "run_state (State_Monad.bind (State_Monad.traverse_list (make_task R now ?k) [0..<nat m]) (shuffle R)) g
      = (let (us, g2) = run_state (State_Monad.bind (State_Monad.traverse_list (make_task R 0 ?k) [0..<nat m]) (shuffle R)) g
         in (map (later now) us, g2))"
    by (simp add: ts shuffle_map [OF assms])
  then show ?thesis
    unfolding build_world_def es
    by (cases "mark_experts es") (simp_all add: Let_def case_prod_beta)
qed

lemma fixed_task_later [simp]: "fixed_task (later d t) = fixed_task t"
  by (simp add: fixed_task_def later_def Let_def)

lemma world_fingerprint_later: "world_fingerprint E (w\<lparr>w_tasks := map (later d) (w_tasks w)\<rparr>) = world_fingerprint E w"
  by (simp add: world_fingerprint_def comp_def)

section \<open>Properties\<close>

text \<open>
  The check of a recorded run depends on its seed, counts and share of golden tasks, and not on when it runs: built
  at any other time, the world has the fingerprint of the run, so the check exits with 0 exactly for that fingerprint.
\<close>

theorem check_artifact_replays:
  assumes "random_ok R" "build_world R now sd n_experts n_tasks golden_share = Some w"
  shows "check_artifact E R now' sd n_experts n_tasks golden_share recorded =
    Some (if recorded = world_fingerprint E w then 0 else 1)"
proof -
  obtain u where u: "build_world R 0 sd n_experts n_tasks golden_share = Some u"
      "w = u\<lparr>w_tasks := map (later now) (w_tasks u)\<rparr>"
    using assms(2) build_world_later [OF assms(1), of now sd n_experts n_tasks golden_share] by auto
  then show ?thesis
    using build_world_later [OF assms(1), of now' sd n_experts n_tasks golden_share]
    by (auto simp: check_artifact_def world_fingerprint_later)
qed

theorem check_artifact_replays_witness:
  "\<exists>w. build_world sample_random 5 7 30 2 (1 / 2) = Some w \<and>
     check_artifact sample_env sample_random 9 7 30 2 (1 / 2) (world_fingerprint sample_env w) = Some 0"
proof -
  have "build_world sample_random 5 7 30 2 (1 / 2) \<noteq> None"
    by (auto simp: build_world_def mark_experts_def Let_def dest!: length_traverse split: prod.splits option.splits)
  then obtain w where w: "build_world sample_random 5 7 30 2 (1 / 2) = Some w" by blast
  show ?thesis
    using check_artifact_replays [OF sample_random_ok w, of sample_env 9 "world_fingerprint sample_env w"] w by auto
qed

end
