(* ===== verification/Bench.thy ===== *)
theory Bench
  imports Demo
begin

text \<open>
  The benchmark of the claim endpoint, \<open>sim/bench.py\<close>: it seeds its own rubric, experts and tasks, lets claimants
  take tasks, and counts the claims and the distinct tasks among them. Measured times are not modelled, apart from
  the percentile taken of them.
\<close>

text \<open>\<open>int\<close> truncates towards zero, and a negative index counts from the end; out of range is an \<open>IndexError\<close>.\<close>

definition py_int :: "rat \<Rightarrow> int" where
  "py_int x = (if 0 \<le> x then \<lfloor>x\<rfloor> else \<lceil>x\<rceil>)"

definition percentile :: "rat list \<Rightarrow> rat \<Rightarrow> rat option" where
  "percentile values p =
    (if values = [] then Some 0
     else let ordered = sort values;
              i = min (int (length ordered) - 1) (py_int (of_nat (length ordered) * p));
              k = (if i < 0 then i + int (length ordered) else i)
          in if k < 0 then None else Some (ordered ! nat k))"

definition TAG :: string where
  "TAG = ''python''"

text \<open>The names of the rubrics of different runs differ in a random suffix.\<close>

definition bench_rubric :: "string \<Rightarrow> rubric_create" where
  "bench_rubric run = RUBRIC\<lparr>bc_name := ''bench-'' @ run\<rparr>"

definition bench_task :: "uuid \<Rightarrow> nat \<Rightarrow> task_create" where
  "bench_task rid i = \<lparr>kt_prompt = ''Bench prompt '' @ nat_digits i,
     kt_responses = [JObj [(''model'', JStr ''model-a''), (''text'', JStr (''Bench response '' @ nat_digits i))]],
     kt_required_tags = [TAG], kt_task_type = ''single'', kt_min_tier = Junior, kt_rubric_id = rid, kt_priority = 0,
     kt_deadline = None, kt_required_grades = 1, kt_is_attention_check = False, kt_expected_scores = None,
     kt_external_ref = None\<rparr>"

fun bench_experts :: "'st server \<Rightarrow> string \<Rightarrow> nat list \<Rightarrow> 'st wire \<Rightarrow> (failure, string list, 'st wire) result" where
  "bench_experts S admin [] w = (Inr [], w)"
| "bench_experts S admin (i # is) w =
    and_then (json_field ''id'' (post S admin (CreateExpert \<lparr>xc_name = ''bench-'' @ zero_padded 2 i, xc_tags = [TAG],
        xc_tier = Senior, xc_task_rate_cents = None\<rparr>) w)) (\<lambda>created w.
      case created of
        ExpertOut x \<Rightarrow>
          and_then (json_field ''key'' (post S admin (CreateExpertKey (xo_id x)) w)) (\<lambda>issued w.
            case issued of
              ApiKeyOut k \<Rightarrow> and_then (bench_experts S admin is w) (\<lambda>keys w. (Inr (ko_key k # keys), w))
            | _ \<Rightarrow> (Inl BadBody, w))
      | _ \<Rightarrow> (Inl BadBody, w))"

function slices :: "nat \<Rightarrow> 'a list \<Rightarrow> 'a list list" where
  "slices k xs = (if xs = [] \<or> k = 0 then [] else take k xs # slices k (drop k xs))"
  by pat_completeness auto
termination by (relation "measure (\<lambda>(k, xs). length xs)") auto

fun post_tasks :: "'st server \<Rightarrow> string \<Rightarrow> task_create list list \<Rightarrow> 'st wire \<Rightarrow> (failure, unit, 'st wire) result" where
  "post_tasks S admin [] w = (Inr (), w)"
| "post_tasks S admin (bs # rest) w =
    and_then (raise_for_status (post S admin (CreateTasks bs) w)) (\<lambda>_ w. post_tasks S admin rest w)"

definition bench_seed :: "'st server \<Rightarrow> string \<Rightarrow> string \<Rightarrow> nat \<Rightarrow> nat \<Rightarrow> 'st wire \<Rightarrow> (failure, string list, 'st wire) result" where
  "bench_seed S admin run n_claimants n_tasks w =
    and_then (raise_for_status (post S admin (CreateRubric (bench_rubric run)) w)) (\<lambda>rubric w.
    case rubric of
      RubricOut r \<Rightarrow>
        and_then (raise_for_status (post S admin (PutRateCards RATES) w)) (\<lambda>_ w.
        and_then (bench_experts S admin [0..<n_claimants] w) (\<lambda>keys w.
        and_then (post_tasks S admin (slices 250 (map (bench_task (uo_id r)) [0..<n_tasks])) w) (\<lambda>_ w.
        (Inr keys, w))))
    | _ \<Rightarrow> (Inl BadBody, w))"

section \<open>The phases\<close>

text \<open>A claimant takes up to a number of tasks and stops at the first answer that is not a task.\<close>

record claimant =
  bc_key :: string
  bc_left :: nat
  bc_claimed :: "uuid list"

definition claim_batch :: "'st server \<Rightarrow> claimant \<Rightarrow> 'st wire \<Rightarrow> claimant \<times> 'st wire" where
  "claim_batch S c w =
    (if bc_left c = 0 then (c, w)
     else case post S (bc_key c) NextTask w of
            (Inr (TaskOut v), w) \<Rightarrow> (c\<lparr>bc_left := bc_left c - 1, bc_claimed := bc_claimed c @ [ev_id v]\<rparr>, w)
          | (_, w) \<Rightarrow> (c\<lparr>bc_left := 0\<rparr>, w))"

fun claiming :: "'st server \<Rightarrow> nat list \<Rightarrow> claimant list \<Rightarrow> 'st wire \<Rightarrow> claimant list \<times> 'st wire" where
  "claiming S [] cs w = (cs, w)"
| "claiming S (i # schedule) cs w =
    (if i < length cs then (case claim_batch S (cs ! i) w of (c, w) \<Rightarrow> claiming S schedule (cs[i := c]) w)
     else claiming S schedule cs w)"

text \<open>
  The numbers a phase reports of its claims. \<open>None\<close> is a schedule that ends before all threads have, or no threads at all,
  which the pool refuses.
\<close>

definition phase :: "'st server \<Rightarrow> nat list \<Rightarrow> string list \<Rightarrow> nat \<Rightarrow> 'st wire \<Rightarrow> ((nat \<times> nat) \<times> 'st wire) option" where
  "phase S schedule keys per_claimant w =
    (if keys = [] then None
     else let (cs, w) = claiming S schedule (map (\<lambda>k. \<lparr>bc_key = k, bc_left = per_claimant, bc_claimed = []\<rparr>) keys) w;
              claimed = concat (map bc_claimed cs)
          in if list_all (\<lambda>c. bc_left c = 0) cs then Some ((length claimed, card (set claimed)), w) else None)"

text \<open>
  The part of \<open>main\<close> that talks to the server: the tasks are seeded, one claimant takes some, then all share the rest.
  \<open>handed_twice\<close> is the number printed of tasks handed to two claimants.
\<close>

definition bench_work :: "'st server \<Rightarrow> string \<Rightarrow> string \<Rightarrow> int \<Rightarrow> int \<Rightarrow> int \<Rightarrow> nat list \<Rightarrow> nat list \<Rightarrow> 'st wire \<Rightarrow>
    (failure, (nat \<times> nat) list, 'st wire) result option" where
  "bench_work S admin run claimants n_tasks solo schedule1 schedule2 w =
    proceed (Some (bench_seed S admin run (nat claimants) (nat n_tasks) w)) (\<lambda>keys w.
      case phase S schedule1 (take 1 keys) (nat solo) w of
        None \<Rightarrow> None
      | Some (row1, w) \<Rightarrow>
          (case phase S schedule2 keys (nat (max 1 ((n_tasks - solo) div int (length keys)))) w of
             None \<Rightarrow> None
           | Some (row2, w) \<Rightarrow> Some (Inr [row1, row2], w)))"

definition handed_twice :: "(nat \<times> nat) list \<Rightarrow> int" where
  "handed_twice rows = sum_list (map (\<lambda>(claims, different). int claims - int different) rows)"

end
