(* ===== verification/BenchFacts.thy ===== *)
theory BenchFacts
  imports Bench DemoFacts
begin

text \<open>
  What \<open>sim/bench.py\<close> checks of the queue: a phase counts the claims of its threads and the different tasks among them.
  While leases last, the two numbers agree under every schedule of the threads.
\<close>

section \<open>Tasks under a lease\<close>

text \<open>Whatever rows have the identifier are leased beyond every reading of the clock.\<close>

definition held :: "env \<Rightarrow> uuid \<Rightarrow> db \<Rightarrow> bool" where
  "held E i s \<longleftrightarrow> (\<forall>t \<in> set (tasks s). t_id t = i \<longrightarrow>
     t_status t = Assigned \<and> (\<exists>x. t_lease_expires_at t = Some x \<and> (\<forall>n. clock E n < x)))"

lemma held_tasks: "tasks s' = tasks s \<Longrightarrow> held E i s' = held E i s"
  by (simp add: held_def)

lemma held_swept: "held E i s \<Longrightarrow> held E i (swept E s)"
  unfolding held_def
proof (intro ballI impI)
  let ?now = "clock E (clock_pos s)"
  assume h: "\<forall>t \<in> set (tasks s). t_id t = i \<longrightarrow> t_status t = Assigned \<and> (\<exists>x. t_lease_expires_at t = Some x \<and> (\<forall>n. clock E n < x))"
  fix r assume r: "r \<in> set (tasks (swept E s))" "t_id r = i"
  then obtain t where t: "t \<in> set (tasks s)" "r = (if lease_expired ?now t then reclaimed t else t)"
    by (auto simp: swept_def update_where_set)
  with r(2) have "t_id t = i" by (simp split: if_splits)
  then obtain x where x: "t_status t = Assigned" "t_lease_expires_at t = Some x" "\<forall>n. clock E n < x" using h t(1) by blast
  then have "\<not> lease_expired ?now t" by (simp add: lease_expired_def not_less order_less_imp_le)
  then show "t_status r = Assigned \<and> (\<exists>x. t_lease_expires_at r = Some x \<and> (\<forall>n. clock E n < x))" using t(2) x by simp
qed

lemma claim_next_held:
  assumes "claim_next E eid locked s = (Inr (Some t), s')"
    and span: "\<And>i j. clock E i < clock E j + seconds (lease_seconds (cfg E))"
  shows "held E i s \<Longrightarrow> held E i s'" "held E (t_id t) s'" "\<not> held E (t_id t) s"
proof -
  obtain e u now where u: "claim_choice E e locked (swept E s) = Some u" "t = leased E eid now u"
      "now = clock E (Suc (clock_pos s))"
    and s': "core s' = core (modify_expert eid (\<lambda>e. e\<lparr>e_served_count := e_served_count e + 1\<rparr>)
         (modify_task (t_id u) (leased E eid now) (swept E s)))"
    using assms(1) by (cases rule: claim_next_cases) auto
  have ts: "tasks s' = update_row t_id (t_id u) (leased E eid now) (tasks (swept E s))"
    using s' by (simp add: core_eq_iff)
  have lease: "t_status (leased E eid now x) = Assigned \<and>
      (\<exists>x'. t_lease_expires_at (leased E eid now x) = Some x' \<and> (\<forall>n. clock E n < x'))" for x
    using span u(3) by simp
  show "held E i s'" if "held E i s"
    using held_swept [OF that] lease by (auto simp: held_def ts set_update_row)
  show "held E (t_id t) s'"
    using lease u(2) by (auto simp: held_def ts set_update_row)
  have "u \<in> set (tasks (swept E s))" "t_status u = Queued"
    using pick_SomeD(1,2) [OF claim_choice_SomeD(1) [OF u(1)]] by (simp_all add: eligibility_def)
  then have "\<not> held E (t_id u) (swept E s)" by (auto simp: held_def)
  then show "\<not> held E (t_id t) s" using held_swept u(2) by auto
qed

section \<open>A phase\<close>

text \<open>A request for the next task that hands out nothing keeps what is held.\<close>

lemma post_next_held:
  assumes "post S key NextTask w = (r, w')" "\<And>v. r \<noteq> Inr (TaskOut v)" "held (sv_env S) i (wire_db w)"
  shows "held (sv_env S) i (wire_db w')"
proof -
  obtain n s st n' s' st' where w: "w = (n, s, st)" "w' = (n', s', st')" by (metis prod_cases3)
  let ?s = "s\<lparr>tx_now := m_now (sv_moment S n)\<rparr>"
  show ?thesis
  proof (cases r)
    case (Inl e)
    from post_raises [OF assms(1) [unfolded Inl w]] obtain s1 where "s' = rolled_back s s1" by auto
    then show ?thesis using assms(3) held_tasks [of s' s] w by (simp add: wire_db_def)
  next
    case (Inr x)
    have "run_command (sv_env S) (sv_moment S n) NextTask (Some key) ?s = (Inr x, s')"
      by (rule post_returns(1) [OF assms(1) [unfolded Inr w]]) simp
    then obtain e v where v: "next_task (sv_env S) e (m_locked (sv_moment S n)) ?s = (Inr v, s')"
        and x: "x = (case v of None \<Rightarrow> NoContent | Some v \<Rightarrow> TaskOut v)"
      by (auto simp: responds_def result_simps as_expert_def current_expert_returns split: sum.splits)
    then have "v = None" using assms(2) Inr by (cases v) auto
    then have c: "claim_next (sv_env S) (e_id e) (m_locked (sv_moment S n)) ?s = (Inr None, s')"
      using v by (auto simp: next_task_def result_simps split: option.splits)
    have "tasks s' = tasks (swept (sv_env S) ?s)"
      using c by (cases rule: claim_next_cases) (auto simp: core_eq_iff)
    moreover have "held (sv_env S) i ?s" using assms(3) held_tasks [of ?s s] w by (simp add: wire_db_def)
    ultimately show ?thesis using held_swept held_tasks w by (metis wire_db_def fst_conv snd_conv)
  qed
qed

lemma claim_batch_cases:
  assumes "claim_batch S c w = (c', w')"
  obtains (stops) "bc_claimed c' = bc_claimed c" "bc_left c' \<le> bc_left c"
      "\<And>i. held (sv_env S) i (wire_db w) \<Longrightarrow> held (sv_env S) i (wire_db w')"
  | (takes) v where "bc_claimed c' = bc_claimed c @ [ev_id v]" "Suc (bc_left c') = bc_left c"
      "post S (bc_key c) NextTask w = (Inr (TaskOut v), w')"
proof (cases "bc_left c = 0")
  case True
  then show thesis using assms by (intro stops) (simp_all add: claim_batch_def)
next
  case False
  obtain r w1 where p: "post S (bc_key c) NextTask w = (r, w1)" by (metis surj_pair)
  show thesis
  proof (cases "\<exists>v. r = Inr (TaskOut v)")
    case True
    then obtain v where v: "r = Inr (TaskOut v)" by blast
    show thesis by (rule takes [of v]) (use assms False p v in \<open>auto simp: claim_batch_def\<close>)
  next
    case no: False
    then have "claim_batch S c w = (c\<lparr>bc_left := 0\<rparr>, w1)"
      using False p by (auto simp: claim_batch_def split: sum.splits response.splits)
    then show thesis using assms post_next_held [OF p] no by (intro stops) auto
  qed
qed

text \<open>What the threads of a phase keep: all they claimed is different and under a lease, and within their allowance.\<close>

definition phase_ok :: "env \<Rightarrow> nat \<Rightarrow> claimant list \<Rightarrow> db \<Rightarrow> bool" where
  "phase_ok E k cs s \<longleftrightarrow> distinct (concat (map bc_claimed cs)) \<and> (\<forall>i \<in> set (concat (map bc_claimed cs)). held E i s) \<and>
     (\<forall>c \<in> set cs. length (bc_claimed c) + bc_left c \<le> k)"

lemma mset_concat_update:
  assumes "i < length xs" "f y = f (xs ! i) @ [a]"
  shows "mset (concat (map f (xs[i := y]))) = add_mset a (mset (concat (map f xs)))"
  using assms
proof (induction xs arbitrary: i)
  case (Cons x xs)
  then show ?case by (cases i) auto
qed simp

lemma concat_update:
  assumes "i < length xs" "f y = f (xs ! i)"
  shows "map f (xs[i := y]) = map f xs"
  using assms by (metis list_update_id map_update)

lemma within_update:
  assumes "i < length xs" "\<forall>x \<in> set xs. f x \<le> k" "f y \<le> f (xs ! i)"
  shows "\<forall>x \<in> set (xs[i := y]). f x \<le> (k :: nat)"
  using assms(2) le_trans [OF assms(3)] nth_mem [OF assms(1)] set_update_subset_insert [of xs i y] by auto

lemma length_concat_le: "(\<forall>x \<in> set xs. length (f x) \<le> k) \<Longrightarrow> length (concat (map f xs)) \<le> length xs * k"
  by (induction xs) auto

lemma claim_batch_phase:
  assumes "claim_batch S (cs ! i) w = (c', w')" "i < length cs" "phase_ok (sv_env S) k cs (wire_db w)"
    and span: "\<And>i j. clock (sv_env S) i < clock (sv_env S) j + seconds (lease_seconds (cfg (sv_env S)))"
  shows "phase_ok (sv_env S) k (cs[i := c']) (wire_db w')"
  using assms(1)
proof (cases rule: claim_batch_cases)
  case stops
  have "\<forall>c \<in> set (cs[i := c']). length (bc_claimed c) + bc_left c \<le> k"
    using assms(2,3) stops(1,2) by (intro within_update) (auto simp: phase_ok_def)
  then show ?thesis
    using assms(3) stops(3) unfolding phase_ok_def concat_update [OF assms(2) stops(1)] by blast
next
  case (takes v)
  obtain n s st n' s' st' where w: "w = (n, s, st)" "w' = (n', s', st')" by (metis prod_cases3)
  let ?s = "s\<lparr>tx_now := m_now (sv_moment S n)\<rparr>"
  obtain eid t where t: "claim_next (sv_env S) eid (m_locked (sv_moment S n)) ?s = (Inr (Some t), s')" and id: "ev_id v = t_id t"
    by (rule next_task_claims [OF takes(3) [unfolded w]])
  note H = claim_next_held [OF t span]
  have begun: "held (sv_env S) j ?s = held (sv_env S) j s" for j by (rule held_tasks) simp
  have m: "mset (concat (map bc_claimed (cs[i := c']))) = mset (t_id t # concat (map bc_claimed cs))"
    using mset_concat_update [OF assms(2), of bc_claimed c'] takes(1) id by simp
  have "\<forall>c \<in> set (cs[i := c']). length (bc_claimed c) + bc_left c \<le> k"
    using assms(2,3) takes(1,2) by (intro within_update) (auto simp: phase_ok_def)
  moreover have old: "distinct (concat (map bc_claimed cs))" "\<forall>j \<in> set (concat (map bc_claimed cs)). held (sv_env S) j s"
    using assms(3) by (simp_all add: phase_ok_def w wire_db_def)
  have "distinct (t_id t # concat (map bc_claimed cs))" using old H(3) begun by auto
  then have "distinct (concat (map bc_claimed (cs[i := c'])))" using mset_eq_imp_distinct_iff [OF m] by blast
  moreover have "\<forall>j \<in> set (concat (map bc_claimed (cs[i := c']))). held (sv_env S) j s'"
    unfolding mset_eq_setD [OF m] using old(2) H(1,2) begun by auto
  ultimately show ?thesis unfolding phase_ok_def by (simp add: w wire_db_def)
qed

lemma claiming_phase:
  assumes "claiming S schedule cs w = (cs', w')" "phase_ok (sv_env S) k cs (wire_db w)"
    and span: "\<And>i j. clock (sv_env S) i < clock (sv_env S) j + seconds (lease_seconds (cfg (sv_env S)))"
  shows "phase_ok (sv_env S) k cs' (wire_db w')" "length cs' = length cs"
proof -
  have "phase_ok (sv_env S) k cs' (wire_db w') \<and> length cs' = length cs"
    using assms(1,2)
  proof (induction schedule arbitrary: cs w)
    case (Cons i schedule)
    show ?case
    proof (cases "i < length cs")
      case True
      obtain c w1 where c: "claim_batch S (cs ! i) w = (c, w1)" by (metis surj_pair)
      then show ?thesis
        using Cons.IH [of "cs[i := c]" w1] Cons.prems True claim_batch_phase [OF c True Cons.prems(2) span] by simp
    qed (use Cons in simp)
  qed simp
  then show "phase_ok (sv_env S) k cs' (wire_db w')" "length cs' = length cs" by simp_all
qed

lemma phase_distinct:
  assumes "\<And>i j. clock (sv_env S) i < clock (sv_env S) j + seconds (lease_seconds (cfg (sv_env S)))"
    and "phase S schedule keys per_claimant w = Some ((claims, different), w')"
  shows "different = claims \<and> claims \<le> length keys * per_claimant"
proof -
  let ?cs = "map (\<lambda>k. \<lparr>bc_key = k, bc_left = per_claimant, bc_claimed = []\<rparr>) keys"
  obtain cs w1 where run: "claiming S schedule ?cs w = (cs, w1)" by (metis surj_pair)
  have "concat (map bc_claimed ?cs) = []" by auto
  then have "phase_ok (sv_env S) per_claimant ?cs (wire_db w)" by (simp only: phase_ok_def) auto
  note P = claiming_phase [OF run this assms(1)]
  have "claims = length (concat (map bc_claimed cs))" "different = card (set (concat (map bc_claimed cs)))"
    using assms(2) by (simp_all add: phase_def run Let_def split: if_splits)
  moreover have "length (concat (map bc_claimed cs)) \<le> length cs * per_claimant"
    using P(1) unfolding phase_ok_def by (intro length_concat_le) (auto dest: add_leD1)
  moreover have "card (set (concat (map bc_claimed cs))) = length (concat (map bc_claimed cs))"
    using P(1) unfolding phase_ok_def by (blast intro: distinct_card)
  ultimately show ?thesis using P(2) by simp
qed

text \<open>So a benchmark hands no task out twice.\<close>

lemma bench_hands_out_once:
  assumes "\<And>i j. clock (sv_env S) i < clock (sv_env S) j + seconds (lease_seconds (cfg (sv_env S)))"
    and "bench_work S admin run claimants n_tasks solo schedule1 schedule2 w = Some (Inr rows, w')"
  shows "handed_twice rows = 0"
proof -
  from assms(2) obtain keys w1 c1 d1 w2 c2 d2 where one:
      "phase S schedule1 (take 1 keys) (nat solo) w1 = Some ((c1, d1), w2)"
    and all: "phase S schedule2 keys (nat (max 1 ((n_tasks - solo) div int (length keys)))) w2 = Some ((c2, d2), w')"
    and rows: "rows = [(c1, d1), (c2, d2)]"
    by (auto simp: bench_work_def proceed_def split: option.splits sum.splits prod.splits)
  have "d1 = c1" "d2 = c2" using phase_distinct [OF assms(1) one] phase_distinct [OF assms(1) all] by blast+
  then show ?thesis by (simp add: handed_twice_def rows)
qed

lemma percentile_member:
  assumes "values \<noteq> []" "0 \<le> p"
  shows "\<exists>x \<in> set values. percentile values p = Some x"
proof -
  let ?i = "min (int (length values) - 1) (py_int (of_nat (length values) * p))"
  have "0 \<le> of_nat (length values) * p" using assms(2) by simp
  then have "0 \<le> ?i" "?i < int (length values)" using assms by (auto simp: py_int_def)
  moreover from this have "nat ?i < length (sort values)" by (simp only: length_sort)
  then have "sort values ! nat ?i \<in> set (sort values)" by (rule nth_mem)
  ultimately show ?thesis using assms(1) by (auto simp: percentile_def Let_def)
qed

section \<open>Properties\<close>

text \<open>
  C37: while every reading of the clock lies within a lease of every other, a phase never claims a task twice, under every
  schedule of its threads: the claims it reports are all distinct, and no thread takes more than its share.
\<close>

theorem bench_claims_distinct:
  assumes "\<And>i j. clock (sv_env S) i < clock (sv_env S) j + seconds (lease_seconds (cfg (sv_env S)))"
    and "phase S schedule keys per_claimant w = Some ((claims, different), w')"
  shows "different = claims \<and> claims \<le> length keys * per_claimant"
  by (rule phase_distinct [OF assms])

text \<open>A server whose clock stands still, and three tasks in its queue for an expert with a key.\<close>

definition staffed_db :: db where
  "staffed_db = sample_db\<lparr>api_keys := [(sample_key 33 ExpertRole (Some 4))\<lparr>k_key_hash := hash_key sample_env ''one''\<rparr>]\<rparr>"

definition still_server :: "(string \<Rightarrow> string option) server" where
  "still_server = \<lparr>sv_env = sample_env\<lparr>clock := (\<lambda>_. 0)\<rparr>, sv_io = sample_storage, sv_sqrt = (\<lambda>x. x),
     sv_moment = (\<lambda>_. sample_moment)\<rparr>"

text \<open>With one claim each, two turns finish both threads.\<close>

lemma claim_batch_one: "bc_left c = 1 \<Longrightarrow> bc_left (fst (claim_batch S c w)) = 0"
  by (auto simp: claim_batch_def split: prod.splits sum.splits response.splits)

theorem bench_claims_distinct_witness:
  "\<exists>claims w'. phase still_server [1, 0] [''one'', ''two''] 1 (0, staffed_db, \<lambda>_. None) = Some ((claims, claims), w') \<and> claims \<le> 2"
proof -
  let ?w = "(0, staffed_db, \<lambda>_. None)"
  let ?a = "\<lparr>bc_key = ''one'', bc_left = 1, bc_claimed = []\<rparr>" and ?b = "\<lparr>bc_key = ''two'', bc_left = 1, bc_claimed = []\<rparr>"
  obtain b w1 where b: "claim_batch still_server ?b ?w = (b, w1)" by (metis surj_pair)
  obtain a w2 where a: "claim_batch still_server ?a w1 = (a, w2)" by (metis surj_pair)
  have "bc_left a = 0" "bc_left b = 0" using claim_batch_one [of ?a still_server w1] claim_batch_one [of ?b still_server ?w] a b by simp_all
  then obtain claims d where run: "phase still_server [1, 0] [''one'', ''two''] 1 ?w = Some ((claims, d), w2)"
    using a b by (simp add: phase_def Let_def)
  have "clock (sv_env still_server) i < clock (sv_env still_server) j + seconds (lease_seconds (cfg (sv_env still_server)))" for i j
    by (simp add: still_server_def sample_env_def default_settings_def seconds_def)
  from bench_claims_distinct [OF this run] run show ?thesis by (intro exI [of _ claims] exI [of _ w2]) simp
qed

end
