(* ===== verification/BenchSession.thy ===== *)
theory BenchSession
  imports Prelude Pytext
begin

text \<open>
  A session of the benchmark (\<open>sim/bench_session.py\<close>): the processes it runs and the servers it starts, as a trace of
  actions and of how they ended. What the machine does (whether a process succeeds, a server comes up or exits in time)
  may depend on all that happened before and is a parameter. The files of the session, its output and the time it waits
  are not modelled.
\<close>

section \<open>Processes\<close>

text \<open>A process and whether it passed, a server started, the health check of an address and whether it was answered in the
  end, and the steps of stopping a server: the signal, the wait that runs out, the kill, the wait that returns.\<close>

datatype action =
    Python "string list" bool
  | Serve "string list"
  | Asked string bool
  | Terminate
  | TimedOut
  | Kill
  | Reap

text \<open>\<open>CalledProcessError\<close> of a process that fails, \<open>OSError\<close> of a server that cannot be started, and \<open>SystemExit\<close>.\<close>

datatype stop = ProcessFailed "string list" | NotStarted | Exit string

record machine =
  passes :: "action list \<Rightarrow> string list \<Rightarrow> bool"
  starts :: "action list \<Rightarrow> bool"
  healthy :: "action list \<Rightarrow> string \<Rightarrow> nat \<Rightarrow> bool"
  exits_in_time :: "action list \<Rightarrow> bool"
  holds_runs :: "string \<Rightarrow> bool"

type_synonym 'a traced = "(stop, 'a, action list) result"

definition run_python :: "machine \<Rightarrow> string list \<Rightarrow> action list \<Rightarrow> unit traced" where
  "run_python M args tr =
    (let passed = passes M tr args in (if passed then Inr () else Inl (ProcessFailed args), tr @ [Python args passed]))"

definition reset_schema :: "machine \<Rightarrow> action list \<Rightarrow> unit traced" where
  "reset_schema M tr =
    and_then (run_python M [''-m'', ''alembic'', ''downgrade'', ''base''] tr)
      (\<lambda>_ tr. run_python M [''-m'', ''alembic'', ''upgrade'', ''head''] tr)"

section \<open>The server of several workers\<close>

text \<open>\<open>wait_for\<close> of \<open>sim/bench.py\<close> asks at most 100 times.\<close>

definition wait_for :: "machine \<Rightarrow> string \<Rightarrow> action list \<Rightarrow> unit traced" where
  "wait_for M base tr =
    (let up = list_ex (healthy M tr base) [0..<100]
     in (if up then Inr () else Inl (Exit (''no API at '' @ base)), tr @ [Asked base up]))"

definition server_command :: "nat \<Rightarrow> nat \<Rightarrow> string list" where
  "server_command port workers = [''-m'', ''uvicorn'', ''panelist.main:app'', ''--port'', nat_digits port, ''--workers'', nat_digits workers,
     ''--log-level'', ''warning'']"

definition stop_server :: "machine \<Rightarrow> action list \<Rightarrow> action list" where
  "stop_server M tr = (let tr = tr @ [Terminate] in if exits_in_time M tr then tr @ [Reap] else tr @ [TimedOut, Kill, Reap])"

text \<open>The context manager: the body runs between the start and the stop, and an exception of the body or of the wait
  comes after the stop.\<close>

definition multi_worker_server :: "machine \<Rightarrow> nat \<Rightarrow> nat \<Rightarrow> (string \<Rightarrow> action list \<Rightarrow> 'a traced) \<Rightarrow> action list \<Rightarrow> 'a traced" where
  "multi_worker_server M port workers body tr =
    (if \<not> starts M tr then (Inl NotStarted, tr)
     else let base = ''http://127.0.0.1:'' @ nat_digits port;
              (r, tr) = and_then (wait_for M base (tr @ [Serve (server_command port workers)])) (\<lambda>_ tr. body base tr)
          in (r, stop_server M tr))"

section \<open>The session\<close>

definition session_round :: "machine \<Rightarrow> string \<Rightarrow> nat \<Rightarrow> nat \<Rightarrow> action list \<Rightarrow> unit traced" where
  "session_round M json port workers tr =
    and_then (reset_schema M tr) (\<lambda>_ tr.
    and_then (run_python M [''-m'', ''sim.bench'', ''--json'', json] tr) (\<lambda>_ tr.
    and_then (reset_schema M tr) (\<lambda>_ tr.
    multi_worker_server M port workers
      (\<lambda>base tr. run_python M [''-m'', ''sim.bench'', ''--base-url'', base, ''--json'', json] tr) tr)))"

fun session_rounds :: "machine \<Rightarrow> string \<Rightarrow> nat \<Rightarrow> nat \<Rightarrow> nat \<Rightarrow> action list \<Rightarrow> unit traced" where
  "session_rounds M json port workers 0 tr = (Inr (), tr)"
| "session_rounds M json port workers (Suc n) tr =
    and_then (session_round M json port workers tr) (\<lambda>_ tr. session_rounds M json port workers n tr)"

definition bench_session :: "machine \<Rightarrow> string \<Rightarrow> int \<Rightarrow> nat \<Rightarrow> nat \<Rightarrow> action list \<Rightarrow> int traced" where
  "bench_session M json n port workers tr =
    (if holds_runs M json then (Inl (Exit (json @ '' already holds runs; a session starts a new artifact'')), tr)
     else and_then (session_rounds M json port workers (nat n) tr) (\<lambda>_ tr. (Inr 0, tr)))"

section \<open>What a session promises\<close>

text \<open>
  An observer of the trace, who knows the path of the artifact. The schema is fresh after a downgrade and an upgrade that
  both passed, until a benchmark starts. A server is off, starting at the address of its command line, up once a check of
  that address was answered, being stopped, past the time it was given, or killed. After a process that failed or
  a check that was not answered the session is halted: nothing is run or started any more.
\<close>

datatype schema_state = Stale | Emptied | Fresh

datatype server_state = Off | Starting string | Up string | Ending | Overdue | Killed

record observed =
  ob_schema :: schema_state
  ob_server :: server_state
  ob_halted :: bool
  ob_orderly :: bool
  ob_alone :: nat
  ob_served :: nat

definition at_start :: observed where
  "at_start = \<lparr>ob_schema = Stale, ob_server = Off, ob_halted = False, ob_orderly = True, ob_alone = 0, ob_served = 0\<rparr>"

fun option_value :: "string \<Rightarrow> string list \<Rightarrow> string" where
  "option_value key (a # b # rest) = (if a = key then b else option_value key (b # rest))"
| "option_value key _ = []"

definition address_of :: "string list \<Rightarrow> string" where
  "address_of command = ''http://127.0.0.1:'' @ option_value ''--port'' command"

definition expect :: "bool \<Rightarrow> observed \<Rightarrow> observed" where
  "expect b v = v\<lparr>ob_orderly := ob_orderly v \<and> b\<rparr>"

text \<open>
  A reset runs while no server does. A benchmark runs on a fresh schema and adds to the artifact: either alone, with no
  server beside it, or against the address of the one that is up. No other process belongs to a session.
\<close>

fun observe :: "string \<Rightarrow> action \<Rightarrow> observed \<Rightarrow> observed" where
  "observe json (Python args passed) v =
    (let w = expect (\<not> ob_halted v) (v\<lparr>ob_halted := ob_halted v \<or> \<not> passed\<rparr>) in
     if args = [''-m'', ''alembic'', ''downgrade'', ''base'']
     then expect (ob_server v = Off) (w\<lparr>ob_schema := if passed then Emptied else Stale\<rparr>)
     else if args = [''-m'', ''alembic'', ''upgrade'', ''head'']
     then expect (ob_server v = Off) (w\<lparr>ob_schema := if passed \<and> ob_schema v = Emptied then Fresh else Stale\<rparr>)
     else if args = [''-m'', ''sim.bench'', ''--json'', json]
     then expect (ob_schema v = Fresh \<and> ob_server v = Off) (w\<lparr>ob_schema := Stale, ob_alone := ob_alone v + (if passed then 1 else 0)\<rparr>)
     else case ob_server v of
       Up url \<Rightarrow> expect (ob_schema v = Fresh \<and> args = [''-m'', ''sim.bench'', ''--base-url'', url, ''--json'', json])
         (w\<lparr>ob_schema := Stale, ob_served := ob_served v + (if passed then 1 else 0)\<rparr>)
     | _ \<Rightarrow> expect False w)"
| "observe json (Serve command) v = expect (\<not> ob_halted v \<and> ob_server v = Off \<and> ob_schema v = Fresh) (v\<lparr>ob_server := Starting (address_of command)\<rparr>)"
| "observe json (Asked url up) v = expect (\<not> ob_halted v \<and> ob_server v = Starting url)
     (v\<lparr>ob_server := (if up then Up url else ob_server v), ob_halted := ob_halted v \<or> \<not> up\<rparr>)"
| "observe json Terminate v = expect (case ob_server v of Starting _ \<Rightarrow> True | Up _ \<Rightarrow> True | _ \<Rightarrow> False) (v\<lparr>ob_server := Ending\<rparr>)"
| "observe json TimedOut v = expect (ob_server v = Ending) (v\<lparr>ob_server := Overdue\<rparr>)"
| "observe json Kill v = expect (ob_server v = Overdue) (v\<lparr>ob_server := Killed\<rparr>)"
| "observe json Reap v = expect (ob_server v = Ending \<or> ob_server v = Killed) (v\<lparr>ob_server := Off\<rparr>)"

definition seen :: "string \<Rightarrow> action list \<Rightarrow> observed" where
  "seen json tr = fold (observe json) tr at_start"

lemma seen_Nil [simp]: "seen json [] = at_start"
  by (simp add: seen_def)

lemma seen_append [simp]: "seen json (tr @ as) = fold (observe json) as (seen json tr)"
  by (simp add: seen_def)

lemma expect_simps [simp]:
  "ob_schema (expect b v) = ob_schema v" "ob_server (expect b v) = ob_server v" "ob_halted (expect b v) = ob_halted v"
  "ob_orderly (expect b v) \<longleftrightarrow> ob_orderly v \<and> b" "ob_alone (expect b v) = ob_alone v" "ob_served (expect b v) = ob_served v"
  by (simp_all add: expect_def)

lemma server_address [simp]: "address_of (server_command port workers) = ''http://127.0.0.1:'' @ nat_digits port"
  by (simp add: address_of_def server_command_def)

text \<open>Between two rounds all is quiet; a stretch of the session leaves it quiet, or ends the session in order.\<close>

definition quiet :: "observed \<Rightarrow> bool" where
  "quiet v \<longleftrightarrow> ob_orderly v \<and> ob_server v = Off \<and> \<not> ob_halted v"

text \<open>Why a session ended early: a process that failed, a server that did not start or did not answer.\<close>

definition ended_by :: "string \<Rightarrow> stop \<Rightarrow> action list \<Rightarrow> bool" where
  "ended_by json e tr \<longleftrightarrow> ob_orderly (seen json tr) \<and> ob_server (seen json tr) = Off \<and> (case e of
     ProcessFailed args \<Rightarrow> ob_halted (seen json tr) \<and> Python args False \<in> set tr
   | NotStarted \<Rightarrow> \<not> ob_halted (seen json tr)
   | Exit m \<Rightarrow> ob_halted (seen json tr) \<and> (\<exists>url. m = ''no API at '' @ url \<and> Asked url False \<in> set tr))"

lemma reset_schema_seen:
  assumes "quiet (seen json tr)" "reset_schema M tr = (r, tr')"
  shows "case r of
     Inr _ \<Rightarrow> quiet (seen json tr') \<and> ob_schema (seen json tr') = Fresh \<and>
       ob_alone (seen json tr') = ob_alone (seen json tr) \<and> ob_served (seen json tr') = ob_served (seen json tr)
   | Inl e \<Rightarrow> ended_by json e tr'"
  using assms by (auto simp: reset_schema_def run_python_def and_then_def quiet_def ended_by_def Let_def split: if_splits)

lemma bench_alone_seen:
  assumes "quiet (seen json tr)" "ob_schema (seen json tr) = Fresh" "run_python M [''-m'', ''sim.bench'', ''--json'', json] tr = (r, tr')"
  shows "case r of
     Inr _ \<Rightarrow> quiet (seen json tr') \<and> ob_alone (seen json tr') = ob_alone (seen json tr) + 1 \<and>
       ob_served (seen json tr') = ob_served (seen json tr)
   | Inl e \<Rightarrow> ended_by json e tr'"
  using assms by (auto simp: run_python_def quiet_def ended_by_def Let_def split: if_splits)

lemma stop_server_seen:
  assumes "ob_orderly (seen json tr)" "case ob_server (seen json tr) of Starting _ \<Rightarrow> True | Up _ \<Rightarrow> True | _ \<Rightarrow> False"
  shows "ob_orderly (seen json (stop_server M tr)) \<and> ob_server (seen json (stop_server M tr)) = Off \<and>
    ob_halted (seen json (stop_server M tr)) = ob_halted (seen json tr) \<and> ob_alone (seen json (stop_server M tr)) = ob_alone (seen json tr) \<and>
    ob_served (seen json (stop_server M tr)) = ob_served (seen json tr) \<and> set tr \<subseteq> set (stop_server M tr)"
  using assms by (auto simp: stop_server_def Let_def)

lemma bench_served_seen:
  assumes "quiet (seen json tr)" "ob_schema (seen json tr) = Fresh"
    "multi_worker_server M port workers
      (\<lambda>base tr. run_python M [''-m'', ''sim.bench'', ''--base-url'', base, ''--json'', json] tr) tr = (r, tr')"
  shows "case r of
     Inr _ \<Rightarrow> quiet (seen json tr') \<and> ob_alone (seen json tr') = ob_alone (seen json tr) \<and>
       ob_served (seen json tr') = ob_served (seen json tr) + 1
   | Inl e \<Rightarrow> ended_by json e tr'"
proof (cases "starts M tr")
  case False
  then show ?thesis using assms by (auto simp: multi_worker_server_def quiet_def ended_by_def)
next
  case True
  let ?base = "''http://127.0.0.1:'' @ nat_digits port" and ?tr = "tr @ [Serve (server_command port workers)]"
  let ?args = "[''-m'', ''sim.bench'', ''--base-url'', ?base, ''--json'', json]"
  define up where "up = list_ex (healthy M ?tr ?base) [0..<100]"
  define tr1 where "tr1 = ?tr @ [Asked ?base up]"
  have one: "ob_orderly (seen json tr1)" "ob_server (seen json tr1) = (if up then Up ?base else Starting ?base)"
      "ob_halted (seen json tr1) = (\<not> up)" "ob_schema (seen json tr1) = Fresh"
      "ob_alone (seen json tr1) = ob_alone (seen json tr)" "ob_served (seen json tr1) = ob_served (seen json tr)"
    using assms(1,2) unfolding tr1_def seen_append by (simp_all add: quiet_def)
  show ?thesis
  proof (cases up)
    case False
    then have "(r, tr') = (Inl (Exit (''no API at '' @ ?base)), stop_server M tr1)"
      using assms(3) True by (simp add: multi_worker_server_def wait_for_def and_then_def Let_def up_def tr1_def)
    moreover have "Asked ?base False \<in> set tr1" using False by (simp add: tr1_def)
    ultimately show ?thesis using stop_server_seen [of json tr1 M] one False by (auto simp: ended_by_def)
  next
    case up: True
    define passed where "passed = passes M tr1 ?args"
    define tr2 where "tr2 = tr1 @ [Python ?args passed]"
    have "(r, tr') = (if passed then Inr () else Inl (ProcessFailed ?args), stop_server M tr2)"
      using assms(3) True up
      by (auto simp: multi_worker_server_def wait_for_def run_python_def and_then_def Let_def up_def tr1_def tr2_def passed_def)
    moreover have "ob_orderly (seen json tr2)" "ob_server (seen json tr2) = Up ?base" "ob_halted (seen json tr2) = (\<not> passed)"
        "ob_alone (seen json tr2) = ob_alone (seen json tr)" "ob_served (seen json tr2) = ob_served (seen json tr) + (if passed then 1 else 0)"
      using one up unfolding tr2_def seen_append by simp_all
    moreover have "Python ?args passed \<in> set tr2" by (simp add: tr2_def)
    ultimately show ?thesis using stop_server_seen [of json tr2 M] by (auto simp: ended_by_def quiet_def)
  qed
qed

lemma session_round_seen:
  assumes "quiet (seen json tr)" "session_round M json port workers tr = (r, tr')"
  shows "case r of
     Inr _ \<Rightarrow> quiet (seen json tr') \<and> ob_alone (seen json tr') = ob_alone (seen json tr) + 1 \<and>
       ob_served (seen json tr') = ob_served (seen json tr) + 1
   | Inl e \<Rightarrow> ended_by json e tr'"
proof -
  obtain r1 tr1 where 1: "reset_schema M tr = (r1, tr1)" by fastforce
  obtain r2 tr2 where 2: "run_python M [''-m'', ''sim.bench'', ''--json'', json] tr1 = (r2, tr2)" by fastforce
  obtain r3 tr3 where 3: "reset_schema M tr2 = (r3, tr3)" by fastforce
  note seen1 = reset_schema_seen [OF assms(1) 1] and run = assms(2) [unfolded session_round_def and_then_def 1 prod.case]
  show ?thesis
  proof (cases r1)
    case (Inl e)
    then show ?thesis using seen1 run by auto
  next
    case r1: (Inr x)
    have q1: "quiet (seen json tr1)" "ob_schema (seen json tr1) = Fresh" using seen1 r1 by simp_all
    note seen2 = bench_alone_seen [OF q1 2]
    show ?thesis
    proof (cases r2)
      case (Inl e)
      then show ?thesis using seen2 run r1 2 by auto
    next
      case r2: (Inr x)
      have q2: "quiet (seen json tr2)" using seen2 r2 by simp
      note seen3 = reset_schema_seen [OF q2 3]
      show ?thesis
      proof (cases r3)
        case (Inl e)
        then show ?thesis using seen3 run r1 r2 2 3 by auto
      next
        case r3: (Inr x)
        have q3: "quiet (seen json tr3)" "ob_schema (seen json tr3) = Fresh" using seen3 r3 by simp_all
        have "multi_worker_server M port workers
            (\<lambda>base tr. run_python M [''-m'', ''sim.bench'', ''--base-url'', base, ''--json'', json] tr) tr3 = (r, tr')"
          using run by (simp add: r1 r2 r3 2 3)
        from bench_served_seen [OF q3 this] show ?thesis
          using seen1 seen2 seen3 r1 r2 r3 by (cases r) simp_all
      qed
    qed
  qed
qed

lemma session_rounds_seen:
  "quiet (seen json tr) \<Longrightarrow> session_rounds M json port workers n tr = (r, tr') \<Longrightarrow> case r of
     Inr _ \<Rightarrow> quiet (seen json tr') \<and> ob_alone (seen json tr') = ob_alone (seen json tr) + n \<and>
       ob_served (seen json tr') = ob_served (seen json tr) + n
   | Inl e \<Rightarrow> ended_by json e tr'"
proof (induction n arbitrary: tr)
  case (Suc n)
  obtain r1 tr1 where round: "session_round M json port workers tr = (r1, tr1)" by fastforce
  note seen1 = session_round_seen [OF Suc.prems(1) round]
  show ?case
  proof (cases r1)
    case (Inl e)
    then show ?thesis using Suc.prems(2) round seen1 by (auto simp: and_then_def)
  next
    case (Inr x)
    then have "session_rounds M json port workers n tr1 = (r, tr')" using Suc.prems(2) round by (simp add: and_then_def)
    then show ?thesis using Suc.IH [of tr1] seen1 Inr by (auto split: sum.splits)
  qed
qed (auto split: sum.split)

text \<open>
  C38: a session is orderly, whatever fails on the way. Each benchmark runs on a schema that was downgraded and upgraded
  since the one before, both with success, and adds to the artifact of the session: either while no server runs, or
  against the address of the server started for it, once that answered. After a process that failed or a server that
  did not answer nothing more is run. Every server started is told to terminate, killed only when it does not exit in time,
  and collected. A session that returns has run its rounds, one benchmark of each kind per round, all passed; one that
  raises names what failed, or refused an artifact that holds runs before it did anything.
\<close>

theorem session_is_orderly:
  "case bench_session M json n port workers [] of
     (Inr status, tr) \<Rightarrow> status = 0 \<and> quiet (seen json tr) \<and> ob_alone (seen json tr) = nat n \<and> ob_served (seen json tr) = nat n
   | (Inl e, tr) \<Rightarrow> ended_by json e tr \<or> holds_runs M json \<and> tr = []"
proof -
  obtain r tr where run: "session_rounds M json port workers (nat n) [] = (r, tr)" by fastforce
  have "quiet (seen json [])" by (simp add: quiet_def at_start_def)
  from session_rounds_seen [OF this run] show ?thesis
    by (cases r) (auto simp: bench_session_def and_then_def run at_start_def)
qed

end
