(* ===== verification/Spec2Isabelle.thy ===== *)
theory Spec2Isabelle
  imports Accounts Upgrades Application DemoBooks Fingerprint BenchFacts BenchSession
begin

text \<open>
  Panelist grades responses of language models with paid experts: tasks are queued, claimed under a lease,
  graded against a rubric, reviewed or settled by consensus and adjudication, paid, and shipped as versioned
  datasets. This development models the service (\<open>src/panelist\<close>) over its database and proves what makes
  it correct.

  State. \<open>db\<close> (\<open>Models\<close>) is the session of a request: one list of rows per table of \<open>models.py\<close>, the two
  sequences, the time of the transaction, how many clock readings and identifiers were drawn, and the
  metrics emitted. A row is a record whose fields are the columns. An operation is a function from \<open>db\<close> to
  an error or a result, and the \<open>db\<close> it leaves; every \<open>raise\<close>, \<open>HTTPException\<close>, violated constraint and
  missing attribute is an \<open>error\<close>. Inserts check keys, unique constraints and foreign keys as the tables do.

  Theories and code, in the order of import.
  \<^item> \<open>Prelude\<close>: results that may raise, tables as lists of rows, selections, rounding. \<open>Pytext\<close>, \<open>Textio\<close>:
    the text of integers, times, identifiers and JSON, and the CSV writer with a reader. \<open>Floats\<close>: binary64
    (round to nearest, ties to even) and the compensated \<open>sum\<close> of Python 3.12.
  \<^item> \<open>Models\<close>, \<open>Tables\<close>, \<open>AuditTrail\<close>: \<open>models.py\<close>, \<open>config.py\<close>, \<open>services/errors.py\<close>, \<open>services/audit.py\<close>.
    \<open>Samples\<close>: the rows the witnesses use.
  \<^item> \<open>Payouts\<close>, \<open>Attention\<close>, \<open>Calibration\<close>, \<open>Routing\<close>, \<open>Rubrics\<close>, \<open>Consensus\<close>, \<open>Grading\<close>, \<open>Delivery\<close>,
    \<open>Analytics\<close>, \<open>Ops\<close>: the module of that name under \<open>services/\<close>; \<open>Ops\<close> also the gauges of \<open>metrics.py\<close>.
    \<open>Reports\<close>: the CSV files of \<open>audit.py\<close> and \<open>payouts.py\<close>.
  \<^item> \<open>Auth\<close>: \<open>auth.py\<close> and \<open>routers/admin.py\<close>. \<open>Api\<close>: the bodies of \<open>schemas.py\<close> and the handlers of
    \<open>routers/\<close>. \<open>Requests\<close>: every endpoint with its guard, its validation and its transaction.
  \<^item> \<open>History\<close>, \<open>System\<close>, \<open>Invariants\<close>, \<open>Reachable\<close>, \<open>Workflow\<close>, \<open>Accounts\<close>: the service as a transition
    system. \<open>effect\<close> is one committed operation, \<open>happens\<close> one event (a request that commits or is rolled
    back, a query, a tick or a bootstrap of \<open>cli.py\<close>), \<open>reachable\<close> the states events lead to from empty tables.
    \<open>Responses\<close>: the response models of \<open>schemas.py\<close>. \<open>Application\<close>: \<open>db.py\<close>, the routes of \<open>main.py\<close> that need no key
    and \<open>cli.py\<close> as a process.
  \<^item> \<open>Catalog\<close>, \<open>Metadata\<close>, \<open>Migrations\<close>, \<open>Upgrades\<close>: a catalogue of tables, columns, keys, indexes and enum types with
    the rows it holds, the operations of a revision on it, the metadata \<open>models.py\<close> declares, the five revisions under
    \<open>alembic/versions\<close>, up and down, statement by statement, and what running them does.
  \<^item> \<open>World\<close>, \<open>WorldFacts\<close>: \<open>sim/world.py\<close> over a random generator. \<open>Demo\<close>, \<open>DemoFacts\<close>, \<open>DemoRun\<close>, \<open>DemoBooks\<close>,
    \<open>Fingerprint\<close>: \<open>sim/demo.py\<close>. \<open>Bench\<close>, \<open>BenchFacts\<close>: \<open>sim/bench.py\<close>. \<open>BenchSession\<close>: \<open>sim/bench_session.py\<close>, a
    trace of calls to the operating system with their outcomes. A client's state (\<open>wire\<close>) is the number of
    requests made, the database and the store; a thread takes one request per step, and a pool runs under a
    schedule, the list of the threads in the order of their steps.

  How the parts meet. A router resolves the key (\<open>authenticate\<close>, \<open>require_scopes\<close>, \<open>current_expert\<close>), calls
  one service and commits. A grade (\<open>submit\<close>) moves its task, opens a round when it is the last one
  (\<open>evaluate\<close>), and on a golden task runs the check, the pause and the calibration (\<open>aftermath\<close>). A review
  pays (\<open>create_for_grade\<close>), moves the task, replaces the pick of a round (\<open>redeliver\<close>) and recalibrates; an
  adjudication (\<open>resolve\<close>) does so for every grade of a task. An export selects from all of these.

  What is proved.
  \<^item> Per operation, in the theory of its component: what it does on every branch, when it is refused, what it
    keeps; the case lemmas \<open><operation>_cases\<close> invert a returning run, the frame lemmas \<open><operation>_frame\<close>
    say which tables it leaves alone, \<open>core\<close> is the database without its bookkeeping.
  \<^item> Optimised or derived code against a reference: the merged signals, the grouped ledger, the CSV files read
    back, the skip of locked rows against a serial order, the delivered grade against the order of rows.
  \<^item> \<open>History\<close>: no event takes back history. \<open>Invariants\<close>: the tables stay in order. \<open>Workflow\<close>: the life of
    a task, and the abstract workflow every event refines. \<open>Reachable\<close>: a listed delivery stays verifiable.
    \<open>Accounts\<close>: deliveries and the report of a tick account for every approved task.
  \<^item> \<open>Upgrades\<close>: the schema at head is the schema of the models; an upgrade from any revision is accepted and keeps the
    values it found; a downgrade is accepted and leaves nothing.
  \<^item> The clients against the service: the world is accepted whole and its grades fit (\<open>WorldFacts\<close>), the loops that
    review and adjudicate return, and they leave nothing to do unless their last request failed or the client
    itself had no answer (\<open>DemoFacts\<close>), experts are served by tag under every schedule (\<open>DemoRun\<close>), a run is a
    path of the service and closes its books as the tables say (\<open>DemoBooks\<close>), no task is claimed twice in a
    phase (\<open>BenchFacts\<close>), every benchmark meets its own server, freshly reset, and none is left running
    (\<open>BenchSession\<close>), a recorded run is checked independently of the time of the check (\<open>Fingerprint\<close>).
  \<^item> Interfaces are locales: \<open>keyed_table\<close> (lookup and update of a table), \<open>total_order_key\<close> (selection by a
    key), \<open>payout_book\<close> (one payout per grade), \<open>kept\<close> (an invariant of the running service), \<open>draining\<close> (a loop of a
    client whose turns leave less to do), \<open>lasting\<close> and \<open>looking\<close> (a relation every request of a client keeps).

  Parameters and assumptions. The record \<open>env\<close> carries the settings, the clock, the identifiers drawn, SHA-256,
  the counters of the metrics library, the collation and the text of a float; \<open>storage\<close> carries the object
  store and the file system; the square root of the sample deviation and the random text of a key are
  arguments. Where a theorem needs more of them (identifiers unused, a store that returns what was written and
  leaves other names alone, float texts without line breaks, a counter that accepts amounts that are not
  negative) it says so. A write to the store may fail: the export then answers 500 and
  records nothing. A weighted score (\<open>weighted_score\<close> of the service, \<open>weighted\<close> of the simulator) and the
  distances the demonstration compares are rounded as binary64 rounds (\<open>Floats\<close>); spreads, means, rates, thresholds
  and weights are exact rationals, without infinities and NaN, so their rounding is not modelled. Times are
  microseconds; a transaction is atomic, and concurrent ones appear through the rows they hold locked. The
  operations of the service are total, by structural recursion, and need no fuel. The two \<open>while True\<close> loops of the
  demonstration that ask for batches are a partial function (\<open>repeating\<close>), proved to return; the loop of a thread is
  run step by step by a schedule, and a schedule that ends before the threads do gives no result.

  Not modelled. Start-up, the connection pool and the rendering of metrics (\<open>main.py\<close>, \<open>db.py\<close>); \<open>logging.py\<close>, which only
  configures the logging library; \<open>alembic/env.py\<close> but for the objects it leaves out, since it hands connections to the
  migration library; the histogram of latencies; parsing of HTTP and of arguments; the web front end. Of the
  simulator: waiting for the in-process server, the bucket, measured times, and the text and files of the reports \<open>demo.py\<close>
  and \<open>bench.py\<close> print and write, beyond the numbers they are made of.
\<close>

end
